(* ===== verification/Prelude.thy ===== *)
theory Prelude
  imports Main "HOL-Library.List_Lexorder" "HOL-Library.Char_ord"
begin

text \<open>
  Shared vocabulary of the BuzzRouter development: the string operations the
  TypeScript sources use, the errors they throw, database transactions as
  functions on the database state, and the generic lemmas on tables (lists of
  rows) that every component theory rests on.

  JavaScript strings are sequences of UTF-16 code units.  The model keeps the
  code units below 256: a \<open>char\<close> is the code unit of that number (Latin-1), so
  \<open>length\<close> counts code units as \<open>String.length\<close> does, and the UTF-8 length of a
  unit at or above 128 is two bytes.
\<close>

section \<open>JavaScript strings\<close>

definition js_space :: "char \<Rightarrow> bool" where
  "js_space c \<longleftrightarrow> of_char c \<in> {9, 10, 11, 12, 13, 32, 160 :: nat}"

definition js_lower_char :: "char \<Rightarrow> char" where
  "js_lower_char c =
     (let n = (of_char c :: nat) in
      if (65 \<le> n \<and> n \<le> 90) \<or> (192 \<le> n \<and> n \<le> 222 \<and> n \<noteq> 215)
      then char_of (n + 32) else c)"

definition to_lower :: "string \<Rightarrow> string" where
  "to_lower s = map js_lower_char s"

definition trim_start :: "string \<Rightarrow> string" where
  "trim_start s = dropWhile js_space s"

definition trim_end :: "string \<Rightarrow> string" where
  "trim_end s = rev (dropWhile js_space (rev s))"

definition trim :: "string \<Rightarrow> string" where
  "trim s = trim_end (trim_start s)"

fun utf8_length :: "string \<Rightarrow> nat" where
  "utf8_length [] = 0"
| "utf8_length (c # cs) = (if (of_char c :: nat) < 128 then 1 else 2) + utf8_length cs"

definition is_digit :: "char \<Rightarrow> bool" where
  "is_digit c \<longleftrightarrow> CHR ''0'' \<le> c \<and> c \<le> CHR ''9''"

definition is_lower :: "char \<Rightarrow> bool" where
  "is_lower c \<longleftrightarrow> CHR ''a'' \<le> c \<and> c \<le> CHR ''z''"

definition is_upper :: "char \<Rightarrow> bool" where
  "is_upper c \<longleftrightarrow> CHR ''A'' \<le> c \<and> c \<le> CHR ''Z''"

definition is_hex :: "char \<Rightarrow> bool" where
  "is_hex c \<longleftrightarrow> is_digit c \<or> (CHR ''a'' \<le> c \<and> c \<le> CHR ''f'')"

definition is_hex_i :: "char \<Rightarrow> bool" where
  "is_hex_i c \<longleftrightarrow> is_hex c \<or> (CHR ''A'' \<le> c \<and> c \<le> CHR ''F'')"

text \<open>Decimal rendering of a number, as a template literal prints it.\<close>

fun show_nat :: "nat \<Rightarrow> string" where
  "show_nat n = (if n < 10 then [char_of (48 + n)]
                 else show_nat (n div 10) @ [char_of (48 + n mod 10)])"

declare show_nat.simps [simp del]

lemma trim_end_prefix: "\<exists>ws. s = trim_end s @ ws"
proof -
  have "rev s = takeWhile js_space (rev s) @ dropWhile js_space (rev s)" by simp
  then have "s = rev (dropWhile js_space (rev s)) @ rev (takeWhile js_space (rev s))"
    by (metis rev_append rev_rev_ident)
  then show ?thesis unfolding trim_end_def by blast
qed

lemma length_trim: "length (trim s) \<le> length s"
  unfolding trim_def trim_end_def trim_start_def
  by (metis length_dropWhile_le length_rev order_trans)

lemma utf8_length_ge: "length s \<le> utf8_length s"
  by (induction s) auto

lemma utf8_length_le: "utf8_length s \<le> 2 * length s"
  by (induction s) auto

lemma utf8_length_append [simp]: "utf8_length (s @ t) = utf8_length s + utf8_length t"
  by (induction s) auto

lemma js_lower_char_space: "js_space (js_lower_char c) \<longleftrightarrow> js_space c"
proof (cases "(65 \<le> (of_char c :: nat) \<and> (of_char c :: nat) \<le> 90) \<or>
    (192 \<le> (of_char c :: nat) \<and> (of_char c :: nat) \<le> 222 \<and> (of_char c :: nat) \<noteq> 215)")
  case True
  then have "of_char (js_lower_char c) = (of_char c + 32 :: nat)"
    by (auto simp: js_lower_char_def Let_def)
  with True show ?thesis by (auto simp: js_space_def)
next
  case False
  then have "js_lower_char c = c" by (auto simp: js_lower_char_def Let_def)
  then show ?thesis by simp
qed

lemma length_to_lower [simp]: "length (to_lower s) = length s"
  by (simp add: to_lower_def)

section \<open>Errors and transactions\<close>

text \<open>
  \<open>Api code status\<close> is an \<open>ApiError\<close> (src/http/api-error.ts); \<open>Pg code\<close> is an
  error raised by PostgreSQL itself, with its SQLSTATE (23505: unique
  violation, 23503: foreign-key violation, 23514: check violation); \<open>Raw\<close> is any
  other thrown value.
\<close>

datatype err = Api string nat | Pg string | Raw

type_synonym 'a res = "err + 'a"

text \<open>A transaction body: it may read and replace the state, or throw.\<close>

type_synonym ('s, 'a) tx = "'s \<Rightarrow> err + ('a \<times> 's)"

definition tx_return :: "'a \<Rightarrow> ('s, 'a) tx" where
  "tx_return a = (\<lambda>s. Inr (a, s))"

definition tx_throw :: "err \<Rightarrow> ('s, 'a) tx" where
  "tx_throw e = (\<lambda>s. Inl e)"

definition tx_bind :: "('s, 'a) tx \<Rightarrow> ('a \<Rightarrow> ('s, 'b) tx) \<Rightarrow> ('s, 'b) tx" where
  "tx_bind m f = (\<lambda>s. case m s of Inl e \<Rightarrow> Inl e | Inr (a, s') \<Rightarrow> f a s')"

definition tx_read :: "('s \<Rightarrow> 'a) \<Rightarrow> ('s, 'a) tx" where
  "tx_read f = (\<lambda>s. Inr (f s, s))"

definition tx_write :: "('s \<Rightarrow> 's) \<Rightarrow> ('s, unit) tx" where
  "tx_write f = (\<lambda>s. Inr ((), f s))"

definition tx_check :: "('s \<Rightarrow> bool) \<Rightarrow> err \<Rightarrow> ('s, unit) tx" where
  "tx_check P e = (\<lambda>s. if P s then Inr ((), s) else Inl e)"

text \<open>The first row of a result, or an error when there is none (\<open>if (!row) throw ...\<close>).\<close>

definition tx_row :: "('s \<Rightarrow> 'a option) \<Rightarrow> err \<Rightarrow> ('s, 'a) tx" where
  "tx_row f e = (\<lambda>s. case f s of None \<Rightarrow> Inl e | Some a \<Rightarrow> Inr (a, s))"

lemmas tx_defs = tx_return_def tx_throw_def tx_bind_def tx_read_def tx_write_def
  tx_check_def tx_row_def

text \<open>Inversion of a body that returned.\<close>

lemma tx_bind_Inr:
  "tx_bind m f s = Inr r \<longleftrightarrow> (\<exists>a s'. m s = Inr (a, s') \<and> f a s' = Inr r)"
  by (cases "m s") (auto simp: tx_bind_def)

lemma tx_read_Inr: "tx_read f s = Inr (a, s') \<longleftrightarrow> a = f s \<and> s' = s"
  by (auto simp: tx_read_def)

lemma tx_write_Inr: "tx_write f s = Inr (a, s') \<longleftrightarrow> s' = f s"
  by (auto simp: tx_write_def)

lemma tx_check_Inr: "tx_check P e s = Inr (a, s') \<longleftrightarrow> P s \<and> s' = s"
  by (auto simp: tx_check_def)

lemma tx_row_Inr: "tx_row f e s = Inr (a, s') \<longleftrightarrow> f s = Some a \<and> s' = s"
  by (auto simp: tx_row_def split: option.splits)

lemma tx_return_Inr: "tx_return a s = Inr (b, s') \<longleftrightarrow> b = a \<and> s' = s"
  by (auto simp: tx_return_def)

lemma tx_throw_Inr: "\<not> (tx_throw e s = Inr r)"
  by (simp add: tx_throw_def)

lemma tx_if_throw_Inr: "(if b then tx_throw e else m) s = Inr r \<longleftrightarrow> \<not> b \<and> m s = Inr r"
  by (simp add: tx_throw_def)

lemmas tx_inversion = tx_if_throw_Inr tx_bind_Inr tx_read_Inr tx_write_Inr tx_check_Inr tx_row_Inr
  tx_return_Inr tx_throw_Inr

text \<open>A body that keeps a predicate of the state whenever it commits.\<close>

definition keeps :: "('s \<Rightarrow> bool) \<Rightarrow> ('s, 'a) tx \<Rightarrow> bool" where
  "keeps I m \<longleftrightarrow> (\<forall>s a s'. I s \<longrightarrow> m s = Inr (a, s') \<longrightarrow> I s')"

text \<open>A body that never changes the state.\<close>

definition reads_only :: "('s, 'a) tx \<Rightarrow> bool" where
  "reads_only m \<longleftrightarrow> (\<forall>s a s'. m s = Inr (a, s') \<longrightarrow> s' = s)"

named_theorems keeps_intros \<open>rules that a transaction body keeps an invariant\<close>

lemma keepsI: "(\<And>s a s'. I s \<Longrightarrow> m s = Inr (a, s') \<Longrightarrow> I s') \<Longrightarrow> keeps I m"
  by (auto simp: keeps_def)

lemma keepsD: "keeps I m \<Longrightarrow> I s \<Longrightarrow> m s = Inr (a, s') \<Longrightarrow> I s'"
  by (auto simp: keeps_def)

lemma keeps_return [keeps_intros]: "keeps I (tx_return a)"
  by (simp add: keeps_def tx_return_def)

lemma keeps_throw [keeps_intros]: "keeps I (tx_throw e)"
  by (simp add: keeps_def tx_throw_def)

lemma keeps_bind [keeps_intros]:
  "keeps I m \<Longrightarrow> (\<And>a. keeps I (f a)) \<Longrightarrow> keeps I (tx_bind m f)"
  unfolding keeps_def tx_bind_Inr by blast

lemma keeps_read [keeps_intros]: "keeps I (tx_read f)"
  by (simp add: keeps_def tx_read_def)

lemma keeps_check [keeps_intros]: "keeps I (tx_check P e)"
  by (simp add: keeps_def tx_check_def)

lemma keeps_row [keeps_intros]: "keeps I (tx_row f e)"
  by (auto simp: keeps_def tx_row_def split: option.splits)

lemma keeps_write: "(\<And>s. I s \<Longrightarrow> I (f s)) \<Longrightarrow> keeps I (tx_write f)"
  by (simp add: keeps_def tx_write_def)

lemma keeps_if [keeps_intros]:
  "keeps I m \<Longrightarrow> keeps I n \<Longrightarrow> keeps I (if b then m else n)"
  by simp

lemma keeps_option [keeps_intros]:
  "keeps I m \<Longrightarrow> (\<And>a. keeps I (f a)) \<Longrightarrow> keeps I (case x of None \<Rightarrow> m | Some a \<Rightarrow> f a)"
  by (cases x) auto

section \<open>Tables\<close>

text \<open>
  A table is the list of its rows.  \<open>update_where\<close> is \<open>UPDATE ... SET f WHERE P\<close>,
  \<open>find P\<close> the first row of a \<open>SELECT ... WHERE P\<close>.
\<close>

definition update_where :: "('r \<Rightarrow> bool) \<Rightarrow> ('r \<Rightarrow> 'r) \<Rightarrow> 'r list \<Rightarrow> 'r list" where
  "update_where P f rs = map (\<lambda>r. if P r then f r else r) rs"

definition has_row :: "('r \<Rightarrow> bool) \<Rightarrow> 'r list \<Rightarrow> bool" where
  "has_row P rs \<longleftrightarrow> list_ex P rs"

lemma update_where_Nil [simp]: "update_where P f [] = []"
  by (simp add: update_where_def)

lemma update_where_Cons [simp]:
  "update_where P f (r # rs) = (if P r then f r else r) # update_where P f rs"
  by (simp add: update_where_def)

lemma length_update_where [simp]: "length (update_where P f rs) = length rs"
  by (simp add: update_where_def)

lemma set_update_where: "set (update_where P f rs) = (\<lambda>r. if P r then f r else r) ` set rs"
  by (simp add: update_where_def)

lemma map_update_where [simp]:
  "(\<And>r. k (f r) = k r) \<Longrightarrow> map k (update_where P f rs) = map k rs"
  by (simp add: update_where_def)

lemma update_where_id: "(\<And>r. r \<in> set rs \<Longrightarrow> \<not> P r) \<Longrightarrow> update_where P f rs = rs"
  unfolding update_where_def by (rule map_idI) simp

lemma has_row_iff: "has_row P rs \<longleftrightarrow> (\<exists>r \<in> set rs. P r)"
  by (simp add: has_row_def list_ex_iff)

lemma has_row_Nil [simp]: "\<not> has_row P []"
  by (simp add: has_row_def)

lemma has_row_Cons [simp]: "has_row P (r # rs) \<longleftrightarrow> P r \<or> has_row P rs"
  by (simp add: has_row_def)

lemma has_row_append [simp]: "has_row P (rs @ ss) \<longleftrightarrow> has_row P rs \<or> has_row P ss"
  by (simp add: has_row_def)

lemma find_Some_set: "find P rs = Some r \<Longrightarrow> r \<in> set rs \<and> P r"
  by (induction rs) (auto split: if_splits)

lemma find_None_set: "find P rs = None \<longleftrightarrow> (\<forall>r \<in> set rs. \<not> P r)"
  by (induction rs) auto

lemma find_ex: "r \<in> set rs \<Longrightarrow> P r \<Longrightarrow> \<exists>r'. find P rs = Some r'"
  by (metis find_None_set not_None_eq)

text \<open>A row is determined by a key that is distinct in its table.\<close>

lemma distinct_key_unique:
  "distinct (map k rs) \<Longrightarrow> r \<in> set rs \<Longrightarrow> r' \<in> set rs \<Longrightarrow> k r = k r' \<Longrightarrow> r = r'"
  by (auto simp: distinct_map inj_on_def)

lemma find_unique_key:
  assumes "distinct (map k rs)" "r \<in> set rs"
  shows "find (\<lambda>x. k x = k r) rs = Some r"
proof -
  obtain r' where r': "find (\<lambda>x. k x = k r) rs = Some r'"
    using assms(2) find_ex [of r rs "\<lambda>x. k x = k r"] by blast
  then have "r' \<in> set rs" "k r' = k r" by (auto dest: find_Some_set)
  with assms have "r' = r" by (blast intro: distinct_key_unique)
  with r' show ?thesis by simp
qed

lemma distinct_map_filter_key: "distinct (map k rs) \<Longrightarrow> distinct (map k (filter P rs))"
  by (induction rs) auto

text \<open>Keys that are unique among the rows a partial index covers.\<close>

definition unique_where :: "('r \<Rightarrow> bool) \<Rightarrow> ('r \<Rightarrow> 'k) \<Rightarrow> 'r list \<Rightarrow> bool" where
  "unique_where P k rs \<longleftrightarrow> distinct (map k (filter P rs))"

lemma unique_where_Nil [simp]: "unique_where P k []"
  by (simp add: unique_where_def)

lemma unique_where_append1:
  "unique_where P k rs \<Longrightarrow> (P r \<Longrightarrow> \<not> has_row (\<lambda>x. P x \<and> k x = k r) rs) \<Longrightarrow>
   unique_where P k (rs @ [r])"
  by (auto simp: unique_where_def has_row_iff)

lemma unique_where_update:
  assumes "unique_where P k rs"
    and "\<And>r. Q r \<Longrightarrow> P (f r) \<Longrightarrow> P r \<and> k (f r) = k r"
  shows "unique_where P k (update_where Q f rs)"
  using assms(1)
proof (induction rs)
  case Nil
  then show ?case by simp
next
  case (Cons r rs)
  have sub: "k ` (set (update_where Q f rs) \<inter> Collect P) \<subseteq> k ` (set rs \<inter> Collect P)"
    using assms(2) by (force simp: set_update_where split: if_splits)
  from Cons have "unique_where P k (update_where Q f rs)"
    by (auto simp: unique_where_def split: if_splits)
  with Cons.prems sub assms(2) [of r] show ?case
    by (auto simp: unique_where_def split: if_splits)
qed

lemma unique_where_unique:
  "unique_where P k rs \<Longrightarrow> r \<in> set rs \<Longrightarrow> r' \<in> set rs \<Longrightarrow> P r \<Longrightarrow> P r' \<Longrightarrow> k r = k r' \<Longrightarrow> r = r'"
  unfolding unique_where_def by (rule distinct_key_unique [where k = k and rs = "filter P rs"]) auto

text \<open>ORDER BY k LIMIT 1.\<close>

definition first_by :: "('r \<Rightarrow> 'k::linorder) \<Rightarrow> 'r list \<Rightarrow> 'r option" where
  "first_by k rs = (case sort_key k rs of [] \<Rightarrow> None | r # _ \<Rightarrow> Some r)"

lemma first_by_Some: "first_by k rs = Some r \<Longrightarrow> r \<in> set rs"
  unfolding first_by_def by (metis list.case_eq_if list.set_sel(1) option.sel option.simps(3) set_sort)

lemma first_by_None: "first_by k rs = None \<longleftrightarrow> rs = []"
  unfolding first_by_def by (metis (no_types, lifting) length_0_conv length_sort list.case_eq_if option.simps(3))

text \<open>A JavaScript \<open>Set\<close> built from a list: first occurrences, in order.\<close>

definition js_set :: "'a list \<Rightarrow> 'a list" where
  "js_set xs = rev (remdups (rev xs))"

lemma set_js_set [simp]: "set (js_set xs) = set xs"
  by (simp add: js_set_def)

lemma distinct_js_set [simp]: "distinct (js_set xs)"
  by (simp add: js_set_def)

end
