(* ===== verification/Database.thy ===== *)
theory Database
  imports Prelude
begin

text \<open>
  The tables that src/shared-channels/store.ts and channel-handoff.ts read and
  write, as records and lists of rows, with the constraints the migrations put
  on them (migrations/0001, 0003, 0010 and the hub migrations of 2026).  Ids
  are the canonical text of a \<open>uuid\<close>; a time is a number of microseconds, the
  resolution of \<open>timestamptz\<close>.  Columns no query reads are left out.
  \<open>schema_ok\<close> collects the keys, partial unique indexes and checks; each INSERT
  below checks them as PostgreSQL does, and each is proved to keep \<open>schema_ok\<close>.
\<close>

type_synonym uuid = string
type_synonym time = int

definition epoch_seconds :: "time \<Rightarrow> int" where
  "epoch_seconds t = t div 1000000"

definition seconds :: "int \<Rightarrow> time" where
  "seconds n = n * 1000000"

section \<open>Rows\<close>

record nostr_event =
  ev_id :: string
  ev_pubkey :: string
  ev_created_at :: int
  ev_kind :: nat
  ev_tags :: "string list list"
  ev_content :: string

datatype candidate_state =
  Discovered | Probing | Verified_buzz | Probable_buzz | Rejected | Suppressed

record candidate =
  cand_id :: uuid
  cand_relay_url :: string
  cand_host :: string
  cand_state :: candidate_state

record community =
  com_id :: uuid
  com_candidate :: uuid
  com_slug :: "string option"
  com_owner :: "string option"
  com_display_name :: "string option"

datatype connection_state = Installing | Active | Revoked | Failed

datatype health =
  Pending | Healthy | Degraded | Unauthorized | Unreachable | Credential_error

record encrypted_key =
  key_auth_tag :: "nat list"
  key_ciphertext :: "nat list"
  key_nonce :: "nat list"

record connection =
  conn_id :: uuid
  conn_community :: uuid
  conn_relay_url :: string
  conn_bridge_pubkey :: string
  conn_key :: encrypted_key
  conn_key_version :: int
  conn_state :: connection_state
  conn_health :: health
  conn_health_error :: "string option"
  conn_health_at :: "time option"
  conn_activated_at :: "time option"
  conn_revoked_at :: "time option"

datatype token_state = Token_pending | Token_consumed | Token_expired | Token_failed

record token =
  tok_id :: uuid
  tok_community :: uuid
  tok_hash :: string
  tok_owner :: string
  tok_bridge_pubkey :: string
  tok_state :: token_state
  tok_attempts :: nat
  tok_expires_at :: time
  tok_consumed_at :: "time option"
  tok_receipt :: "string option"

datatype channel_state = Channel_active | Channel_disconnected
datatype channel_mode = Mode_hub | Mode_bilateral

record channel =
  ch_id :: uuid
  ch_state :: channel_state
  ch_mode :: channel_mode

datatype endpoint_state = Endpoint_active | Endpoint_paused | Endpoint_disconnected
datatype filter_mode = Everyone_except | Only_these

record endpoint =
  ep_id :: uuid
  ep_channel :: uuid
  ep_community :: uuid
  ep_connection :: "uuid option"
  ep_state :: endpoint_state
  ep_relay_url :: "string option"
  ep_local_channel :: "string option"
  ep_local_name :: "string option"
  ep_cursor :: "int option"
  ep_sends :: bool
  ep_receives :: bool
  ep_filter_mode :: filter_mode
  ep_filter_list :: "uuid list"
  ep_dedicated_to :: "uuid option"
  ep_created_at :: time

record message =
  msg_id :: uuid
  msg_channel :: uuid
  msg_source :: uuid
  msg_event_id :: string
  msg_actor :: string
  msg_actor_name :: "string option"
  msg_created_at :: int
  msg_signed_event :: "nostr_event option"
  msg_parent_event :: "string option"
  msg_parent_message :: "uuid option"
  msg_body :: "string option"
  msg_sha256 :: string

datatype delivery_state =
  Queued | Delivering | Retry | Delivered_to_relay | Delivery_failed | Cancelled

record delivery =
  dl_id :: uuid
  dl_message :: uuid
  dl_destination :: uuid
  dl_event :: "nostr_event option"
  dl_event_id :: "string option"
  dl_state :: delivery_state
  dl_attempts :: nat
  dl_next_attempt :: time
  dl_delivered_at :: "time option"
  dl_error :: "string option"
  dl_updated_at :: time

record mapping =
  map_channel :: uuid
  map_endpoint :: uuid
  map_message :: uuid
  map_local_event :: string
  map_local_parent :: "string option"

datatype undeliverable_reason = Unknown_destination | Unknown_user
datatype command_verb = Verb_open | Verb_close | Verb_list | Verb_usage

record db =
  candidates :: "candidate list"
  communities :: "community list"
  connections :: "connection list"
  tokens :: "token list"
  channels :: "channel list"
  endpoints :: "endpoint list"
  messages :: "message list"
  deliveries :: "delivery list"
  mappings :: "mapping list"
  notices :: "((uuid \<times> string) \<times> undeliverable_reason) list"
  receipts :: "((uuid \<times> string) \<times> command_verb) list"
  hints :: "(uuid \<times> uuid) list"
  jobs :: "(string \<times> uuid) list"

section \<open>Lookups by primary key (the JOINs of the queries)\<close>

definition candidate_of :: "db \<Rightarrow> community \<Rightarrow> candidate option" where
  "candidate_of d c = find (\<lambda>k. cand_id k = com_candidate c) (candidates d)"

definition community_by_id :: "db \<Rightarrow> uuid \<Rightarrow> community option" where
  "community_by_id d i = find (\<lambda>c. com_id c = i) (communities d)"

definition channel_by_id :: "db \<Rightarrow> uuid \<Rightarrow> channel option" where
  "channel_by_id d i = find (\<lambda>c. ch_id c = i) (channels d)"

definition endpoint_by_id :: "db \<Rightarrow> uuid \<Rightarrow> endpoint option" where
  "endpoint_by_id d i = find (\<lambda>e. ep_id e = i) (endpoints d)"

definition message_by_id :: "db \<Rightarrow> uuid \<Rightarrow> message option" where
  "message_by_id d i = find (\<lambda>m. msg_id m = i) (messages d)"

definition delivery_by_id :: "db \<Rightarrow> uuid \<Rightarrow> delivery option" where
  "delivery_by_id d i = find (\<lambda>x. dl_id x = i) (deliveries d)"

definition verified_community :: "db \<Rightarrow> community \<Rightarrow> bool" where
  "verified_community d c \<longleftrightarrow>
     (case candidate_of d c of None \<Rightarrow> False | Some k \<Rightarrow> cand_state k = Verified_buzz)"

section \<open>Constraints\<close>

definition nonempty_upto :: "nat \<Rightarrow> string \<Rightarrow> bool" where
  "nonempty_upto n s \<longleftrightarrow> 1 \<le> length s \<and> length s \<le> n"

text \<open>\<open>communities_slug\<close>: \<open>^[a-z0-9][a-z0-9-]{1,48}[a-z0-9]$\<close>.\<close>

definition slug_char :: "char \<Rightarrow> bool" where
  "slug_char c \<longleftrightarrow> is_lower c \<or> is_digit c \<or> c = CHR ''-''"

definition slug_check :: "string \<Rightarrow> bool" where
  "slug_check s \<longleftrightarrow> 3 \<le> length s \<and> length s \<le> 50 \<and> list_all slug_char s \<and>
     hd s \<noteq> CHR ''-'' \<and> last s \<noteq> CHR ''-''"

definition live :: "endpoint \<Rightarrow> bool" where
  "live e \<longleftrightarrow> ep_state e = Endpoint_active \<or> ep_state e = Endpoint_paused"

definition endpoint_check :: "endpoint \<Rightarrow> bool" where
  "endpoint_check e \<longleftrightarrow>
     ep_state e = Endpoint_active \<and> ep_connection e \<noteq> None \<and> ep_relay_url e \<noteq> None \<and>
     (case ep_local_channel e of None \<Rightarrow> False | Some s \<Rightarrow> nonempty_upto 200 s) \<and>
     (case ep_local_name e of None \<Rightarrow> False | Some s \<Rightarrow> nonempty_upto 80 s) \<and>
     (case ep_cursor e of None \<Rightarrow> True | Some n \<Rightarrow> 0 \<le> n) \<and>
     ep_dedicated_to e \<noteq> Some (ep_community e)"

definition is_hex_string :: "nat \<Rightarrow> string \<Rightarrow> bool" where
  "is_hex_string n v \<longleftrightarrow> length v = n \<and> v \<noteq> [] \<and> list_all is_hex v"

definition hex_or_null :: "string option \<Rightarrow> bool" where
  "hex_or_null x \<longleftrightarrow> (case x of None \<Rightarrow> True | Some v \<Rightarrow> is_hex_string 64 v)"

definition message_check :: "message \<Rightarrow> bool" where
  "message_check m \<longleftrightarrow> 0 \<le> msg_created_at m \<and> is_hex_string 64 (msg_event_id m) \<and>
     is_hex_string 64 (msg_actor m) \<and> is_hex_string 64 (msg_sha256 m) \<and>
     hex_or_null (msg_parent_event m) \<and>
     (case msg_body m of None \<Rightarrow> True | Some b \<Rightarrow> 1 \<le> utf8_length b \<and> utf8_length b \<le> 16384) \<and>
     (case msg_actor_name m of None \<Rightarrow> True | Some n \<Rightarrow> nonempty_upto 80 n)"

definition connection_check :: "connection \<Rightarrow> bool" where
  "connection_check c \<longleftrightarrow> 0 < conn_key_version c \<and>
     length (key_nonce (conn_key c)) = 12 \<and> length (key_auth_tag (conn_key c)) = 16 \<and>
     (conn_state c = Revoked \<longleftrightarrow> conn_revoked_at c \<noteq> None) \<and>
     (case conn_health_error c of None \<Rightarrow> True | Some s \<Rightarrow> length s \<le> 500)"

definition token_check :: "token \<Rightarrow> bool" where
  "token_check t \<longleftrightarrow> tok_attempts t \<le> 10 \<and>
     (tok_state t = Token_consumed \<longleftrightarrow> tok_consumed_at t \<noteq> None)"

definition delivery_check :: "delivery \<Rightarrow> bool" where
  "delivery_check x \<longleftrightarrow> hex_or_null (dl_event_id x) \<and> (case dl_error x of None \<Rightarrow> True | Some s \<Rightarrow> length s \<le> 80)"

definition mapping_check :: "mapping \<Rightarrow> bool" where
  "mapping_check m \<longleftrightarrow> is_hex_string 64 (map_local_event m) \<and> hex_or_null (map_local_parent m)"

definition ep_local_key :: "endpoint \<Rightarrow> uuid \<times> string option" where
  "ep_local_key e = (ep_community e, ep_local_channel e)"

definition ep_peer_key :: "endpoint \<Rightarrow> uuid \<times> uuid \<times> uuid option" where
  "ep_peer_key e = (ep_channel e, ep_community e, ep_dedicated_to e)"

definition candidates_ok :: "candidate list \<Rightarrow> bool" where
  "candidates_ok rs \<longleftrightarrow> distinct (map cand_id rs)"

definition communities_ok :: "community list \<Rightarrow> bool" where
  "communities_ok rs \<longleftrightarrow> distinct (map com_id rs) \<and> distinct (map com_candidate rs) \<and>
     unique_where (\<lambda>c. com_slug c \<noteq> None) com_slug rs \<and>
     list_all (\<lambda>c. case com_slug c of None \<Rightarrow> True | Some s \<Rightarrow> slug_check s) rs"

definition connections_ok :: "connection list \<Rightarrow> bool" where
  "connections_ok rs \<longleftrightarrow> distinct (map conn_id rs) \<and> distinct (map conn_community rs) \<and>
     list_all connection_check rs"

definition tokens_ok :: "token list \<Rightarrow> bool" where
  "tokens_ok rs \<longleftrightarrow> distinct (map tok_id rs) \<and> distinct (map tok_hash rs) \<and>
     unique_where (\<lambda>t. tok_state t = Token_pending) tok_community rs \<and>
     list_all token_check rs"

definition channels_ok :: "channel list \<Rightarrow> bool" where
  "channels_ok rs \<longleftrightarrow> distinct (map ch_id rs) \<and>
     unique_where (\<lambda>c. ch_mode c = Mode_hub) ch_mode rs"

definition endpoints_ok :: "endpoint list \<Rightarrow> bool" where
  "endpoints_ok rs \<longleftrightarrow> distinct (map ep_id rs) \<and> unique_where live ep_local_key rs \<and>
     distinct (map ep_peer_key rs) \<and> list_all endpoint_check rs"

definition msg_key :: "message \<Rightarrow> uuid \<times> uuid \<times> string" where
  "msg_key m = (msg_channel m, msg_source m, msg_event_id m)"

definition messages_ok :: "message list \<Rightarrow> bool" where
  "messages_ok rs \<longleftrightarrow> distinct (map msg_id rs) \<and> distinct (map msg_key rs) \<and>
     list_all message_check rs"

definition dl_key :: "delivery \<Rightarrow> uuid \<times> uuid" where
  "dl_key x = (dl_destination x, dl_message x)"

definition deliveries_ok :: "delivery list \<Rightarrow> bool" where
  "deliveries_ok rs \<longleftrightarrow> distinct (map dl_id rs) \<and> distinct (map dl_key rs) \<and>
     list_all delivery_check rs"

definition map_message_key :: "mapping \<Rightarrow> uuid \<times> uuid" where
  "map_message_key m = (map_endpoint m, map_message m)"

definition map_event_key :: "mapping \<Rightarrow> uuid \<times> string" where
  "map_event_key m = (map_endpoint m, map_local_event m)"

definition mappings_ok :: "mapping list \<Rightarrow> bool" where
  "mappings_ok rs \<longleftrightarrow> list_all mapping_check rs \<and> distinct (map map_message_key rs) \<and>
     distinct (map map_event_key rs)"

definition claims_ok :: "db \<Rightarrow> bool" where
  "claims_ok d \<longleftrightarrow> distinct (map fst (notices d)) \<and> distinct (map fst (receipts d)) \<and>
     distinct (hints d)"

definition schema_ok :: "db \<Rightarrow> bool" where
  "schema_ok d \<longleftrightarrow> candidates_ok (candidates d) \<and> communities_ok (communities d) \<and>
     connections_ok (connections d) \<and> tokens_ok (tokens d) \<and> channels_ok (channels d) \<and>
     endpoints_ok (endpoints d) \<and> messages_ok (messages d) \<and> deliveries_ok (deliveries d) \<and>
     mappings_ok (mappings d) \<and> claims_ok d"

lemmas table_ok_defs = candidates_ok_def communities_ok_def connections_ok_def tokens_ok_def
  channels_ok_def endpoints_ok_def messages_ok_def deliveries_ok_def mappings_ok_def
  claims_ok_def

definition empty_db :: db where
  "empty_db = \<lparr>candidates = [], communities = [], connections = [], tokens = [],
     channels = [], endpoints = [], messages = [], deliveries = [], mappings = [],
     notices = [], receipts = [], hints = [], jobs = []\<rparr>"

lemma schema_ok_empty: "schema_ok empty_db"
  by (simp add: schema_ok_def table_ok_defs empty_db_def)

text \<open>
  Foreign keys are not among these: the operations insert references they have
  just read under a row lock.
\<close>

section \<open>Inserts\<close>

definition endpoint_conflict :: "endpoint \<Rightarrow> db \<Rightarrow> bool" where
  "endpoint_conflict r d \<longleftrightarrow>
     has_row (\<lambda>x. ep_id x = ep_id r) (endpoints d) \<or>
     (live r \<and> has_row (\<lambda>x. live x \<and> ep_local_key x = ep_local_key r) (endpoints d)) \<or>
     has_row (\<lambda>x. ep_peer_key x = ep_peer_key r) (endpoints d)"

definition insert_endpoint :: "endpoint \<Rightarrow> (db, unit) tx" where
  "insert_endpoint r =
     tx_bind (tx_check (\<lambda>d. endpoint_check r) (Pg ''23514'')) (\<lambda>_.
     tx_bind (tx_check (\<lambda>d. \<not> endpoint_conflict r d) (Pg ''23505'')) (\<lambda>_.
     tx_write (\<lambda>d. d\<lparr>endpoints := endpoints d @ [r]\<rparr>)))"

definition insert_channel :: "channel \<Rightarrow> (db, unit) tx" where
  "insert_channel c =
     tx_bind (tx_check (\<lambda>d. \<not> has_row (\<lambda>x. ch_id x = ch_id c) (channels d) \<and>
        \<not> (ch_mode c = Mode_hub \<and> has_row (\<lambda>x. ch_mode x = Mode_hub) (channels d)))
        (Pg ''23505'')) (\<lambda>_.
     tx_write (\<lambda>d. d\<lparr>channels := channels d @ [c]\<rparr>))"

definition insert_delivery :: "delivery \<Rightarrow> (db, unit) tx" where
  "insert_delivery x =
     tx_bind (tx_check (\<lambda>d. delivery_check x) (Pg ''23514'')) (\<lambda>_.
     tx_bind (tx_check (\<lambda>d. \<not> has_row (\<lambda>y. dl_id y = dl_id x \<or> dl_key y = dl_key x)
        (deliveries d)) (Pg ''23505'')) (\<lambda>_.
     tx_write (\<lambda>d. d\<lparr>deliveries := deliveries d @ [x]\<rparr>)))"

definition insert_mapping :: "mapping \<Rightarrow> (db, unit) tx" where
  "insert_mapping m =
     tx_bind (tx_check (\<lambda>d. mapping_check m) (Pg ''23514'')) (\<lambda>_.
     tx_bind (tx_check (\<lambda>d. \<not> has_row (\<lambda>x. map_message_key x = map_message_key m \<or>
        map_event_key x = map_event_key m) (mappings d)) (Pg ''23505'')) (\<lambda>_.
     tx_write (\<lambda>d. d\<lparr>mappings := mappings d @ [m]\<rparr>)))"

lemma schema_ok_tables:
  assumes "schema_ok d"
  shows "candidates_ok (candidates d)" "communities_ok (communities d)"
    "connections_ok (connections d)" "tokens_ok (tokens d)" "channels_ok (channels d)"
    "endpoints_ok (endpoints d)" "messages_ok (messages d)" "deliveries_ok (deliveries d)"
    "mappings_ok (mappings d)" "claims_ok d"
  using assms by (simp_all add: schema_ok_def)

text \<open>Replacing one table keeps the schema when the new table is well formed.\<close>

lemma schema_ok_update:
  assumes "schema_ok d"
  shows "communities_ok cs \<Longrightarrow> schema_ok (d\<lparr>communities := cs\<rparr>)"
    "connections_ok ns \<Longrightarrow> schema_ok (d\<lparr>connections := ns\<rparr>)"
    "tokens_ok ts \<Longrightarrow> schema_ok (d\<lparr>tokens := ts\<rparr>)"
    "channels_ok hs \<Longrightarrow> schema_ok (d\<lparr>channels := hs\<rparr>)"
    "endpoints_ok es \<Longrightarrow> schema_ok (d\<lparr>endpoints := es\<rparr>)"
    "messages_ok ms \<Longrightarrow> schema_ok (d\<lparr>messages := ms\<rparr>)"
    "deliveries_ok xs \<Longrightarrow> schema_ok (d\<lparr>deliveries := xs\<rparr>)"
    "mappings_ok ps \<Longrightarrow> schema_ok (d\<lparr>mappings := ps\<rparr>)"
    "schema_ok (d\<lparr>jobs := js\<rparr>)"
  using assms by (simp_all add: schema_ok_def claims_ok_def)

lemma distinct_map_append1:
  "distinct (map k rs) \<Longrightarrow> \<not> has_row (\<lambda>x. k x = k r) rs \<Longrightarrow> distinct (map k (rs @ [r]))"
  by (auto simp: has_row_iff)

lemma has_row_or: "has_row (\<lambda>x. P x \<or> Q x) rs \<longleftrightarrow> has_row P rs \<or> has_row Q rs"
  by (auto simp: has_row_iff)

lemma endpoints_ok_append:
  assumes "endpoints_ok (endpoints d)" "endpoint_check r" "\<not> endpoint_conflict r d"
  shows "endpoints_ok (endpoints d @ [r])"
proof -
  have "distinct (map ep_id (endpoints d @ [r]))"
    using assms by (intro distinct_map_append1) (simp_all add: endpoints_ok_def endpoint_conflict_def)
  moreover have "distinct (map ep_peer_key (endpoints d @ [r]))"
    using assms by (intro distinct_map_append1) (simp_all add: endpoints_ok_def endpoint_conflict_def)
  moreover have "unique_where live ep_local_key (endpoints d @ [r])"
    using assms by (intro unique_where_append1) (simp_all add: endpoints_ok_def endpoint_conflict_def)
  ultimately show ?thesis using assms by (simp add: endpoints_ok_def)
qed

lemma deliveries_ok_append:
  assumes "deliveries_ok xs" "delivery_check x" "\<not> has_row (\<lambda>y. dl_id y = dl_id x) xs"
    "\<not> has_row (\<lambda>y. dl_key y = dl_key x) xs"
  shows "deliveries_ok (xs @ [x])"
  using assms distinct_map_append1 [of dl_id xs x] distinct_map_append1 [of dl_key xs x]
  by (simp add: deliveries_ok_def)

lemma mappings_ok_append:
  assumes "mappings_ok xs" "mapping_check x" "\<not> has_row (\<lambda>y. map_message_key y = map_message_key x) xs"
    "\<not> has_row (\<lambda>y. map_event_key y = map_event_key x) xs"
  shows "mappings_ok (xs @ [x])"
  using assms distinct_map_append1 [of map_message_key xs x]
    distinct_map_append1 [of map_event_key xs x]
  by (simp add: mappings_ok_def)

lemma messages_ok_append:
  assumes "messages_ok xs" "message_check x" "\<not> has_row (\<lambda>y. msg_id y = msg_id x) xs"
    "\<not> has_row (\<lambda>y. msg_key y = msg_key x) xs"
  shows "messages_ok (xs @ [x])"
  using assms distinct_map_append1 [of msg_id xs x] distinct_map_append1 [of msg_key xs x]
  by (simp add: messages_ok_def)

lemma channels_ok_append:
  assumes "channels_ok xs" "\<not> has_row (\<lambda>y. ch_id y = ch_id x) xs"
    "\<not> (ch_mode x = Mode_hub \<and> has_row (\<lambda>y. ch_mode y = Mode_hub) xs)"
  shows "channels_ok (xs @ [x])"
proof -
  have "unique_where (\<lambda>c. ch_mode c = Mode_hub) ch_mode (xs @ [x])"
    using assms(1,3) by (intro unique_where_append1) (auto simp: channels_ok_def has_row_iff)
  with assms distinct_map_append1 [of ch_id xs x] show ?thesis
    by (simp add: channels_ok_def)
qed

lemma insert_endpoint_keeps [keeps_intros]: "keeps schema_ok (insert_endpoint r)"
  by (rule keepsI)
    (auto simp: insert_endpoint_def tx_inversion
      intro: schema_ok_update endpoints_ok_append schema_ok_tables)

lemma insert_channel_keeps [keeps_intros]: "keeps schema_ok (insert_channel c)"
  by (rule keepsI)
    (simp add: insert_channel_def tx_inversion, rule schema_ok_update, simp_all,
      rule channels_ok_append, auto intro: schema_ok_tables)

lemma insert_delivery_keeps [keeps_intros]: "keeps schema_ok (insert_delivery x)"
  by (rule keepsI)
    (auto simp: insert_delivery_def tx_inversion has_row_or
      intro: schema_ok_update deliveries_ok_append schema_ok_tables)

lemma insert_mapping_keeps [keeps_intros]: "keeps schema_ok (insert_mapping m)"
  by (rule keepsI)
    (auto simp: insert_mapping_def tx_inversion has_row_or
      intro: schema_ok_update mappings_ok_append schema_ok_tables)

text \<open>Rows are found by their primary key.\<close>

lemma find_key_iff:
  assumes "distinct (map k rs)"
  shows "find (\<lambda>r. k r = i) rs = Some e \<longleftrightarrow> e \<in> set rs \<and> k e = i"
proof
  assume "find (\<lambda>r. k r = i) rs = Some e"
  then show "e \<in> set rs \<and> k e = i" by (rule find_Some_set)
next
  assume "e \<in> set rs \<and> k e = i"
  then show "find (\<lambda>r. k r = i) rs = Some e"
    using find_unique_key [OF assms, of e] by auto
qed

lemma endpoint_by_id_Some:
  "schema_ok d \<Longrightarrow> endpoint_by_id d i = Some e \<longleftrightarrow> e \<in> set (endpoints d) \<and> ep_id e = i"
  using schema_ok_tables(6) [of d]
  by (simp add: endpoint_by_id_def endpoints_ok_def find_key_iff)

lemma delivery_by_id_Some:
  "schema_ok d \<Longrightarrow> delivery_by_id d i = Some x \<longleftrightarrow> x \<in> set (deliveries d) \<and> dl_id x = i"
  using schema_ok_tables(8) [of d]
  by (simp add: delivery_by_id_def deliveries_ok_def find_key_iff)

lemma message_by_id_Some:
  "schema_ok d \<Longrightarrow> message_by_id d i = Some x \<longleftrightarrow> x \<in> set (messages d) \<and> msg_id x = i"
  using schema_ok_tables(7) [of d]
  by (simp add: message_by_id_def messages_ok_def find_key_iff)

end
