(* ===== verification/Guards.thy ===== *)
theory Guards
  imports Database
begin

text \<open>
  The argument checks and row guards of src/shared-channels/store.ts that every
  operation starts with, \<open>withTransaction\<close> itself, and the identity reads of
  communities.  A check of an argument is a transaction step that leaves the
  state alone: the code runs it before BEGIN, where nothing can change either.
\<close>

section \<open>withTransaction\<close>

text \<open>COMMIT on return, ROLLBACK and rethrow on any error.\<close>

definition with_transaction :: "('s, 'a) tx \<Rightarrow> 's \<Rightarrow> 'a res \<times> 's" where
  "with_transaction operation s =
     (case operation s of Inl e \<Rightarrow> (Inl e, s) | Inr (a, s') \<Rightarrow> (Inr a, s'))"

text \<open>A second call after the first committed (or threw).\<close>

definition call_then :: "('s \<Rightarrow> 'a res \<times> 's) \<Rightarrow> ('a \<Rightarrow> 's \<Rightarrow> 'b res \<times> 's) \<Rightarrow> 's \<Rightarrow> 'b res \<times> 's" where
  "call_then f g s = (case f s of (Inl e, s') \<Rightarrow> (Inl e, s') | (Inr a, s') \<Rightarrow> g a s')"

lemma with_transaction_rollback:
  "fst (with_transaction m s) = Inl e \<Longrightarrow> snd (with_transaction m s) = s"
  by (auto simp: with_transaction_def split: sum.splits)

lemma with_transaction_Inr:
  "with_transaction m s = (Inr a, s') \<longleftrightarrow> m s = Inr (a, s')"
  by (auto simp: with_transaction_def split: sum.splits)

lemma with_transaction_Inl:
  "with_transaction m s = (Inl e, s') \<longleftrightarrow> m s = Inl e \<and> s' = s"
  by (auto simp: with_transaction_def split: sum.splits)

lemma with_transaction_keeps: "keeps I m \<Longrightarrow> I s \<Longrightarrow> I (snd (with_transaction m s))"
  by (auto simp: with_transaction_def keeps_def split: sum.splits)

lemma call_then_keeps:
  "(\<And>s. I s \<Longrightarrow> I (snd (f s))) \<Longrightarrow> (\<And>a s. I s \<Longrightarrow> I (snd (g a s))) \<Longrightarrow> I s \<Longrightarrow>
   I (snd (call_then f g s))"
  by (auto simp: call_then_def split: prod.splits sum.splits) (metis snd_conv)+

section \<open>Argument checks\<close>

definition assert_hex :: "string \<Rightarrow> nat \<Rightarrow> ('s, unit) tx" where
  "assert_hex v n = tx_check (\<lambda>_. is_hex_string n v) (Api ''invalid_input'' 400)"

definition assert_text :: "string \<Rightarrow> nat \<Rightarrow> nat \<Rightarrow> bool \<Rightarrow> ('s, unit) tx" where
  "assert_text v minimum maximum measure_bytes =
     (let len = (if measure_bytes then utf8_length v else length v) in
      tx_check (\<lambda>_. \<not> (len < minimum \<or> len > maximum)) (Api ''invalid_input'' 400))"

definition uuid_char_at :: "nat \<Rightarrow> char \<Rightarrow> bool" where
  "uuid_char_at i c \<longleftrightarrow>
     (if i \<in> {8, 13, 18, 23} then c = CHR ''-''
      else if i = 14 then CHR ''1'' \<le> c \<and> c \<le> CHR ''5''
      else if i = 19 then c \<in> set ''89abAB''
      else is_hex_i c)"

definition is_uuid :: "string \<Rightarrow> bool" where
  "is_uuid v \<longleftrightarrow> length v = 36 \<and> list_all (\<lambda>(i, c). uuid_char_at i c) (enumerate 0 v)"

definition assert_uuid :: "string \<Rightarrow> ('s, unit) tx" where
  "assert_uuid v = tx_check (\<lambda>_. is_uuid v) (Api ''invalid_input'' 400)"

text \<open>PostgreSQL reads a \<open>uuid\<close> in either case and stores the lower-case form.\<close>

definition as_uuid :: "string \<Rightarrow> uuid" where
  "as_uuid v = to_lower v"

definition assert_key_length :: "nat list \<Rightarrow> nat \<Rightarrow> ('s, unit) tx" where
  "assert_key_length key expected =
     tx_check (\<lambda>_. length key = expected) (Api ''invalid_input'' 400)"

lemma assert_keeps [keeps_intros]:
  "keeps I (assert_hex v n)" "keeps I (assert_text v a b m)" "keeps I (assert_uuid v)"
  "keeps I (assert_key_length k n)"
  by (simp_all add: assert_hex_def assert_text_def assert_uuid_def assert_key_length_def
      Let_def keeps_check)

lemma assert_hex_Inr: "assert_hex v n s = Inr (a, s') \<longleftrightarrow> is_hex_string n v \<and> s' = s"
  by (simp add: assert_hex_def tx_check_Inr)

lemma assert_text_Inr:
  "assert_text v a b m s = Inr (u, s') \<longleftrightarrow>
     (let len = (if m then utf8_length v else length v) in a \<le> len \<and> len \<le> b) \<and> s' = s"
  by (auto simp: assert_text_def tx_check_Inr Let_def)

lemma assert_uuid_Inr: "assert_uuid v s = Inr (a, s') \<longleftrightarrow> is_uuid v \<and> s' = s"
  by (simp add: assert_uuid_def tx_check_Inr)

lemma assert_key_length_Inr:
  "assert_key_length k n s = Inr (a, s') \<longleftrightarrow> length k = n \<and> s' = s"
  by (simp add: assert_key_length_def tx_check_Inr)

section \<open>Row guards\<close>

definition require_verified_owner :: "uuid \<Rightarrow> string \<Rightarrow> (db, string) tx" where
  "require_verified_owner community owner =
     tx_bind (assert_hex owner 64) (\<lambda>_.
     tx_row (\<lambda>d.
       case find (\<lambda>c. com_id c = community \<and> com_owner c = Some owner \<and>
                      verified_community d c) (communities d) of
         None \<Rightarrow> None
       | Some c \<Rightarrow> map_option cand_relay_url (candidate_of d c))
       (Api ''community_owner_required'' 403))"

definition require_active_connection :: "uuid \<Rightarrow> (db, uuid \<times> string) tx" where
  "require_active_connection community =
     tx_row (\<lambda>d. map_option (\<lambda>c. (conn_id c, conn_relay_url c))
       (find (\<lambda>c. conn_community c = community \<and> conn_state c = Active) (connections d)))
       (Api ''connection_required'' 409)"

definition channel_routed :: "uuid \<Rightarrow> string \<Rightarrow> uuid option \<Rightarrow> db \<Rightarrow> bool" where
  "channel_routed community local exclude d \<longleftrightarrow>
     has_row (\<lambda>e. ep_community e = community \<and> ep_local_channel e = Some local \<and> live e \<and>
       (case exclude of None \<Rightarrow> True | Some i \<Rightarrow> ep_id e \<noteq> i)) (endpoints d)"

definition assert_channel_not_routed :: "uuid \<Rightarrow> string \<Rightarrow> uuid option \<Rightarrow> (db, unit) tx" where
  "assert_channel_not_routed community local exclude =
     tx_check (\<lambda>d. \<not> channel_routed community local exclude d)
       (Api ''channel_already_routed'' 409)"

lemma guard_keeps [keeps_intros]:
  "keeps I (require_verified_owner c w)" "keeps I (require_active_connection c)"
  "keeps I (assert_channel_not_routed c l x)"
  by (auto simp: require_verified_owner_def require_active_connection_def
      assert_channel_not_routed_def intro!: keeps_intros)

lemma require_verified_owner_Inr:
  "require_verified_owner c w d = Inr (url, d') \<Longrightarrow>
     d' = d \<and> is_hex_string 64 w \<and>
     (\<exists>x \<in> set (communities d). com_id x = c \<and> com_owner x = Some w \<and> verified_community d x)"
  by (auto simp: require_verified_owner_def tx_inversion assert_hex_Inr split: option.splits
      dest!: find_Some_set)

lemma require_active_connection_Inr:
  "require_active_connection c d = Inr ((i, url), d') \<Longrightarrow>
     d' = d \<and> (\<exists>x \<in> set (connections d). conn_community x = c \<and> conn_state x = Active \<and>
       conn_id x = i \<and> conn_relay_url x = url)"
  by (auto simp: require_active_connection_def tx_inversion dest!: find_Some_set)

lemma assert_channel_not_routed_Inr:
  "assert_channel_not_routed c l x d = Inr (u, d') \<longleftrightarrow> \<not> channel_routed c l x d \<and> d' = d"
  by (simp add: assert_channel_not_routed_def tx_check_Inr)

text \<open>The handle a display shows: \<open>COALESCE(display_name, slug, host)\<close>.\<close>

definition display_of :: "db \<Rightarrow> community \<Rightarrow> string option" where
  "display_of d c =
     (case com_display_name c of Some n \<Rightarrow> Some n
      | None \<Rightarrow> (case com_slug c of Some s \<Rightarrow> Some s
                 | None \<Rightarrow> map_option cand_host (candidate_of d c)))"

end
