(* ===== verification/Routing.thy ===== *)
theory Routing
  imports Guards
begin

text \<open>
  Which hub endpoints a message goes to, and its ingestion: \<open>ingestBridgeMessage\<close>
  of src/shared-channels/store.ts.  The destination query is \<open>routable\<close>; the two
  filter clauses, the two dedication clauses and the clause by which an ordinary
  endpoint yields to a dedicated one are separate definitions.
\<close>

section \<open>The destination query\<close>

definition filter_allows :: "endpoint \<Rightarrow> uuid \<Rightarrow> bool" where
  "filter_allows e other \<longleftrightarrow>
     (ep_filter_mode e = Everyone_except \<and> other \<notin> set (ep_filter_list e)) \<or>
     (ep_filter_mode e = Only_these \<and> other \<in> set (ep_filter_list e))"

definition dedication_allows :: "endpoint \<Rightarrow> uuid \<Rightarrow> bool" where
  "dedication_allows e other \<longleftrightarrow> ep_dedicated_to e = None \<or> ep_dedicated_to e = Some other"

definition yields_to_dedicated :: "endpoint list \<Rightarrow> endpoint \<Rightarrow> endpoint \<Rightarrow> bool" where
  "yields_to_dedicated es src dst \<longleftrightarrow> ep_dedicated_to dst = None \<and>
     has_row (\<lambda>x. ep_channel x = ep_channel dst \<and> ep_community x = ep_community dst \<and>
       ep_dedicated_to x = Some (ep_community src) \<and> ep_state x = Endpoint_active \<and>
       ep_receives x) es"

definition routable :: "endpoint list \<Rightarrow> uuid \<Rightarrow> endpoint \<Rightarrow> uuid option \<Rightarrow> endpoint \<Rightarrow> bool" where
  "routable es channel src wanted dst \<longleftrightarrow>
     ep_channel dst = channel \<and> ep_id dst \<noteq> ep_id src \<and>
     ep_state dst = Endpoint_active \<and> ep_receives dst \<and>
     (wanted = None \<or> wanted = Some (ep_community dst)) \<and>
     dedication_allows dst (ep_community src) \<and>
     dedication_allows src (ep_community dst) \<and>
     \<not> yields_to_dedicated es src dst \<and>
     filter_allows dst (ep_community src) \<and> filter_allows src (ep_community dst)"

definition channel_active :: "db \<Rightarrow> uuid \<Rightarrow> bool" where
  "channel_active d i \<longleftrightarrow>
     (case channel_by_id d i of None \<Rightarrow> False | Some c \<Rightarrow> ch_state c = Channel_active)"

definition source_endpoint :: "db \<Rightarrow> uuid \<Rightarrow> uuid \<Rightarrow> endpoint option" where
  "source_endpoint d i channel =
     find (\<lambda>e. ep_id e = i \<and> ep_channel e = channel \<and> ep_state e = Endpoint_active \<and>
       ep_sends e \<and> channel_active d channel) (endpoints d)"

definition destinations_of :: "db \<Rightarrow> uuid \<Rightarrow> endpoint \<Rightarrow> uuid option \<Rightarrow> endpoint list" where
  "destinations_of d channel src wanted =
     filter (routable (endpoints d) channel src wanted) (endpoints d)"

lemma source_endpoint_Some:
  "source_endpoint d i c = Some e \<Longrightarrow>
     e \<in> set (endpoints d) \<and> ep_id e = i \<and> ep_channel e = c \<and> ep_state e = Endpoint_active \<and>
     ep_sends e \<and> channel_active d c"
  unfolding source_endpoint_def by (drule find_Some_set) simp

text \<open>The constraints on endpoints the routing argument uses.\<close>

lemma endpoints_peer_unique:
  "endpoints_ok es \<Longrightarrow> e \<in> set es \<Longrightarrow> e' \<in> set es \<Longrightarrow> ep_channel e = ep_channel e' \<Longrightarrow>
   ep_community e = ep_community e' \<Longrightarrow> ep_dedicated_to e = ep_dedicated_to e' \<Longrightarrow> e = e'"
  unfolding endpoints_ok_def
  by (elim conjE, rule distinct_key_unique [where k = ep_peer_key]) (simp_all add: ep_peer_key_def)

lemma endpoint_not_dedicated_to_self:
  "endpoints_ok es \<Longrightarrow> e \<in> set es \<Longrightarrow> ep_dedicated_to e \<noteq> Some (ep_community e)"
  by (auto simp: endpoints_ok_def list_all_iff endpoint_check_def)

lemma endpoints_ok_active:
  "endpoints_ok es \<Longrightarrow> e \<in> set es \<Longrightarrow> ep_state e = Endpoint_active"
  by (auto simp: endpoints_ok_def list_all_iff endpoint_check_def)

lemma routable_other_community:
  assumes ok: "endpoints_ok es" and src: "src \<in> set es" "ep_channel src = ch"
    and dst: "dst \<in> set es" "routable es ch src w dst"
  shows "ep_community dst \<noteq> ep_community src"
proof
  assume same: "ep_community dst = ep_community src"
  have "ep_dedicated_to dst = None" "ep_dedicated_to src = None"
    using dst(2) same endpoint_not_dedicated_to_self [OF ok dst(1)]
      endpoint_not_dedicated_to_self [OF ok src(1)]
    by (auto simp: routable_def dedication_allows_def)
  with ok src dst same have "dst = src"
    by (intro endpoints_peer_unique) (auto simp: routable_def)
  with dst(2) show False by (simp add: routable_def)
qed

lemma routable_unique:
  assumes ok: "endpoints_ok es"
    and a: "a \<in> set es" "routable es ch src w a"
    and b: "b \<in> set es" "routable es ch src w b"
    and same: "ep_community a = ep_community b"
  shows "a = b"
proof -
  have yield: False if "x \<in> set es" "y \<in> set es" "routable es ch src w x" "routable es ch src w y"
    "ep_community x = ep_community y" "ep_dedicated_to x = None" "ep_dedicated_to y \<noteq> None" for x y
    using that by (auto simp: routable_def yields_to_dedicated_def dedication_allows_def has_row_iff)
  have "ep_dedicated_to a = ep_dedicated_to b"
  proof (cases "ep_dedicated_to a = None \<longleftrightarrow> ep_dedicated_to b = None")
    case True
    with a b show ?thesis by (auto simp: routable_def dedication_allows_def)
  next
    case False
    with yield a b same show ?thesis by metis
  qed
  with ok a b same show ?thesis
    by (intro endpoints_peer_unique) (auto simp: routable_def)
qed

section \<open>Ingestion\<close>

record ingest_input =
  in_body :: string
  in_sha256 :: string
  in_destination :: "uuid option"
  in_message :: uuid
  in_parent_message :: "uuid option"
  in_channel :: uuid
  in_signed_event :: nostr_event
  in_actor :: string
  in_actor_name :: "string option"
  in_created_at :: int
  in_source :: uuid
  in_event_id :: string
  in_parent_event :: "string option"

record ingest_result =
  res_created :: bool
  res_delivery :: "uuid option"
  res_deliveries :: "uuid list"
  res_message :: uuid

definition message_row :: "ingest_input \<Rightarrow> message" where
  "message_row i =
     \<lparr>msg_id = in_message i, msg_channel = in_channel i, msg_source = in_source i,
      msg_event_id = in_event_id i, msg_actor = in_actor i, msg_actor_name = in_actor_name i,
      msg_created_at = in_created_at i, msg_signed_event = Some (in_signed_event i),
      msg_parent_event = in_parent_event i, msg_parent_message = in_parent_message i,
      msg_body = Some (in_body i), msg_sha256 = in_sha256 i\<rparr>"

definition delivery_row :: "time \<Rightarrow> uuid \<Rightarrow> uuid \<Rightarrow> uuid \<Rightarrow> delivery" where
  "delivery_row now i message destination =
     \<lparr>dl_id = i, dl_message = message, dl_destination = destination, dl_event = None,
      dl_event_id = None, dl_state = Queued, dl_attempts = 0, dl_next_attempt = now,
      dl_delivered_at = None, dl_error = None, dl_updated_at = now\<rparr>"

text \<open>INSERT ... ON CONFLICT (channel, endpoint, event) DO NOTHING RETURNING id: whether a row went in.\<close>

definition insert_message :: "message \<Rightarrow> (db, bool) tx" where
  "insert_message m =
     tx_bind (tx_check (\<lambda>d. message_check m) (Pg ''23514'')) (\<lambda>_.
     tx_bind (tx_read (\<lambda>d. has_row (\<lambda>x. msg_key x = msg_key m) (messages d))) (\<lambda>known.
     if known then tx_return False
     else
       tx_bind (tx_check (\<lambda>d. \<not> has_row (\<lambda>x. msg_id x = msg_id m) (messages d) \<and>
          \<not> has_row (\<lambda>x. msg_key x = msg_key m) (messages d)) (Pg ''23505'')) (\<lambda>_.
       tx_bind (tx_write (\<lambda>d. d\<lparr>messages := messages d @ [m]\<rparr>)) (\<lambda>_. tx_return True))))"

fun insert_deliveries :: "time \<Rightarrow> (nat \<Rightarrow> uuid) \<Rightarrow> nat \<Rightarrow> uuid \<Rightarrow> uuid list \<Rightarrow> (db, uuid list) tx" where
  "insert_deliveries now fresh n message [] = tx_return []"
| "insert_deliveries now fresh n message (e # es) =
     tx_bind (insert_delivery (delivery_row now (fresh n) message e)) (\<lambda>_.
     tx_bind (insert_deliveries now fresh (Suc n) message es) (\<lambda>ids.
     tx_return (fresh n # ids)))"

text \<open>
  \<open>boss.send\<close> of pg-boss runs on the transaction's own client: it is a function of
  the queue's table, and answers whether a job id came back.
\<close>

type_synonym send_job = "string \<Rightarrow> uuid \<Rightarrow> (string \<times> uuid) list \<Rightarrow> bool \<times> (string \<times> uuid) list"

definition queue_job :: "send_job \<Rightarrow> string \<Rightarrow> uuid \<Rightarrow> (db, unit) tx" where
  "queue_job send job delivery =
     tx_bind (tx_read (\<lambda>d. send job delivery (jobs d))) (\<lambda>(sent, js).
     if sent then tx_write (\<lambda>d. d\<lparr>jobs := js\<rparr>)
     else tx_throw (Api ''message_enqueue_failed'' 500))"

fun queue_deliveries :: "send_job \<Rightarrow> nat \<Rightarrow> uuid \<Rightarrow> uuid list \<Rightarrow> (db, unit) tx" where
  "queue_deliveries send index message [] = tx_return ()"
| "queue_deliveries send index message (x # xs) =
     tx_bind (queue_job send (if index = 0 then message else x) x) (\<lambda>_.
     queue_deliveries send (Suc index) message xs)"

definition move_cursor :: "uuid \<Rightarrow> int \<Rightarrow> endpoint list \<Rightarrow> endpoint list" where
  "move_cursor i at es = update_where (\<lambda>e. ep_id e = i)
     (\<lambda>e. e\<lparr>ep_cursor := Some (max (case ep_cursor e of None \<Rightarrow> 0 | Some c \<Rightarrow> c) at)\<rparr>) es"

definition advance_cursor :: "uuid \<Rightarrow> int \<Rightarrow> db \<Rightarrow> db" where
  "advance_cursor i at d = d\<lparr>endpoints := move_cursor i at (endpoints d)\<rparr>"

definition existing_deliveries :: "ingest_input \<Rightarrow> db \<Rightarrow> (uuid \<times> uuid) list" where
  "existing_deliveries i d =
     concat (map (\<lambda>m. map (\<lambda>x. (msg_id m, dl_id x))
         (filter (\<lambda>x. dl_message x = msg_id m) (deliveries d)))
       (filter (\<lambda>m. msg_key m = (in_channel i, in_source i, in_event_id i)) (messages d)))"

definition ingest_known :: "ingest_input \<Rightarrow> (db, ingest_result) tx" where
  "ingest_known i =
     tx_bind (tx_read (existing_deliveries i)) (\<lambda>rows.
     case rows of
       [] \<Rightarrow> tx_throw (Api ''message_ingest_failed'' 500)
     | (message, delivery) # _ \<Rightarrow>
         tx_return \<lparr>res_created = False, res_delivery = Some delivery,
           res_deliveries = map snd rows, res_message = message\<rparr>)"

definition ingest_new :: "send_job \<Rightarrow> time \<Rightarrow> (nat \<Rightarrow> uuid) \<Rightarrow> ingest_input \<Rightarrow> uuid list \<Rightarrow>
    (db, ingest_result) tx" where
  "ingest_new send now fresh i dests =
     tx_bind (insert_mapping \<lparr>map_channel = in_channel i, map_endpoint = in_source i,
        map_message = in_message i, map_local_event = in_event_id i,
        map_local_parent = in_parent_event i\<rparr>) (\<lambda>_.
     tx_bind (tx_write (advance_cursor (in_source i) (in_created_at i))) (\<lambda>_.
     tx_bind (insert_deliveries now fresh 0 (in_message i) dests) (\<lambda>ids.
     tx_bind (queue_deliveries send 0 (in_message i) ids) (\<lambda>_.
     tx_return \<lparr>res_created = True,
       res_delivery = (case ids of [] \<Rightarrow> None | x # _ \<Rightarrow> Some x),
       res_deliveries = ids, res_message = in_message i\<rparr>))))"

definition ingest_tx :: "send_job \<Rightarrow> time \<Rightarrow> (nat \<Rightarrow> uuid) \<Rightarrow> ingest_input \<Rightarrow> (db, ingest_result) tx" where
  "ingest_tx send now fresh i =
     tx_bind (assert_hex (in_event_id i) 64) (\<lambda>_.
     tx_bind (assert_hex (in_actor i) 64) (\<lambda>_.
     tx_bind (assert_hex (in_sha256 i) 64) (\<lambda>_.
     tx_bind (assert_text (in_body i) 1 (16 * 1024) True) (\<lambda>_.
     tx_bind (tx_row (\<lambda>d. source_endpoint d (in_source i) (in_channel i))
        (Api ''route_inactive'' 409)) (\<lambda>src.
     tx_bind (tx_read (\<lambda>d. destinations_of d (in_channel i) src (in_destination i))) (\<lambda>dests.
     if dests = [] then tx_throw (Api ''route_inactive'' 409)
     else
       tx_bind (insert_message (message_row i)) (\<lambda>inserted.
       if \<not> inserted then ingest_known i
       else ingest_new send now fresh i (map ep_id dests))))))))"

definition ingest_bridge_message ::
  "send_job \<Rightarrow> time \<Rightarrow> (nat \<Rightarrow> uuid) \<Rightarrow> ingest_input \<Rightarrow> db \<Rightarrow> ingest_result res \<times> db" where
  "ingest_bridge_message send now fresh i = with_transaction (ingest_tx send now fresh i)"

section \<open>Ingestion keeps the schema\<close>

lemma insert_message_keeps [keeps_intros]: "keeps schema_ok (insert_message m)"
  by (rule keepsI)
    (auto simp: insert_message_def tx_inversion split: if_splits
      intro: schema_ok_update messages_ok_append schema_ok_tables)

lemma insert_deliveries_keeps [keeps_intros]:
  "keeps schema_ok (insert_deliveries now fresh n m es)"
  by (induction es arbitrary: n) (auto intro!: keeps_intros)

lemma queue_job_keeps [keeps_intros]: "keeps schema_ok (queue_job send j x)"
  unfolding queue_job_def
  by (rule keepsI) (auto simp: tx_inversion split: if_splits prod.splits intro: schema_ok_update)

lemma queue_deliveries_keeps [keeps_intros]: "keeps schema_ok (queue_deliveries send n m xs)"
  by (induction xs arbitrary: n) (auto intro!: keeps_intros)

lemma endpoints_ok_update:
  assumes "endpoints_ok es"
    and "\<And>e. P e \<Longrightarrow> ep_id (f e) = ep_id e \<and> ep_peer_key (f e) = ep_peer_key e"
    and "\<And>e. P e \<Longrightarrow> live (f e) \<Longrightarrow> live e \<and> ep_local_key (f e) = ep_local_key e"
    and "\<And>e. e \<in> set es \<Longrightarrow> P e \<Longrightarrow> endpoint_check e \<Longrightarrow> endpoint_check (f e)"
  shows "endpoints_ok (update_where P f es)"
proof -
  have "map ep_id (update_where P f es) = map ep_id es"
    "map ep_peer_key (update_where P f es) = map ep_peer_key es"
    using assms(2) by (simp_all add: update_where_def)
  moreover have "unique_where live ep_local_key (update_where P f es)"
    using assms(1,3) by (intro unique_where_update) (simp_all add: endpoints_ok_def)
  moreover have "list_all endpoint_check (update_where P f es)"
    using assms(1,4) by (auto simp: endpoints_ok_def list_all_iff set_update_where)
  ultimately show ?thesis using assms(1) by (simp add: endpoints_ok_def)
qed

lemma advance_cursor_keeps: "schema_ok d \<Longrightarrow> schema_ok (advance_cursor i at d)"
  unfolding advance_cursor_def move_cursor_def
  by (rule schema_ok_update(5), assumption, rule endpoints_ok_update)
    (auto simp: schema_ok_tables ep_peer_key_def ep_local_key_def live_def endpoint_check_def
      max_def split: option.splits)

lemma ingest_new_keeps [keeps_intros]: "keeps schema_ok (ingest_new send now fresh i ds)"
  unfolding ingest_new_def by (intro keeps_intros keeps_write advance_cursor_keeps)

lemma ingest_known_keeps [keeps_intros]: "keeps schema_ok (ingest_known i)"
  unfolding ingest_known_def
  by (intro keeps_intros) (auto intro!: keeps_intros split: list.splits)

lemma ingest_tx_keeps: "keeps schema_ok (ingest_tx send now fresh i)"
  unfolding ingest_tx_def by (intro keeps_intros)

section \<open>What an ingestion writes\<close>

lemma insert_deliveries_Inr:
  "insert_deliveries now fresh n m es d = Inr (ids, d') \<Longrightarrow>
     ids = map fresh [n..<n + length es] \<and>
     d' = d\<lparr>deliveries := deliveries d @
       map2 (\<lambda>k e. delivery_row now (fresh k) m e) [n..<n + length es] es\<rparr>"
proof (induction es arbitrary: n d ids)
  case Nil
  then show ?case by (simp add: tx_inversion)
next
  case (Cons e es)
  let ?d1 = "d\<lparr>deliveries := deliveries d @ [delivery_row now (fresh n) m e]\<rparr>"
  from Cons.prems obtain ids' where run: "insert_deliveries now fresh (Suc n) m es ?d1 = Inr (ids', d')"
    and ids: "ids = fresh n # ids'"
    by (auto simp: tx_inversion insert_delivery_def)
  have upt: "[n..<n + length (e # es)] = n # [Suc n..<Suc n + length es]"
    by (simp del: upt_Suc add: upt_conv_Cons)
  from Cons.IH [OF run] ids show ?case unfolding upt by simp
qed

lemma queue_job_Inr: "queue_job send j x d = Inr (u, d') \<Longrightarrow> \<exists>js. d' = d\<lparr>jobs := js\<rparr>"
  by (cases "send j x (jobs d)") (auto simp: queue_job_def tx_inversion split: if_splits)

lemma queue_deliveries_Inr:
  "queue_deliveries send n m xs d = Inr (u, d') \<Longrightarrow> \<exists>js. d' = d\<lparr>jobs := js\<rparr>"
proof (induction xs arbitrary: n d)
  case Nil
  then show ?case by (auto simp: tx_inversion intro: exI [of _ "jobs d"])
next
  case (Cons x xs)
  then obtain js where "queue_deliveries send (Suc n) m xs (d\<lparr>jobs := js\<rparr>) = Inr (u, d')"
    by (auto simp: tx_inversion dest!: queue_job_Inr)
  from Cons.IH [OF this] show ?case by simp
qed

definition source_mapping :: "ingest_input \<Rightarrow> mapping" where
  "source_mapping i = \<lparr>map_channel = in_channel i, map_endpoint = in_source i,
     map_message = in_message i, map_local_event = in_event_id i,
     map_local_parent = in_parent_event i\<rparr>"

definition new_deliveries :: "time \<Rightarrow> (nat \<Rightarrow> uuid) \<Rightarrow> uuid \<Rightarrow> endpoint list \<Rightarrow> delivery list" where
  "new_deliveries now fresh m dests =
     map2 (\<lambda>k e. delivery_row now (fresh k) m (ep_id e)) [0..<length dests] dests"

lemma ingest_new_Inr:
  assumes "ingest_new send now fresh i (map ep_id dests) d = Inr (r, d')"
  shows "\<exists>js. d' = d
            \<lparr>mappings := mappings d @ [source_mapping i],
             endpoints := move_cursor (in_source i) (in_created_at i) (endpoints d),
             deliveries := deliveries d @ new_deliveries now fresh (in_message i) dests,
             jobs := js\<rparr> \<and>
         res_created r \<and> res_deliveries r = map fresh [0..<length dests]"
proof -
  let ?d0 = "d\<lparr>mappings := mappings d @ [source_mapping i]\<rparr>"
  let ?d1 = "advance_cursor (in_source i) (in_created_at i) ?d0"
  from assms obtain ids d2 d3 where
    dl: "insert_deliveries now fresh 0 (in_message i) (map ep_id dests) ?d1 = Inr (ids, d2)"
    and q: "queue_deliveries send 0 (in_message i) ids d2 = Inr ((), d3)"
    and r: "res_created r" "res_deliveries r = ids" "d' = d3"
    by (auto simp: ingest_new_def tx_inversion insert_mapping_def source_mapping_def)
  have "map2 (\<lambda>k e. delivery_row now (fresh k) (in_message i) e) [0..<length dests] (map ep_id dests)
      = new_deliveries now fresh (in_message i) dests"
    unfolding new_deliveries_def by (rule nth_equalityI) auto
  with insert_deliveries_Inr [OF dl] queue_deliveries_Inr [OF q] r show ?thesis
    by (auto simp: advance_cursor_def)
qed

lemma insert_message_Inr:
  "insert_message m d = Inr (b, d') \<longleftrightarrow> message_check m \<and>
     (if has_row (\<lambda>x. msg_key x = msg_key m) (messages d) then \<not> b \<and> d' = d
      else \<not> has_row (\<lambda>x. msg_id x = msg_id m) (messages d) \<and> b \<and>
        d' = d\<lparr>messages := messages d @ [m]\<rparr>)"
  by (auto simp: insert_message_def tx_inversion)

lemma ingest_tx_Inr [consumes 1, case_names known fresh]:
  assumes "ingest_tx send now fresh i d = Inr (r, d')"
  obtains (known) src where "source_endpoint d (in_source i) (in_channel i) = Some src"
      "\<not> res_created r" "d' = d" "ingest_known i d = Inr (r, d)"
      "has_row (\<lambda>x. msg_key x = msg_key (message_row i)) (messages d)"
  | (fresh) src js where "source_endpoint d (in_source i) (in_channel i) = Some src"
      "destinations_of d (in_channel i) src (in_destination i) \<noteq> []"
      "\<not> has_row (\<lambda>x. msg_key x = msg_key (message_row i)) (messages d)"
      "\<not> has_row (\<lambda>x. msg_id x = in_message i) (messages d)"
      "res_created r" "message_check (message_row i)"
      "res_deliveries r = map fresh
         [0..<length (destinations_of d (in_channel i) src (in_destination i))]"
      "d' = d
            \<lparr>messages := messages d @ [message_row i],
             mappings := mappings d @ [source_mapping i],
             endpoints := move_cursor (in_source i) (in_created_at i) (endpoints d),
             deliveries := deliveries d @ new_deliveries now fresh (in_message i)
               (destinations_of d (in_channel i) src (in_destination i)),
             jobs := js\<rparr>"
proof -
  from assms obtain src where src: "source_endpoint d (in_source i) (in_channel i) = Some src"
    and ne: "destinations_of d (in_channel i) src (in_destination i) \<noteq> []"
    and rest: "\<exists>b d1. insert_message (message_row i) d = Inr (b, d1) \<and>
       (if \<not> b then ingest_known i else ingest_new send now fresh i
          (map ep_id (destinations_of d (in_channel i) src (in_destination i)))) d1 = Inr (r, d')"
    by (auto simp: ingest_tx_def tx_inversion assert_hex_Inr assert_text_Inr)
  from rest obtain b d1 where b: "insert_message (message_row i) d = Inr (b, d1)"
    and run: "(if \<not> b then ingest_known i else ingest_new send now fresh i
          (map ep_id (destinations_of d (in_channel i) src (in_destination i)))) d1 = Inr (r, d')"
    by blast
  show thesis
  proof (cases b)
    case False
    with b run have "d1 = d" "ingest_known i d = Inr (r, d')"
      and k: "has_row (\<lambda>x. msg_key x = msg_key (message_row i)) (messages d)"
      by (auto simp: insert_message_Inr split: if_splits)
    moreover from this have "d' = d" "\<not> res_created r"
      by (auto simp: ingest_known_def tx_inversion split: list.splits)
    ultimately show thesis using known src by auto
  next
    case True
    with b run have d1: "d1 = d\<lparr>messages := messages d @ [message_row i]\<rparr>"
      and new: "ingest_new send now fresh i
          (map ep_id (destinations_of d (in_channel i) src (in_destination i))) d1 = Inr (r, d')"
      and c: "\<not> has_row (\<lambda>x. msg_key x = msg_key (message_row i)) (messages d)"
        "\<not> has_row (\<lambda>x. msg_id x = in_message i) (messages d)"
        "message_check (message_row i)"
      by (auto simp: insert_message_Inr message_row_def split: if_splits)
    from ingest_new_Inr [OF new] d1 c ne src show thesis
      by (auto simp: advance_cursor_def intro: fresh)
  qed
qed

lemma in_new_deliveries:
  assumes "x \<in> set (new_deliveries now fresh m dests)"
  shows "\<exists>e \<in> set dests. dl_destination x = ep_id e \<and> dl_message x = m \<and>
    dl_state x = Queued \<and> dl_attempts x = 0 \<and> dl_event x = None \<and> dl_event_id x = None"
  using assms by (auto simp: new_deliveries_def delivery_row_def in_set_zip intro: bexI [OF _ nth_mem])

lemma length_new_deliveries [simp]: "length (new_deliveries now fresh m dests) = length dests"
  by (simp add: new_deliveries_def)

lemma new_deliveries_destinations [simp]:
  "map dl_destination (new_deliveries now fresh m dests) = map ep_id dests"
  unfolding new_deliveries_def by (rule nth_equalityI) (auto simp: delivery_row_def)

lemma destinations_communities:
  assumes "schema_ok d" and "source_endpoint d i ch = Some src"
  shows "distinct (map ep_community (destinations_of d ch src w))"
    and "ep_community src \<notin> set (map ep_community (destinations_of d ch src w))"
proof -
  have ok: "endpoints_ok (endpoints d)" using assms(1) by (rule schema_ok_tables)
  have src: "src \<in> set (endpoints d)" "ep_channel src = ch"
    using assms(2) by (auto dest: source_endpoint_Some)
  have inj: "inj_on ep_community (set (destinations_of d ch src w))"
    by (rule inj_onI) (auto simp: destinations_of_def intro: routable_unique [OF ok])
  have "distinct (map ep_id (endpoints d))" using ok by (simp add: endpoints_ok_def)
  then have "distinct (endpoints d)" by (simp add: distinct_map)
  then have "distinct (destinations_of d ch src w)" by (simp add: destinations_of_def)
  with inj show "distinct (map ep_community (destinations_of d ch src w))"
    by (simp add: distinct_map)
  show "ep_community src \<notin> set (map ep_community (destinations_of d ch src w))"
  proof
    assume "ep_community src \<in> set (map ep_community (destinations_of d ch src w))"
    then obtain e where "e \<in> set (endpoints d)" "routable (endpoints d) ch src w e"
      "ep_community e = ep_community src"
      by (auto simp: destinations_of_def)
    with routable_other_community [OF ok src] show False by blast
  qed
qed

section \<open>Properties\<close>

text \<open>
  C1. A message has at most one destination endpoint per community, never one in
  the sender's own community: an ordinary endpoint and a dedicated endpoint of
  the same community are never both routable for one source.
\<close>

theorem one_destination_per_community:
  assumes "schema_ok d" and "source_endpoint d i ch = Some src"
  shows "distinct (map ep_community (destinations_of d ch src w)) \<and>
    ep_community src \<notin> set (map ep_community (destinations_of d ch src w))"
  using destinations_communities [OF assms] by simp


end
