(* ===== verification/Delivery.thy ===== *)
theory Delivery
  imports Routing
begin

text \<open>
  The life of one delivery: \<open>getBridgeDeliveryContext\<close> to \<open>cancelBridgeDelivery\<close> of
  src/shared-channels/store.ts, the delivery state machine they implement, and
  the facts that hold of a delivery under every sequence of these operations.
\<close>

section \<open>Reading a delivery\<close>

record delivery_context =
  ctx_attempts :: nat
  ctx_body :: string
  ctx_delivery :: uuid
  ctx_channel_id :: string
  ctx_connection :: uuid
  ctx_endpoint :: uuid
  ctx_event :: "nostr_event option"
  ctx_local_parent :: "string option"
  ctx_message :: uuid
  ctx_route_active :: bool
  ctx_shared_channel :: uuid
  ctx_actor :: string
  ctx_actor_name :: "string option"
  ctx_community :: uuid
  ctx_community_name :: string
  ctx_community_slug :: string
  ctx_source_event :: string
  ctx_source_parent :: "string option"
  ctx_state :: delivery_state

definition mutual_filters :: "endpoint \<Rightarrow> endpoint \<Rightarrow> bool" where
  "mutual_filters src dst \<longleftrightarrow>
     filter_allows dst (ep_community src) \<and> filter_allows src (ep_community dst)"

definition route_open :: "db \<Rightarrow> uuid \<Rightarrow> endpoint \<Rightarrow> endpoint \<Rightarrow> bool" where
  "route_open d channel src dst \<longleftrightarrow> channel_active d channel \<and>
     ep_state src = Endpoint_active \<and> ep_state dst = Endpoint_active \<and>
     ep_sends src \<and> ep_receives dst \<and> mutual_filters src dst"

text \<open>\<open>left_row k None\<close> is the all-NULL row of a LEFT JOIN.\<close>

definition source_parent_message :: "db \<Rightarrow> message \<Rightarrow> uuid option" where
  "source_parent_message d m =
     (case msg_parent_event m of None \<Rightarrow> None
      | Some ev \<Rightarrow> map_option map_message
          (find (\<lambda>p. map_endpoint p = msg_source m \<and> map_local_event p = ev) (mappings d)))"

definition local_parent_event :: "db \<Rightarrow> message \<Rightarrow> uuid \<Rightarrow> string option" where
  "local_parent_event d m dst =
     (case (case msg_parent_message m of Some i \<Rightarrow> Some i | None \<Rightarrow> source_parent_message d m) of
        None \<Rightarrow> None
      | Some i \<Rightarrow> map_option map_local_event
          (find (\<lambda>p. map_endpoint p = dst \<and> map_message p = i) (mappings d)))"

definition handle_of :: "db \<Rightarrow> community \<Rightarrow> string option" where
  "handle_of d c = (case com_slug c of Some s \<Rightarrow> Some s
                    | None \<Rightarrow> map_option cand_host (candidate_of d c))"

definition joined_delivery :: "db \<Rightarrow> uuid \<Rightarrow> (delivery \<times> message \<times> endpoint \<times> endpoint) option" where
  "joined_delivery d i =
     Option.bind (delivery_by_id d i) (\<lambda>x.
     Option.bind (message_by_id d (dl_message x)) (\<lambda>m.
     Option.bind (channel_by_id d (msg_channel m)) (\<lambda>_.
     Option.bind (endpoint_by_id d (msg_source m)) (\<lambda>src.
     Option.bind (endpoint_by_id d (dl_destination x)) (\<lambda>dst. Some (x, m, src, dst))))))"

definition get_bridge_delivery_context :: "uuid \<Rightarrow> (db, delivery_context option) tx" where
  "get_bridge_delivery_context i = (\<lambda>d.
     case joined_delivery d i of None \<Rightarrow> Inr (None, d)
     | Some (x, m, src, dst) \<Rightarrow>
       (case community_by_id d (ep_community src) of None \<Rightarrow> Inr (None, d)
        | Some c \<Rightarrow>
          (case (display_of d c, handle_of d c, candidate_of d c) of
             (Some name, Some slug, Some _) \<Rightarrow>
               (case (msg_body m, ep_connection dst, ep_local_channel dst) of
                  (Some body, Some conn, Some chan) \<Rightarrow>
                    if body = [] \<or> conn = [] \<or> chan = []
                    then Inl (Api ''delivery_context_invalid'' 500)
                    else Inr (Some
                      \<lparr>ctx_attempts = dl_attempts x, ctx_body = body, ctx_delivery = dl_id x,
                       ctx_channel_id = chan, ctx_connection = conn, ctx_endpoint = ep_id dst,
                       ctx_event = dl_event x,
                       ctx_local_parent = local_parent_event d m (ep_id dst),
                       ctx_message = msg_id m,
                       ctx_route_active = route_open d (msg_channel m) src dst,
                       ctx_shared_channel = msg_channel m, ctx_actor = msg_actor m,
                       ctx_actor_name = msg_actor_name m, ctx_community = ep_community src,
                       ctx_community_name = name, ctx_community_slug = slug,
                       ctx_source_event = msg_event_id m,
                       ctx_source_parent = msg_parent_event m, ctx_state = dl_state x\<rparr>, d)
                | _ \<Rightarrow> Inl (Api ''delivery_context_invalid'' 500))
           | _ \<Rightarrow> Inr (None, d))))"

definition is_route_active :: "uuid \<Rightarrow> db \<Rightarrow> bool" where
  "is_route_active i d =
     (case joined_delivery d i of None \<Rightarrow> False
      | Some (x, m, src, dst) \<Rightarrow> dl_state x = Delivering \<and> route_open d (msg_channel m) src dst)"

section \<open>Changing a delivery\<close>

definition update_delivery :: "(delivery \<Rightarrow> bool) \<Rightarrow> (delivery \<Rightarrow> delivery) \<Rightarrow> db \<Rightarrow> db" where
  "update_delivery P f d = d\<lparr>deliveries := update_where P f (deliveries d)\<rparr>"

definition can_deliver :: "uuid \<Rightarrow> delivery \<Rightarrow> bool" where
  "can_deliver i x \<longleftrightarrow> dl_id x = i \<and> dl_state x \<in> {Queued, Retry, Delivering}"

definition mark_delivering :: "time \<Rightarrow> uuid \<Rightarrow> (db, bool) tx" where
  "mark_delivering now i =
     tx_bind (tx_read (\<lambda>d. has_row (can_deliver i) (deliveries d))) (\<lambda>found.
     tx_bind (tx_write (update_delivery (can_deliver i)
        (\<lambda>x. x\<lparr>dl_state := Delivering, dl_attempts := dl_attempts x + 1, dl_updated_at := now\<rparr>)))
       (\<lambda>_. tx_return found))"

definition persist_destination_event :: "time \<Rightarrow> uuid \<Rightarrow> nostr_event \<Rightarrow> (db, nostr_event) tx" where
  "persist_destination_event now i ev =
     tx_bind (tx_row (\<lambda>d. delivery_by_id d i) (Api ''delivery_not_found'' 404)) (\<lambda>x.
     if dl_state x = Cancelled \<or> dl_state x = Delivery_failed
     then tx_throw (Api ''delivery_terminal'' 409)
     else case dl_event x of
       Some stored \<Rightarrow> tx_return stored
     | None \<Rightarrow>
         tx_bind (tx_check (\<lambda>d. is_hex_string 64 (ev_id ev)) (Pg ''23514'')) (\<lambda>_.
         tx_bind (tx_write (update_delivery (\<lambda>y. dl_id y = i)
           (\<lambda>y. y\<lparr>dl_event := Some ev, dl_event_id := Some (ev_id ev), dl_updated_at := now\<rparr>)))
         (\<lambda>_. tx_return ev)))"

text \<open>INSERT ... ON CONFLICT (endpoint, message) DO NOTHING.\<close>

definition insert_mapping_once :: "mapping \<Rightarrow> (db, unit) tx" where
  "insert_mapping_once m =
     tx_bind (tx_read (\<lambda>d. has_row (\<lambda>x. map_message_key x = map_message_key m) (mappings d)))
       (\<lambda>known. if known then tx_return () else insert_mapping m)"

definition can_complete :: "uuid \<Rightarrow> nostr_event \<Rightarrow> db \<Rightarrow> delivery \<Rightarrow> bool" where
  "can_complete i ev d x \<longleftrightarrow> dl_id x = i \<and> dl_event_id x = Some (ev_id ev) \<and>
     dl_state x \<noteq> Cancelled \<and> message_by_id d (dl_message x) \<noteq> None"

definition complete_bridge_delivery :: "time \<Rightarrow> uuid \<Rightarrow> nostr_event \<Rightarrow> (db, unit) tx" where
  "complete_bridge_delivery now i ev =
     tx_bind (tx_row (\<lambda>d. Option.bind (find (can_complete i ev d) (deliveries d)) (\<lambda>x.
        map_option (\<lambda>m. (x, m)) (message_by_id d (dl_message x))))
        (Api ''delivery_completion_conflict'' 409)) (\<lambda>(x, m).
     tx_bind (tx_write (\<lambda>d. update_delivery (can_complete i ev d)
        (\<lambda>y. y\<lparr>dl_state := Delivered_to_relay, dl_delivered_at := Some now,
               dl_error := None, dl_updated_at := now\<rparr>) d)) (\<lambda>_.
     insert_mapping_once \<lparr>map_channel = msg_channel m, map_endpoint = dl_destination x,
        map_message = dl_message x, map_local_event = ev_id ev, map_local_parent = None\<rparr>))"

definition backoff_seconds :: "nat \<Rightarrow> int" where
  "backoff_seconds attempts = min 900 (15 * 2 ^ min attempts 6)"

definition mark_retry :: "time \<Rightarrow> uuid \<Rightarrow> string \<Rightarrow> bool \<Rightarrow> db \<Rightarrow> db" where
  "mark_retry now i code terminal =
     update_delivery (\<lambda>x. dl_id x = i \<and> dl_state x \<noteq> Delivered_to_relay \<and> dl_state x \<noteq> Cancelled)
       (\<lambda>x. x\<lparr>dl_state := (if terminal then Delivery_failed else Retry),
              dl_error := Some (take 80 code),
              dl_next_attempt := (if terminal then dl_next_attempt x
                else now + seconds (backoff_seconds (dl_attempts x))),
              dl_updated_at := now\<rparr>)"

definition cancel_delivery :: "time \<Rightarrow> uuid \<Rightarrow> string \<Rightarrow> db \<Rightarrow> db" where
  "cancel_delivery now i reason =
     update_delivery (\<lambda>x. dl_id x = i \<and> dl_state x \<noteq> Delivered_to_relay)
       (\<lambda>x. x\<lparr>dl_state := Cancelled, dl_error := Some (take 80 reason), dl_updated_at := now\<rparr>)"

section \<open>The operations as one step function\<close>

datatype delivery_op =
  Op_mark time uuid
| Op_persist time uuid nostr_event
| Op_complete time uuid nostr_event
| Op_retry time uuid string bool
| Op_cancel time uuid string

fun run_delivery_op :: "delivery_op \<Rightarrow> db \<Rightarrow> db" where
  "run_delivery_op (Op_mark now i) d = snd (with_transaction (mark_delivering now i) d)"
| "run_delivery_op (Op_persist now i ev) d =
     snd (with_transaction (persist_destination_event now i ev) d)"
| "run_delivery_op (Op_complete now i ev) d =
     snd (with_transaction (complete_bridge_delivery now i ev) d)"
| "run_delivery_op (Op_retry now i code terminal) d = mark_retry now i code terminal d"
| "run_delivery_op (Op_cancel now i reason) d = cancel_delivery now i reason d"

definition run_delivery_ops :: "delivery_op list \<Rightarrow> db \<Rightarrow> db" where
  "run_delivery_ops ops d = fold run_delivery_op ops d"

text \<open>The states a delivery may pass through.\<close>

inductive delivery_step :: "delivery_state \<Rightarrow> delivery_state \<Rightarrow> bool" where
  attempt: "s \<in> {Queued, Retry, Delivering} \<Longrightarrow> delivery_step s Delivering"
| deliver: "s \<noteq> Cancelled \<Longrightarrow> delivery_step s Delivered_to_relay"
| retry: "s \<noteq> Delivered_to_relay \<Longrightarrow> s \<noteq> Cancelled \<Longrightarrow> delivery_step s Retry"
| give_up: "s \<noteq> Delivered_to_relay \<Longrightarrow> s \<noteq> Cancelled \<Longrightarrow> delivery_step s Delivery_failed"
| cancel: "s \<noteq> Delivered_to_relay \<Longrightarrow> delivery_step s Cancelled"

inductive_cases delivery_step_fromE: "delivery_step s t"
inductive_simps delivered_step: "delivery_step Delivered_to_relay t"
inductive_simps cancelled_step: "delivery_step Cancelled t"

text \<open>How an operation may change one row of the table.\<close>

definition row_step :: "delivery \<Rightarrow> delivery \<Rightarrow> bool" where
  "row_step x y \<longleftrightarrow> dl_id y = dl_id x \<and> dl_message y = dl_message x \<and>
     dl_destination y = dl_destination x \<and>
     (dl_state y = dl_state x \<or> delivery_step (dl_state x) (dl_state y)) \<and>
     (dl_event x \<noteq> None \<longrightarrow> dl_event y = dl_event x \<and> dl_event_id y = dl_event_id x) \<and>
     dl_attempts x \<le> dl_attempts y"

lemma row_step_refl [simp]: "row_step x x"
  by (simp add: row_step_def)

definition rows_step :: "delivery list \<Rightarrow> delivery list \<Rightarrow> bool" where
  "rows_step xs ys \<longleftrightarrow> list_all2 row_step xs ys"

lemma rows_step_refl [simp]: "rows_step xs xs"
  by (simp add: rows_step_def list.rel_refl)

lemma rows_step_update:
  "(\<And>x. x \<in> set xs \<Longrightarrow> P x \<Longrightarrow> row_step x (f x)) \<Longrightarrow> rows_step xs (update_where P f xs)"
  by (induction xs) (auto simp: rows_step_def)

lemma persist_Inr [consumes 1, case_names stored fresh]:
  assumes "persist_destination_event now i ev d = Inr (r, d')"
  obtains x where "delivery_by_id d i = Some x" "dl_state x \<noteq> Cancelled"
      "dl_state x \<noteq> Delivery_failed" "dl_event x = Some r" "d' = d"
  | x where "delivery_by_id d i = Some x" "dl_state x \<noteq> Cancelled"
      "dl_state x \<noteq> Delivery_failed" "dl_event x = None" "r = ev" "is_hex_string 64 (ev_id ev)"
      "d' = update_delivery (\<lambda>y. dl_id y = i)
         (\<lambda>y. y\<lparr>dl_event := Some ev, dl_event_id := Some (ev_id ev), dl_updated_at := now\<rparr>) d"
  using assms by (auto simp: persist_destination_event_def tx_inversion split: option.splits)

lemma insert_mapping_once_Inr:
  "insert_mapping_once m d = Inr (u, d') \<Longrightarrow>
     (has_row (\<lambda>x. map_message_key x = map_message_key m) (mappings d) \<and> d' = d) \<or>
     (\<not> has_row (\<lambda>x. map_event_key x = map_event_key m) (mappings d) \<and> mapping_check m \<and>
      \<not> has_row (\<lambda>x. map_message_key x = map_message_key m) (mappings d) \<and>
      d' = d\<lparr>mappings := mappings d @ [m]\<rparr>)"
  by (auto simp: insert_mapping_once_def insert_mapping_def tx_inversion has_row_or
      split: if_splits)

lemma complete_Inr:
  assumes "complete_bridge_delivery now i ev d = Inr (u, d')"
  obtains x m where "x \<in> set (deliveries d)" "can_complete i ev d x"
    "message_by_id d (dl_message x) = Some m"
    "insert_mapping_once \<lparr>map_channel = msg_channel m, map_endpoint = dl_destination x,
        map_message = dl_message x, map_local_event = ev_id ev, map_local_parent = None\<rparr>
      (update_delivery (can_complete i ev d)
        (\<lambda>y. y\<lparr>dl_state := Delivered_to_relay, dl_delivered_at := Some now,
               dl_error := None, dl_updated_at := now\<rparr>) d) = Inr (u, d')"
  using assms
  by (auto simp: complete_bridge_delivery_def tx_inversion bind_eq_Some_conv dest!: find_Some_set)

lemma complete_deliveries:
  assumes "complete_bridge_delivery now i ev d = Inr (u, d')"
  shows "deliveries d' = update_where (can_complete i ev d)
        (\<lambda>y. y\<lparr>dl_state := Delivered_to_relay, dl_delivered_at := Some now,
               dl_error := None, dl_updated_at := now\<rparr>) (deliveries d)"
  using assms by (rule complete_Inr) (auto simp: update_delivery_def dest!: insert_mapping_once_Inr)

lemma run_delivery_op_rows:
  assumes ok: "schema_ok d"
  shows "rows_step (deliveries d) (deliveries (run_delivery_op op d))"
proof (cases op)
  case (Op_mark now i)
  show ?thesis unfolding Op_mark
    by (auto simp: mark_delivering_def with_transaction_def tx_defs update_delivery_def
        can_deliver_def row_step_def intro!: rows_step_update delivery_step.attempt)
next
  case (Op_persist now i ev)
  show ?thesis
  proof (cases "persist_destination_event now i ev d")
    case (Inl e)
    then show ?thesis by (simp add: Op_persist with_transaction_def)
  next
    case (Inr p)
    obtain r d' where p: "p = (r, d')" by (cases p)
    with Inr have run: "persist_destination_event now i ev d = Inr (r, d')" by simp
    then have d': "run_delivery_op op d = d'" by (simp add: Op_persist with_transaction_def)
    from run show ?thesis
    proof (cases rule: persist_Inr)
      case (stored x)
      then show ?thesis by (simp add: d')
    next
      case (fresh x)
      have "dl_event y = None" if "y \<in> set (deliveries d)" "dl_id y = i" for y
        using fresh(1,4) that delivery_by_id_Some [OF ok, of i y] by simp
      then show ?thesis unfolding d' fresh(7)
        by (auto simp: update_delivery_def row_step_def intro!: rows_step_update)
    qed
  qed
next
  case (Op_complete now i ev)
  show ?thesis
  proof (cases "complete_bridge_delivery now i ev d")
    case (Inl e)
    then show ?thesis by (simp add: Op_complete with_transaction_def)
  next
    case (Inr p)
    obtain r d' where "p = (r, d')" by (cases p)
    with Inr have "complete_bridge_delivery now i ev d = Inr (r, d')" by simp
    from complete_deliveries [OF this] Inr \<open>p = (r, d')\<close> show ?thesis
      by (auto simp: Op_complete with_transaction_def row_step_def can_complete_def
          intro!: rows_step_update delivery_step.deliver)
  qed
next
  case (Op_retry now i code terminal)
  show ?thesis unfolding Op_retry
    by (auto simp: mark_retry_def update_delivery_def row_step_def
        intro!: rows_step_update delivery_step.retry delivery_step.give_up)
next
  case (Op_cancel now i reason)
  show ?thesis unfolding Op_cancel
    by (auto simp: cancel_delivery_def update_delivery_def row_step_def
        intro!: rows_step_update delivery_step.cancel)
qed

section \<open>The schema is kept\<close>

lemma deliveries_ok_update:
  assumes "deliveries_ok xs"
    and "\<And>x. P x \<Longrightarrow> dl_id (f x) = dl_id x \<and> dl_key (f x) = dl_key x"
    and "\<And>x. x \<in> set xs \<Longrightarrow> P x \<Longrightarrow> delivery_check x \<Longrightarrow> delivery_check (f x)"
  shows "deliveries_ok (update_where P f xs)"
proof -
  have "map dl_id (update_where P f xs) = map dl_id xs"
    "map dl_key (update_where P f xs) = map dl_key xs"
    using assms(2) by (simp_all add: update_where_def)
  moreover have "list_all delivery_check (update_where P f xs)"
    using assms(1,3) by (auto simp: deliveries_ok_def list_all_iff set_update_where)
  ultimately show ?thesis using assms(1) by (simp add: deliveries_ok_def)
qed

lemma update_delivery_keeps:
  assumes "schema_ok d"
    and "\<And>x. P x \<Longrightarrow> dl_id (f x) = dl_id x \<and> dl_key (f x) = dl_key x"
    and "\<And>x. P x \<Longrightarrow> delivery_check x \<Longrightarrow> delivery_check (f x)"
  shows "schema_ok (update_delivery P f d)"
  unfolding update_delivery_def
  by (rule schema_ok_update(7) [OF assms(1)], rule deliveries_ok_update)
    (simp_all add: assms schema_ok_tables)

lemma mark_delivering_keeps [keeps_intros]: "keeps schema_ok (mark_delivering now i)"
  unfolding mark_delivering_def
  by (intro keeps_intros keeps_write update_delivery_keeps)
    (auto simp: dl_key_def delivery_check_def)

lemma persist_keeps [keeps_intros]: "keeps schema_ok (persist_destination_event now i ev)"
proof (rule keepsI)
  fix s a s' assume ok: "schema_ok s" and "persist_destination_event now i ev s = Inr (a, s')"
  from this(2) show "schema_ok s'"
    by (cases rule: persist_Inr)
      (auto simp: ok dl_key_def delivery_check_def hex_or_null_def intro!: update_delivery_keeps)
qed

lemma insert_mapping_once_keeps [keeps_intros]: "keeps schema_ok (insert_mapping_once m)"
  unfolding insert_mapping_once_def by (intro keeps_intros)

lemma complete_keeps [keeps_intros]: "keeps schema_ok (complete_bridge_delivery now i ev)"
  unfolding complete_bridge_delivery_def
  by (intro keeps_intros) (auto intro!: keeps_intros keeps_write update_delivery_keeps
      simp: dl_key_def delivery_check_def split: prod.splits)

lemma mark_retry_keeps: "schema_ok d \<Longrightarrow> schema_ok (mark_retry now i code terminal d)"
  unfolding mark_retry_def
  by (rule update_delivery_keeps) (auto simp: dl_key_def delivery_check_def)

lemma cancel_delivery_keeps: "schema_ok d \<Longrightarrow> schema_ok (cancel_delivery now i reason d)"
  unfolding cancel_delivery_def
  by (rule update_delivery_keeps) (auto simp: dl_key_def delivery_check_def)

lemma run_delivery_op_keeps: "schema_ok d \<Longrightarrow> schema_ok (run_delivery_op op d)"
  by (cases op) (auto intro: with_transaction_keeps keeps_intros mark_retry_keeps
      cancel_delivery_keeps)

section \<open>Sequences of operations\<close>

definition row_reach :: "delivery \<Rightarrow> delivery \<Rightarrow> bool" where
  "row_reach x y \<longleftrightarrow> dl_id y = dl_id x \<and> dl_message y = dl_message x \<and>
     dl_destination y = dl_destination x \<and> delivery_step\<^sup>*\<^sup>* (dl_state x) (dl_state y) \<and>
     (dl_event x \<noteq> None \<longrightarrow> dl_event y = dl_event x \<and> dl_event_id y = dl_event_id x) \<and>
     dl_attempts x \<le> dl_attempts y"

lemma row_step_reach: "row_step x y \<Longrightarrow> row_reach x y"
  by (auto simp: row_step_def row_reach_def)

lemma row_reach_trans: "row_reach x y \<Longrightarrow> row_reach y z \<Longrightarrow> row_reach x z"
  unfolding row_reach_def by (auto dest: rtranclp_trans)

lemma run_delivery_ops_reach:
  "schema_ok d \<Longrightarrow> list_all2 row_reach (deliveries d) (deliveries (run_delivery_ops ops d)) \<and>
     schema_ok (run_delivery_ops ops d)"
proof (induction ops arbitrary: d)
  case Nil
  then show ?case by (simp add: run_delivery_ops_def list.rel_refl row_step_reach)
next
  case (Cons op ops)
  let ?d1 = "run_delivery_op op d"
  have "list_all2 row_reach (deliveries d) (deliveries ?d1)"
    using run_delivery_op_rows [OF Cons.prems] row_step_reach
    unfolding rows_step_def by (rule list_all2_mono)
  moreover have "list_all2 row_reach (deliveries ?d1) (deliveries (run_delivery_ops ops ?d1))"
    "schema_ok (run_delivery_ops ops ?d1)"
    using Cons.IH run_delivery_op_keeps [OF Cons.prems] by blast+
  moreover have "run_delivery_ops (op # ops) d = run_delivery_ops ops ?d1"
    by (simp add: run_delivery_ops_def)
  ultimately show ?case by (auto intro: list_all2_trans row_reach_trans)
qed

lemma run_delivery_ops_by_id:
  assumes ok: "schema_ok d" and x: "delivery_by_id d i = Some x"
  obtains y where "delivery_by_id (run_delivery_ops ops d) i = Some y" "row_reach x y"
proof -
  let ?d' = "run_delivery_ops ops d"
  have r: "list_all2 row_reach (deliveries d) (deliveries ?d')" "schema_ok ?d'"
    using run_delivery_ops_reach [OF ok] by blast+
  have "x \<in> set (deliveries d)" "dl_id x = i" using x by (auto simp: delivery_by_id_Some ok)
  with r(1) obtain y where "y \<in> set (deliveries ?d')" "row_reach x y"
    by (metis in_set_conv_nth list_all2_conv_all_nth)
  with that \<open>dl_id x = i\<close> r(2) show thesis
    by (auto simp: delivery_by_id_Some row_reach_def)
qed

lemma delivered_absorbing:
  "delivery_step\<^sup>*\<^sup>* s t \<Longrightarrow> s = Delivered_to_relay \<Longrightarrow> t = Delivered_to_relay"
  by (induction rule: rtranclp_induct) (auto simp: delivered_step)

lemma cancelled_absorbing: "delivery_step\<^sup>*\<^sup>* s t \<Longrightarrow> s = Cancelled \<Longrightarrow> t = Cancelled"
  by (induction rule: rtranclp_induct) (auto simp: cancelled_step)

text \<open>Delivered rows carry their event and have their mapping.\<close>

definition delivered_recorded :: "db \<Rightarrow> bool" where
  "delivered_recorded d \<longleftrightarrow>
     (\<forall>x \<in> set (deliveries d).
        (dl_event_id x = map_option ev_id (dl_event x)) \<and>
        (dl_state x = Delivered_to_relay \<longrightarrow> dl_event x \<noteq> None \<and> dl_delivered_at x \<noteq> None \<and>
           (\<exists>p \<in> set (mappings d). map_message_key p = (dl_destination x, dl_message x))))"

lemma delivered_recorded_update:
  assumes "delivered_recorded d"
    and "\<And>x. P x \<Longrightarrow> dl_key (f x) = dl_key x"
    and "\<And>x. x \<in> set (deliveries d) \<Longrightarrow> P x \<Longrightarrow>
      dl_event_id (f x) = map_option ev_id (dl_event (f x)) \<and> dl_state (f x) \<noteq> Delivered_to_relay"
  shows "delivered_recorded (update_delivery P f d)"
  using assms by (auto simp: delivered_recorded_def update_delivery_def set_update_where dl_key_def)

lemma complete_delivered_recorded:
  assumes inv: "delivered_recorded d"
    and run: "complete_bridge_delivery now i ev d = Inr (u, d')" and ok: "schema_ok d"
  shows "delivered_recorded d'"
proof -
  from run obtain x m where x: "x \<in> set (deliveries d)" "can_complete i ev d x"
    and "message_by_id d (dl_message x) = Some m"
    and once: "insert_mapping_once \<lparr>map_channel = msg_channel m, map_endpoint = dl_destination x,
        map_message = dl_message x, map_local_event = ev_id ev, map_local_parent = None\<rparr>
      (update_delivery (can_complete i ev d)
        (\<lambda>y. y\<lparr>dl_state := Delivered_to_relay, dl_delivered_at := Some now,
               dl_error := None, dl_updated_at := now\<rparr>) d) = Inr (u, d')"
    by (rule complete_Inr)
  have only: "y = x" if "y \<in> set (deliveries d)" "can_complete i ev d y" for y
    using that x schema_ok_tables(8) [OF ok]
    by (auto simp: can_complete_def deliveries_ok_def intro: distinct_key_unique [where k = dl_id])
  let ?f = "\<lambda>y. y\<lparr>dl_state := Delivered_to_relay, dl_delivered_at := Some now,
     dl_error := None, dl_updated_at := now\<rparr>"
  have new: "\<exists>p \<in> set (mappings d'). map_message_key p = (dl_destination x, dl_message x)"
    using insert_mapping_once_Inr [OF once]
    by (auto simp: has_row_iff map_message_key_def)
  have old: "set (mappings d) \<subseteq> set (mappings d')"
    using insert_mapping_once_Inr [OF once] by (auto simp: update_delivery_def)
  show ?thesis unfolding delivered_recorded_def
  proof (rule ballI)
    fix z assume "z \<in> set (deliveries d')"
    then obtain y where y: "y \<in> set (deliveries d)"
      and z: "z = (if can_complete i ev d y then ?f y else y)"
      by (auto simp: complete_deliveries [OF run] set_update_where)
    have y_inv: "dl_event_id y = map_option ev_id (dl_event y)"
      "dl_state y = Delivered_to_relay \<longrightarrow> dl_event y \<noteq> None \<and> dl_delivered_at y \<noteq> None \<and>
         (\<exists>p \<in> set (mappings d'). map_message_key p = (dl_destination y, dl_message y))"
      using inv y old by (auto simp: delivered_recorded_def)
    show "dl_event_id z = map_option ev_id (dl_event z) \<and>
      (dl_state z = Delivered_to_relay \<longrightarrow> dl_event z \<noteq> None \<and> dl_delivered_at z \<noteq> None \<and>
         (\<exists>p \<in> set (mappings d'). map_message_key p = (dl_destination z, dl_message z)))"
    proof (cases "can_complete i ev d y")
      case True
      then have "y = x" "dl_event y \<noteq> None"
        using only y y_inv(1) by (auto simp: can_complete_def)
      with True y_inv(1) new z show ?thesis by simp
    next
      case False
      with y_inv z show ?thesis by simp
    qed
  qed
qed

lemma run_delivery_op_recorded:
  assumes "delivered_recorded d" and "schema_ok d"
  shows "delivered_recorded (run_delivery_op op d)"
proof (cases op)
  case (Op_mark now i)
  show ?thesis unfolding Op_mark using assms(1)
    by (auto simp: mark_delivering_def with_transaction_def tx_defs dl_key_def
        intro!: delivered_recorded_update) (auto simp: delivered_recorded_def)
next
  case (Op_persist now i ev)
  show ?thesis
  proof (cases "persist_destination_event now i ev d")
    case (Inl e)
    with assms show ?thesis by (simp add: Op_persist with_transaction_def)
  next
    case (Inr p)
    obtain r d' where p: "p = (r, d')" by (cases p)
    with Inr have run: "persist_destination_event now i ev d = Inr (r, d')" by simp
    then have d': "run_delivery_op op d = d'" by (simp add: Op_persist with_transaction_def)
    from run show ?thesis
    proof (cases rule: persist_Inr)
      case (stored x)
      with assms show ?thesis by (simp add: d')
    next
      case (fresh x)
      have "dl_state y \<noteq> Delivered_to_relay" if "y \<in> set (deliveries d)" "dl_id y = i" for y
        using fresh(1,4) that delivery_by_id_Some [OF assms(2), of i y] assms(1)
        by (auto simp: delivered_recorded_def)
      with assms(1) show ?thesis unfolding d' fresh(7)
        by (intro delivered_recorded_update) (auto simp: dl_key_def)
    qed
  qed
next
  case (Op_complete now i ev)
  with assms show ?thesis
    by (auto simp: with_transaction_def split: sum.splits intro: complete_delivered_recorded)
next
  case (Op_retry now i code terminal)
  show ?thesis unfolding Op_retry run_delivery_op.simps mark_retry_def using assms(1)
    by (intro delivered_recorded_update) (auto simp: dl_key_def delivered_recorded_def)
next
  case (Op_cancel now i reason)
  show ?thesis unfolding Op_cancel run_delivery_op.simps cancel_delivery_def using assms(1)
    by (intro delivered_recorded_update) (auto simp: dl_key_def delivered_recorded_def)
qed

section \<open>Properties\<close>

text \<open>
  Delivered and cancelled are final: whatever sequence of marks, persists,
  completions, retries and cancellations follows, a delivery that reached the
  relay stays delivered with the same signed event, and a cancelled one stays
  cancelled.
\<close>

lemma final_delivery_states:
  assumes "schema_ok d" and "delivered_recorded d" and x: "delivery_by_id d i = Some x"
  shows "\<exists>y. delivery_by_id (run_delivery_ops ops d) i = Some y \<and>
    (dl_state x = Delivered_to_relay \<longrightarrow>
       dl_state y = Delivered_to_relay \<and> dl_event y = dl_event x) \<and>
    (dl_state x = Cancelled \<longrightarrow> dl_state y = Cancelled)"
proof -
  obtain y where y: "delivery_by_id (run_delivery_ops ops d) i = Some y" "row_reach x y"
    using run_delivery_ops_by_id [OF assms(1) x] .
  have "x \<in> set (deliveries d)" using x by (simp add: delivery_by_id_Some assms(1))
  then have "dl_state x = Delivered_to_relay \<longrightarrow> dl_event x \<noteq> None"
    using assms(2) by (auto simp: delivered_recorded_def)
  with y show ?thesis
    by (auto simp: row_reach_def dest: delivered_absorbing cancelled_absorbing)
qed

text \<open>
  C4. At most one signed event is ever published for a delivery: once
  \<open>persistDestinationEvent\<close> has returned an event, every later call that returns,
  with whatever freshly signed event and after whatever operations, returns that
  same event.
\<close>

theorem persisted_event_is_unique:
  assumes ok: "schema_ok d"
    and first: "with_transaction (persist_destination_event now i ev) d = (Inr e1, d1)"
    and again: "with_transaction (persist_destination_event now' i ev') (run_delivery_ops ops d1)
                = (Inr e2, d2)"
  shows "e2 = e1"
proof -
  have run: "persist_destination_event now i ev d = Inr (e1, d1)"
    using first by (simp add: with_transaction_Inr)
  have ok1: "schema_ok d1" using keepsD [OF persist_keeps ok run] .
  have "\<exists>x. delivery_by_id d1 i = Some x \<and> dl_event x = Some e1"
    using run
  proof (cases rule: persist_Inr)
    case (stored x)
    then show ?thesis by auto
  next
    case (fresh x)
    let ?x = "x\<lparr>dl_event := Some ev, dl_event_id := Some (ev_id ev), dl_updated_at := now\<rparr>"
    have "?x \<in> set (deliveries d1)" "dl_id ?x = i"
      using fresh(1,7) by (auto simp: update_delivery_def set_update_where delivery_by_id_Some ok)
    with fresh(5) show ?thesis using delivery_by_id_Some [OF ok1] by fastforce
  qed
  then obtain x where x: "delivery_by_id d1 i = Some x" "dl_event x = Some e1" by blast
  obtain y where y: "delivery_by_id (run_delivery_ops ops d1) i = Some y" "row_reach x y"
    using run_delivery_ops_by_id [OF ok1 x(1)] .
  with x(2) have "dl_event y = Some e1" by (auto simp: row_reach_def)
  with again y(1) show ?thesis
    by (auto simp: with_transaction_Inr elim: persist_Inr)
qed


text \<open>
  C3. A delivered message is recorded: in every state reached from one where it
  holds, a delivery marked delivered carries the signed event that was published,
  and the destination endpoint has the mapping from that message to a local event
  (which replies are threaded by).
\<close>

theorem delivered_messages_are_mapped:
  assumes "schema_ok d" and "delivered_recorded d"
  shows "delivered_recorded (run_delivery_ops ops d)"
  using assms
proof (induction ops arbitrary: d)
  case Nil
  then show ?case by (simp add: run_delivery_ops_def)
next
  case (Cons op ops)
  from Cons.IH [OF run_delivery_op_keeps run_delivery_op_recorded] Cons.prems
  show ?case by (simp add: run_delivery_ops_def)
qed

lemma backoff_mono: "a \<le> b \<Longrightarrow> backoff_seconds a \<le> backoff_seconds b"
  unfolding backoff_seconds_def
  by (intro min.mono mult_left_mono power_increasing) auto

lemma backoff_values:
  "15 \<le> backoff_seconds n" "backoff_seconds n \<le> 900" "6 \<le> n \<Longrightarrow> backoff_seconds n = 900"
proof -
  have "(1::int) \<le> 2 ^ min n 6" by simp
  then show "15 \<le> backoff_seconds n" unfolding backoff_seconds_def by linarith
  show "backoff_seconds n \<le> 900" by (simp add: backoff_seconds_def)
  show "6 \<le> n \<Longrightarrow> backoff_seconds n = 900" by (simp add: backoff_seconds_def min_absorb2)
qed

text \<open>
  A non-terminal retry schedules the next attempt between 15 seconds and 15
  minutes ahead, exactly \<open>min (900, 15 * 2 ^ min (attempts, 6))\<close> seconds, leaves every
  other delivery alone, and never touches a delivered or cancelled one.
\<close>

lemma retry_backoff:
  assumes "schema_ok d" and "delivery_by_id d i = Some x"
  shows "\<exists>y. delivery_by_id (mark_retry now i code False d) i = Some y \<and>
    (if dl_state x \<in> {Delivered_to_relay, Cancelled} then y = x
     else dl_state y = Retry \<and> dl_next_attempt y = now + seconds (backoff_seconds (dl_attempts x)) \<and>
       now + seconds 15 \<le> dl_next_attempt y \<and> dl_next_attempt y \<le> now + seconds 900) \<and>
    (\<forall>j. j \<noteq> i \<longrightarrow> delivery_by_id (mark_retry now i code False d) j = delivery_by_id d j)"
proof -
  let ?d = "mark_retry now i code False d"
  let ?f = "\<lambda>x. x\<lparr>dl_state := Retry, dl_error := Some (take 80 code),
     dl_next_attempt := now + seconds (backoff_seconds (dl_attempts x)), dl_updated_at := now\<rparr>"
  let ?P = "\<lambda>x. dl_id x = i \<and> dl_state x \<noteq> Delivered_to_relay \<and> dl_state x \<noteq> Cancelled"
  have rows: "deliveries ?d = update_where ?P ?f (deliveries d)"
    by (simp add: mark_retry_def update_delivery_def)
  have ok: "schema_ok ?d" using assms(1) by (rule mark_retry_keeps)
  have x: "x \<in> set (deliveries d)" "dl_id x = i"
    using assms(2) by (auto simp: delivery_by_id_Some assms(1))
  have "(if ?P x then ?f x else x) \<in> set (deliveries ?d)"
    using x(1) by (auto simp: rows set_update_where)
  then have y: "delivery_by_id ?d i = Some (if ?P x then ?f x else x)"
    using x(2) by (subst delivery_by_id_Some [OF ok]) auto
  have "find (\<lambda>z. dl_id z = j) (update_where ?P ?f xs) = find (\<lambda>z. dl_id z = j) xs" if "j \<noteq> i" for j xs
    using that by (induction xs) auto
  then have "\<forall>j. j \<noteq> i \<longrightarrow> delivery_by_id ?d j = delivery_by_id d j"
    unfolding delivery_by_id_def rows by blast
  with y show ?thesis
    using backoff_values(1,2) [of "dl_attempts x"] x(2)
    by (auto simp: seconds_def)
qed

text \<open>
  The check made when a delivery job starts and the check made just before
  publishing agree: for a delivery in state \<open>delivering\<close>, \<open>routeActive\<close> of its
  context is \<open>isBridgeDeliveryRouteActive\<close>.
\<close>

lemma route_checks_agree:
  assumes "get_bridge_delivery_context i d = Inr (Some c, d')" and "ctx_state c = Delivering"
  shows "ctx_route_active c = is_route_active i d \<and> d' = d"
  using assms
  by (auto simp: get_bridge_delivery_context_def is_route_active_def
      split: option.splits prod.splits if_splits)

end
