(* ===== verification/Claims.thy ===== *)
theory Claims
  imports Guards
begin

text \<open>
  The three claim tables of src/shared-channels/store.ts: the one notice an
  unroutable event may produce, the one execution a slash command gets, and the
  one hint a peer's first message produces.  The connector relies on one
  contract of all three, stated as the locale \<open>claim_table\<close>; each table's
  INSERT ... ON CONFLICT DO NOTHING is proved to provide it.
\<close>

section \<open>The contract\<close>

text \<open>Running a sequence of claims: which of them won, and the final state.\<close>

fun claim_all :: "('r \<Rightarrow> 's \<Rightarrow> bool \<times> 's) \<Rightarrow> 'r list \<Rightarrow> 's \<Rightarrow> ('r \<times> bool) list \<times> 's" where
  "claim_all claim [] s = ([], s)"
| "claim_all claim (r # rs) s =
     (let (won, s1) = claim r s; (ws, s2) = claim_all claim rs s1 in ((r, won) # ws, s2))"

definition wins :: "('r \<Rightarrow> 'k) \<Rightarrow> 'k \<Rightarrow> ('r \<times> bool) list \<Rightarrow> nat" where
  "wins key k ws = length (filter (\<lambda>(r, won). won \<and> key r = k) ws)"

locale claim_table =
  fixes claim :: "'r \<Rightarrow> 's \<Rightarrow> bool \<times> 's"
    and key :: "'r \<Rightarrow> 'k"
    and claimed :: "'s \<Rightarrow> 'k \<Rightarrow> bool"
    and eligible :: "'s \<Rightarrow> 'k \<Rightarrow> bool"
  assumes claim_result: "fst (claim r s) \<longleftrightarrow> eligible s (key r) \<and> \<not> claimed s (key r)"
    and claim_recorded:
      "claimed (snd (claim r s)) k \<longleftrightarrow> claimed s k \<or> (k = key r \<and> eligible s k)"
    and claim_eligible: "eligible (snd (claim r s)) k \<longleftrightarrow> eligible s k"
begin

lemma wins_exactly_once:
  "wins key k (fst (claim_all claim rs s)) =
     (if k \<in> key ` set rs \<and> eligible s k \<and> \<not> claimed s k then 1 else 0)"
proof (induction rs arbitrary: s)
  case Nil
  then show ?case by (simp add: wins_def)
next
  case (Cons r rs)
  let ?s1 = "snd (claim r s)"
  have "wins key k (fst (claim_all claim (r # rs) s)) =
      (if fst (claim r s) \<and> key r = k then 1 else 0) + wins key k (fst (claim_all claim rs ?s1))"
    by (simp add: wins_def split: prod.splits)
  with Cons.IH [of ?s1] show ?case
    by (auto simp: claim_result claim_recorded claim_eligible)
qed

lemma claimed_forever:
  "claimed (snd (claim_all claim rs s)) k \<longleftrightarrow>
     claimed s k \<or> (k \<in> key ` set rs \<and> eligible s k)"
proof (induction rs arbitrary: s)
  case Nil
  then show ?case by simp
next
  case (Cons r rs)
  have "snd (claim_all claim (r # rs) s) = snd (claim_all claim rs (snd (claim r s)))"
    by (simp split: prod.splits)
  with Cons.IH show ?case by (auto simp: claim_recorded claim_eligible)
qed

end

section \<open>The three tables\<close>

definition claim_undeliverable_notice ::
  "(uuid \<times> string) \<times> undeliverable_reason \<Rightarrow> db \<Rightarrow> bool \<times> db" where
  "claim_undeliverable_notice r d =
     (if has_row (\<lambda>x. fst x = fst r) (notices d) then (False, d)
      else (True, d\<lparr>notices := notices d @ [r]\<rparr>))"

definition claim_command_receipt ::
  "(uuid \<times> string) \<times> command_verb \<Rightarrow> db \<Rightarrow> bool \<times> db" where
  "claim_command_receipt r d =
     (if has_row (\<lambda>x. fst x = fst r) (receipts d) then (False, d)
      else (True, d\<lparr>receipts := receipts d @ [r]\<rparr>))"

definition inbox_endpoint :: "db \<Rightarrow> uuid \<Rightarrow> bool" where
  "inbox_endpoint d i \<longleftrightarrow> has_row (\<lambda>e. ep_id e = i \<and> ep_dedicated_to e = None) (endpoints d)"

definition claim_direct_channel_hint :: "uuid \<times> uuid \<Rightarrow> db \<Rightarrow> bool \<times> db" where
  "claim_direct_channel_hint r d =
     (if \<not> inbox_endpoint d (fst r) \<or> has_row (\<lambda>x. x = r) (hints d) then (False, d)
      else (True, d\<lparr>hints := hints d @ [r]\<rparr>))"

interpretation notice: claim_table claim_undeliverable_notice fst
  "\<lambda>d k. has_row (\<lambda>x. fst x = k) (notices d)" "\<lambda>d k. True"
  by unfold_locales (auto simp: claim_undeliverable_notice_def)

interpretation receipt: claim_table claim_command_receipt fst
  "\<lambda>d k. has_row (\<lambda>x. fst x = k) (receipts d)" "\<lambda>d k. True"
  by unfold_locales (auto simp: claim_command_receipt_def)

interpretation hint: claim_table claim_direct_channel_hint "\<lambda>r. r"
  "\<lambda>d k. has_row (\<lambda>x. x = k) (hints d)" "\<lambda>d k. inbox_endpoint d (fst k)"
  by unfold_locales (auto simp: claim_direct_channel_hint_def inbox_endpoint_def)

lemma claims_keep_schema:
  assumes "schema_ok d"
  shows "schema_ok (snd (claim_undeliverable_notice n d))"
    and "schema_ok (snd (claim_command_receipt c d))"
    and "schema_ok (snd (claim_direct_channel_hint h d))"
  using assms
  by (auto simp: schema_ok_def claims_ok_def claim_undeliverable_notice_def
      claim_command_receipt_def claim_direct_channel_hint_def has_row_iff)

section \<open>Properties\<close>

text \<open>
  One notice per unroutable event: however often a relay replays events, and
  with whatever reasons, the claims made for one (endpoint, event) succeed exactly
  once if none was recorded before, and never otherwise.
\<close>

lemma notice_claimed_once:
  "wins fst k (fst (claim_all claim_undeliverable_notice rs d)) =
     (if k \<in> fst ` set rs \<and> \<not> has_row (\<lambda>x. fst x = k) (notices d) then 1 else 0)"
  using notice.wins_exactly_once by simp

text \<open>
  A slash command runs at most once: among any sequence of receipt claims
  exactly the first for an (endpoint, event) succeeds, and afterwards the event is
  claimed for good, so no later sequence of claims runs it again.
\<close>

lemma command_runs_once:
  "wins fst k (fst (claim_all claim_command_receipt rs d)) =
     (if k \<in> fst ` set rs \<and> \<not> has_row (\<lambda>x. fst x = k) (receipts d) then 1 else 0) \<and>
   (k \<in> fst ` set rs \<longrightarrow>
      wins fst k (fst (claim_all claim_command_receipt rs'
        (snd (claim_all claim_command_receipt rs d)))) = 0)"
  using receipt.wins_exactly_once receipt.claimed_forever by simp

text \<open>
  The direct-channel hint is given once per (inbox, source community), and only
  for an inbox: a dedicated endpoint never yields one.
\<close>

lemma hint_given_once_and_only_in_inbox:
  "wins (\<lambda>r. r) k (fst (claim_all claim_direct_channel_hint rs d)) =
     (if k \<in> set rs \<and> inbox_endpoint d (fst k) \<and> k \<notin> set (hints d) then 1 else 0)"
  using hint.wins_exactly_once [of k rs d] by (auto simp: has_row_iff)

end
