(* ===== verification/Communities.thy ===== *)
theory Communities
  imports Guards
begin

text \<open>
  Community identity in src/shared-channels/store.ts: the home community's
  configuration, resolving and enrolling a verified community, and the handle
  (slug) a hub participant is addressed by.
\<close>

section \<open>The home community\<close>

text \<open>\<open>process.env\<close> is a parameter: the value of each variable the code reads.\<close>

record env =
  env_home_host :: "string option"
  env_home_relay :: "string option"
  env_home_channel :: "string option"

definition home_community_host :: "env \<Rightarrow> string" where
  "home_community_host v = (case env_home_host v of Some h \<Rightarrow> h | None \<Rightarrow> ''relay.buzzrouter.com'')"

definition trimmed_or :: "string option \<Rightarrow> string \<Rightarrow> string" where
  "trimmed_or x fallback =
     (case x of None \<Rightarrow> fallback | Some s \<Rightarrow> if trim s = [] then fallback else trim s)"

definition home_community_relay_url :: "env \<Rightarrow> string" where
  "home_community_relay_url v = trimmed_or (env_home_relay v) (''wss://'' @ home_community_host v)"

definition home_community_channel_id :: "env \<Rightarrow> string" where
  "home_community_channel_id v = trimmed_or (env_home_channel v) ''general''"

section \<open>Resolving and enrolling\<close>

record verified_candidate =
  vc_candidate :: uuid
  vc_community :: "uuid option"
  vc_display_name :: string
  vc_owner :: "string option"
  vc_relay_url :: string

definition find_verified_candidate :: "string \<Rightarrow> db \<Rightarrow> verified_candidate res" where
  "find_verified_candidate url d =
     (case find (\<lambda>k. cand_relay_url k = url \<and> cand_state k = Verified_buzz) (candidates d) of
        None \<Rightarrow> Inl (Api ''invite_community_unknown'' 404)
      | Some k \<Rightarrow>
          (case find (\<lambda>c. com_candidate c = cand_id k) (communities d) of
             None \<Rightarrow> Inr \<lparr>vc_candidate = cand_id k, vc_community = None,
               vc_display_name = cand_host k, vc_owner = None, vc_relay_url = cand_relay_url k\<rparr>
           | Some c \<Rightarrow> Inr \<lparr>vc_candidate = cand_id k, vc_community = Some (com_id c),
               vc_display_name = (case com_display_name c of Some n \<Rightarrow> n
                 | None \<Rightarrow> (case com_slug c of Some s \<Rightarrow> s | None \<Rightarrow> cand_host k)),
               vc_owner = com_owner c, vc_relay_url = cand_relay_url k\<rparr>))"

record verified_identity =
  vi_community :: uuid
  vi_display_name :: string
  vi_owner :: string
  vi_relay_url :: string

definition enroll_row :: "uuid \<Rightarrow> uuid \<Rightarrow> string \<Rightarrow> community" where
  "enroll_row fresh candidate owner =
     \<lparr>com_id = fresh, com_candidate = candidate, com_slug = None, com_owner = Some owner,
      com_display_name = None\<rparr>"

definition keep_owner :: "string \<Rightarrow> community \<Rightarrow> community" where
  "keep_owner owner c = c\<lparr>com_owner := Some (case com_owner c of Some w \<Rightarrow> w | None \<Rightarrow> owner)\<rparr>"

text \<open>INSERT ... ON CONFLICT (candidate_id) DO UPDATE SET owner_pubkey = COALESCE(...).\<close>

definition upsert_community :: "uuid \<Rightarrow> uuid \<Rightarrow> string \<Rightarrow> (db, community) tx" where
  "upsert_community fresh candidate owner = (\<lambda>d.
     case find (\<lambda>c. com_candidate c = candidate) (communities d) of
       Some c \<Rightarrow> Inr (keep_owner owner c, d\<lparr>communities :=
         update_where (\<lambda>x. com_candidate x = candidate) (keep_owner owner) (communities d)\<rparr>)
     | None \<Rightarrow>
         if has_row (\<lambda>x. com_id x = fresh) (communities d) then Inl (Pg ''23505'')
         else Inr (enroll_row fresh candidate owner,
           d\<lparr>communities := communities d @ [enroll_row fresh candidate owner]\<rparr>))"

definition enroll_verified_community :: "uuid \<Rightarrow> uuid \<Rightarrow> string \<Rightarrow> (db, verified_identity) tx" where
  "enroll_verified_community fresh candidate owner =
     tx_bind (assert_hex owner 64) (\<lambda>_.
     tx_bind (tx_row (\<lambda>d. find (\<lambda>k. cand_id k = candidate \<and> cand_state k = Verified_buzz)
        (candidates d)) (Api ''invite_community_unknown'' 409)) (\<lambda>k.
     tx_bind (upsert_community fresh candidate owner) (\<lambda>c.
     tx_return \<lparr>vi_community = com_id c,
       vi_display_name = (case com_display_name c of Some n \<Rightarrow> n
         | None \<Rightarrow> (case com_slug c of Some s \<Rightarrow> s | None \<Rightarrow> cand_host k)),
       vi_owner = (case com_owner c of Some w \<Rightarrow> w | None \<Rightarrow> []),
       vi_relay_url = cand_relay_url k\<rparr>)))"

section \<open>Handles\<close>

definition strip_dashes :: "string \<Rightarrow> string" where
  "strip_dashes s = rev (dropWhile (\<lambda>c. c = CHR ''-'') (rev (dropWhile (\<lambda>c. c = CHR ''-'') s)))"

definition slug_base :: "string \<Rightarrow> string" where
  "slug_base host =
     (let base = take 40 (strip_dashes (filter slug_char
          (to_lower (takeWhile (\<lambda>c. c \<noteq> CHR ''.'') host))))
      in if base = [] then ''community'' else base)"

definition slug_stem :: "string \<Rightarrow> string" where
  "slug_stem host =
     (let base = slug_base host in if 2 \<le> length base then base else base @ ''-community'')"

definition slug_candidate :: "string \<Rightarrow> nat \<Rightarrow> string" where
  "slug_candidate stem attempt =
     (if attempt = 0 then stem else take 40 (stem @ ''-'' @ show_nat (attempt + 1)))"

definition slug_taken :: "uuid \<Rightarrow> string \<Rightarrow> db \<Rightarrow> bool" where
  "slug_taken community slug d \<longleftrightarrow>
     has_row (\<lambda>c. map_option to_lower (com_slug c) = Some (to_lower slug) \<and> com_id c \<noteq> community)
       (communities d)"

definition set_slug :: "uuid \<Rightarrow> string \<Rightarrow> (db, string) tx" where
  "set_slug community slug =
     tx_bind (tx_check (\<lambda>d. slug_check slug) (Pg ''23514'')) (\<lambda>_.
     tx_bind (tx_check (\<lambda>d. \<not> has_row (\<lambda>c. com_slug c = Some slug \<and> com_id c \<noteq> community)
        (communities d)) (Pg ''23505'')) (\<lambda>_.
     tx_bind (tx_write (\<lambda>d. d\<lparr>communities := update_where (\<lambda>c. com_id c = community)
        (\<lambda>c. c\<lparr>com_slug := Some slug\<rparr>) (communities d)\<rparr>)) (\<lambda>_.
     tx_return slug)))"

text \<open>The loop \<open>for (attempt = 0; attempt < 50; ...)\<close>: \<open>left\<close> attempts remain.\<close>

fun assign_slug :: "nat \<Rightarrow> uuid \<Rightarrow> string \<Rightarrow> nat \<Rightarrow> (db, string) tx" where
  "assign_slug 0 community stem attempt = tx_throw (Api ''invalid_input'' 400)"
| "assign_slug (Suc left) community stem attempt =
     tx_bind (tx_read (slug_taken community (slug_candidate stem attempt))) (\<lambda>taken.
     if taken then assign_slug left community stem (Suc attempt)
     else set_slug community (slug_candidate stem attempt))"

definition max_slug_attempts :: nat where
  "max_slug_attempts = 50"

definition ensure_community_slug :: "uuid \<Rightarrow> (db, string) tx" where
  "ensure_community_slug community =
     tx_bind (tx_row (\<lambda>d. Option.bind (community_by_id d community) (\<lambda>c.
        map_option (\<lambda>k. (com_slug c, cand_host k)) (candidate_of d c)))
        (Api ''invalid_input'' 404)) (\<lambda>(slug, host).
     if slug \<noteq> None \<and> trim (the slug) \<noteq> [] then tx_return (the slug)
     else assign_slug max_slug_attempts community (slug_stem host) 0)"

definition get_community_slug :: "uuid \<Rightarrow> db \<Rightarrow> string option" where
  "get_community_slug community d = Option.bind (community_by_id d community) com_slug"

section \<open>The schema is kept\<close>

lemma communities_ok_update:
  assumes "communities_ok cs"
    and "\<And>c. com_id (f c) = com_id c \<and> com_candidate (f c) = com_candidate c \<and>
      com_slug (f c) = com_slug c"
  shows "communities_ok (update_where P f cs)"
proof -
  have "map com_id (update_where P f cs) = map com_id cs"
    "map com_candidate (update_where P f cs) = map com_candidate cs"
    using assms(2) by simp_all
  moreover have "unique_where (\<lambda>c. com_slug c \<noteq> None) com_slug (update_where P f cs)"
    using assms by (intro unique_where_update) (simp_all add: communities_ok_def)
  ultimately show ?thesis using assms
    by (auto simp: communities_ok_def list_all_iff set_update_where)
qed

lemma communities_ok_append:
  assumes "communities_ok cs" "\<not> has_row (\<lambda>x. com_id x = com_id c) cs"
    "\<not> has_row (\<lambda>x. com_candidate x = com_candidate c) cs" "com_slug c = None"
  shows "communities_ok (cs @ [c])"
  using assms distinct_map_append1 [of com_id cs c] distinct_map_append1 [of com_candidate cs c]
    unique_where_append1 [of "\<lambda>c. com_slug c \<noteq> None" com_slug cs c]
  by (simp add: communities_ok_def)

lemma communities_ok_set_slug:
  assumes ok: "communities_ok cs" and check: "slug_check slug"
    and free: "\<not> has_row (\<lambda>c. com_slug c = Some slug \<and> com_id c \<noteq> i) cs"
  shows "communities_ok (update_where (\<lambda>c. com_id c = i) (\<lambda>c. c\<lparr>com_slug := Some slug\<rparr>) cs)"
proof -
  let ?f = "\<lambda>c. c\<lparr>com_slug := Some slug\<rparr>" and ?P = "\<lambda>c. com_id c = i"
  have ids: "map com_id (update_where ?P ?f cs) = map com_id cs"
    "map com_candidate (update_where ?P ?f cs) = map com_candidate cs" by simp_all
  have "unique_where (\<lambda>c. com_slug c \<noteq> None) com_slug (update_where ?P ?f cs)"
    using ok free
  proof (induction cs)
    case Nil
    then show ?case by simp
  next
    case (Cons c cs)
    then have tail: "unique_where (\<lambda>c. com_slug c \<noteq> None) com_slug (update_where ?P ?f cs)"
      by (auto simp: communities_ok_def unique_where_def split: if_splits)
    show ?case
    proof (cases "com_id c = i")
      case True
      have "com_id c \<notin> com_id ` set cs" using Cons.prems(1) by (simp add: communities_ok_def)
      with True have other: "com_id x \<noteq> i" if "x \<in> set cs" for x
        using that by (metis imageI)
      have "unique_where (\<lambda>c. com_slug c \<noteq> None) com_slug cs"
        using Cons.prems(1) by (auto simp: communities_ok_def unique_where_def split: if_splits)
      moreover have "update_where ?P ?f cs = cs"
        using other by (intro update_where_id) simp
      moreover have "com_slug x \<noteq> Some slug" if "x \<in> set cs" for x
        using Cons.prems(2) other that by (auto simp: has_row_iff)
      ultimately show ?thesis using True by (auto simp: unique_where_def)
    next
      case False
      have "com_slug x \<noteq> com_slug c \<or> com_slug c = None" if "x \<in> set cs" for x
      proof (rule ccontr)
        assume "\<not> (com_slug x \<noteq> com_slug c \<or> com_slug c = None)"
        moreover have "unique_where (\<lambda>c. com_slug c \<noteq> None) com_slug (c # cs)"
          using Cons.prems(1) by (simp add: communities_ok_def)
        ultimately have "x = c" using that
          by (intro unique_where_unique [of "\<lambda>c. com_slug c \<noteq> None" com_slug "c # cs"]) auto
        moreover have "com_id c \<notin> com_id ` set cs"
          using Cons.prems(1) by (simp add: communities_ok_def)
        ultimately show False using that by blast
      qed
      moreover have "com_slug c \<noteq> Some slug"
        using Cons.prems(2) False by simp
      ultimately show ?thesis using False tail
        by (auto simp: unique_where_def set_update_where split: if_splits)
    qed
  qed
  moreover have "list_all (\<lambda>c. case com_slug c of None \<Rightarrow> True | Some s \<Rightarrow> slug_check s)
      (update_where ?P ?f cs)"
    using ok check by (auto simp: communities_ok_def list_all_iff set_update_where)
  ultimately show ?thesis using ok ids by (simp add: communities_ok_def)
qed

lemma set_slug_keeps [keeps_intros]: "keeps schema_ok (set_slug i slug)"
  by (rule keepsI) (auto simp: set_slug_def tx_inversion
      intro: schema_ok_update communities_ok_set_slug schema_ok_tables)

lemma assign_slug_keeps [keeps_intros]: "keeps schema_ok (assign_slug n i stem k)"
  by (induction n arbitrary: k) (auto intro!: keeps_intros)

lemma ensure_slug_keeps [keeps_intros]: "keeps schema_ok (ensure_community_slug i)"
  unfolding ensure_community_slug_def by (intro keeps_intros) (auto intro!: keeps_intros)

lemma upsert_community_keeps [keeps_intros]: "keeps schema_ok (upsert_community fresh k w)"
proof (rule keepsI)
  fix s a s' assume ok: "schema_ok s" and run: "upsert_community fresh k w s = Inr (a, s')"
  have cs: "communities_ok (communities s)" using ok by (rule schema_ok_tables)
  show "schema_ok s'"
  proof (cases "find (\<lambda>c. com_candidate c = k) (communities s)")
    case None
    with run cs show ?thesis
      by (auto simp: upsert_community_def find_None_set has_row_iff enroll_row_def split: if_splits
          intro!: schema_ok_update(1) [OF ok] communities_ok_append)
  next
    case (Some c)
    with run cs show ?thesis
      by (auto simp: upsert_community_def keep_owner_def
          intro!: schema_ok_update(1) [OF ok] communities_ok_update)
  qed
qed

lemma enroll_keeps [keeps_intros]: "keeps schema_ok (enroll_verified_community fresh k w)"
  unfolding enroll_verified_community_def by (intro keeps_intros)

section \<open>What a handle assignment does\<close>

lemma slug_char_not_space: "slug_char c \<Longrightarrow> \<not> js_space c"
  by (auto simp: slug_char_def js_space_def is_lower_def is_digit_def less_eq_char_def)

lemma slug_char_lower: "slug_char c \<Longrightarrow> js_lower_char c = c"
  by (auto simp: slug_char_def js_lower_char_def is_lower_def is_digit_def less_eq_char_def Let_def)

lemma slug_check_lower: "slug_check s \<Longrightarrow> to_lower s = s"
  unfolding slug_check_def to_lower_def list_all_iff
  by (intro map_idI) (simp add: slug_char_lower)

lemma dropWhile_none: "list_all (\<lambda>c. \<not> P c) s \<Longrightarrow> dropWhile P s = s"
  by (cases s) auto

lemma slug_check_trim: "slug_check s \<Longrightarrow> trim s = s"
proof -
  assume "slug_check s"
  then have "list_all (\<lambda>c. \<not> js_space c) s" "list_all (\<lambda>c. \<not> js_space c) (rev s)"
    by (auto simp: slug_check_def list_all_iff slug_char_not_space)
  then show ?thesis by (simp add: trim_def trim_end_def trim_start_def dropWhile_none)
qed

lemma set_slug_Inr:
  "set_slug i slug d = Inr (r, d') \<Longrightarrow> r = slug \<and> slug_check slug \<and>
     d' = d\<lparr>communities := update_where (\<lambda>c. com_id c = i) (\<lambda>c. c\<lparr>com_slug := Some slug\<rparr>)
       (communities d)\<rparr>"
  by (auto simp: set_slug_def tx_inversion)

lemma assign_slug_Inr:
  "assign_slug n i stem k d = Inr (r, d') \<Longrightarrow>
     \<not> slug_taken i r d \<and> set_slug i r d = Inr (r, d')"
proof (induction n arbitrary: k)
  case 0
  then show ?case by (simp add: tx_inversion)
next
  case (Suc n)
  then show ?case
    by (auto simp: tx_inversion split: if_splits dest: set_slug_Inr)
qed

lemma slug_candidate_full:
  "length stem = 40 \<Longrightarrow> slug_candidate stem k = stem"
  by (simp add: slug_candidate_def)

lemma assign_slug_full_stem:
  "length stem = 40 \<Longrightarrow> slug_taken i stem d \<Longrightarrow>
   assign_slug n i stem k d = Inl (Api ''invalid_input'' 400)"
  by (induction n arbitrary: k) (simp_all add: tx_defs slug_candidate_full)

lemma community_by_id_Some:
  "schema_ok d \<Longrightarrow> community_by_id d i = Some c \<longleftrightarrow> c \<in> set (communities d) \<and> com_id c = i"
  using schema_ok_tables(2) [of d]
  by (simp add: community_by_id_def communities_ok_def find_key_iff)

lemma community_slug_checked:
  "schema_ok d \<Longrightarrow> c \<in> set (communities d) \<Longrightarrow> com_slug c = Some s \<Longrightarrow> slug_check s"
  using schema_ok_tables(2) [of d] by (force simp: communities_ok_def list_all_iff)

lemma ensure_slug_Inr:
  assumes "ensure_community_slug i d = Inr (s, d')"
  obtains (had) c where "community_by_id d i = Some c" "com_slug c = Some s" "d' = d"
  | (assigned) c k where "community_by_id d i = Some c" "candidate_of d c = Some k"
      "assign_slug max_slug_attempts i (slug_stem (cand_host k)) 0 d = Inr (s, d')"
  using assms
  by (auto simp: ensure_community_slug_def tx_inversion bind_eq_Some_conv split: if_splits)

lemma candidate_of_update: "candidate_of (d\<lparr>communities := cs\<rparr>) c = candidate_of d c"
  by (simp add: candidate_of_def)

lemma slug_owner_unique:
  "communities_ok cs \<Longrightarrow> x \<in> set cs \<Longrightarrow> c \<in> set cs \<Longrightarrow> com_slug x = Some t \<Longrightarrow>
   com_slug c = Some t \<Longrightarrow> x = c"
  by (rule unique_where_unique [of "\<lambda>c. com_slug c \<noteq> None" com_slug cs])
    (simp_all add: communities_ok_def)

lemma ensure_slug_result:
  assumes ok: "schema_ok d" and run: "ensure_community_slug i d = Inr (s, d')"
  shows "get_community_slug i d' = Some s \<and> slug_check s \<and> \<not> slug_taken i s d' \<and>
    ensure_community_slug i d' = Inr (s, d')"
proof -
  have ok': "schema_ok d'" using keepsD [OF ensure_slug_keeps ok run] .
  have slug: "get_community_slug i d' = Some s" and k: "\<exists>c k. community_by_id d' i = Some c \<and>
      com_slug c = Some s \<and> candidate_of d' c = Some k"
    using run
  proof (atomize (full), cases rule: ensure_slug_Inr)
    case (had c)
    with run show "get_community_slug i d' = Some s \<and> (\<exists>c k. community_by_id d' i = Some c \<and>
      com_slug c = Some s \<and> candidate_of d' c = Some k)"
      by (auto simp: get_community_slug_def ensure_community_slug_def tx_inversion
          bind_eq_Some_conv)
  next
    case (assigned c k)
    then have d': "d' = d\<lparr>communities := update_where (\<lambda>c. com_id c = i)
        (\<lambda>c. c\<lparr>com_slug := Some s\<rparr>) (communities d)\<rparr>"
      by (auto dest!: assign_slug_Inr set_slug_Inr)
    have c: "c \<in> set (communities d)" "com_id c = i"
      using assigned(1) by (auto simp: community_by_id_Some [OF ok])
    then have "c\<lparr>com_slug := Some s\<rparr> \<in> set (communities d')"
      by (auto simp: d' set_update_where)
    with c(2) have "community_by_id d' i = Some (c\<lparr>com_slug := Some s\<rparr>)"
      by (simp add: community_by_id_Some [OF ok'])
    moreover note d'
    ultimately show "get_community_slug i d' = Some s \<and> (\<exists>c k. community_by_id d' i = Some c \<and>
      com_slug c = Some s \<and> candidate_of d' c = Some k)"
      using assigned(2) by (simp add: get_community_slug_def candidate_of_def)
  qed
  then obtain c k where c: "c \<in> set (communities d')" "com_id c = i" "com_slug c = Some s"
    "community_by_id d' i = Some c" "candidate_of d' c = Some k"
    by (auto simp: community_by_id_Some ok')
  then have check: "slug_check s" using community_slug_checked [OF ok'] by blast
  have "\<not> slug_taken i s d'"
  proof
    assume "slug_taken i s d'"
    then obtain x where x: "x \<in> set (communities d')" "com_id x \<noteq> i"
      "map_option to_lower (com_slug x) = Some (to_lower s)"
      by (auto simp: slug_taken_def has_row_iff)
    then obtain t where "com_slug x = Some t" "to_lower t = to_lower s" by auto
    with community_slug_checked [OF ok'] x(1) check have "com_slug x = com_slug c"
      by (metis c(3) slug_check_lower)
    with c(3) have "com_slug x = Some s" by simp
    with x(1,2) c(1-3) slug_owner_unique [OF schema_ok_tables(2) [OF ok']] show False by blast
  qed
  moreover have "ensure_community_slug i d' = Inr (s, d')"
    using c check slug_check_trim [OF check]
    by (auto simp: ensure_community_slug_def tx_defs slug_check_def)
  ultimately show ?thesis using slug check by simp
qed

section \<open>Properties\<close>


text \<open>
  A two-character host label can never get a handle: \<open>ensureCommunitySlug\<close>
  accepts a stem of two characters, the column's check demands three, so the
  UPDATE raises a check violation instead of a handle or a product error.
\<close>

lemma two_character_handle_is_refused:
  assumes "community_by_id d i = Some c" and "candidate_of d c = Some k"
    and "com_slug c = None" and "length (slug_stem (cand_host k)) = 2"
    and "\<not> slug_taken i (slug_stem (cand_host k)) d"
  shows "with_transaction (ensure_community_slug i) d = (Inl (Pg ''23514''), d)"
proof -
  have "\<not> slug_check (slug_stem (cand_host k))" using assms(4) by (simp add: slug_check_def)
  moreover have "assign_slug (Suc 49) i (slug_stem (cand_host k)) 0 d =
      set_slug i (slug_stem (cand_host k)) d"
    using assms(5) unfolding assign_slug.simps(2) by (simp add: tx_defs slug_candidate_def)
  then have "assign_slug max_slug_attempts i (slug_stem (cand_host k)) 0 d =
      set_slug i (slug_stem (cand_host k)) d"
    by (simp add: max_slug_attempts_def)
  ultimately show ?thesis
    using assms by (simp add: ensure_community_slug_def with_transaction_def tx_defs set_slug_def
        slug_candidate_def)
qed

text \<open>
  The numeric suffix is lost on long hosts: when a 40-character stem is taken,
  cutting \<open>stem-2\<close>, \<open>stem-3\<close>, ... back to 40 characters gives the taken stem each time,
  so all 50 attempts fail and no handle is assigned.
\<close>

lemma long_handle_exhausts_attempts:
  assumes "community_by_id d i = Some c" and "candidate_of d c = Some k"
    and "com_slug c = None" and "length (slug_stem (cand_host k)) = 40"
    and "slug_taken i (slug_stem (cand_host k)) d"
  shows "with_transaction (ensure_community_slug i) d = (Inl (Api ''invalid_input'' 400), d)"
  using assms assign_slug_full_stem [OF assms(4,5)]
  by (simp add: ensure_community_slug_def with_transaction_def tx_defs)

text \<open>
  Redeeming an invite enrolls only a verified community and never replaces its
  owner: the identity returned is the community of that candidate, with the owner it
  already had if it had one and the session's principal otherwise; the schema holds
  and every other community is unchanged.
\<close>

lemma enroll_keeps_first_owner:
  assumes ok: "schema_ok d"
    and run: "with_transaction (enroll_verified_community fresh cand w) d = (Inr v, d')"
  shows "schema_ok d' \<and>
    (\<exists>k \<in> set (candidates d). cand_id k = cand \<and> cand_state k = Verified_buzz) \<and>
    (case find (\<lambda>c. com_candidate c = cand) (communities d) of
       Some c \<Rightarrow> vi_community v = com_id c \<and> (com_owner c \<noteq> None \<longrightarrow> com_owner c = Some (vi_owner v))
     | None \<Rightarrow> vi_community v = fresh \<and> vi_owner v = w) \<and>
    (\<forall>x \<in> set (communities d). com_candidate x \<noteq> cand \<longrightarrow> x \<in> set (communities d'))"
proof -
  have tx: "enroll_verified_community fresh cand w d = Inr (v, d')"
    using run by (simp add: with_transaction_Inr)
  have "schema_ok d'" using keepsD [OF enroll_keeps ok tx] .
  with tx show ?thesis
    by (auto simp: enroll_verified_community_def tx_inversion assert_hex_Inr upsert_community_def
        keep_owner_def enroll_row_def set_update_where
        split: option.splits if_splits dest!: find_Some_set)
qed

end
