(* ===== verification/Hub.thy ===== *)
theory Hub
  imports Routing Communities "HOL-Library.Product_Lexorder"
begin

text \<open>
  The open hub of src/shared-channels/store.ts: joining, the membership view,
  settings, and the direct (dedicated) channels a community holds to single
  peers.  Text that PostgreSQL orders is ordered by code unit (the C collation).
\<close>

section \<open>Joining\<close>

record join_input =
  join_community :: uuid
  join_channel :: string
  join_channel_name :: string
  join_owner :: string

text \<open>The ids \<open>gen_random_uuid()\<close> hands out during one join.\<close>

record join_ids =
  new_hub :: uuid
  new_home_endpoint :: uuid
  new_endpoint :: uuid

definition hub_channel :: "db \<Rightarrow> uuid \<Rightarrow> bool" where
  "hub_channel d i \<longleftrightarrow>
     (case channel_by_id d i of None \<Rightarrow> False | Some c \<Rightarrow> ch_mode c = Mode_hub)"

definition hub_member :: "db \<Rightarrow> uuid \<Rightarrow> bool" where
  "hub_member d community \<longleftrightarrow>
     has_row (\<lambda>e. hub_channel d (ep_channel e) \<and> ep_community e = community \<and>
       ep_state e \<noteq> Endpoint_disconnected) (endpoints d)"

definition participant_row ::
  "time \<Rightarrow> uuid \<Rightarrow> uuid \<Rightarrow> uuid \<Rightarrow> uuid \<Rightarrow> string \<Rightarrow> string \<Rightarrow> string \<Rightarrow> uuid option \<Rightarrow> endpoint" where
  "participant_row now i channel community connection relay local name dedicated =
     \<lparr>ep_id = i, ep_channel = channel, ep_community = community,
      ep_connection = Some connection, ep_state = Endpoint_active, ep_relay_url = Some relay,
      ep_local_channel = Some local, ep_local_name = Some name,
      ep_cursor = Some (epoch_seconds now), ep_sends = True, ep_receives = True,
      ep_filter_mode = Everyone_except, ep_filter_list = [], ep_dedicated_to = dedicated,
      ep_created_at = now\<rparr>"

definition home_rows :: "env \<Rightarrow> db \<Rightarrow> (community \<times> connection) list" where
  "home_rows v d =
     concat (map (\<lambda>c. map (\<lambda>n. (c, n))
         (filter (\<lambda>n. conn_community n = com_id c \<and> conn_state n = Active) (connections d)))
       (filter (\<lambda>c. com_owner c \<noteq> None \<and> verified_community d c \<and>
          map_option cand_host (candidate_of d c) = Some (home_community_host v))
        (communities d)))"

text \<open>The hub row, created with the home community's own endpoint when missing.\<close>

definition open_hub :: "env \<Rightarrow> time \<Rightarrow> join_ids \<Rightarrow> (db, uuid \<times> uuid option) tx" where
  "open_hub v now ids =
     tx_bind (tx_read (\<lambda>d. find (\<lambda>c. ch_mode c = Mode_hub) (channels d))) (\<lambda>hub.
     case hub of
       Some c \<Rightarrow> tx_return (ch_id c, None)
     | None \<Rightarrow>
         tx_bind (tx_row (\<lambda>d. first_by (\<lambda>(c, n). com_id c) (home_rows v d))
            (Api ''featured_unavailable'' 503)) (\<lambda>(home, conn).
         tx_bind (insert_channel
            \<lparr>ch_id = new_hub ids, ch_state = Channel_active, ch_mode = Mode_hub\<rparr>) (\<lambda>_.
         tx_bind (insert_endpoint (participant_row now (new_home_endpoint ids) (new_hub ids)
            (com_id home) (conn_id conn) (conn_relay_url conn) (home_community_channel_id v)
            ''general'' None)) (\<lambda>_.
         tx_return (new_hub ids, Some (com_id home))))))"

definition join_tx :: "env \<Rightarrow> time \<Rightarrow> join_ids \<Rightarrow> join_input \<Rightarrow> (db, unit) tx" where
  "join_tx v now ids i =
     tx_bind (assert_text (join_channel i) 1 200 False) (\<lambda>_.
     tx_bind (assert_text (join_channel_name i) 1 80 False) (\<lambda>_.
     tx_bind (require_verified_owner (join_community i) (join_owner i)) (\<lambda>relay.
     tx_bind (require_active_connection (join_community i)) (\<lambda>(conn, _).
     tx_bind (ensure_community_slug (join_community i)) (\<lambda>_.
     tx_bind (tx_read (\<lambda>d. hub_member d (join_community i))) (\<lambda>member.
     if member then tx_return ()
     else
       tx_bind (assert_channel_not_routed (join_community i) (join_channel i) None) (\<lambda>_.
       tx_bind (open_hub v now ids) (\<lambda>(hub, home).
       if home = Some (join_community i) then tx_return ()
       else insert_endpoint (participant_row now (new_endpoint ids) hub (join_community i)
              conn relay (join_channel i) (join_channel_name i) None)))))))))"

section \<open>The membership view\<close>

record hub_outcome =
  out_community :: uuid
  out_community_name :: "string option"
  out_error :: "string option"
  out_message :: uuid
  out_state :: delivery_state
  out_updated_at :: time

record hub_membership =
  hm_community :: uuid
  hm_endpoint :: uuid
  hm_filter_list :: "uuid list"
  hm_filter_mode :: filter_mode
  hm_local_channel :: "string option"
  hm_local_name :: "string option"
  hm_members :: "(uuid \<times> string option) list"
  hm_outcomes :: "hub_outcome list"
  hm_receives :: bool
  hm_sends :: bool
  hm_shared_channel :: uuid

definition inbox_of :: "db \<Rightarrow> uuid \<Rightarrow> endpoint \<Rightarrow> bool" where
  "inbox_of d community e \<longleftrightarrow> hub_channel d (ep_channel e) \<and> ep_community e = community \<and>
     ep_state e = Endpoint_active \<and> ep_dedicated_to e = None"

definition name_of_community :: "db \<Rightarrow> uuid \<Rightarrow> string option" where
  "name_of_community d i = Option.bind (community_by_id d i) (display_of d)"

text \<open>An option as \<open>ORDER BY ... NULLS LAST\<close> sorts it.\<close>

definition nulls_last :: "string option \<Rightarrow> bool \<times> string" where
  "nulls_last x = (case x of Some s \<Rightarrow> (False, s) | None \<Rightarrow> (True, []))"

definition has_identity :: "db \<Rightarrow> uuid \<Rightarrow> bool" where
  "has_identity d i \<longleftrightarrow>
     (case community_by_id d i of None \<Rightarrow> False | Some c \<Rightarrow> candidate_of d c \<noteq> None)"

definition hub_members :: "db \<Rightarrow> uuid \<Rightarrow> uuid \<Rightarrow> (uuid \<times> string option) list" where
  "hub_members d channel community =
     sort_key (\<lambda>(i, name). (nulls_last name, i))
       (map (\<lambda>e. (ep_community e, name_of_community d (ep_community e)))
         (filter (\<lambda>e. ep_channel e = channel \<and> ep_state e = Endpoint_active \<and>
            ep_dedicated_to e = None \<and> ep_community e \<noteq> community \<and>
            has_identity d (ep_community e)) (endpoints d)))"

definition outcome_rows :: "db \<Rightarrow> uuid \<Rightarrow> (delivery \<times> message \<times> endpoint) list" where
  "outcome_rows d source =
     filter (\<lambda>(x, m, e). msg_source m = source \<and> has_identity d (ep_community e))
       (concat (map (\<lambda>x.
          case (message_by_id d (dl_message x), endpoint_by_id d (dl_destination x)) of
            (Some m, Some e) \<Rightarrow> [(x, m, e)] | _ \<Rightarrow> []) (deliveries d)))"

definition recent_outcomes :: "db \<Rightarrow> uuid \<Rightarrow> hub_outcome list" where
  "recent_outcomes d source =
     map (\<lambda>(x, m, e). \<lparr>out_community = ep_community e,
            out_community_name = name_of_community d (ep_community e), out_error = dl_error x,
            out_message = dl_message x, out_state = dl_state x, out_updated_at = dl_updated_at x\<rparr>)
       (take 50 (sort_key (\<lambda>(x, m, e). (- dl_updated_at x, dl_id x)) (outcome_rows d source)))"

definition membership_endpoint :: "db \<Rightarrow> uuid \<Rightarrow> string \<Rightarrow> endpoint option" where
  "membership_endpoint d community owner =
     find (\<lambda>e. inbox_of d community e \<and>
       Option.bind (community_by_id d community) com_owner = Some owner) (endpoints d)"

definition get_open_hub_membership :: "uuid \<Rightarrow> string \<Rightarrow> (db, hub_membership) tx" where
  "get_open_hub_membership community owner =
     tx_bind (assert_hex owner 64) (\<lambda>_.
     tx_row (\<lambda>d. map_option (\<lambda>e.
       \<lparr>hm_community = community, hm_endpoint = ep_id e, hm_filter_list = ep_filter_list e,
        hm_filter_mode = ep_filter_mode e, hm_local_channel = ep_local_channel e,
        hm_local_name = ep_local_name e, hm_members = hub_members d (ep_channel e) community,
        hm_outcomes = recent_outcomes d (ep_id e), hm_receives = ep_receives e,
        hm_sends = ep_sends e, hm_shared_channel = ep_channel e\<rparr>)
       (membership_endpoint d community owner))
       (Api ''hub_membership_not_found'' 404))"

definition join_open_hub ::
  "env \<Rightarrow> time \<Rightarrow> join_ids \<Rightarrow> join_input \<Rightarrow> db \<Rightarrow> hub_membership res \<times> db" where
  "join_open_hub v now ids i =
     call_then (with_transaction (join_tx v now ids i))
       (\<lambda>_. with_transaction (get_open_hub_membership (join_community i) (join_owner i)))"

section \<open>Settings\<close>

record settings_input =
  set_community :: uuid
  set_filter_list :: "string list"
  set_filter_mode :: filter_mode
  set_local_channel :: "string option"
  set_local_name :: "string option"
  set_owner :: string
  set_receives :: bool
  set_sends :: bool

text \<open>An UPDATE of endpoints: PostgreSQL rejects it when a check or a unique index fails.\<close>

definition endpoints_unique :: "endpoint list \<Rightarrow> bool" where
  "endpoints_unique es \<longleftrightarrow> distinct (map ep_id es) \<and> unique_where live ep_local_key es \<and>
     distinct (map ep_peer_key es)"

definition update_endpoints :: "(endpoint \<Rightarrow> bool) \<Rightarrow> (endpoint \<Rightarrow> endpoint) \<Rightarrow> (db, unit) tx" where
  "update_endpoints P f =
     tx_bind (tx_check (\<lambda>d. list_all endpoint_check (update_where P f (endpoints d)))
        (Pg ''23514'')) (\<lambda>_.
     tx_bind (tx_check (\<lambda>d. endpoints_unique (update_where P f (endpoints d)))
        (Pg ''23505'')) (\<lambda>_.
     tx_write (\<lambda>d. d\<lparr>endpoints := update_where P f (endpoints d)\<rparr>)))"

fun assert_uuids :: "string list \<Rightarrow> ('s, unit) tx" where
  "assert_uuids [] = tx_return ()"
| "assert_uuids (x # xs) = tx_bind (assert_uuid x) (\<lambda>_. assert_uuids xs)"

definition text_or_empty :: "string option \<Rightarrow> string" where
  "text_or_empty x = (case x of Some s \<Rightarrow> s | None \<Rightarrow> [])"

definition settings_checks :: "settings_input \<Rightarrow> ('s, unit) tx" where
  "settings_checks i =
     tx_bind (if set_local_channel i \<noteq> None \<or> set_local_name i \<noteq> None
       then tx_bind (assert_text (text_or_empty (set_local_channel i)) 1 200 False)
              (\<lambda>_. assert_text (text_or_empty (set_local_name i)) 1 80 False)
       else tx_return ()) (\<lambda>_.
     assert_uuids (js_set (set_filter_list i)))"

text \<open>The rows of the query that counts the members a filter list names.\<close>

definition filter_members :: "db \<Rightarrow> uuid \<Rightarrow> uuid list \<Rightarrow> uuid list" where
  "filter_members d community wanted =
     concat (map (\<lambda>own. map ep_community
         (filter (\<lambda>e. ep_channel e = ep_channel own \<and> ep_state e = Endpoint_active \<and>
            ep_dedicated_to e = None \<and> ep_community e \<in> set wanted) (endpoints d)))
       (filter (inbox_of d community) (endpoints d)))"

definition apply_settings :: "time \<Rightarrow> settings_input \<Rightarrow> endpoint \<Rightarrow> endpoint" where
  "apply_settings now i e = e\<lparr>ep_sends := set_sends i, ep_receives := set_receives i,
     ep_filter_mode := set_filter_mode i,
     ep_filter_list := map as_uuid (js_set (set_filter_list i)),
     ep_local_channel := (case set_local_channel i of Some c \<Rightarrow> Some c | None \<Rightarrow> ep_local_channel e),
     ep_local_name := (case set_local_name i of Some n \<Rightarrow> Some n | None \<Rightarrow> ep_local_name e),
     ep_cursor := (if set_local_channel i = None \<or> set_local_channel i = ep_local_channel e
                   then ep_cursor e else Some (epoch_seconds now))\<rparr>"

definition settings_tx :: "time \<Rightarrow> settings_input \<Rightarrow> (db, unit) tx" where
  "settings_tx now i =
     tx_bind (settings_checks i) (\<lambda>_.
     tx_bind (require_verified_owner (set_community i) (set_owner i)) (\<lambda>_.
     tx_bind (tx_row (\<lambda>d. find (inbox_of d (set_community i)) (endpoints d))
        (Api ''hub_membership_not_found'' 404)) (\<lambda>own.
     tx_bind (case set_local_channel i of
         Some c \<Rightarrow> if Some c \<noteq> ep_local_channel own
                   then assert_channel_not_routed (set_community i) c (Some (ep_id own))
                   else tx_return ()
       | None \<Rightarrow> tx_return ()) (\<lambda>_.
     tx_bind (tx_check (\<lambda>d.
         length (filter_members d (set_community i) (map as_uuid (js_set (set_filter_list i))))
           = length (js_set (set_filter_list i)) \<and>
         set_community i \<notin> set (set_filter_list i))
        (Api ''hub_filter_invalid'' 400)) (\<lambda>_.
     tx_bind (tx_read (\<lambda>d. d)) (\<lambda>d.
     update_endpoints (inbox_of d (set_community i)) (apply_settings now i)))))))"

definition update_open_hub_settings ::
  "time \<Rightarrow> settings_input \<Rightarrow> db \<Rightarrow> hub_membership res \<times> db" where
  "update_open_hub_settings now i =
     call_then (with_transaction (settings_tx now i))
       (\<lambda>_. with_transaction (get_open_hub_membership (set_community i) (set_owner i)))"

section \<open>Direct channels\<close>

record home_endpoint =
  home_community :: uuid
  home_owner :: string
  home_shared_channel :: uuid

definition inbox_rows :: "db \<Rightarrow> (endpoint \<times> community \<times> string) list" where
  "inbox_rows d =
     concat (map (\<lambda>e.
        case community_by_id d (ep_community e) of
          None \<Rightarrow> []
        | Some c \<Rightarrow>
            (case com_owner c of None \<Rightarrow> []
             | Some w \<Rightarrow>
                 if hub_channel d (ep_channel e) \<and> channel_active d (ep_channel e) \<and>
                    ep_state e = Endpoint_active \<and> ep_dedicated_to e = None
                 then [(e, c, w)] else [])) (endpoints d))"

definition as_home :: "endpoint \<times> community \<times> string \<Rightarrow> home_endpoint" where
  "as_home = (\<lambda>(e, c, w). \<lparr>home_community = ep_community e, home_owner = w,
     home_shared_channel = ep_channel e\<rparr>)"

definition get_hub_home_endpoint :: "env \<Rightarrow> db \<Rightarrow> home_endpoint option" where
  "get_hub_home_endpoint v d =
     map_option as_home (first_by (\<lambda>(e, c, w). ep_community e)
       (filter (\<lambda>(e, c, w). map_option cand_host (candidate_of d c) = Some (home_community_host v))
         (inbox_rows d)))"

definition get_community_inbox_endpoint :: "uuid \<Rightarrow> db \<Rightarrow> home_endpoint option" where
  "get_community_inbox_endpoint community d =
     map_option as_home (find (\<lambda>(e, c, w). ep_community e = community) (inbox_rows d))"

definition has_direct_channel :: "db \<Rightarrow> uuid \<Rightarrow> uuid \<Rightarrow> uuid \<Rightarrow> bool" where
  "has_direct_channel d channel community peer \<longleftrightarrow>
     has_row (\<lambda>e. ep_channel e = channel \<and> ep_community e = community \<and>
       ep_dedicated_to e = Some peer) (endpoints d)"

definition peers_missing_channel :: "db \<Rightarrow> home_endpoint \<Rightarrow> uuid list" where
  "peers_missing_channel d home =
     map ep_community (sort_key (\<lambda>e. (ep_created_at e, ep_id e))
       (filter (\<lambda>e. ep_channel e = home_shared_channel home \<and> ep_state e = Endpoint_active \<and>
          ep_dedicated_to e = None \<and> ep_community e \<noteq> home_community home \<and>
          \<not> has_direct_channel d (ep_channel e) (home_community home) (ep_community e))
        (endpoints d)))"

definition list_hub_peers_missing_channel :: "home_endpoint \<Rightarrow> nat \<Rightarrow> db \<Rightarrow> uuid list" where
  "list_hub_peers_missing_channel home limit d = take limit (peers_missing_channel d home)"

text \<open>INSERT ... SELECT ... ON CONFLICT DO NOTHING RETURNING id.\<close>

definition attach_dedicated_peer_channel ::
  "time \<Rightarrow> uuid \<Rightarrow> home_endpoint \<Rightarrow> string \<Rightarrow> string \<Rightarrow> uuid \<Rightarrow> (db, bool) tx" where
  "attach_dedicated_peer_channel now fresh home local name peer =
     tx_bind (assert_text local 1 200 False) (\<lambda>_.
     tx_bind (assert_text name 1 80 False) (\<lambda>_.
     tx_bind (tx_read (\<lambda>d. find (\<lambda>e. ep_channel e = home_shared_channel home \<and>
         ep_community e = home_community home \<and> ep_state e = Endpoint_active \<and>
         ep_dedicated_to e = None) (endpoints d))) (\<lambda>inbox.
     case inbox of
       None \<Rightarrow> tx_return False
     | Some h \<Rightarrow>
         let row = (participant_row now fresh (ep_channel h) (ep_community h) [] [] local name
               (Some peer))\<lparr>ep_connection := ep_connection h, ep_relay_url := ep_relay_url h\<rparr>
         in tx_bind (tx_check (\<lambda>d. endpoint_check row) (Pg ''23514'')) (\<lambda>_.
            tx_bind (tx_read (endpoint_conflict row)) (\<lambda>conflict.
            if conflict then tx_return False
            else tx_bind (insert_endpoint row) (\<lambda>_. tx_return True))))))"

definition peer_handle :: "db \<Rightarrow> uuid \<Rightarrow> string" where
  "peer_handle d peer =
     (case get_community_slug peer d of Some s \<Rightarrow> s | None \<Rightarrow> peer)"

definition direct_open :: "uuid \<Rightarrow> uuid \<Rightarrow> endpoint \<Rightarrow> bool" where
  "direct_open community peer e \<longleftrightarrow> ep_community e = community \<and>
     ep_dedicated_to e = Some peer \<and> ep_state e = Endpoint_active \<and> (ep_sends e \<or> ep_receives e)"

definition direct_shut :: "uuid \<Rightarrow> uuid \<Rightarrow> endpoint \<Rightarrow> bool" where
  "direct_shut community peer e \<longleftrightarrow> ep_community e = community \<and>
     ep_dedicated_to e = Some peer \<and> ep_state e = Endpoint_active \<and>
     (\<not> ep_sends e \<or> \<not> ep_receives e)"

definition switch_endpoint :: "bool \<Rightarrow> endpoint \<Rightarrow> endpoint" where
  "switch_endpoint b e = e\<lparr>ep_sends := b, ep_receives := b\<rparr>"

definition unbind_dedicated_peer_channel :: "uuid \<Rightarrow> uuid \<Rightarrow> db \<Rightarrow> string option \<times> db" where
  "unbind_dedicated_peer_channel community peer d =
     (if has_row (direct_open community peer) (endpoints d) \<and> community_by_id d peer \<noteq> None
      then (Some (peer_handle d peer), d\<lparr>endpoints :=
        update_where (direct_open community peer) (switch_endpoint False) (endpoints d)\<rparr>)
      else (None, d))"

definition reopen_dedicated_peer_channel :: "uuid \<Rightarrow> uuid \<Rightarrow> db \<Rightarrow> bool \<times> db" where
  "reopen_dedicated_peer_channel community peer d =
     (has_row (direct_shut community peer) (endpoints d), d\<lparr>endpoints :=
        update_where (direct_shut community peer) (switch_endpoint True) (endpoints d)\<rparr>)"

definition peer_names :: "db \<Rightarrow> uuid list \<Rightarrow> string list" where
  "peer_names d peers =
     map (peer_handle d) (sort_key (\<lambda>p. (nulls_last (get_community_slug p d), p)) peers)"

definition list_direct_channel_peers :: "uuid \<Rightarrow> db \<Rightarrow> string list" where
  "list_direct_channel_peers community d =
     peer_names d (concat (map (\<lambda>e.
        case ep_dedicated_to e of None \<Rightarrow> []
        | Some p \<Rightarrow> if ep_community e = community \<and> ep_state e = Endpoint_active \<and> ep_receives e \<and>
                       community_by_id d p \<noteq> None then [p] else []) (endpoints d)))"

definition inbound_sources :: "uuid \<Rightarrow> db \<Rightarrow> uuid list" where
  "inbound_sources community d =
     concat (map (\<lambda>x.
        case (endpoint_by_id d (dl_destination x), message_by_id d (dl_message x)) of
          (Some inbox, Some m) \<Rightarrow>
            (case endpoint_by_id d (msg_source m) of None \<Rightarrow> []
             | Some src \<Rightarrow>
                 if ep_community inbox = community \<and> ep_dedicated_to inbox = None \<and>
                    ep_community src \<noteq> community \<and> community_by_id d (ep_community src) \<noteq> None \<and>
                    \<not> has_row (\<lambda>e. ep_community e = community \<and>
                        ep_dedicated_to e = Some (ep_community src) \<and>
                        ep_state e = Endpoint_active \<and> ep_receives e) (endpoints d)
                 then [ep_community src] else [])
        | _ \<Rightarrow> []) (deliveries d))"

definition list_inbound_without_direct_channel :: "uuid \<Rightarrow> db \<Rightarrow> string list" where
  "list_inbound_without_direct_channel community d =
     peer_names d (remdups (inbound_sources community d))"

definition find_routable_community_by_slug :: "uuid \<Rightarrow> string \<Rightarrow> db \<Rightarrow> (uuid \<times> string) option" where
  "find_routable_community_by_slug channel slug d =
     (case find (\<lambda>c. map_option to_lower (com_slug c) = Some (to_lower slug) \<and>
          has_row (\<lambda>e. ep_community e = com_id c \<and> ep_channel e = channel \<and>
            ep_state e = Endpoint_active \<and> ep_receives e) (endpoints d)) (communities d) of
        None \<Rightarrow> None
      | Some c \<Rightarrow> map_option (\<lambda>s. (com_id c, s)) (com_slug c))"

section \<open>The schema is kept\<close>

lemma open_hub_keeps [keeps_intros]: "keeps schema_ok (open_hub v now ids)"
  unfolding open_hub_def by (intro keeps_intros) (auto intro!: keeps_intros split: prod.splits)

lemma join_tx_keeps [keeps_intros]: "keeps schema_ok (join_tx v now ids i)"
  unfolding join_tx_def
  by (intro keeps_intros) (auto intro!: keeps_intros split: prod.splits)

lemma get_membership_keeps [keeps_intros]: "keeps schema_ok (get_open_hub_membership c w)"
  unfolding get_open_hub_membership_def by (intro keeps_intros)

lemma update_endpoints_keeps [keeps_intros]: "keeps schema_ok (update_endpoints P f)"
  by (rule keepsI) (auto simp: update_endpoints_def tx_inversion endpoints_unique_def
      endpoints_ok_def intro!: schema_ok_update(5))

lemma assert_uuids_keeps [keeps_intros]: "keeps I (assert_uuids xs)"
  by (induction xs) (auto intro!: keeps_intros)

lemma settings_checks_keeps [keeps_intros]: "keeps I (settings_checks i)"
  unfolding settings_checks_def by (intro keeps_intros)

lemma settings_tx_keeps [keeps_intros]: "keeps schema_ok (settings_tx now i)"
  unfolding settings_tx_def by (intro keeps_intros)

lemma attach_keeps [keeps_intros]: "keeps schema_ok (attach_dedicated_peer_channel now fresh h l n p)"
  unfolding attach_dedicated_peer_channel_def Let_def by (intro keeps_intros)

lemma switch_keeps:
  "schema_ok d \<Longrightarrow> (\<And>e. P e \<Longrightarrow> live e) \<Longrightarrow>
   schema_ok (d\<lparr>endpoints := update_where P (switch_endpoint b) (endpoints d)\<rparr>)"
  by (rule schema_ok_update(5), assumption, rule endpoints_ok_update)
    (auto simp: schema_ok_tables switch_endpoint_def ep_peer_key_def ep_local_key_def live_def
      endpoint_check_def split: option.splits)

lemma unbind_keeps: "schema_ok d \<Longrightarrow> schema_ok (snd (unbind_dedicated_peer_channel c p d))"
  by (auto simp: unbind_dedicated_peer_channel_def direct_open_def live_def intro!: switch_keeps)

lemma reopen_keeps: "schema_ok d \<Longrightarrow> schema_ok (snd (reopen_dedicated_peer_channel c p d))"
  by (auto simp: reopen_dedicated_peer_channel_def direct_shut_def live_def intro!: switch_keeps)

end
