(* ===== verification/Hub_Properties.thy ===== *)
theory Hub_Properties
  imports Hub
begin

text \<open>
  What the hub operations guarantee: a join is idempotent and yields one inbox, a
  filter list names current members, closing a direct channel falls back to the
  inbox and reopening restores it, and provisioning works through its list.
\<close>

section \<open>Membership\<close>

lemma hub_channel_unique:
  assumes "schema_ok d" "hub_channel d a" "hub_channel d b"
  shows "a = b"
proof -
  obtain x y where "x \<in> set (channels d)" "ch_id x = a" "ch_mode x = Mode_hub"
    "y \<in> set (channels d)" "ch_id y = b" "ch_mode y = Mode_hub"
    using assms(2,3) by (auto simp: hub_channel_def channel_by_id_def split: option.splits
        dest!: find_Some_set)
  moreover from this schema_ok_tables(5) [OF assms(1)] have "x = y"
    by (intro unique_where_unique [of "\<lambda>c. ch_mode c = Mode_hub" ch_mode "channels d"])
      (simp_all add: channels_ok_def)
  ultimately show ?thesis by simp
qed

lemma inbox_unique:
  assumes "schema_ok d" "e \<in> set (endpoints d)" "e' \<in> set (endpoints d)"
    "inbox_of d c e" "inbox_of d c e'"
  shows "e = e'"
  using assms hub_channel_unique [OF assms(1)]
  by (intro endpoints_peer_unique [OF schema_ok_tables(6) [OF assms(1)]])
    (auto simp: inbox_of_def)

lemma membership_Inr:
  assumes "get_open_hub_membership c w d = Inr (m, d')"
  obtains e where "d' = d" "membership_endpoint d c w = Some e" "e \<in> set (endpoints d)"
    "inbox_of d c e" "hm_endpoint m = ep_id e" "hm_filter_list m = ep_filter_list e"
    "hm_filter_mode m = ep_filter_mode e" "hm_sends m = ep_sends e"
    "hm_receives m = ep_receives e" "hm_local_channel m = ep_local_channel e"
proof -
  from assms obtain e where "d' = d" "membership_endpoint d c w = Some e"
    "hm_endpoint m = ep_id e" "hm_filter_list m = ep_filter_list e"
    "hm_filter_mode m = ep_filter_mode e" "hm_sends m = ep_sends e"
    "hm_receives m = ep_receives e" "hm_local_channel m = ep_local_channel e"
    by (auto simp: get_open_hub_membership_def tx_inversion assert_hex_Inr)
  moreover from this(2) have "e \<in> set (endpoints d)" "inbox_of d c e"
    unfolding membership_endpoint_def by (auto dest: find_Some_set)
  ultimately show thesis using that by blast
qed

lemma open_hub_frame:
  "open_hub v now ids d = Inr (r, d') \<Longrightarrow>
     candidates d' = candidates d \<and> communities d' = communities d"
  by (auto simp: open_hub_def tx_inversion insert_channel_def insert_endpoint_def
      split: option.splits prod.splits)

lemma join_tx_frame:
  assumes "join_tx v now ids i d = Inr (u, d')"
  obtains s d1 where "ensure_community_slug (join_community i) d = Inr (s, d1)"
    "candidates d' = candidates d1" "communities d' = communities d1"
proof -
  from assms obtain s d1 conn relay where
    slug: "ensure_community_slug (join_community i) d = Inr (s, d1)"
    and rest: "(if hub_member d1 (join_community i) then tx_return ()
     else
       tx_bind (assert_channel_not_routed (join_community i) (join_channel i) None) (\<lambda>_.
       tx_bind (open_hub v now ids) (\<lambda>(hub, home).
       if home = Some (join_community i) then tx_return ()
       else insert_endpoint (participant_row now (new_endpoint ids) hub (join_community i)
              conn relay (join_channel i) (join_channel_name i) None)))) d1 = Inr (u, d')"
    unfolding join_tx_def tx_inversion
    by (auto simp: tx_inversion assert_text_Inr
        dest!: require_verified_owner_Inr require_active_connection_Inr)
  have "candidates d' = candidates d1 \<and> communities d' = communities d1"
  proof (cases "hub_member d1 (join_community i)")
    case True
    with rest show ?thesis by (simp add: tx_inversion)
  next
    case False
    with rest obtain hub home d2 where "open_hub v now ids d1 = Inr ((hub, home), d2)"
      and "(if home = Some (join_community i) then tx_return ()
       else insert_endpoint (participant_row now (new_endpoint ids) hub (join_community i)
              conn relay (join_channel i) (join_channel_name i) None)) d2 = Inr (u, d')"
      by (auto simp: tx_inversion assert_channel_not_routed_Inr)
    with open_hub_frame show ?thesis
      by (auto simp: tx_inversion insert_endpoint_def split: if_splits)
  qed
  with slug that show thesis by blast
qed

lemma ensure_slug_cong:
  assumes "ensure_community_slug c d1 = Inr (s, d1)" "get_community_slug c d1 = Some s"
    "candidates d' = candidates d1" "communities d' = communities d1" "slug_check s"
  shows "ensure_community_slug c d' = Inr (s, d')"
proof -
  have ne: "trim s \<noteq> []" using slug_check_trim [OF assms(5)] assms(5) by (auto simp: slug_check_def)
  from assms(1,2) obtain x k where "community_by_id d1 c = Some x" "com_slug x = Some s"
    "candidate_of d1 x = Some k"
    by (auto simp: get_community_slug_def ensure_community_slug_def tx_inversion bind_eq_Some_conv)
  with assms(3,4) ne show ?thesis
    by (simp add: ensure_community_slug_def tx_defs community_by_id_def candidate_of_def)
qed

lemma rejoin_unchanged:
  assumes "ensure_community_slug (join_community i) d = Inr (s, d)"
    and "hub_member d (join_community i)"
  shows "snd (join_open_hub v now ids i d) = d"
proof -
  have "snd (with_transaction (join_tx v now ids i) d) = d"
  proof (cases "join_tx v now ids i d")
    case (Inl e)
    then show ?thesis by (simp add: with_transaction_def)
  next
    case (Inr p)
    then obtain u d' where "p = (u, d')" "join_tx v now ids i d = Inr (u, d')" by (cases p) auto
    with assms have "d' = d"
      unfolding join_tx_def
      by (auto simp: tx_inversion assert_text_Inr
          dest!: require_verified_owner_Inr require_active_connection_Inr)
    with Inr \<open>p = (u, d')\<close> show ?thesis by (simp add: with_transaction_def)
  qed
  moreover have "snd (with_transaction (get_open_hub_membership c w) d) = d" for c w
    by (auto simp: with_transaction_def split: sum.splits elim: membership_Inr)
  ultimately show ?thesis
    by (auto simp: join_open_hub_def call_then_def split: prod.splits sum.splits)
qed

lemma join_open_hub_Inr:
  assumes "join_open_hub v now ids i d = (Inr m, d')"
  shows "join_tx v now ids i d = Inr ((), d') \<and>
    get_open_hub_membership (join_community i) (join_owner i) d' = Inr (m, d')"
proof -
  from assms obtain u d1 where 1: "with_transaction (join_tx v now ids i) d = (Inr u, d1)"
    and 2: "with_transaction (get_open_hub_membership (join_community i) (join_owner i)) d1 = (Inr m, d')"
    by (auto simp: join_open_hub_def call_then_def split: prod.splits sum.splits)
  from 2 have "get_open_hub_membership (join_community i) (join_owner i) d1 = Inr (m, d')"
    by (simp add: with_transaction_Inr)
  moreover from this have "d' = d1" by (rule membership_Inr)
  ultimately show ?thesis using 1 by (simp add: with_transaction_Inr)
qed

text \<open>
  Joining the hub gives a community exactly one inbox, and is idempotent: after a
  join that returned, the community has one active ordinary endpoint in the hub (the
  one the returned membership names), and any later join of that community, with
  whatever channel and owner, leaves the database as it is.
\<close>

lemma join_is_idempotent:
  assumes ok: "schema_ok d" and run: "join_open_hub v now ids i d = (Inr m, d')"
    and same: "join_community i' = join_community i"
  shows "schema_ok d' \<and>
    (\<exists>!e. e \<in> set (endpoints d') \<and> inbox_of d' (join_community i) e) \<and>
    (\<exists>e \<in> set (endpoints d'). inbox_of d' (join_community i) e \<and> ep_id e = hm_endpoint m) \<and>
    snd (join_open_hub v now' ids' i' d') = d'"
proof -
  have tx: "join_tx v now ids i d = Inr ((), d')"
    and get: "get_open_hub_membership (join_community i) (join_owner i) d' = Inr (m, d')"
    using join_open_hub_Inr [OF run] by blast+
  have ok': "schema_ok d'" using keepsD [OF join_tx_keeps ok tx] .
  from get obtain e where e: "e \<in> set (endpoints d')" "inbox_of d' (join_community i) e"
    "hm_endpoint m = ep_id e" by (rule membership_Inr)
  from tx obtain s d1 where slug: "ensure_community_slug (join_community i) d = Inr (s, d1)"
    and frame: "candidates d' = candidates d1" "communities d' = communities d1"
    by (rule join_tx_frame)
  have "ensure_community_slug (join_community i) d' = Inr (s, d')"
    using ensure_slug_result [OF ok slug] frame by (blast intro: ensure_slug_cong)
  moreover have "hub_member d' (join_community i)"
    using e by (auto simp: hub_member_def has_row_iff inbox_of_def)
  ultimately have "snd (join_open_hub v now' ids' i' d') = d'"
    using same by (intro rejoin_unchanged) simp_all
  with ok' e inbox_unique [OF ok'] show ?thesis by metis
qed

section \<open>Direct channels\<close>

lemma filter_singleton:
  "distinct xs \<Longrightarrow> x \<in> set xs \<Longrightarrow> (\<And>y. y \<in> set xs \<Longrightarrow> P y \<longleftrightarrow> y = x) \<Longrightarrow> filter P xs = [x]"
proof (induction xs)
  case Nil
  then show ?case by simp
next
  case (Cons a xs)
  show ?case
  proof (cases "a = x")
    case True
    have "\<not> P y" if "y \<in> set xs" for y using Cons.prems(1,3) True that by auto
    then have "filter P xs = []" by (simp add: filter_empty_conv)
    with True Cons.prems(3) show ?thesis by simp
  next
    case False
    with Cons show ?thesis by simp
  qed
qed

lemma endpoints_ok_distinct: "endpoints_ok es \<Longrightarrow> distinct es"
  by (auto simp: endpoints_ok_def distinct_map)

lemma endpoints_id_unique:
  "endpoints_ok es \<Longrightarrow> e \<in> set es \<Longrightarrow> e' \<in> set es \<Longrightarrow> ep_id e = ep_id e' \<Longrightarrow> e = e'"
  by (rule distinct_key_unique [of ep_id es]) (simp_all add: endpoints_ok_def)

lemma unbind_Some:
  assumes "unbind_dedicated_peer_channel c p d = (Some s, d')"
  shows "endpoints d' = update_where (direct_open c p) (switch_endpoint False) (endpoints d)"
    and "\<exists>e \<in> set (endpoints d). direct_open c p e" and "s = peer_handle d p"
  using assms by (auto simp: unbind_dedicated_peer_channel_def has_row_iff split: if_splits)

text \<open>
  Closing a direct channel falls back to the inbox: after \<open>/close\<close> of the channel
  community \<open>c\<close> holds to peer \<open>p\<close>, a message that \<open>p\<close> addresses to \<open>c\<close> goes to exactly
  \<open>c\<close>'s ordinary endpoint, provided that endpoint receives and both filters allow it.
\<close>

lemma closing_falls_back_to_inbox:
  assumes ok: "schema_ok d" and close: "unbind_dedicated_peer_channel c p d = (Some s, d')"
    and src: "src \<in> set (endpoints d')" "ep_community src = p" "dedication_allows src c"
    and inbox: "x \<in> set (endpoints d')" "ep_community x = c" "ep_channel x = ch"
      "ep_dedicated_to x = None" "ep_receives x"
    and filters: "filter_allows x p" "filter_allows src c"
  shows "destinations_of d' ch src (Some c) = [x]"
proof -
  have ok': "endpoints_ok (endpoints d')"
    using unbind_keeps [OF ok, of c p] close by (auto intro: schema_ok_tables)
  note rows = unbind_Some(1) [OF close]
  have ne: "c \<noteq> p"
    using unbind_Some(2) [OF close] endpoint_not_dedicated_to_self [OF schema_ok_tables(6) [OF ok]]
    by (auto simp: direct_open_def)
  have shut: "\<not> ep_receives e" if "e \<in> set (endpoints d')" "ep_community e = c"
    "ep_dedicated_to e = Some p" for e
  proof -
    from that(1) obtain e0 where e0: "e0 \<in> set (endpoints d)"
      "e = (if direct_open c p e0 then switch_endpoint False e0 else e0)"
      unfolding rows set_update_where by blast
    show ?thesis
    proof (cases "direct_open c p e0")
      case True
      with e0(2) show ?thesis by (simp add: switch_endpoint_def)
    next
      case False
      with e0(2) have "e = e0" by simp
      with that False endpoints_ok_active [OF schema_ok_tables(6) [OF ok] e0(1)] show ?thesis
        by (simp add: direct_open_def)
    qed
  qed
  have only: "routable (endpoints d') ch src (Some c) e \<longleftrightarrow> e = x" if e: "e \<in> set (endpoints d')" for e
  proof
    assume r: "routable (endpoints d') ch src (Some c) e"
    then have "ep_dedicated_to e = None"
      using shut [OF e] src(2) by (auto simp: routable_def dedication_allows_def)
    with r e inbox show "e = x"
      by (intro endpoints_peer_unique [OF ok']) (auto simp: routable_def)
  next
    assume "e = x"
    moreover have "ep_id x \<noteq> ep_id src"
    proof
      assume "ep_id x = ep_id src"
      then have "x = src" by (rule endpoints_id_unique [OF ok' inbox(1) src(1)])
      with inbox(2) src(2) ne show False by simp
    qed
    moreover have "\<not> yields_to_dedicated (endpoints d') src x"
      using shut inbox src(2) by (auto simp: yields_to_dedicated_def has_row_iff)
    ultimately show "routable (endpoints d') ch src (Some c) e"
      using inbox filters src endpoints_ok_active [OF ok' inbox(1)]
      by (simp add: routable_def dedication_allows_def)
  qed
  show ?thesis unfolding destinations_of_def
    by (rule filter_singleton [OF endpoints_ok_distinct [OF ok'] inbox(1) only])
qed

text \<open>
  Reopening restores the direct channel: after \<open>/open\<close> of a channel \<open>c\<close> already
  holds to peer \<open>p\<close>, a message that \<open>p\<close> addresses to \<open>c\<close> goes to exactly that
  channel, switched on, and no longer to \<open>c\<close>'s inbox.
\<close>

lemma reopening_restores_direct_channel:
  assumes ok: "schema_ok d"
    and direct: "e \<in> set (endpoints d)" "ep_community e = c" "ep_dedicated_to e = Some p"
      "ep_channel e = ch" "filter_allows e p"
    and src: "src \<in> set (endpoints d)" "ep_community src = p" "dedication_allows src c"
      "filter_allows src c"
  shows "destinations_of (snd (reopen_dedicated_peer_channel c p d)) ch src (Some c) =
    [switch_endpoint True e]"
proof -
  let ?d = "snd (reopen_dedicated_peer_channel c p d)" and ?e = "switch_endpoint True e"
  have oke: "endpoints_ok (endpoints d)" using ok by (rule schema_ok_tables)
  have ok': "endpoints_ok (endpoints ?d)" using reopen_keeps [OF ok] by (rule schema_ok_tables)
  have rows: "endpoints ?d = update_where (direct_shut c p) (switch_endpoint True) (endpoints d)"
    by (simp add: reopen_dedicated_peer_channel_def)
  have active: "ep_state e = Endpoint_active" using endpoints_ok_active [OF oke direct(1)] .
  have "?e = (if direct_shut c p e then switch_endpoint True e else e)"
    using direct active by (cases e) (auto simp: direct_shut_def switch_endpoint_def)
  then have e: "?e \<in> set (endpoints ?d)"
    using direct(1) unfolding rows set_update_where by blast
  have ne: "c \<noteq> p" using endpoint_not_dedicated_to_self [OF oke direct(1)] direct by auto
  have src_same: "src \<in> set (endpoints ?d)"
    using src ne unfolding rows set_update_where by (auto simp: direct_shut_def image_iff)
  have only: "routable (endpoints ?d) ch src (Some c) y \<longleftrightarrow> y = ?e" if y: "y \<in> set (endpoints ?d)" for y
  proof
    assume r: "routable (endpoints ?d) ch src (Some c) y"
    have "ep_dedicated_to y \<noteq> None"
      using r e direct src(2) active
      by (auto simp: routable_def yields_to_dedicated_def has_row_iff switch_endpoint_def)
    with r y e direct src(2) show "y = ?e"
      by (intro endpoints_peer_unique [OF ok'])
        (auto simp: routable_def dedication_allows_def switch_endpoint_def)
  next
    assume "y = ?e"
    moreover have "ep_id ?e \<noteq> ep_id src"
    proof
      assume "ep_id ?e = ep_id src"
      then have "ep_id e = ep_id src" by (simp add: switch_endpoint_def)
      then have "e = src" by (rule endpoints_id_unique [OF oke direct(1) src(1)])
      with direct(2) src(2) ne show False by simp
    qed
    ultimately show "routable (endpoints ?d) ch src (Some c) y"
      using direct src active
      by (auto simp: routable_def dedication_allows_def yields_to_dedicated_def switch_endpoint_def
          filter_allows_def)
  qed
  show ?thesis unfolding destinations_of_def
    by (rule filter_singleton [OF endpoints_ok_distinct [OF ok'] e only])
qed

lemma attach_Inr:
  assumes "attach_dedicated_peer_channel now fresh home local name peer d = Inr (b, d')"
  obtains (none) "\<not> b" "d' = d"
  | (row) r where "b" "d' = d\<lparr>endpoints := endpoints d @ [r]\<rparr>" "ep_dedicated_to r = Some peer"
      "ep_channel r = home_shared_channel home" "ep_community r = home_community home"
      "ep_local_channel r = Some local" "ep_sends r" "ep_receives r"
  using assms
  by (auto simp: attach_dedicated_peer_channel_def tx_inversion assert_text_Inr Let_def
      insert_endpoint_def participant_row_def split: option.splits if_splits dest!: find_Some_set)

text \<open>
  Provisioning makes progress: binding a channel for a peer takes exactly that peer
  off the list of peers still missing one, and keeps the schema; so a pass that binds
  the head of a non-empty list leaves a strictly shorter list.
\<close>

lemma attach_takes_peer_off_the_list:
  assumes ok: "schema_ok d"
    and run: "with_transaction (attach_dedicated_peer_channel now fresh home local name peer) d
              = (Inr True, d')"
  shows "schema_ok d' \<and>
    peers_missing_channel d' home = filter (\<lambda>q. q \<noteq> peer) (peers_missing_channel d home) \<and>
    (peer \<in> set (peers_missing_channel d home) \<longrightarrow>
       length (peers_missing_channel d' home) < length (peers_missing_channel d home))"
proof -
  have tx: "attach_dedicated_peer_channel now fresh home local name peer d = Inr (True, d')"
    using run by (simp add: with_transaction_Inr)
  let ?Q = "\<lambda>d e. ep_channel e = home_shared_channel home \<and> ep_state e = Endpoint_active \<and>
     ep_dedicated_to e = None \<and> ep_community e \<noteq> home_community home \<and>
     \<not> has_direct_channel d (ep_channel e) (home_community home) (ep_community e)"
  from tx obtain r where d': "d' = d\<lparr>endpoints := endpoints d @ [r]\<rparr>"
    and r: "ep_dedicated_to r = Some peer" "ep_channel r = home_shared_channel home"
      "ep_community r = home_community home"
    by (rule attach_Inr) auto
  have "filter (?Q d') (endpoints d') =
      filter (\<lambda>e. ep_community e \<noteq> peer) (filter (?Q d) (endpoints d))"
    using r by (auto simp: d' has_direct_channel_def intro!: filter_cong)
  then have "peers_missing_channel d' home = filter (\<lambda>q. q \<noteq> peer) (peers_missing_channel d home)"
    unfolding peers_missing_channel_def by (simp add: filter_sort [symmetric] filter_map o_def)
  moreover have "length (filter (\<lambda>q. q \<noteq> peer) xs) < length xs" if "peer \<in> set xs" for xs
    using that by (rule length_filter_less) simp
  ultimately show ?thesis using keepsD [OF attach_keeps ok tx] by simp
qed

section \<open>Settings\<close>

lemma filter_members_distinct:
  assumes ok: "schema_ok d"
  shows "distinct (filter_members d c wanted) \<and> set (filter_members d c wanted) \<subseteq> set wanted"
proof -
  have es: "endpoints_ok (endpoints d)" using ok by (rule schema_ok_tables)
  have "length (filter (inbox_of d c) (endpoints d)) \<le> 1"
  proof (rule ccontr)
    assume "\<not> ?thesis"
    then obtain a b xs where f: "filter (inbox_of d c) (endpoints d) = a # b # xs"
      by (metis One_nat_def le_less_Suc_eq length_0_conv length_Suc_conv less_one linorder_not_le
          list.exhaust not_less_eq_eq zero_less_iff_neq_zero)
    then have "a \<in> set (filter (inbox_of d c) (endpoints d))"
      "b \<in> set (filter (inbox_of d c) (endpoints d))" by simp_all
    then have "a = b" using inbox_unique [OF ok, of a b c] by simp
    moreover have "distinct (filter (inbox_of d c) (endpoints d))"
      using endpoints_ok_distinct [OF es] by simp
    ultimately show False using f by simp
  qed
  then consider "filter (inbox_of d c) (endpoints d) = []"
    | own where "filter (inbox_of d c) (endpoints d) = [own]"
    by (cases "filter (inbox_of d c) (endpoints d)"; cases "tl (filter (inbox_of d c) (endpoints d))") auto
  then show ?thesis
  proof cases
    case 1
    then show ?thesis by (simp add: filter_members_def)
  next
    case (2 own)
    let ?F = "filter (\<lambda>e. ep_channel e = ep_channel own \<and> ep_state e = Endpoint_active \<and>
            ep_dedicated_to e = None \<and> ep_community e \<in> set wanted) (endpoints d)"
    have "inj_on ep_community (set ?F)"
      by (rule inj_onI) (auto intro: endpoints_peer_unique [OF es])
    moreover have "distinct ?F" using endpoints_ok_distinct [OF es] by simp
    ultimately show ?thesis using 2 by (auto simp: filter_members_def distinct_map)
  qed
qed

lemma update_endpoints_Inr:
  "update_endpoints P f d = Inr (u, d') \<Longrightarrow>
     d' = d\<lparr>endpoints := update_where P f (endpoints d)\<rparr>"
  by (simp add: update_endpoints_def tx_inversion)

lemma settings_tx_Inr:
  assumes "settings_tx now i d = Inr (u, d')"
  obtains own where "find (inbox_of d (set_community i)) (endpoints d) = Some own"
    "length (filter_members d (set_community i) (map as_uuid (js_set (set_filter_list i))))
       = length (js_set (set_filter_list i))"
    "set_community i \<notin> set (set_filter_list i)"
    "d' = d\<lparr>endpoints := update_where (inbox_of d (set_community i)) (apply_settings now i)
       (endpoints d)\<rparr>"
proof -
  have checks: "settings_checks i d = Inr (v, e) \<Longrightarrow> e = d" for v e
  proof -
    have "assert_uuids xs d = Inr (v, e) \<Longrightarrow> e = d" for xs
      by (induction xs) (auto simp: tx_inversion assert_uuid_Inr)
    then show "settings_checks i d = Inr (v, e) \<Longrightarrow> e = d"
      by (auto simp: settings_checks_def tx_inversion assert_text_Inr split: if_splits)
  qed
  from assms show thesis
    by (auto simp: settings_tx_def tx_inversion assert_channel_not_routed_Inr
        split: option.splits if_splits
        dest!: require_verified_owner_Inr update_endpoints_Inr checks intro: that)
qed

text \<open>
  Accepted settings are stored, and a filter list names current members: when
  \<open>updateOpenHubSettings\<close> returns, the community's inbox has exactly the flags, filter
  mode and (canonical) filter list that were sent, the list names only communities with
  an active ordinary endpoint on the same shared channel, and every endpoint of another
  community is unchanged.  With ids written in lower case the list never names the
  community itself.
\<close>

lemma settings_are_stored_and_name_members:
  assumes ok: "schema_ok d" and run: "with_transaction (settings_tx now i) d = (Inr u, d')"
  shows "\<exists>own \<in> set (endpoints d). inbox_of d (set_community i) own \<and>
    apply_settings now i own \<in> set (endpoints d') \<and>
    ep_filter_list (apply_settings now i own) = map as_uuid (js_set (set_filter_list i)) \<and>
    (\<forall>c \<in> set (map as_uuid (js_set (set_filter_list i))).
       \<exists>e \<in> set (endpoints d). ep_community e = c \<and> ep_channel e = ep_channel own \<and>
         ep_state e = Endpoint_active \<and> ep_dedicated_to e = None) \<and>
    (\<forall>e \<in> set (endpoints d). ep_community e \<noteq> set_community i \<longrightarrow> e \<in> set (endpoints d')) \<and>
    (map as_uuid (set_filter_list i) = set_filter_list i \<longrightarrow>
       set_community i \<notin> set (map as_uuid (js_set (set_filter_list i))))"
proof -
  let ?c = "set_community i" and ?w = "map as_uuid (js_set (set_filter_list i))"
  from run have "settings_tx now i d = Inr (u, d')" by (simp add: with_transaction_Inr)
  then obtain own where own: "find (inbox_of d ?c) (endpoints d) = Some own"
    and len: "length (filter_members d ?c ?w) = length (js_set (set_filter_list i))"
    and notin: "?c \<notin> set (set_filter_list i)"
    and d': "d' = d\<lparr>endpoints := update_where (inbox_of d ?c) (apply_settings now i) (endpoints d)\<rparr>"
    by (rule settings_tx_Inr)
  have mem: "own \<in> set (endpoints d)" "inbox_of d ?c own"
    using find_Some_set [OF own] by auto
  have dist: "distinct (filter_members d ?c ?w)" and sub: "set (filter_members d ?c ?w) \<subseteq> set ?w"
    using filter_members_distinct [OF ok] by blast+
  have "card (set ?w) \<le> length ?w" by (rule card_length)
  also have "\<dots> = card (set (filter_members d ?c ?w))"
    using len dist by (simp add: distinct_card)
  finally have eq: "set (filter_members d ?c ?w) = set ?w"
    using sub by (intro card_seteq) simp_all
  have named: "\<exists>e \<in> set (endpoints d). ep_community e = c \<and> ep_channel e = ep_channel own \<and>
      ep_state e = Endpoint_active \<and> ep_dedicated_to e = None" if "c \<in> set ?w" for c
  proof -
    from that eq have "c \<in> set (filter_members d ?c ?w)" by simp
    then obtain o' e where "o' \<in> set (endpoints d)" "inbox_of d ?c o'"
      "e \<in> set (endpoints d)" "ep_community e = c" "ep_channel e = ep_channel o'"
      "ep_state e = Endpoint_active" "ep_dedicated_to e = None"
      unfolding filter_members_def by auto
    moreover from this have "o' = own" using inbox_unique [OF ok] mem by blast
    ultimately show ?thesis by blast
  qed
  have "apply_settings now i own \<in> set (endpoints d')"
    using mem by (auto simp: d' set_update_where)
  moreover have "e \<in> set (endpoints d')" if "e \<in> set (endpoints d)" "ep_community e \<noteq> ?c" for e
    using that by (auto simp: d' set_update_where inbox_of_def image_iff)
  moreover have "?c \<notin> set ?w" if "map as_uuid (set_filter_list i) = set_filter_list i"
    using notin that by (metis list.set_map set_js_set)
  ultimately show ?thesis using mem named by (intro bexI [OF _ mem(1)]) (auto simp: apply_settings_def)
qed

end
