(* ===== verification/Connections.thy ===== *)
theory Connections
  imports Guards
begin

text \<open>
  A community's connector in src/shared-channels/store.ts: wrapping the connector
  key, the install token ceremony (begin, inspect, activate), the connection a
  verified owner may use, its health, and the configurations the connector runs.
  AES-256-GCM (\<open>node:crypto\<close>), random nonces and \<open>getPublicKey\<close> of nostr-tools are
  parameters.
\<close>

section \<open>Wrapping the connector key\<close>

record cipher =
  seal :: "nat list \<Rightarrow> nat list \<Rightarrow> string \<Rightarrow> nat list \<Rightarrow> nat list \<times> nat list"
  unseal :: "nat list \<Rightarrow> nat list \<Rightarrow> string \<Rightarrow> nat list \<Rightarrow> nat list \<Rightarrow> nat list option"

text \<open>
  What an authenticated cipher documents: it opens what it sealed under the same key,
  nonce and associated data, and its tag is 16 bytes.
\<close>

definition authenticated :: "cipher \<Rightarrow> bool" where
  "authenticated c \<longleftrightarrow> (\<forall>k n a p.
     unseal c k n a (fst (seal c k n a p)) (snd (seal c k n a p)) = Some p \<and>
     length (snd (seal c k n a p)) = 16)"

definition connector_key_aad :: "uuid \<Rightarrow> string" where
  "connector_key_aad community = ''buzzrouter:community-connector:'' @ community"

definition encrypt_connector_private_key ::
  "cipher \<Rightarrow> nat list \<Rightarrow> nat list \<Rightarrow> nat list \<Rightarrow> uuid \<Rightarrow> encrypted_key res" where
  "encrypt_connector_private_key c nonce private_key wrapping_key community =
     (if length private_key \<noteq> 32 then Inl (Api ''invalid_input'' 400)
      else if length wrapping_key \<noteq> 32 then Inl (Api ''invalid_input'' 400)
      else let (ct, tag) = seal c wrapping_key nonce (connector_key_aad community) private_key
           in Inr \<lparr>key_auth_tag = tag, key_ciphertext = ct, key_nonce = nonce\<rparr>)"

definition decrypt_connector_private_key ::
  "cipher \<Rightarrow> encrypted_key \<Rightarrow> nat list \<Rightarrow> uuid \<Rightarrow> nat list res" where
  "decrypt_connector_private_key c e wrapping_key community =
     (if length wrapping_key \<noteq> 32 then Inl (Api ''invalid_input'' 400)
      else if length (key_nonce e) \<noteq> 12 \<or> length (key_auth_tag e) \<noteq> 16
      then Inl (Api ''connector_key_invalid'' 500)
      else case unseal c wrapping_key (key_nonce e) (connector_key_aad community)
                  (key_ciphertext e) (key_auth_tag e) of
        None \<Rightarrow> Inl (Api ''connector_key_unavailable'' 500)
      | Some key \<Rightarrow> if length key \<noteq> 32 then Inl (Api ''invalid_input'' 400) else Inr key)"

section \<open>Installing\<close>

record begin_input =
  bg_bridge_pubkey :: string
  bg_community :: uuid
  bg_owner :: string
  bg_private_key :: "nat list"
  bg_token_hash :: string
  bg_wrapping_key :: "nat list"
  bg_key_version :: int

record begin_result =
  bg_connection :: connection
  bg_expires_at :: time
  bg_token :: uuid

definition install_minutes :: int where
  "install_minutes = 15"

definition installing_row :: "uuid \<Rightarrow> begin_input \<Rightarrow> string \<Rightarrow> encrypted_key \<Rightarrow> connection" where
  "installing_row i b relay key =
     \<lparr>conn_id = i, conn_community = bg_community b, conn_relay_url = relay,
      conn_bridge_pubkey = bg_bridge_pubkey b, conn_key = key,
      conn_key_version = bg_key_version b, conn_state = Installing, conn_health = Pending,
      conn_health_error = None, conn_health_at = None, conn_activated_at = None,
      conn_revoked_at = None\<rparr>"

text \<open>INSERT ... ON CONFLICT (community_id) DO UPDATE ... WHERE state <> 'active' RETURNING.\<close>

definition upsert_connection :: "uuid \<Rightarrow> begin_input \<Rightarrow> string \<Rightarrow> encrypted_key \<Rightarrow>
    (db, connection) tx" where
  "upsert_connection fresh b relay key = (\<lambda>d.
     if \<not> connection_check (installing_row fresh b relay key) then Inl (Pg ''23514'')
     else case find (\<lambda>c. conn_community c = bg_community b) (connections d) of
       None \<Rightarrow>
         if has_row (\<lambda>c. conn_id c = fresh) (connections d) then Inl (Pg ''23505'')
         else Inr (installing_row fresh b relay key,
           d\<lparr>connections := connections d @ [installing_row fresh b relay key]\<rparr>)
     | Some c \<Rightarrow>
         if conn_state c = Active then Inl (Api ''connection_already_active'' 409)
         else Inr (installing_row (conn_id c) b relay key,
           d\<lparr>connections := update_where (\<lambda>x. conn_community x = bg_community b)
             (\<lambda>x. installing_row (conn_id x) b relay key) (connections d)\<rparr>))"

definition pending_token_row :: "uuid \<Rightarrow> time \<Rightarrow> begin_input \<Rightarrow> token" where
  "pending_token_row i now b =
     \<lparr>tok_id = i, tok_community = bg_community b, tok_hash = bg_token_hash b,
      tok_owner = bg_owner b, tok_bridge_pubkey = bg_bridge_pubkey b,
      tok_state = Token_pending, tok_attempts = 0,
      tok_expires_at = now + seconds (60 * install_minutes), tok_consumed_at = None,
      tok_receipt = None\<rparr>"

definition token_conflict :: "token \<Rightarrow> db \<Rightarrow> bool" where
  "token_conflict t d \<longleftrightarrow> has_row (\<lambda>x. tok_id x = tok_id t) (tokens d) \<or>
     has_row (\<lambda>x. tok_hash x = tok_hash t) (tokens d) \<or>
     (tok_state t = Token_pending \<and>
      has_row (\<lambda>x. tok_state x = Token_pending \<and> tok_community x = tok_community t) (tokens d))"

definition expire_tokens :: "uuid \<Rightarrow> db \<Rightarrow> db" where
  "expire_tokens community d = d\<lparr>tokens := update_where
     (\<lambda>t. tok_community t = community \<and> tok_state t = Token_pending)
     (\<lambda>t. t\<lparr>tok_state := Token_expired\<rparr>) (tokens d)\<rparr>"

definition begin_tx :: "cipher \<Rightarrow> (nat list \<Rightarrow> string) \<Rightarrow> nat list \<Rightarrow> time \<Rightarrow> uuid \<Rightarrow> uuid \<Rightarrow>
    begin_input \<Rightarrow> (db, begin_result) tx" where
  "begin_tx c public_key nonce now fresh_conn fresh_token b =
     tx_bind (assert_hex (bg_bridge_pubkey b) 64) (\<lambda>_.
     tx_bind (assert_hex (bg_token_hash b) 64) (\<lambda>_.
     tx_bind (tx_check (\<lambda>_. \<not> bg_key_version b < 1) (Api ''invalid_input'' 400)) (\<lambda>_.
     tx_bind (tx_check (\<lambda>_. public_key (bg_private_key b) = bg_bridge_pubkey b)
        (Api ''connector_key_mismatch'' 400)) (\<lambda>_.
     case encrypt_connector_private_key c nonce (bg_private_key b) (bg_wrapping_key b)
            (bg_community b) of
       Inl e \<Rightarrow> tx_throw e
     | Inr key \<Rightarrow>
         tx_bind (require_verified_owner (bg_community b) (bg_owner b)) (\<lambda>relay.
         tx_bind (tx_write (expire_tokens (bg_community b))) (\<lambda>_.
         tx_bind (upsert_connection fresh_conn b relay key) (\<lambda>conn.
         tx_bind (tx_check (\<lambda>d. \<not> token_conflict (pending_token_row fresh_token now b) d)
            (Pg ''23505'')) (\<lambda>_.
         tx_bind (tx_write (\<lambda>d. d\<lparr>tokens := tokens d @ [pending_token_row fresh_token now b]\<rparr>)) (\<lambda>_.
         tx_return \<lparr>bg_connection = conn,
           bg_expires_at = tok_expires_at (pending_token_row fresh_token now b),
           bg_token = fresh_token\<rparr>))))))))) "

definition usable_token :: "time \<Rightarrow> string \<Rightarrow> token \<Rightarrow> bool" where
  "usable_token now hash t \<longleftrightarrow> tok_hash t = hash \<and> tok_state t = Token_pending \<and>
     tok_expires_at t > now \<and> tok_attempts t < 10"

definition consume_token :: "time \<Rightarrow> string \<Rightarrow> string \<Rightarrow> db \<Rightarrow> db" where
  "consume_token now hash receipt d = d\<lparr>tokens := update_where (usable_token now hash)
     (\<lambda>t. t\<lparr>tok_state := Token_consumed, tok_attempts := tok_attempts t + 1,
            tok_consumed_at := Some now, tok_receipt := Some receipt\<rparr>) (tokens d)\<rparr>"

definition activatable :: "token \<Rightarrow> connection \<Rightarrow> bool" where
  "activatable t c \<longleftrightarrow> conn_community c = tok_community t \<and>
     conn_bridge_pubkey c = tok_bridge_pubkey t \<and> conn_state c = Installing"

definition activated :: "time \<Rightarrow> connection \<Rightarrow> connection" where
  "activated now c = c\<lparr>conn_state := Active, conn_health := Pending, conn_activated_at := Some now\<rparr>"

definition activate_tx :: "time \<Rightarrow> string \<Rightarrow> string \<Rightarrow> (db, connection) tx" where
  "activate_tx now hash receipt =
     tx_bind (assert_hex hash 64) (\<lambda>_.
     tx_bind (tx_row (\<lambda>d. find (usable_token now hash) (tokens d))
        (Api ''install_token_unavailable'' 409)) (\<lambda>t.
     tx_bind (tx_write (consume_token now hash receipt)) (\<lambda>_.
     tx_bind (tx_row (\<lambda>d. find (activatable t) (connections d))
        (Api ''connection_activation_failed'' 409)) (\<lambda>c.
     tx_bind (tx_write (\<lambda>d. d\<lparr>connections := update_where (activatable t) (activated now)
        (connections d)\<rparr>)) (\<lambda>_.
     tx_return (activated now c))))))"

definition begin_community_connection_install where
  "begin_community_connection_install c public_key nonce now fresh_conn fresh_token b =
     with_transaction (begin_tx c public_key nonce now fresh_conn fresh_token b)"

definition activate_community_connection ::
  "time \<Rightarrow> string \<Rightarrow> string \<Rightarrow> db \<Rightarrow> connection res \<times> db" where
  "activate_community_connection now hash receipt = with_transaction (activate_tx now hash receipt)"

definition install_context :: "time \<Rightarrow> string \<Rightarrow> (db, connection \<times> token) tx" where
  "install_context now hash =
     tx_bind (assert_hex hash 64) (\<lambda>_.
     tx_row (\<lambda>d. Option.bind (find (\<lambda>t. usable_token now hash t \<and>
          has_row (activatable t) (connections d)) (tokens d)) (\<lambda>t.
        map_option (\<lambda>c. (c, t)) (find (activatable t) (connections d))))
       (Api ''install_token_unavailable'' 409))"

section \<open>Using a connection\<close>

definition owned_community_connection :: "uuid \<Rightarrow> string \<Rightarrow> (db, connection option) tx" where
  "owned_community_connection community owner =
     tx_bind (assert_hex owner 64) (\<lambda>_.
     tx_bind (tx_check (\<lambda>d. has_row (\<lambda>c. com_id c = community \<and> com_owner c = Some owner \<and>
         verified_community d c) (communities d)) (Api ''community_owner_required'' 403)) (\<lambda>_.
     tx_read (\<lambda>d. find (\<lambda>c. conn_community c = community \<and> conn_state c = Active) (connections d))))"

definition record_connection_health ::
  "time \<Rightarrow> uuid \<Rightarrow> health \<Rightarrow> string option \<Rightarrow> db \<Rightarrow> db" where
  "record_connection_health now i health error d =
     d\<lparr>connections := update_where (\<lambda>c. conn_id c = i \<and> conn_state c = Active)
       (\<lambda>c. c\<lparr>conn_health := health, conn_health_error := map_option (take 500) error,
              conn_health_at := Some now\<rparr>) (connections d)\<rparr>"

record route_config =
  rt_last_event :: int
  rt_local_channel :: "string option"
  rt_shared_channel :: uuid
  rt_endpoint :: uuid
  rt_dedicated_to :: "uuid option"

definition as_route :: "endpoint \<Rightarrow> route_config" where
  "as_route e = \<lparr>rt_last_event = (case ep_cursor e of Some n \<Rightarrow> n | None \<Rightarrow> 0),
     rt_local_channel = ep_local_channel e, rt_shared_channel = ep_channel e,
     rt_endpoint = ep_id e, rt_dedicated_to = ep_dedicated_to e\<rparr>"

definition connector_routes :: "db \<Rightarrow> uuid \<Rightarrow> route_config list" where
  "connector_routes d conn =
     map as_route (sort_key ep_id (filter (\<lambda>e. ep_connection e = Some conn \<and>
       ep_state e = Endpoint_active \<and> ep_sends e \<and>
       (case channel_by_id d (ep_channel e) of None \<Rightarrow> False
        | Some c \<Rightarrow> ch_state c = Channel_active \<and> ch_mode c = Mode_hub)) (endpoints d)))"

definition list_active_connector_configs :: "db \<Rightarrow> (connection \<times> route_config list) list" where
  "list_active_connector_configs d =
     map (\<lambda>c. (c, connector_routes d (conn_id c)))
       (sort_key conn_id (filter (\<lambda>c. conn_state c = Active) (connections d)))"

section \<open>The schema is kept\<close>

lemma connections_ok_update:
  assumes "connections_ok cs"
    and "\<And>c. P c \<Longrightarrow> conn_id (f c) = conn_id c \<and> conn_community (f c) = conn_community c"
    and "\<And>c. P c \<Longrightarrow> connection_check c \<Longrightarrow> connection_check (f c)"
  shows "connections_ok (update_where P f cs)"
proof -
  have "map conn_id (update_where P f cs) = map conn_id cs"
    "map conn_community (update_where P f cs) = map conn_community cs"
    using assms(2) by (simp_all add: update_where_def)
  with assms show ?thesis by (auto simp: connections_ok_def list_all_iff set_update_where)
qed

lemma tokens_ok_update:
  assumes "tokens_ok ts"
    and "\<And>t. P t \<Longrightarrow> tok_id (f t) = tok_id t \<and> tok_hash (f t) = tok_hash t"
    and "\<And>t. P t \<Longrightarrow> tok_state (f t) \<noteq> Token_pending"
    and "\<And>t. P t \<Longrightarrow> token_check t \<Longrightarrow> token_check (f t)"
  shows "tokens_ok (update_where P f ts)"
proof -
  have "map tok_id (update_where P f ts) = map tok_id ts"
    "map tok_hash (update_where P f ts) = map tok_hash ts"
    using assms(2) by (simp_all add: update_where_def)
  moreover have "unique_where (\<lambda>t. tok_state t = Token_pending) tok_community (update_where P f ts)"
    using assms(1,3) by (intro unique_where_update) (auto simp: tokens_ok_def)
  moreover have "list_all token_check (update_where P f ts)"
    using assms(1,4) by (auto simp: tokens_ok_def list_all_iff set_update_where)
  ultimately show ?thesis using assms(1) by (simp add: tokens_ok_def)
qed

lemma tokens_ok_append:
  assumes "tokens_ok (tokens d)" "token_check t" "\<not> token_conflict t d"
  shows "tokens_ok (tokens d @ [t])"
proof -
  have "unique_where (\<lambda>t. tok_state t = Token_pending) tok_community (tokens d @ [t])"
    using assms by (intro unique_where_append1) (auto simp: tokens_ok_def token_conflict_def)
  with assms distinct_map_append1 [of tok_id "tokens d" t] distinct_map_append1 [of tok_hash "tokens d" t]
  show ?thesis by (simp add: tokens_ok_def token_conflict_def)
qed

lemma expire_tokens_keeps: "schema_ok d \<Longrightarrow> schema_ok (expire_tokens c d)"
  unfolding expire_tokens_def
  by (rule schema_ok_update(3), assumption, rule tokens_ok_update)
    (auto simp: schema_ok_tables token_check_def)

lemma consume_token_keeps: "schema_ok d \<Longrightarrow> schema_ok (consume_token now h r d)"
  unfolding consume_token_def
  by (rule schema_ok_update(3), assumption, rule tokens_ok_update)
    (auto simp: schema_ok_tables token_check_def usable_token_def)

lemma upsert_connection_keeps [keeps_intros]: "keeps schema_ok (upsert_connection fresh b relay key)"
proof (rule keepsI)
  fix s a s' assume ok: "schema_ok s" and run: "upsert_connection fresh b relay key s = Inr (a, s')"
  have cs: "connections_ok (connections s)" using ok by (rule schema_ok_tables)
  have check: "connection_check (installing_row i b relay key)" for i
    using run by (simp add: upsert_connection_def connection_check_def installing_row_def split: if_splits)
  show "schema_ok s'"
  proof (cases "find (\<lambda>c. conn_community c = bg_community b) (connections s)")
    case None
    with run have s': "s' = s\<lparr>connections := connections s @ [installing_row fresh b relay key]\<rparr>"
      and "\<not> has_row (\<lambda>c. conn_id c = fresh) (connections s)"
      by (auto simp: upsert_connection_def split: if_splits)
    moreover have "\<not> has_row (\<lambda>c. conn_community c = bg_community b) (connections s)"
      using None by (simp add: find_None_set has_row_iff)
    ultimately have "connections_ok (connections s @ [installing_row fresh b relay key])"
      using cs check distinct_map_append1 [of conn_id "connections s" "installing_row fresh b relay key"]
        distinct_map_append1 [of conn_community "connections s" "installing_row fresh b relay key"]
      by (simp add: connections_ok_def installing_row_def)
    then show ?thesis unfolding s' by (rule schema_ok_update(2) [OF ok])
  next
    case (Some c)
    with run cs check show ?thesis
      by (auto simp: upsert_connection_def installing_row_def split: if_splits
          intro!: schema_ok_update(2) [OF ok] connections_ok_update)
  qed
qed

lemma insert_token_keeps:
  "keeps schema_ok (tx_bind (tx_check (\<lambda>d. \<not> token_conflict (pending_token_row i now b) d)
     (Pg ''23505'')) (\<lambda>_. tx_bind (tx_write (\<lambda>d. d\<lparr>tokens := tokens d @ [pending_token_row i now b]\<rparr>))
     (\<lambda>_. tx_return r)))"
  by (rule keepsI) (auto simp: tx_inversion token_check_def pending_token_row_def
      intro!: schema_ok_update(3) tokens_ok_append schema_ok_tables)

lemma begin_tx_keeps [keeps_intros]: "keeps schema_ok (begin_tx c pk nonce now fc ft b)"
  unfolding begin_tx_def
  by (intro keeps_intros)
    (auto intro!: keeps_intros insert_token_keeps keeps_write expire_tokens_keeps split: sum.split)

lemma activate_tx_keeps [keeps_intros]: "keeps schema_ok (activate_tx now h r)"
  unfolding activate_tx_def
  by (intro keeps_intros keeps_write consume_token_keeps schema_ok_update(2) connections_ok_update)
    (auto simp: schema_ok_tables activated_def connection_check_def activatable_def)

lemma record_health_keeps: "schema_ok d \<Longrightarrow> schema_ok (record_connection_health now i h e d)"
  unfolding record_connection_health_def
  by (rule schema_ok_update(2), assumption, rule connections_ok_update)
    (auto simp: schema_ok_tables connection_check_def split: option.splits)

section \<open>The ceremony as a sequence of operations\<close>

datatype connection_op =
  Op_begin cipher "nat list \<Rightarrow> string" "nat list" time uuid uuid begin_input
| Op_activate time string string
| Op_health time uuid health "string option"

fun run_connection_op :: "connection_op \<Rightarrow> db \<Rightarrow> db" where
  "run_connection_op (Op_begin c pk nonce now fc ft b) d =
     snd (begin_community_connection_install c pk nonce now fc ft b d)"
| "run_connection_op (Op_activate now h r) d = snd (activate_community_connection now h r d)"
| "run_connection_op (Op_health now i h e) d = record_connection_health now i h e d"

definition run_connection_ops :: "connection_op list \<Rightarrow> db \<Rightarrow> db" where
  "run_connection_ops ops d = fold run_connection_op ops d"

lemma run_connection_op_keeps: "schema_ok d \<Longrightarrow> schema_ok (run_connection_op op d)"
  by (cases op) (auto simp: begin_community_connection_install_def activate_community_connection_def
      intro: with_transaction_keeps keeps_intros record_health_keeps)

text \<open>A token that is spent: it exists and is not pending.\<close>

definition spent_token :: "string \<Rightarrow> db \<Rightarrow> bool" where
  "spent_token hash d \<longleftrightarrow>
     (\<exists>t \<in> set (tokens d). tok_hash t = hash \<and> tok_state t \<noteq> Token_pending)"

lemma spent_update:
  assumes "spent_token h d"
    and "\<And>t. P t \<Longrightarrow> tok_hash (f t) = tok_hash t \<and> tok_state (f t) \<noteq> Token_pending"
    and "set (update_where P f (tokens d)) \<subseteq> set (tokens d')"
  shows "spent_token h d'"
proof -
  obtain t where t: "t \<in> set (tokens d)" "tok_hash t = h" "tok_state t \<noteq> Token_pending"
    using assms(1) by (auto simp: spent_token_def)
  let ?u = "if P t then f t else t"
  have "?u \<in> set (tokens d')" using t(1) assms(3) unfolding set_update_where by blast
  moreover have "tok_hash ?u = h" "tok_state ?u \<noteq> Token_pending" using t assms(2) by auto
  ultimately show ?thesis unfolding spent_token_def by blast
qed

lemma consumed_is_spent:
  assumes "t \<in> set (tokens d)" "usable_token now h t" "tokens d' = tokens (consume_token now h r d)"
  shows "spent_token h d'"
proof -
  let ?f = "\<lambda>t. t\<lparr>tok_state := Token_consumed, tok_attempts := tok_attempts t + 1,
            tok_consumed_at := Some now, tok_receipt := Some r\<rparr>"
  have "?f t \<in> set (tokens d')"
    using assms(1,2) unfolding assms(3) consume_token_def by (auto simp: set_update_where)
  moreover have "tok_hash (?f t) = h" "tok_state (?f t) \<noteq> Token_pending"
    using assms(2) by (simp_all add: usable_token_def)
  ultimately show ?thesis unfolding spent_token_def by blast
qed

lemma upsert_connection_tokens: "upsert_connection f b r k d = Inr (c, d') \<Longrightarrow> tokens d' = tokens d"
  by (auto simp: upsert_connection_def split: if_splits option.splits)

lemma begin_tx_tokens:
  assumes "begin_tx c pk nonce now fc ft b d = Inr (r, d')"
  shows "tokens d' = tokens (expire_tokens (bg_community b) d) @ [pending_token_row ft now b]"
  using assms
  by (auto simp: begin_tx_def tx_inversion assert_hex_Inr split: sum.splits
      dest!: require_verified_owner_Inr upsert_connection_tokens)

lemma activate_tx_tokens:
  assumes "activate_tx now h r d = Inr (c, d')"
  shows "tokens d' = tokens (consume_token now h r d) \<and> is_hex_string 64 h \<and>
    (\<exists>t \<in> set (tokens d). usable_token now h t)"
  using assms by (auto simp: activate_tx_def tx_inversion assert_hex_Inr dest!: find_Some_set)

lemma run_connection_op_spent:
  assumes "spent_token h d"
  shows "spent_token h (run_connection_op op d)"
proof (cases op)
  case (Op_begin c pk nonce now fc ft b)
  show ?thesis
  proof (cases "begin_tx c pk nonce now fc ft b d")
    case (Inl e)
    with assms show ?thesis
      by (simp add: Op_begin begin_community_connection_install_def with_transaction_def)
  next
    case (Inr p)
    then obtain r d' where "p = (r, d')" "begin_tx c pk nonce now fc ft b d = Inr (r, d')"
      by (cases p) auto
    moreover have "spent_token h d'"
      by (rule spent_update [OF assms, of
          "\<lambda>t. tok_community t = bg_community b \<and> tok_state t = Token_pending"
          "\<lambda>t. t\<lparr>tok_state := Token_expired\<rparr>"])
        (use begin_tx_tokens [OF calculation(2)] in \<open>auto simp: expire_tokens_def\<close>)
    ultimately show ?thesis
      by (simp add: Op_begin begin_community_connection_install_def with_transaction_def)
  qed
next
  case (Op_activate now h' r)
  show ?thesis
  proof (cases "activate_tx now h' r d")
    case (Inl e)
    with assms show ?thesis
      by (simp add: Op_activate activate_community_connection_def with_transaction_def)
  next
    case (Inr p)
    then obtain c d' where "p = (c, d')" "activate_tx now h' r d = Inr (c, d')"
      by (cases p) auto
    moreover have "spent_token h d'"
      by (rule spent_update [OF assms, of "usable_token now h'"
          "\<lambda>t. t\<lparr>tok_state := Token_consumed, tok_attempts := tok_attempts t + 1,
            tok_consumed_at := Some now, tok_receipt := Some r\<rparr>"])
        (use activate_tx_tokens [OF calculation(2)] in \<open>auto simp: consume_token_def\<close>)
    ultimately show ?thesis
      by (simp add: Op_activate activate_community_connection_def with_transaction_def)
  qed
next
  case (Op_health now i he e)
  with assms show ?thesis by (simp add: record_connection_health_def spent_token_def)
qed

lemma run_connection_ops_spent:
  "schema_ok d \<Longrightarrow> spent_token h d \<Longrightarrow>
   schema_ok (run_connection_ops ops d) \<and> spent_token h (run_connection_ops ops d)"
  by (induction ops arbitrary: d)
    (simp_all add: run_connection_ops_def run_connection_op_keeps run_connection_op_spent)

lemma spent_token_refused:
  assumes "schema_ok d" "spent_token h d" "is_hex_string 64 h"
  shows "activate_tx now h r d = Inl (Api ''install_token_unavailable'' 409)"
    and "install_context now h d = Inl (Api ''install_token_unavailable'' 409)"
proof -
  have none: "\<not> usable_token now h t" if "t \<in> set (tokens d)" for t
  proof
    assume u: "usable_token now h t"
    obtain t' where t': "t' \<in> set (tokens d)" "tok_hash t' = h" "tok_state t' \<noteq> Token_pending"
      using assms(2) by (auto simp: spent_token_def)
    have "t = t'"
      using schema_ok_tables(4) [OF assms(1)] that t'(1,2) u
      by (intro distinct_key_unique [of tok_hash "tokens d"]) (simp_all add: tokens_ok_def usable_token_def)
    with u t'(3) show False by (simp add: usable_token_def)
  qed
  then have f: "find (usable_token now h) (tokens d) = None"
    "find (\<lambda>t. usable_token now h t \<and> has_row (activatable t) (connections d)) (tokens d) = None"
    by (auto simp: find_None_set)
  with assms(3) show "activate_tx now h r d = Inl (Api ''install_token_unavailable'' 409)"
    "install_context now h d = Inl (Api ''install_token_unavailable'' 409)"
    by (simp_all add: activate_tx_def install_context_def tx_defs assert_hex_def)
qed

section \<open>Properties\<close>

text \<open>
  An install token is single use: once an activation with it has succeeded, every
  later activation and every later inspection with that token is refused, at any time
  and after any sequence of installs, activations and health reports.
\<close>

lemma install_token_single_use:
  assumes "schema_ok d" and first: "activate_community_connection now h r d = (Inr c, d')"
  shows "activate_community_connection now' h r' (run_connection_ops ops d') =
      (Inl (Api ''install_token_unavailable'' 409), run_connection_ops ops d') \<and>
    install_context now' h (run_connection_ops ops d') =
      Inl (Api ''install_token_unavailable'' 409)"
proof -
  have tx: "activate_tx now h r d = Inr (c, d')"
    using first by (simp add: activate_community_connection_def with_transaction_Inr)
  have ok': "schema_ok d'" using keepsD [OF activate_tx_keeps assms(1) tx] .
  have "spent_token h d'"
    using activate_tx_tokens [OF tx] consumed_is_spent by blast
  with run_connection_ops_spent [OF ok'] have
    "schema_ok (run_connection_ops ops d')" "spent_token h (run_connection_ops ops d')" by blast+
  with spent_token_refused activate_tx_tokens [OF tx] show ?thesis
    by (simp add: activate_community_connection_def with_transaction_def)
qed

text \<open>
  A live connector cannot be overwritten by a new install: beginning an install
  while the community's connection is active never succeeds, and a failed begin leaves
  the database, the pending tokens included, as it was.
\<close>

lemma active_connection_is_protected:
  assumes ok: "schema_ok d" and x: "x \<in> set (connections d)" "conn_community x = bg_community b"
    and active: "conn_state x = Active"
  shows "\<exists>e. begin_community_connection_install c pk nonce now fc ft b d = (Inl e, d)"
proof -
  have "begin_tx c pk nonce now fc ft b d \<noteq> Inr (r, d')" for r d'
  proof
    assume "begin_tx c pk nonce now fc ft b d = Inr (r, d')"
    then obtain relay key conn d1 where
      "upsert_connection fc b relay key (expire_tokens (bg_community b) d) = Inr (conn, d1)"
      by (auto simp: begin_tx_def tx_inversion assert_hex_Inr split: sum.splits
          dest!: require_verified_owner_Inr)
    moreover have "find (\<lambda>c. conn_community c = bg_community b) (connections d) = Some x"
      using x schema_ok_tables(3) [OF ok] by (simp add: connections_ok_def find_key_iff)
    ultimately show False using active
      by (auto simp: upsert_connection_def expire_tokens_def split: if_splits)
  qed
  then show ?thesis
    by (cases "begin_tx c pk nonce now fc ft b d")
      (auto simp: begin_community_connection_install_def with_transaction_def)
qed

text \<open>
  Activation needs a live token of the same key: it succeeds only with a pending,
  unexpired token with attempts left, and turns exactly the installing connection of
  that token's community and bridge key active; all other connections stay as they are.
\<close>

lemma activation_needs_live_matching_token:
  assumes ok: "schema_ok d" and run: "activate_community_connection now h r d = (Inr c, d')"
  shows "\<exists>t \<in> set (tokens d). \<exists>x \<in> set (connections d).
    usable_token now h t \<and> conn_community x = tok_community t \<and>
    conn_bridge_pubkey x = tok_bridge_pubkey t \<and> conn_state x = Installing \<and>
    c = activated now x \<and> c \<in> set (connections d') \<and> conn_state c = Active \<and>
    (\<forall>y \<in> set (connections d). y \<noteq> x \<longrightarrow> y \<in> set (connections d'))"
proof -
  have "activate_tx now h r d = Inr (c, d')"
    using run by (simp add: activate_community_connection_def with_transaction_Inr)
  then obtain t x where t: "find (usable_token now h) (tokens d) = Some t"
    and x: "find (activatable t) (connections d) = Some x" and c: "c = activated now x"
    and d': "connections d' = update_where (activatable t) (activated now) (connections d)"
    by (auto simp: activate_tx_def tx_inversion assert_hex_Inr consume_token_def)
  note tt = find_Some_set [OF t] and xx = find_Some_set [OF x]
  have "c \<in> set (connections d')" using xx c by (auto simp: d' set_update_where)
  moreover have "y \<in> set (connections d')" if y: "y \<in> set (connections d)" "y \<noteq> x" for y
  proof -
    have "\<not> activatable t y"
    proof
      assume "activatable t y"
      then have "y = x" using xx y(1) schema_ok_tables(3) [OF ok]
        by (intro distinct_key_unique [of conn_community "connections d"])
          (simp_all add: activatable_def connections_ok_def)
      with y(2) show False by simp
    qed
    with y(1) show ?thesis unfolding d' set_update_where by force
  qed
  moreover have "conn_state c = Active" using c by (simp add: activated_def)
  ultimately show ?thesis using tt xx c
    by (intro bexI [of _ t] bexI [of _ x]) (auto simp: activatable_def)
qed

text \<open>
  Wrapping a connector key round-trips: with an authenticated cipher, a 12-byte
  nonce and a 32-byte key pair, decrypting what was encrypted for a community returns
  the key; and a key is never returned unless it is 32 bytes long.
\<close>

lemma connector_key_round_trip:
  assumes "authenticated ci" and "length nonce = 12"
    and enc: "encrypt_connector_private_key ci nonce key wrapping community = Inr e"
  shows "decrypt_connector_private_key ci e wrapping community = Inr key \<and> length key = 32"
proof -
  obtain ct tag where s: "seal ci wrapping nonce (connector_key_aad community) key = (ct, tag)"
    by (cases "seal ci wrapping nonce (connector_key_aad community) key")
  have "unseal ci wrapping nonce (connector_key_aad community) ct tag = Some key" "length tag = 16"
    using assms(1) s unfolding authenticated_def by (metis fst_conv snd_conv)+
  with s enc assms(2) show ?thesis
    by (auto simp: encrypt_connector_private_key_def decrypt_connector_private_key_def
        split: if_splits)
qed

end
