(* ===== verification/Samples.thy ===== *)
theory Samples
  imports Delivery Claims Hub_Properties Connections
begin

text \<open>
  A small concrete database (the home community and two others on the hub, one
  direct channel, one message) on which the properties of the store are applied.
\<close>

definition hex_a :: string where "hex_a = replicate 64 (CHR ''a'')"
definition hex_b :: string where "hex_b = replicate 64 (CHR ''b'')"
definition hex_c :: string where "hex_c = replicate 64 (CHR ''c'')"

definition sample_candidate :: "uuid \<Rightarrow> string \<Rightarrow> candidate" where
  "sample_candidate i host = \<lparr>cand_id = i, cand_relay_url = ''wss://'' @ host,
     cand_host = host, cand_state = Verified_buzz\<rparr>"

definition sample_community :: "uuid \<Rightarrow> uuid \<Rightarrow> string option \<Rightarrow> community" where
  "sample_community i k slug = \<lparr>com_id = i, com_candidate = k, com_slug = slug,
     com_owner = Some hex_a, com_display_name = None\<rparr>"

definition sample_key :: encrypted_key where
  "sample_key = \<lparr>key_auth_tag = replicate 16 0, key_ciphertext = replicate 32 7,
     key_nonce = replicate 12 1\<rparr>"

definition sample_connection :: "uuid \<Rightarrow> uuid \<Rightarrow> connection_state \<Rightarrow> connection" where
  "sample_connection i c st = \<lparr>conn_id = i, conn_community = c, conn_relay_url = ''wss://r'',
     conn_bridge_pubkey = hex_b, conn_key = sample_key, conn_key_version = 1, conn_state = st,
     conn_health = Pending, conn_health_error = None, conn_health_at = None,
     conn_activated_at = None, conn_revoked_at = None\<rparr>"

definition sample_token :: token where
  "sample_token = \<lparr>tok_id = ''t1'', tok_community = ''c3'', tok_hash = hex_c, tok_owner = hex_a,
     tok_bridge_pubkey = hex_b, tok_state = Token_pending, tok_attempts = 0,
     tok_expires_at = 1000, tok_consumed_at = None, tok_receipt = None\<rparr>"

definition sample_endpoint :: "uuid \<Rightarrow> uuid \<Rightarrow> uuid \<Rightarrow> string \<Rightarrow> uuid option \<Rightarrow> endpoint" where
  "sample_endpoint i c n chan ded = participant_row 0 i ''hub'' c n ''wss://r'' chan ''general'' ded"

definition sample_event :: nostr_event where
  "sample_event = \<lparr>ev_id = hex_c, ev_pubkey = hex_b, ev_created_at = 5, ev_kind = 9,
     ev_tags = [], ev_content = ''hi''\<rparr>"

definition sample_input :: ingest_input where
  "sample_input = \<lparr>in_body = ''hello'', in_sha256 = hex_a, in_destination = Some ''c1'',
     in_message = ''m1'', in_parent_message = None, in_channel = ''hub'',
     in_signed_event = sample_event, in_actor = hex_b, in_actor_name = None,
     in_created_at = 7, in_source = ''e2'', in_event_id = hex_b, in_parent_event = None\<rparr>"

text \<open>Communities c0 (home), c1, c2 on the hub; c3 still installing; c1 holds e3 for c2.\<close>

definition sample_hub :: db where
  "sample_hub = empty_db
     \<lparr>candidates := [sample_candidate ''k0'' ''relay.buzzrouter.com'', sample_candidate ''k1'' ''hive.x'',
        sample_candidate ''k2'' ''nest.x'', sample_candidate ''k3'' ''ab.x''],
      communities := [sample_community ''c0'' ''k0'' (Some ''relay''),
        sample_community ''c1'' ''k1'' (Some ''hive''), sample_community ''c2'' ''k2'' (Some ''nest''),
        sample_community ''c3'' ''k3'' None],
      connections := [sample_connection ''n0'' ''c0'' Active, sample_connection ''n1'' ''c1'' Active,
        sample_connection ''n2'' ''c2'' Active, sample_connection ''n3'' ''c3'' Installing],
      tokens := [sample_token],
      channels := [\<lparr>ch_id = ''hub'', ch_state = Channel_active, ch_mode = Mode_hub\<rparr>],
      endpoints := [sample_endpoint ''e0'' ''c0'' ''n0'' ''general'' None,
        sample_endpoint ''e1'' ''c1'' ''n1'' ''lobby'' None,
        sample_endpoint ''e2'' ''c2'' ''n2'' ''lobby'' None,
        sample_endpoint ''e3'' ''c1'' ''n1'' ''nest-direct'' (Some ''c2'')]\<rparr>"

definition send_ok :: send_job where
  "send_ok job delivery js = (True, js @ [(job, delivery)])"

definition sample_ids :: "nat \<Rightarrow> uuid" where
  "sample_ids n = ''d'' @ show_nat n"

definition sample_sent :: db where
  "sample_sent = snd (ingest_bridge_message send_ok 9000000 sample_ids sample_input sample_hub)"

lemmas sample_defs = hex_a_def hex_b_def hex_c_def sample_candidate_def sample_community_def
  sample_key_def sample_connection_def sample_token_def sample_endpoint_def sample_event_def
  sample_input_def sample_hub_def send_ok_def sample_ids_def empty_db_def

lemma sample_hub_ok: "schema_ok sample_hub"
  by code_simp

lemma sample_sent_ok: "schema_ok sample_sent"
  unfolding sample_sent_def ingest_bridge_message_def
  by (rule with_transaction_keeps [OF ingest_tx_keeps sample_hub_ok])

lemma sample_ingest:
  "fst (ingest_bridge_message send_ok 9000000 sample_ids sample_input sample_hub) =
     Inr \<lparr>res_created = True, res_delivery = Some ''d0'', res_deliveries = [''d0''],
       res_message = ''m1''\<rparr>"
  by code_simp

text \<open>The rows that sending the message leaves, so that later evaluations start from them.\<close>

lemma sample_sent_rows [code]:
  "sample_sent = sample_hub
     \<lparr>endpoints := [sample_endpoint ''e0'' ''c0'' ''n0'' ''general'' None,
        sample_endpoint ''e1'' ''c1'' ''n1'' ''lobby'' None,
        (sample_endpoint ''e2'' ''c2'' ''n2'' ''lobby'' None)\<lparr>ep_cursor := Some 7\<rparr>,
        sample_endpoint ''e3'' ''c1'' ''n1'' ''nest-direct'' (Some ''c2'')],
      messages := [\<lparr>msg_id = ''m1'', msg_channel = ''hub'', msg_source = ''e2'', msg_event_id = hex_b,
        msg_actor = hex_b, msg_actor_name = None, msg_created_at = 7, msg_signed_event = Some sample_event,
        msg_parent_event = None, msg_parent_message = None, msg_body = Some ''hello'', msg_sha256 = hex_a\<rparr>],
      deliveries := [delivery_row 9000000 ''d0'' ''m1'' ''e3''],
      mappings := [\<lparr>map_channel = ''hub'', map_endpoint = ''e2'', map_message = ''m1'', map_local_event = hex_b,
        map_local_parent = None\<rparr>],
      jobs := [(''m1'', ''d0'')]\<rparr>"
  by code_simp

lemma sample_sent_delivery:
  "delivery_by_id sample_sent ''d0'' = Some (delivery_row 9000000 ''d0'' ''m1'' ''e3'')"
  by code_simp

end
