(* ===== verification/Store_Witnesses.thy ===== *)
theory Store_Witnesses
  imports Samples
begin

text \<open>
  Each property of the store that has hypotheses, applied to the sample database
  where they hold.
\<close>

lemma pair_intro: "fst p = a \<Longrightarrow> p = (a, snd p)"
  by (cases p) simp

abbreviation "nest_inbox \<equiv> sample_endpoint ''e2'' ''c2'' ''n2'' ''lobby'' None"
abbreviation "hive_inbox \<equiv> sample_endpoint ''e1'' ''c1'' ''n1'' ''lobby'' None"
abbreviation "hive_direct \<equiv> sample_endpoint ''e3'' ''c1'' ''n1'' ''nest-direct'' (Some ''c2'')"

lemma sample_source: "source_endpoint sample_hub ''e2'' ''hub'' = Some nest_inbox"
  by code_simp

lemma sample_recorded: "delivered_recorded sample_sent"
  by code_simp

theorem one_destination_per_community_witness:
  "distinct (map ep_community (destinations_of sample_hub ''hub'' nest_inbox None))"
  using one_destination_per_community [OF sample_hub_ok sample_source, of None] by simp


theorem persisted_event_is_unique_witness:
  "\<exists>e. fst (with_transaction (persist_destination_event 3 ''d0'' (sample_event\<lparr>ev_id := hex_a\<rparr>))
      (run_delivery_ops [Op_mark 2 ''d0'']
        (snd (with_transaction (persist_destination_event 1 ''d0'' sample_event) sample_sent)))) = Inr e \<and>
    e = sample_event"
proof -
  let ?p = "with_transaction (persist_destination_event 1 ''d0'' sample_event) sample_sent"
  let ?q = "with_transaction (persist_destination_event 3 ''d0'' (sample_event\<lparr>ev_id := hex_a\<rparr>))
      (run_delivery_ops [Op_mark 2 ''d0''] (snd ?p))"
  have p: "fst ?p = Inr sample_event" by code_simp
  have "\<not> isl (fst ?q)" by code_simp
  then obtain e where q: "fst ?q = Inr e" by (cases "fst ?q") auto
  show ?thesis
    using persisted_event_is_unique [OF sample_sent_ok pair_intro [OF p] pair_intro [OF q]] q by simp
qed


theorem delivered_messages_are_mapped_witness:
  "delivered_recorded (run_delivery_ops [Op_mark 2 ''d0'', Op_persist 2 ''d0'' sample_event,
     Op_complete 3 ''d0'' sample_event] sample_sent)"
  by (rule delivered_messages_are_mapped [OF sample_sent_ok sample_recorded])


definition long_label :: string where
  "long_label = replicate 40 (CHR ''q'')"

definition sample_long :: db where
  "sample_long = empty_db
     \<lparr>candidates := [sample_candidate ''k0'' (long_label @ ''.x''), sample_candidate ''k1'' (long_label @ ''.y'')],
      communities := [sample_community ''c0'' ''k0'' (Some long_label), sample_community ''c1'' ''k1'' None]\<rparr>"

definition sample_env :: env where
  "sample_env = \<lparr>env_home_host = None, env_home_relay = None, env_home_channel = None\<rparr>"

definition sample_join :: join_input where
  "sample_join = \<lparr>join_community = ''c2'', join_channel = ''lobby'', join_channel_name = ''Lobby'',
     join_owner = hex_a\<rparr>"

definition sample_join_ids :: join_ids where
  "sample_join_ids = \<lparr>new_hub = ''h1'', new_home_endpoint = ''h2'', new_endpoint = ''h3''\<rparr>"

definition sample_empty_hub :: db where
  "sample_empty_hub = sample_hub\<lparr>channels := [], endpoints := []\<rparr>"

definition sample_closed :: db where
  "sample_closed = snd (unbind_dedicated_peer_channel ''c1'' ''c2'' sample_hub)"

definition sample_home :: home_endpoint where
  "sample_home = \<lparr>home_community = ''c0'', home_owner = hex_a, home_shared_channel = ''hub''\<rparr>"

definition sample_settings :: settings_input where
  "sample_settings = \<lparr>set_community = ''c1'', set_filter_list = [], set_filter_mode = Only_these,
     set_local_channel = None, set_local_name = None, set_owner = hex_a, set_receives = False,
     set_sends = True\<rparr>"

definition plain_cipher :: cipher where
  "plain_cipher = \<lparr>seal = (\<lambda>k n a p. (p, replicate 16 0)), unseal = (\<lambda>k n a c t. Some c)\<rparr>"

definition sample_begin :: begin_input where
  "sample_begin = \<lparr>bg_bridge_pubkey = hex_b, bg_community = ''c1'', bg_owner = hex_a,
     bg_private_key = replicate 32 7, bg_token_hash = hex_b, bg_wrapping_key = replicate 32 9,
     bg_key_version = 1\<rparr>"

end
