(* ===== verification/Effects.thy ===== *)
theory Effects
  imports Guards
begin

text \<open>
  Code that runs outside one transaction: each query commits by itself and each
  call to a relay leaves its effect behind, so an error keeps the state reached
  so far (unlike a transaction body, which is rolled back).  An effectful
  function maps the world to its result and the world it leaves;
  \<open>call_then\<close> (theory Guards) is its sequential composition.

  The environment (the relay, the database server, other processes) is a
  parameter: a record of answers over an abstract environment state, which may
  answer differently every time.  A process that dies is an environment in
  which every answer from then on is a failure.
\<close>

type_synonym ('w, 'a) io = "'w \<Rightarrow> 'a res \<times> 'w"

definition io_return :: "'a \<Rightarrow> ('w, 'a) io" where
  "io_return a = (\<lambda>w. (Inr a, w))"

definition io_throw :: "err \<Rightarrow> ('w, 'a) io" where
  "io_throw e = (\<lambda>w. (Inl e, w))"

definition io_res :: "'a res \<Rightarrow> ('w, 'a) io" where
  "io_res r = (\<lambda>w. (r, w))"

definition io_get :: "('w \<Rightarrow> 'a) \<Rightarrow> ('w, 'a) io" where
  "io_get f = (\<lambda>w. (Inr (f w), w))"

definition io_put :: "('w \<Rightarrow> 'w) \<Rightarrow> ('w, unit) io" where
  "io_put f = (\<lambda>w. (Inr (), f w))"

text \<open>\<open>try { m } catch (error) { h }\<close>\<close>

definition io_catch :: "('w, 'a) io \<Rightarrow> (err \<Rightarrow> ('w, 'a) io) \<Rightarrow> ('w, 'a) io" where
  "io_catch m h = (\<lambda>w. case m w of (Inl e, w') \<Rightarrow> h e w' | (Inr a, w') \<Rightarrow> (Inr a, w'))"

text \<open>Running \<open>m\<close> and looking at how it ended.\<close>

definition io_attempt :: "('w, 'a) io \<Rightarrow> ('w, 'a res) io" where
  "io_attempt m = (\<lambda>w. case m w of (r, w') \<Rightarrow> (Inr r, w'))"

text \<open>\<open>for (const x of xs) await f(x)\<close>\<close>

fun io_each :: "('x \<Rightarrow> ('w, unit) io) \<Rightarrow> 'x list \<Rightarrow> ('w, unit) io" where
  "io_each f [] = io_return ()"
| "io_each f (x # xs) = call_then (f x) (\<lambda>_. io_each f xs)"

lemmas io_defs = io_return_def io_throw_def io_res_def io_get_def io_put_def io_catch_def
  call_then_def

section \<open>Invariants of effects\<close>

text \<open>
  \<open>leads I m Q\<close>: from a world in which \<open>I\<close> holds, \<open>m\<close> always leaves one in which
  \<open>I\<close> holds, and when it returns \<open>a\<close> also \<open>Q a\<close> does.
\<close>

definition leads :: "('w \<Rightarrow> bool) \<Rightarrow> ('w, 'a) io \<Rightarrow> ('w \<Rightarrow> bool) \<Rightarrow> ('a \<Rightarrow> 'w \<Rightarrow> bool) \<Rightarrow> bool" where
  "leads P m I Q \<longleftrightarrow> (\<forall>w. P w \<longrightarrow> I (snd (m w)) \<and> (\<forall>a. fst (m w) = Inr a \<longrightarrow> Q a (snd (m w))))"

named_theorems leads_intros \<open>rules for the effects of a composed operation\<close>

lemma leadsI:
  "(\<And>w r w'. P w \<Longrightarrow> m w = (r, w') \<Longrightarrow> I w' \<and> (\<forall>a. r = Inr a \<longrightarrow> Q a w')) \<Longrightarrow> leads P m I Q"
  unfolding leads_def by (metis prod.collapse)

lemma leadsD:
  "leads P m I Q \<Longrightarrow> P w \<Longrightarrow> m w = (r, w') \<Longrightarrow> I w' \<and> (\<forall>a. r = Inr a \<longrightarrow> Q a w')"
  unfolding leads_def by (metis fst_conv snd_conv)

lemma leads_return: "(\<And>w. P w \<Longrightarrow> I w \<and> Q a w) \<Longrightarrow> leads P (io_return a) I Q"
  by (simp add: leads_def io_return_def)

lemma leads_throw: "(\<And>w. P w \<Longrightarrow> I w) \<Longrightarrow> leads P (io_throw e) I Q"
  by (simp add: leads_def io_throw_def)

lemma leads_res: "(\<And>w a. P w \<Longrightarrow> r = Inr a \<Longrightarrow> Q a w) \<Longrightarrow> (\<And>w. P w \<Longrightarrow> I w) \<Longrightarrow> leads P (io_res r) I Q"
  by (simp add: leads_def io_res_def)

lemma leads_get: "(\<And>w. P w \<Longrightarrow> I w \<and> Q (f w) w) \<Longrightarrow> leads P (io_get f) I Q"
  by (simp add: leads_def io_get_def)

lemma leads_put: "(\<And>w. P w \<Longrightarrow> I (f w) \<and> Q () (f w)) \<Longrightarrow> leads P (io_put f) I Q"
  by (simp add: leads_def io_put_def)

lemma leads_then:
  assumes "leads P m I R" "\<And>a. leads (R a) (f a) I Q"
  shows "leads P (call_then m f) I Q"
proof (rule leadsI)
  fix w r w' assume "P w" and run: "call_then m f w = (r, w')"
  obtain r1 w1 where m: "m w = (r1, w1)" by fastforce
  note R = leadsD [OF assms(1) \<open>P w\<close> m]
  show "I w' \<and> (\<forall>a. r = Inr a \<longrightarrow> Q a w')"
  proof (cases r1)
    case (Inl e)
    then show ?thesis using R run m by (simp add: call_then_def) (metis Inl_Inr_False)
  next
    case (Inr a)
    then have "f a w1 = (r, w')" "R a w1" using R run m by (simp_all add: call_then_def)
    then show ?thesis using leadsD [OF assms(2)] by blast
  qed
qed

lemma leads_catch:
  assumes "leads P m I Q" "\<And>e. leads I (h e) I Q"
  shows "leads P (io_catch m h) I Q"
proof (rule leadsI)
  fix w r w' assume "P w" and run: "io_catch m h w = (r, w')"
  obtain r1 w1 where m: "m w = (r1, w1)" by fastforce
  note R = leadsD [OF assms(1) \<open>P w\<close> m]
  show "I w' \<and> (\<forall>a. r = Inr a \<longrightarrow> Q a w')"
  proof (cases r1)
    case (Inl e)
    then show ?thesis using R run m leadsD [OF assms(2) [of e]] by (simp add: io_catch_def)
  next
    case (Inr a)
    then have "r = Inr a \<and> w' = w1" using run m by (simp add: io_catch_def)
    then show ?thesis using R Inr by simp
  qed
qed

lemma leads_if:
  "(b \<Longrightarrow> leads P m I Q) \<Longrightarrow> (\<not> b \<Longrightarrow> leads P n I Q) \<Longrightarrow> leads P (if b then m else n) I Q"
  by simp

lemma leads_option:
  "(x = None \<Longrightarrow> leads P m I Q) \<Longrightarrow> (\<And>a. x = Some a \<Longrightarrow> leads P (f a) I Q) \<Longrightarrow>
   leads P (case x of None \<Rightarrow> m | Some a \<Rightarrow> f a) I Q"
  by (cases x) auto

lemma leads_attempt:
  "leads P m I (\<lambda>_. I) \<Longrightarrow> leads P (io_attempt m) I (\<lambda>_. I)"
  by (auto simp: leads_def io_attempt_def split: prod.splits)

lemma leads_each:
  assumes "\<And>x. x \<in> set xs \<Longrightarrow> leads I (f x) I (\<lambda>_. I)"
  shows "leads I (io_each f xs) I (\<lambda>_. I)"
  using assms
proof (induction xs)
  case Nil
  then show ?case by (simp add: leads_return)
next
  case (Cons x xs)
  then show ?case by (auto intro: leads_then)
qed

lemma leads_weaken:
  "leads P' m I' Q' \<Longrightarrow> (\<And>w. P w \<Longrightarrow> P' w) \<Longrightarrow> (\<And>w. I' w \<Longrightarrow> I w) \<Longrightarrow>
   (\<And>a w. Q' a w \<Longrightarrow> I' w \<Longrightarrow> Q a w) \<Longrightarrow> leads P m I Q"
  unfolding leads_def by blast

text \<open>A run that returned, step by step.\<close>

lemma call_then_Inr:
  "call_then m f w = (Inr b, w') \<longleftrightarrow> (\<exists>a v. m w = (Inr a, v) \<and> f a v = (Inr b, w'))"
  by (auto simp: call_then_def split: prod.splits sum.splits)

lemma io_return_Inr: "io_return a w = (Inr b, w') \<longleftrightarrow> b = a \<and> w' = w"
  by (auto simp: io_return_def)

lemma io_throw_Inr: "\<not> (io_throw e w = (Inr b, w'))"
  by (simp add: io_throw_def)

lemma io_res_Inr: "io_res r w = (Inr b, w') \<longleftrightarrow> r = Inr b \<and> w' = w"
  by (auto simp: io_res_def)

lemma io_get_Inr: "io_get f w = (Inr b, w') \<longleftrightarrow> b = f w \<and> w' = w"
  by (auto simp: io_get_def)

lemma io_put_Inr: "io_put f w = (Inr b, w') \<longleftrightarrow> w' = f w"
  by (auto simp: io_put_def)

lemmas io_inversion = call_then_Inr io_return_Inr io_throw_Inr io_res_Inr io_get_Inr io_put_Inr

section \<open>Queries\<close>

text \<open>
  What becomes of a query sent to the pool: it runs; it fails and changes
  nothing; or it takes effect and its answer is lost.
\<close>

datatype query_outcome = Query_ok | Query_failed | Query_lost

definition io_query :: "('e \<Rightarrow> query_outcome \<times> 'e) \<Rightarrow> ('w \<Rightarrow> 'e) \<Rightarrow> (('e \<Rightarrow> 'e) \<Rightarrow> 'w \<Rightarrow> 'w) \<Rightarrow>
  ('w, 'a) io \<Rightarrow> ('w, 'a) io" where
  "io_query answer env set_env m = (\<lambda>w.
     case answer (env w) of (q, e') \<Rightarrow>
       (let w1 = set_env (\<lambda>_. e') w in
        case q of
          Query_ok \<Rightarrow> m w1
        | Query_failed \<Rightarrow> (Inl Raw, w1)
        | Query_lost \<Rightarrow> (Inl Raw, snd (m w1))))"

lemma leads_query:
  assumes "\<And>w e. P w \<Longrightarrow> P (set_env e w)" "\<And>w. P w \<Longrightarrow> I w" "leads P m I Q"
  shows "leads P (io_query answer env set_env m) I Q"
proof -
  have keep: "I (set_env e w)" "I (snd (m (set_env e w)))"
    "fst (m (set_env e w)) = Inr a \<Longrightarrow> Q a (snd (m (set_env e w)))" if "P w" for e w a
    using assms(1) [OF that, of e] assms(2,3) by (auto simp: leads_def)
  show ?thesis
    unfolding leads_def io_query_def using keep
    by (auto simp: Let_def split: prod.splits query_outcome.splits)
qed

end
