(* ===== verification/Addressing.thy ===== *)
theory Addressing
  imports Prelude
begin

text \<open>
  The two grammars a person types into a bridged channel:
  src/shared-channels/addressing.ts (\<open>@[community/user]\<close> in front of a message)
  and src/shared-channels/commands.ts (slash commands).  Both are pure parsers
  over the message text; the regular expressions are written as prefix
  recognisers (every one of them is anchored and deterministic, so a match is
  unique).
\<close>

section \<open>Handles\<close>

definition slug_start :: "char \<Rightarrow> bool" where
  "slug_start c \<longleftrightarrow> is_lower c \<or> is_digit c"

definition slug_rest :: "char \<Rightarrow> bool" where
  "slug_rest c \<longleftrightarrow> is_lower c \<or> is_digit c \<or> c = CHR ''-''"

text \<open>\<open>/^[a-z0-9][a-z0-9-]{1,39}$/\<close>\<close>

fun slug_syntax :: "string \<Rightarrow> bool" where
  "slug_syntax [] = False"
| "slug_syntax (c # cs) \<longleftrightarrow> slug_start c \<and> list_all slug_rest cs \<and>
     1 \<le> length cs \<and> length cs \<le> 39"

definition user_char :: "char \<Rightarrow> bool" where
  "user_char c \<longleftrightarrow> is_lower c \<or> is_upper c \<or> is_digit c \<or> c \<in> set ''_.-''"

text \<open>\<open>/^[a-zA-Z0-9_.-]{1,64}$/\<close>\<close>

definition user_syntax :: "string \<Rightarrow> bool" where
  "user_syntax s \<longleftrightarrow> list_all user_char s \<and> 1 \<le> length s \<and> length s \<le> 64"

section \<open>Addresses\<close>

record address =
  adr_slug :: string
  adr_user :: "string option"
  adr_body :: string

definition target_char :: "char \<Rightarrow> bool" where
  "target_char c \<longleftrightarrow> \<not> js_space c \<and> c \<noteq> CHR '']''"

text \<open>\<open>/^\s*@\[([^\]\s]{1,120})\]\s*/u\<close>: the target and what follows the match.\<close>

definition bracketed_address :: "string \<Rightarrow> (string \<times> string) option" where
  "bracketed_address body =
     (case trim_start body of
        a # b # r \<Rightarrow>
          (let target = takeWhile target_char r in
           case dropWhile target_char r of
             c # rest \<Rightarrow>
               if a = CHR ''@'' \<and> b = CHR ''['' \<and> c = CHR '']'' \<and>
                  1 \<le> length target \<and> length target \<le> 120
               then Some (target, trim_start rest) else None
           | [] \<Rightarrow> None)
      | _ \<Rightarrow> None)"

text \<open>\<open>/^\s*@([^\s\]]{1,120})\s+/u\<close>\<close>

definition bare_address :: "string \<Rightarrow> (string \<times> string) option" where
  "bare_address body =
     (case trim_start body of
        a # r \<Rightarrow>
          (let target = takeWhile target_char r in
           case dropWhile target_char r of
             c # rest \<Rightarrow>
               if a = CHR ''@'' \<and> js_space c \<and> 1 \<le> length target \<and> length target \<le> 120
               then Some (target, trim_start rest) else None
           | [] \<Rightarrow> None)
      | [] \<Rightarrow> None)"

text \<open>\<open>indexOf("/")\<close> and the two slices around it.\<close>

definition split_target :: "string \<Rightarrow> string \<times> string option" where
  "split_target t =
     (case dropWhile (\<lambda>c. c \<noteq> CHR ''/'') t of
        [] \<Rightarrow> (t, None)
      | _ # u \<Rightarrow> (takeWhile (\<lambda>c. c \<noteq> CHR ''/'') t, Some u))"

text \<open>\<open>bracketed ?? bare\<close>\<close>

definition address_match :: "string \<Rightarrow> (string \<times> string) option" where
  "address_match body =
     (case bracketed_address body of Some m \<Rightarrow> Some m | None \<Rightarrow> bare_address body)"

definition parse_message_address :: "string \<Rightarrow> address option" where
  "parse_message_address body =
     (case address_match body of
        None \<Rightarrow> None
      | Some (target, remainder) \<Rightarrow>
          (let (s, u) = split_target target;
               slug = to_lower (trim s);
               user = map_option trim u
           in if \<not> slug_syntax slug then None
              else if (case user of Some w \<Rightarrow> \<not> user_syntax w | None \<Rightarrow> False) then None
              else if trim remainder = [] then None
              else Some \<lparr>adr_slug = slug, adr_user = user, adr_body = remainder\<rparr>))"

section \<open>Commands\<close>

text \<open>\<open>s.split(/\s+/)\<close>\<close>

function split_spaces :: "string \<Rightarrow> string list" where
  "split_spaces s =
     (case dropWhile (\<lambda>c. \<not> js_space c) s of
        [] \<Rightarrow> [takeWhile (\<lambda>c. \<not> js_space c) s]
      | _ # r \<Rightarrow> takeWhile (\<lambda>c. \<not> js_space c) s # split_spaces (trim_start r))"
  by pat_completeness auto

lemma dropWhile_shorter: "dropWhile P s = x # r \<Longrightarrow> length (dropWhile Q r) < length s"
  by (metis Suc_le_lessD length_Cons length_dropWhile_le order_le_less_trans)

termination split_spaces
  by (relation "measure length") (auto simp: trim_start_def dest: dropWhile_shorter)

declare split_spaces.simps [simp del]

datatype parsed_command =
    Cmd_open string
  | Cmd_close "string option"
  | Cmd_list
  | Cmd_usage string

definition command_usage :: string where
  "command_usage = ''BuzzRouter commands: /open <community>, /close [<community>], /list.''"

definition normalize_slug :: "string option \<Rightarrow> string option" where
  "normalize_slug arg =
     (case arg of None \<Rightarrow> None
      | Some a \<Rightarrow> let s = to_lower (trim a) in if slug_syntax s then Some s else None)"

definition parse_command :: "string \<Rightarrow> parsed_command option" where
  "parse_command content =
     (let tokens = split_spaces (trim content);
          head = hd tokens;
          arg = (case tl tokens of [] \<Rightarrow> None | a # _ \<Rightarrow> Some a)
      in case head of
           [] \<Rightarrow> None
         | c # verb_text \<Rightarrow>
             if c \<noteq> CHR ''/'' then None
             else let verb = to_lower verb_text in
               if verb = ''open'' then
                 Some (case normalize_slug arg of
                         None \<Rightarrow> Cmd_usage (''Usage: /open <community>. '' @ command_usage)
                       | Some s \<Rightarrow> Cmd_open s)
               else if verb = ''close'' then
                 Some (case arg of None \<Rightarrow> Cmd_close None
                       | Some a \<Rightarrow>
                           (case normalize_slug arg of
                              None \<Rightarrow> Cmd_usage (''Usage: /close [<community>]. '' @ command_usage)
                            | Some s \<Rightarrow> Cmd_close (Some s)))
               else if verb = ''list'' then Some Cmd_list
               else None)"

section \<open>Facts about the grammar\<close>

lemma is_lower_no_space: "is_lower c \<Longrightarrow> \<not> js_space c"
  by (auto simp: is_lower_def js_space_def less_eq_char_def)

lemma is_digit_no_space: "is_digit c \<Longrightarrow> \<not> js_space c"
  by (auto simp: is_digit_def js_space_def less_eq_char_def)

lemma is_upper_no_space: "is_upper c \<Longrightarrow> \<not> js_space c"
  by (auto simp: is_upper_def js_space_def less_eq_char_def)

lemma js_lower_slug_rest: "slug_rest c \<Longrightarrow> js_lower_char c = c"
  by (auto simp: slug_rest_def is_lower_def is_digit_def less_eq_char_def js_lower_char_def Let_def)

lemma slug_rest_target: "slug_rest c \<Longrightarrow> target_char c \<and> c \<noteq> CHR ''/''"
  by (auto simp: slug_rest_def is_lower_def is_digit_def less_eq_char_def target_char_def js_space_def)

lemma user_char_target: "user_char c \<Longrightarrow> target_char c"
  by (auto simp: user_char_def is_lower_def is_upper_def is_digit_def less_eq_char_def
      target_char_def js_space_def)

lemma slug_syntax_chars: "slug_syntax s \<Longrightarrow> list_all slug_rest s \<and> 2 \<le> length s \<and> length s \<le> 40"
  by (cases s) (auto simp: slug_start_def slug_rest_def)

lemma to_lower_slug: "list_all slug_rest s \<Longrightarrow> to_lower s = s"
  by (induction s) (auto simp: to_lower_def js_lower_slug_rest)

lemma trim_start_nonspace: "s = [] \<or> \<not> js_space (hd s) \<Longrightarrow> trim_start s = s"
  by (cases s) (auto simp: trim_start_def)

lemma trim_no_space: "list_all (\<lambda>c. \<not> js_space c) s \<Longrightarrow> trim s = s"
proof -
  assume s: "list_all (\<lambda>c. \<not> js_space c) s"
  then have "dropWhile js_space s = s" "dropWhile js_space (rev s) = rev s"
    by (cases s, auto simp: list_all_iff) (metis dropWhile_eq_self_iff hd_in_set set_rev)
  then show ?thesis by (simp add: trim_def trim_start_def trim_end_def)
qed

lemma trim_spaces: "list_all js_space s \<Longrightarrow> trim s = []"
proof -
  assume "list_all js_space s"
  then have "trim_start s = []" by (simp add: trim_start_def list_all_iff)
  then show ?thesis by (simp add: trim_def trim_end_def)
qed

lemma trim_end_spaces: "list_all js_space ws \<Longrightarrow> trim_end (s @ ws) = trim_end s"
  by (auto simp: trim_end_def list_all_iff dropWhile_append)

lemma trim_Nil_iff: "trim s = [] \<longleftrightarrow> list_all js_space s"
proof
  assume "trim s = []"
  then have "list_all js_space (trim_start s)"
    by (auto simp: trim_def trim_end_def list_all_iff dropWhile_eq_Nil_conv)
  moreover have "trim_start s \<noteq> [] \<Longrightarrow> \<not> js_space (hd (trim_start s))"
    unfolding trim_start_def by (rule hd_dropWhile)
  ultimately have "trim_start s = []"
    by (cases "trim_start s") auto
  then show "list_all js_space s" by (simp add: trim_start_def list_all_iff)
qed (rule trim_spaces)

lemma takeWhile_run: "list_all P xs \<Longrightarrow> \<not> P c \<Longrightarrow> takeWhile P (xs @ c # ys) = xs"
  by (induction xs) auto

lemma dropWhile_run: "list_all P xs \<Longrightarrow> \<not> P c \<Longrightarrow> dropWhile P (xs @ c # ys) = c # ys"
  by (induction xs) auto

lemma list_all_slug_target: "list_all slug_rest s \<Longrightarrow> list_all target_char s"
  by (auto simp: list_all_iff slug_rest_target)

lemma list_all_user_target: "list_all user_char s \<Longrightarrow> list_all target_char s"
  by (auto simp: list_all_iff user_char_target)

lemma list_all_target_space: "list_all target_char s \<Longrightarrow> list_all (\<lambda>c. \<not> js_space c) s"
  by (auto simp: list_all_iff target_char_def)

lemma slug_no_slash: "list_all slug_rest s \<Longrightarrow> list_all (\<lambda>c. c \<noteq> CHR ''/'') s"
  by (auto simp: list_all_iff dest: slug_rest_target)

lemma split_target_slash:
  assumes "list_all slug_rest s"
  shows "split_target (s @ CHR ''/'' # u) = (s, Some u)"
proof -
  note ns = slug_no_slash [OF assms]
  have "dropWhile (\<lambda>c. c \<noteq> CHR ''/'') (s @ CHR ''/'' # u) = CHR ''/'' # u"
    by (rule dropWhile_run [OF ns]) simp
  moreover have "takeWhile (\<lambda>c. c \<noteq> CHR ''/'') (s @ CHR ''/'' # u) = s"
    by (rule takeWhile_run [OF ns]) simp
  ultimately show ?thesis by (simp add: split_target_def)
qed

lemma split_target_plain:
  assumes "list_all slug_rest s"
  shows "split_target s = (s, None)"
proof -
  have none: "dropWhile (\<lambda>c. c \<noteq> CHR ''/'') s = []"
    using slug_no_slash [OF assms] by (simp add: list_all_iff)
  show ?thesis unfolding split_target_def none by simp
qed

lemma split_target_sub:
  "set (fst (split_target t)) \<subseteq> set t"
  "snd (split_target t) = Some u \<Longrightarrow> t = fst (split_target t) @ CHR ''/'' # u"
proof -
  have t: "t = takeWhile (\<lambda>c. c \<noteq> CHR ''/'') t @ dropWhile (\<lambda>c. c \<noteq> CHR ''/'') t" by simp
  show "set (fst (split_target t)) \<subseteq> set t"
    by (auto simp: split_target_def split: list.splits dest: set_takeWhileD)
  assume *: "snd (split_target t) = Some u"
  then obtain c where c: "dropWhile (\<lambda>c. c \<noteq> CHR ''/'') t = c # u"
    by (auto simp: split_target_def split: list.splits)
  then have "c = CHR ''/''" using hd_dropWhile [of "\<lambda>c. c \<noteq> CHR ''/''" t] by simp
  with t c show "t = fst (split_target t) @ CHR ''/'' # u"
    by (simp add: split_target_def)
qed

lemma trim_split_target:
  assumes "list_all target_char t"
  shows "trim (fst (split_target t)) = fst (split_target t)"
    "map_option trim (snd (split_target t)) = snd (split_target t)"
proof -
  have ns: "\<forall>c \<in> set t. \<not> js_space c" using assms by (auto simp: list_all_iff target_char_def)
  with split_target_sub(1) [of t] have "list_all (\<lambda>c. \<not> js_space c) (fst (split_target t))"
    by (auto simp: list_all_iff)
  then show "trim (fst (split_target t)) = fst (split_target t)" by (rule trim_no_space)
  show "map_option trim (snd (split_target t)) = snd (split_target t)"
  proof (cases "snd (split_target t)")
    case None
    then show ?thesis by simp
  next
    case (Some u)
    then have "set u \<subseteq> set t" using split_target_sub(2) [of t u]
      by (metis set_append Un_upper2 set_subset_Cons subset_trans)
    with ns have "list_all (\<lambda>c. \<not> js_space c) u" by (auto simp: list_all_iff)
    with Some show ?thesis by (simp add: trim_no_space)
  qed
qed

lemma target_with_user:
  assumes "slug_syntax s" "user_syntax u"
  shows "list_all target_char (s @ CHR ''/'' # u) \<and> 1 \<le> length (s @ CHR ''/'' # u) \<and>
    length (s @ CHR ''/'' # u) \<le> 120"
  using assms slug_syntax_chars [OF assms(1)]
  by (auto simp: user_syntax_def list_all_slug_target list_all_user_target target_char_def
      js_space_def)

section \<open>What a parse guarantees\<close>

lemma bracketed_shape:
  assumes "bracketed_address body = Some (t, rest)"
  obtains ws sp where "body = ws @ ''@['' @ t @ '']'' @ sp @ rest" "list_all js_space ws"
    "list_all js_space sp" "list_all target_char t" "1 \<le> length t" "length t \<le> 120"
proof -
  from assms obtain r c q where 1: "trim_start body = CHR ''@'' # CHR ''['' # r"
    "dropWhile target_char r = CHR '']'' # q" "t = takeWhile target_char r" "rest = trim_start q"
    "1 \<le> length t" "length t \<le> 120"
    by (auto simp: bracketed_address_def Let_def split: list.splits if_splits)
  let ?ws = "takeWhile js_space body" and ?sp = "takeWhile js_space q"
  have "body = ?ws @ trim_start body" "r = t @ dropWhile target_char r" "q = ?sp @ rest"
    unfolding 1(3,4) trim_start_def by simp_all
  then have "body = ?ws @ ''@['' @ t @ '']'' @ ?sp @ rest" using 1 by simp
  moreover have "list_all target_char t" using 1 by (auto simp: list_all_iff dest: set_takeWhileD)
  ultimately show thesis
    using that [of ?ws ?sp] 1 by (auto simp: list_all_iff dest: set_takeWhileD)
qed

lemma bare_shape:
  assumes "bare_address body = Some (t, rest)"
  obtains ws c sp where "body = ws @ ''@'' @ t @ c # sp @ rest" "list_all js_space ws" "js_space c"
    "list_all js_space sp" "list_all target_char t" "1 \<le> length t" "length t \<le> 120"
proof -
  from assms obtain r c q where 1: "trim_start body = CHR ''@'' # r"
    "dropWhile target_char r = c # q" "t = takeWhile target_char r" "rest = trim_start q"
    "js_space c" "1 \<le> length t" "length t \<le> 120"
    by (auto simp: bare_address_def Let_def split: list.splits if_splits)
  let ?ws = "takeWhile js_space body" and ?sp = "takeWhile js_space q"
  have "body = ?ws @ trim_start body" "r = t @ dropWhile target_char r" "q = ?sp @ rest"
    unfolding 1(3,4) trim_start_def by simp_all
  then have "body = ?ws @ ''@'' @ t @ c # ?sp @ rest" using 1 by simp
  moreover have "list_all target_char t" using 1 by (auto simp: list_all_iff dest: set_takeWhileD)
  ultimately show thesis
    using that [of ?ws c ?sp] 1 by (auto simp: list_all_iff dest: set_takeWhileD)
qed

text \<open>The parts of a parsed address, and how they sit in the message.\<close>

lemma parse_address_parts:
  assumes "parse_message_address body = Some a"
  obtains t pre post where "body = pre @ t @ post @ adr_body a" "list_all target_char t"
    "trim_start pre = ''@['' \<and> hd post = CHR '']'' \<or> trim_start pre = ''@'' \<and> js_space (hd post)"
    "post \<noteq> []" "adr_slug a = to_lower (fst (split_target t))"
    "adr_user a = snd (split_target t)" "slug_syntax (adr_slug a)"
    "case adr_user a of None \<Rightarrow> True | Some u \<Rightarrow> user_syntax u" "trim (adr_body a) \<noteq> []"
proof -
  from assms obtain t where m: "address_match body = Some (t, adr_body a)" and 2: "adr_slug a = to_lower (trim (fst (split_target t)))"
    "adr_user a = map_option trim (snd (split_target t))" "slug_syntax (adr_slug a)"
    "case adr_user a of None \<Rightarrow> True | Some u \<Rightarrow> user_syntax u" "trim (adr_body a) \<noteq> []"
    by (auto simp: parse_message_address_def Let_def split: option.splits prod.splits if_splits)
  from m have 1:
    "bracketed_address body = Some (t, adr_body a) \<or> bare_address body = Some (t, adr_body a)"
    by (auto simp: address_match_def split: option.splits)
  have shape: "list_all target_char t \<and> (\<exists>pre post. body = pre @ t @ post @ adr_body a \<and> post \<noteq> [] \<and>
     (trim_start pre = ''@['' \<and> hd post = CHR '']'' \<or> trim_start pre = ''@'' \<and> js_space (hd post)))"
    using 1
  proof
    assume "bracketed_address body = Some (t, adr_body a)"
    then show ?thesis
    proof (cases rule: bracketed_shape)
      case (1 ws sp)
      have "trim_start (ws @ ''@['') = ''@[''"
        using 1(2) by (auto simp: trim_start_def dropWhile_append list_all_iff js_space_def)
      then show ?thesis using 1
        by (intro conjI exI [of _ "ws @ ''@[''"] exI [of _ "'']'' @ sp"]) auto
    qed
  next
    assume "bare_address body = Some (t, adr_body a)"
    then show ?thesis
    proof (cases rule: bare_shape)
      case (1 ws c sp)
      have "trim_start (ws @ ''@'') = ''@''"
        using 1(2) by (auto simp: trim_start_def dropWhile_append list_all_iff js_space_def)
      then show ?thesis using 1
        by (intro conjI exI [of _ "ws @ ''@''"] exI [of _ "c # sp"]) auto
    qed
  qed
  have "trim (fst (split_target t)) = fst (split_target t)"
    and "map_option trim (snd (split_target t)) = snd (split_target t)"
    using shape by (simp_all add: trim_split_target)
  with 2 shape show thesis using that by auto
qed

section \<open>Properties\<close>

lemma parse_from_match:
  assumes "address_match body = Some (t, b)" "split_target t = (s, u)" "list_all target_char t"
    "slug_syntax s" "case u of None \<Rightarrow> True | Some w \<Rightarrow> user_syntax w" "trim b \<noteq> []"
  shows "parse_message_address body = Some \<lparr>adr_slug = s, adr_user = u, adr_body = b\<rparr>"
proof -
  have "trim s = s" "map_option trim u = u"
    using trim_split_target [OF assms(3)] assms(2) by simp_all
  moreover have "to_lower s = s" using assms(4) slug_syntax_chars to_lower_slug by blast
  ultimately show ?thesis
    using assms by (simp add: parse_message_address_def split: option.splits)
qed

lemma bracketed_match:
  assumes "list_all target_char t" "1 \<le> length t" "length t \<le> 120"
  shows "address_match (''@['' @ t @ '']'' @ b) = Some (t, trim_start b)"
proof -
  have "\<not> target_char (CHR '']'')" by (simp add: target_char_def)
  with assms have "takeWhile target_char (t @ CHR '']'' # b) = t"
    "dropWhile target_char (t @ CHR '']'' # b) = CHR '']'' # b"
    by (simp_all add: takeWhile_run dropWhile_run)
  with assms show ?thesis
    by (simp add: address_match_def bracketed_address_def trim_start_def js_space_def)
qed

lemma bare_match:
  assumes "list_all target_char t" "2 \<le> length t" "length t \<le> 120" "hd t \<noteq> CHR ''[''" "js_space c"
  shows "address_match (''@'' @ t @ c # b) = Some (t, trim_start b)"
proof -
  obtain x y q where t: "t = x # y # q" using assms(2)
    by (metis Suc_le_length_iff numeral_2_eq_2)
  have sp: "\<not> target_char c" using assms(5) by (simp add: target_char_def)
  with assms(1) have "takeWhile target_char (t @ c # b) = t"
    "dropWhile target_char (t @ c # b) = c # b"
    by (simp_all add: takeWhile_run dropWhile_run)
  moreover have "bracketed_address (''@'' @ t @ c # b) = None"
    using assms(4) t by (simp add: bracketed_address_def trim_start_def js_space_def Let_def
        split: list.splits)
  ultimately show ?thesis
    using assms by (simp add: address_match_def bare_address_def trim_start_def js_space_def)
qed

lemma slug_no_bracket: "slug_syntax s \<Longrightarrow> hd s \<noteq> CHR ''[''"
  by (cases s) (auto simp: slug_start_def is_lower_def is_digit_def less_eq_char_def)

lemma js_space_blank: "js_space (CHR '' '')"
  by (simp add: js_space_def)

text \<open>
  C7. Writing an address and reading it: for every handle, user and non-blank
  message, both spellings (\<open>@slug/user text\<close>, \<open>@[slug/user] text\<close>, with or
  without the user) parse to exactly that handle, user and text.
\<close>

theorem address_round_trip:
  assumes "slug_syntax s" "user_syntax u" "b \<noteq> []" "\<not> js_space (hd b)"
  shows "parse_message_address (''@'' @ (s @ ''/'' @ u) @ '' '' @ b) =
           Some \<lparr>adr_slug = s, adr_user = Some u, adr_body = b\<rparr> \<and>
         parse_message_address (''@['' @ (s @ ''/'' @ u) @ ''] '' @ b) =
           Some \<lparr>adr_slug = s, adr_user = Some u, adr_body = b\<rparr> \<and>
         parse_message_address (''@'' @ s @ '' '' @ b) =
           Some \<lparr>adr_slug = s, adr_user = None, adr_body = b\<rparr> \<and>
         parse_message_address (''@['' @ s @ '']'' @ b) =
           Some \<lparr>adr_slug = s, adr_user = None, adr_body = b\<rparr>"
proof -
  note sl = slug_syntax_chars [OF assms(1)]
  have tu: "list_all target_char (s @ ''/'' @ u)" "2 \<le> length (s @ ''/'' @ u)"
    "1 \<le> length (s @ ''/'' @ u)" "length (s @ ''/'' @ u) \<le> 120"
    using target_with_user [OF assms(1,2)] sl by auto
  have ts: "list_all target_char s" "2 \<le> length s" "1 \<le> length s" "length s \<le> 120"
    using sl list_all_slug_target by auto
  have hd: "hd (s @ ''/'' @ u) \<noteq> CHR ''[''" "hd s \<noteq> CHR ''[''"
    using slug_no_bracket [OF assms(1)] sl by (cases s; simp)+
  have sp: "split_target (s @ ''/'' @ u) = (s, Some u)" "split_target s = (s, None)"
    using sl split_target_slash split_target_plain by simp_all
  have b: "trim b \<noteq> []" using assms(3,4) by (cases b) (auto simp: trim_Nil_iff)
  have st: "trim_start b = b" "trim_start ('' '' @ b) = b"
    using assms(3,4) by (cases b; simp add: trim_start_def js_space_def)+
  have "address_match (''@['' @ (s @ ''/'' @ u) @ '']'' @ '' '' @ b) = Some (s @ ''/'' @ u, b)"
    using bracketed_match [OF tu(1,3,4), of "'' '' @ b"] st by simp
  with bare_match [OF tu(1,2,4) hd(1), of "CHR '' ''" b] bare_match [OF ts(1,2,4) hd(2), of "CHR '' ''" b]
    bracketed_match [OF ts(1,3,4), of b]
  show ?thesis
    using parse_from_match [OF _ sp(1) tu(1) assms(1), of _ b]
      parse_from_match [OF _ sp(2) ts(1) assms(1), of _ b] assms(2) b st js_space_blank by simp
qed

lemma hd_split_spaces: "hd (split_spaces s) = takeWhile (\<lambda>c. \<not> js_space c) s"
  by (subst split_spaces.simps) (auto split: list.splits)

lemma split_spaces_single:
  assumes "list_all (\<lambda>c. \<not> js_space c) a"
  shows "split_spaces a = [a]"
proof -
  have none: "dropWhile (\<lambda>c. \<not> js_space c) a = []" "takeWhile (\<lambda>c. \<not> js_space c) a = a"
    using assms by (simp_all add: list_all_iff)
  show ?thesis by (subst split_spaces.simps, unfold none) simp
qed

lemma split_spaces_pair:
  assumes "list_all (\<lambda>c. \<not> js_space c) a" "list_all js_space w" "w \<noteq> []"
    "list_all (\<lambda>c. \<not> js_space c) b"
  shows "split_spaces (a @ w @ b) = [a, b]"
proof -
  obtain c v where w: "w = c # v" using assms(3) by (cases w) auto
  have "dropWhile (\<lambda>c. \<not> js_space c) (a @ w @ b) = c # v @ b"
    "takeWhile (\<lambda>c. \<not> js_space c) (a @ w @ b) = a"
    using assms(1,2) w dropWhile_run [OF assms(1), of c "v @ b"]
      takeWhile_run [OF assms(1), of c "v @ b"] by simp_all
  moreover have "trim_start (v @ b) = b"
  proof -
    have "dropWhile js_space b = b"
      using assms(4) by (cases b) (auto simp: list_all_iff)
    then show ?thesis using assms(2) w by (simp add: trim_start_def list_all_iff)
  qed
  moreover have "split_spaces b = [b]"
    using assms(4) by (rule split_spaces_single)
  ultimately show ?thesis by (subst split_spaces.simps) simp
qed

lemma trim_padded:
  assumes "list_all js_space w" "list_all js_space v" "a \<noteq> []" "\<not> js_space (hd a)"
    "\<not> js_space (last a)"
  shows "trim (w @ a @ v) = a"
proof -
  have "trim_start (w @ a @ v) = a @ v"
    using assms(1,3,4) by (cases a) (auto simp: trim_start_def dropWhile_append list_all_iff)
  moreover have "trim_end a = a"
  proof -
    have "dropWhile js_space (rev a) = rev a"
      using assms(3,5) by (metis dropWhile_eq_self_iff hd_rev)
    then show ?thesis by (simp add: trim_end_def)
  qed
  ultimately show ?thesis using trim_end_spaces [OF assms(2)] by (simp add: trim_def)
qed

lemma command_slug_padded:
  assumes "slug_syntax s" "list_all js_space w" "list_all js_space v" "list_all js_space z" "v \<noteq> []"
    "list_all (\<lambda>c. \<not> js_space c) (CHR ''/'' # verb)"
  shows "split_spaces (trim (w @ (CHR ''/'' # verb) @ v @ s @ z)) = [CHR ''/'' # verb, s]"
    "normalize_slug (Some s) = Some s"
proof -
  have sl: "list_all slug_rest s" "s \<noteq> []" using slug_syntax_chars [OF assms(1)] by auto
  then have ns: "list_all (\<lambda>c. \<not> js_space c) s"
    using list_all_slug_target list_all_target_space by blast
  then have "\<not> js_space (last s)" using sl(2) by (simp add: list_all_iff)
  then have "trim (w @ ((CHR ''/'' # verb) @ v @ s) @ z) = (CHR ''/'' # verb) @ v @ s"
    using assms(2,4,6) sl(2) by (intro trim_padded) auto
  then show "split_spaces (trim (w @ (CHR ''/'' # verb) @ v @ s @ z)) = [CHR ''/'' # verb, s]"
    using split_spaces_pair [OF assms(6,3,5) ns] by simp
  show "normalize_slug (Some s) = Some s"
    using assms(1) sl ns by (simp add: normalize_slug_def trim_no_space to_lower_slug Let_def)
qed

text \<open>
  However it is padded with white space, \<open>/open slug\<close> opens that handle and
  \<open>/close slug\<close> closes it; and a message the command parser accepts is never an
  addressed message, so no message is both run and routed.
\<close>

lemma command_grammar:
  assumes "slug_syntax s" "list_all js_space w" "list_all js_space v" "list_all js_space z" "v \<noteq> []"
  shows "parse_command (w @ ''/open'' @ v @ s @ z) = Some (Cmd_open s) \<and>
         parse_command (w @ ''/close'' @ v @ s @ z) = Some (Cmd_close (Some s)) \<and>
         (\<forall>content. parse_command content \<noteq> None \<longrightarrow> parse_message_address content = None)"
proof (intro conjI allI impI)
  have ns: "list_all (\<lambda>c. \<not> js_space c) ''/open''" "list_all (\<lambda>c. \<not> js_space c) ''/close''"
    by (simp_all add: js_space_def)
  have low: "to_lower ''open'' = ''open''" "to_lower ''close'' = ''close''"
    by (simp_all add: to_lower_def js_lower_char_def)
  show "parse_command (w @ ''/open'' @ v @ s @ z) = Some (Cmd_open s)"
    using command_slug_padded [OF assms, of "''open''"] ns low by (simp add: parse_command_def)
  show "parse_command (w @ ''/close'' @ v @ s @ z) = Some (Cmd_close (Some s))"
    using command_slug_padded [OF assms, of "''close''"] ns low by (simp add: parse_command_def)
next
  fix content assume "parse_command content \<noteq> None"
  then obtain r where "hd (split_spaces (trim content)) = CHR ''/'' # r"
    by (auto simp: parse_command_def Let_def split: list.splits if_splits)
  then obtain q where q: "trim content = CHR ''/'' # q"
    by (cases "trim content") (auto simp: hd_split_spaces split: if_splits)
  obtain ws where "trim_start content = trim content @ ws"
    using trim_end_prefix [of "trim_start content"] by (auto simp: trim_def)
  with q have slash: "trim_start content = CHR ''/'' # q @ ws" by simp
  show "parse_message_address content = None"
  proof (rule ccontr)
    assume "parse_message_address content \<noteq> None"
    then obtain t b where "address_match content = Some (t, b)"
      by (auto simp: parse_message_address_def split: option.splits)
    with slash show False
      by (auto simp: address_match_def bracketed_address_def bare_address_def Let_def
          split: option.splits list.splits if_splits)
  qed
qed

end
