(* ===== verification/Bridge.thy ===== *)
theory Bridge
  imports Guards Addressing
begin

text \<open>
  src/shared-channels/bridge.ts: what a signed event read from a community's
  channel becomes (\<open>canonicalizeSourceEvent\<close>), and the event the bridge writes
  into the destination channel (\<open>createDestinationProjection\<close>).  Signing and
  verification (nostr-tools) and SHA-256 (node:crypto) are parameters.
\<close>

section \<open>Events\<close>

text \<open>\<open>tag[i]\<close>, which is \<open>undefined\<close> past the end.\<close>

definition tag_at :: "string list \<Rightarrow> nat \<Rightarrow> string option" where
  "tag_at tag i = (if i < length tag then Some (tag ! i) else None)"

record event_template =
  tp_content :: string
  tp_created_at :: int
  tp_kind :: nat
  tp_tags :: "string list list"

text \<open>\<open>finalizeEvent(template, privateKey)\<close>, and what the code relies on: the event
  carries the fields of its template.\<close>

type_synonym signer = "nat list \<Rightarrow> event_template \<Rightarrow> nostr_event"

definition carries_template :: "signer \<Rightarrow> bool" where
  "carries_template sign \<longleftrightarrow> (\<forall>key t.
     ev_content (sign key t) = tp_content t \<and> ev_kind (sign key t) = tp_kind t \<and>
     ev_tags (sign key t) = tp_tags t \<and> ev_created_at (sign key t) = tp_created_at t)"

definition buzz_message_kind :: nat where
  "buzz_message_kind = 9"

definition max_body_bytes :: nat where
  "max_body_bytes = 16 * 1024"

definition has_projection_marker :: "nostr_event \<Rightarrow> bool" where
  "has_projection_marker e \<longleftrightarrow>
     list_ex (\<lambda>t. tag_at t 0 = Some ''br'' \<and> tag_at t 1 = Some ''message'' \<and> tag_at t 2 \<noteq> None)
       (ev_tags e)"

text \<open>\<open>typeof tag[1] === "string" && HEX_EVENT_ID.test(tag[1])\<close>\<close>

definition hex_event_tag :: "string list \<Rightarrow> bool" where
  "hex_event_tag t \<longleftrightarrow> tag_at t 0 = Some ''e'' \<and>
     (case tag_at t 1 of None \<Rightarrow> False | Some v \<Rightarrow> is_hex_string 64 v)"

definition reply_event_id :: "nostr_event \<Rightarrow> string option" where
  "reply_event_id e =
     (case find (\<lambda>t. hex_event_tag t \<and> tag_at t 3 = Some ''reply'') (ev_tags e) of
        Some t \<Rightarrow> tag_at t 1
      | None \<Rightarrow>
          (case rev (filter hex_event_tag (ev_tags e)) of [] \<Rightarrow> None | t # _ \<Rightarrow> tag_at t 1))"

definition single_tag :: "nostr_event \<Rightarrow> string \<Rightarrow> string option" where
  "single_tag e name =
     (case filter (\<lambda>t. tag_at t 0 = Some name \<and> tag_at t 1 \<noteq> None) (ev_tags e) of
        [t] \<Rightarrow> tag_at t 1
      | _ \<Rightarrow> None)"

section \<open>Reading\<close>

record source_route =
  sr_bridge_pubkey :: string
  sr_local_channel :: string
  sr_shared_channel :: uuid
  sr_endpoint :: uuid
  sr_dedicated_to :: "uuid option"

record canonical_message =
  cm_body :: string
  cm_sha256 :: string
  cm_slug :: "string option"
  cm_community :: "uuid option"
  cm_user :: "string option"
  cm_shared_channel :: uuid
  cm_event :: nostr_event
  cm_actor :: string
  cm_created_at :: int
  cm_endpoint :: uuid
  cm_event_id :: string
  cm_parent :: "string option"

definition canonical_of ::
  "(string \<Rightarrow> string) \<Rightarrow> nostr_event \<Rightarrow> source_route \<Rightarrow> string \<Rightarrow> string option \<Rightarrow>
   uuid option \<Rightarrow> string option \<Rightarrow> canonical_message" where
  "canonical_of sha256 e r body slug community user =
     \<lparr>cm_body = body, cm_sha256 = sha256 body, cm_slug = slug, cm_community = community,
      cm_user = user, cm_shared_channel = sr_shared_channel r, cm_event = e,
      cm_actor = ev_pubkey e, cm_created_at = ev_created_at e, cm_endpoint = sr_endpoint r,
      cm_event_id = ev_id e, cm_parent = reply_event_id e\<rparr>"

definition routed_body :: "address \<Rightarrow> string" where
  "routed_body a =
     (case adr_user a of None \<Rightarrow> adr_body a | Some u \<Rightarrow> ''@'' @ u @ '' '' @ adr_body a)"

definition canonicalize_source_event ::
  "(nostr_event \<Rightarrow> bool) \<Rightarrow> (string \<Rightarrow> string) \<Rightarrow> nostr_event \<Rightarrow> source_route \<Rightarrow> int \<Rightarrow>
   canonical_message option res" where
  "canonicalize_source_event verify sha256 e r now_seconds =
     (if ev_pubkey e = sr_bridge_pubkey r \<or> has_projection_marker e then Inr None
      else if ev_kind e \<noteq> buzz_message_kind \<or> \<not> verify e \<or> ev_created_at e > now_seconds + 5 * 60
      then Inl (Api ''source_event_invalid'' 400)
      else if single_tag e ''h'' \<noteq> Some (sr_local_channel r)
      then Inl (Api ''source_channel_mismatch'' 400)
      else if utf8_length (ev_content e) < 1 \<or> utf8_length (ev_content e) > max_body_bytes
      then Inl (Api ''source_body_invalid'' 400)
      else case (if sr_dedicated_to r = Some [] then None else sr_dedicated_to r) of
        Some peer \<Rightarrow> Inr (Some (canonical_of sha256 e r (ev_content e) None (Some peer) None))
      | None \<Rightarrow>
          (case parse_message_address (ev_content e) of
             None \<Rightarrow> Inr None
           | Some a \<Rightarrow> Inr (Some (canonical_of sha256 e r (routed_body a) (Some (adr_slug a)) None
                                   (adr_user a)))))"

section \<open>Writing\<close>

record projection_input =
  pi_body :: string
  pi_channel :: string
  pi_local_parent :: "string option"
  pi_message :: uuid
  pi_actor :: string
  pi_actor_name :: "string option"
  pi_community :: uuid
  pi_slug :: string
  pi_event :: string

text \<open>\<open>.replace(/[\r\n\t]+/g, " ")\<close>; \<open>inside\<close> says that a run is being replaced.\<close>

definition line_space :: "char \<Rightarrow> bool" where
  "line_space c \<longleftrightarrow> of_char c \<in> {9, 10, 13 :: nat}"

fun collapse :: "bool \<Rightarrow> string \<Rightarrow> string" where
  "collapse inside [] = []"
| "collapse inside (c # cs) =
     (if line_space c then (if inside then collapse True cs else CHR '' '' # collapse True cs)
      else c # collapse False cs)"

definition actor_label :: "string \<Rightarrow> string option \<Rightarrow> string" where
  "actor_label pubkey name =
     (case map_option (\<lambda>n. take 80 (trim (collapse False n))) name of
        Some (c # cs) \<Rightarrow> c # cs
      | _ \<Rightarrow> take 12 pubkey)"

text \<open>\<open>/^@[a-z0-9-]{2,40}\/.{1,80}$/u\<close>; a dot matches no line terminator.\<close>

definition newline :: char where
  "newline = CHR 0x0A"

definition attribution_shape :: "string \<Rightarrow> bool" where
  "attribution_shape line =
     (case line of
        [] \<Rightarrow> False
      | a # r \<Rightarrow>
          a = CHR ''@'' \<and> 2 \<le> length (takeWhile slug_rest r) \<and> length (takeWhile slug_rest r) \<le> 40 \<and>
          (case dropWhile slug_rest r of
             [] \<Rightarrow> False
           | b # name \<Rightarrow> b = CHR ''/'' \<and> 1 \<le> length name \<and> length name \<le> 80 \<and>
               list_all (\<lambda>c. c \<noteq> newline \<and> c \<noteq> CHR 0x0D) name))"

fun split_lines :: "string \<Rightarrow> string list" where
  "split_lines [] = [[]]"
| "split_lines (c # cs) =
     (if c = newline then [] # split_lines cs
      else (c # hd (split_lines cs)) # tl (split_lines cs))"

fun join_lines :: "string list \<Rightarrow> string" where
  "join_lines [] = []"
| "join_lines [l] = l"
| "join_lines (l # m # ls) = l @ newline # join_lines (m # ls)"

definition escape_line :: "string \<Rightarrow> string" where
  "escape_line line = (if attribution_shape line then CHR 0x5C # line else line)"

definition escape_body :: "string \<Rightarrow> string" where
  "escape_body body = join_lines (map escape_line (split_lines body))"

definition attribution :: "projection_input \<Rightarrow> string" where
  "attribution i = ''@'' @ pi_slug i @ ''/'' @ actor_label (pi_actor i) (pi_actor_name i)"

definition projection_tags :: "projection_input \<Rightarrow> string list list" where
  "projection_tags i =
     [[''h'', pi_channel i],
      [''br'', ''message'', pi_message i],
      [''br'', ''source-community'', pi_community i],
      [''br'', ''source-event'', pi_event i],
      [''br'', ''source-actor'', pi_actor i]]"

definition projection_template :: "int \<Rightarrow> projection_input \<Rightarrow> event_template res" where
  "projection_template created_at i =
     (let t = \<lparr>tp_content = attribution i @ newline # escape_body (pi_body i),
               tp_created_at = created_at, tp_kind = buzz_message_kind,
               tp_tags = projection_tags i\<rparr>
      in case (if pi_local_parent i = Some [] then None else pi_local_parent i) of
           None \<Rightarrow> Inr t
         | Some p \<Rightarrow>
             if \<not> is_hex_string 64 p then Inl (Api ''parent_event_invalid'' 400)
             else Inr (t\<lparr>tp_tags := projection_tags i @ [[''e'', p, [], ''reply'']]\<rparr>))"

definition create_destination_projection ::
  "signer \<Rightarrow> int \<Rightarrow> projection_input \<Rightarrow> nat list \<Rightarrow> nostr_event res" where
  "create_destination_projection sign created_at i key =
     (case projection_template created_at i of Inl e \<Rightarrow> Inl e | Inr t \<Rightarrow> Inr (sign key t))"

section \<open>Lines\<close>

lemma split_lines_not_Nil [simp]: "split_lines s \<noteq> []"
  by (cases s) auto

lemma split_lines_no_newline: "l \<in> set (split_lines s) \<Longrightarrow> newline \<notin> set l"
proof (induction s arbitrary: l)
  case Nil
  then show ?case by simp
next
  case (Cons c cs)
  have "hd (split_lines cs) \<in> set (split_lines cs)" by simp
  moreover have "set (tl (split_lines cs)) \<subseteq> set (split_lines cs)"
    by (cases "split_lines cs") auto
  ultimately show ?case using Cons by (auto split: if_splits)
qed

lemma split_lines_append_newline:
  "newline \<notin> set a \<Longrightarrow> split_lines (a @ newline # b) = a # split_lines b"
  by (induction a) auto

lemma split_lines_single: "newline \<notin> set a \<Longrightarrow> split_lines a = [a]"
  by (induction a) auto

lemma split_join_lines:
  "ls \<noteq> [] \<Longrightarrow> \<forall>l \<in> set ls. newline \<notin> set l \<Longrightarrow> split_lines (join_lines ls) = ls"
  by (induction ls rule: join_lines.induct) (auto simp: split_lines_single split_lines_append_newline)

lemma join_split_lines: "join_lines (split_lines s) = s"
proof (induction s)
  case Nil
  then show ?case by simp
next
  case (Cons c cs)
  obtain l ls where ls: "split_lines cs = l # ls" by (cases "split_lines cs") auto
  show ?case using Cons ls by (cases ls) auto
qed

lemma newline_escape_line: "newline \<in> set (escape_line l) \<longleftrightarrow> newline \<in> set l"
  by (simp add: escape_line_def newline_def)

lemma split_escape_body: "split_lines (escape_body b) = map escape_line (split_lines b)"
  unfolding escape_body_def
  by (rule split_join_lines) (auto simp: newline_escape_line dest: split_lines_no_newline)

lemma escape_line_shape: "\<not> attribution_shape (escape_line l)"
  by (cases "attribution_shape l") (auto simp: escape_line_def attribution_shape_def)

lemma attribution_shape_last:
  assumes "attribution_shape l"
  shows "last l \<noteq> CHR 0x0D"
proof -
  obtain a r where l: "l = a # r" using assms by (cases l) (simp_all add: attribution_shape_def)
  obtain b name where d: "dropWhile slug_rest r = b # name"
    using assms l by (cases "dropWhile slug_rest r") (simp_all add: attribution_shape_def)
  have name: "1 \<le> length name" "list_all (\<lambda>c. c \<noteq> newline \<and> c \<noteq> CHR 0x0D) name"
    using assms l d by (simp_all add: attribution_shape_def)
  have "l = (a # takeWhile slug_rest r) @ b # name"
    using l d takeWhile_dropWhile_id [of slug_rest r] by simp
  moreover have "name \<noteq> []" using name(1) by auto
  ultimately have "last l = last name" "last name \<in> set name" by simp_all
  then show ?thesis using name(2) by (simp add: list_all_iff)
qed

lemma carriage_return_shape: "\<not> attribution_shape (l @ [CHR 0x0D])"
  using attribution_shape_last [of "l @ [CHR 0x0D]"] by auto

lemma escape_body_plain:
  assumes "\<forall>l \<in> set (split_lines b). \<not> attribution_shape l"
  shows "escape_body b = b"
proof -
  have "map escape_line (split_lines b) = split_lines b"
    using assms by (simp add: map_idI escape_line_def)
  then show ?thesis by (simp add: escape_body_def join_split_lines)
qed

lemma collapse_no_newline: "newline \<notin> set (collapse x s)"
  by (induction x s rule: collapse.induct) (auto simp: line_space_def newline_def)

lemma set_trim: "set (trim s) \<subseteq> set s"
  by (auto simp: trim_def trim_start_def trim_end_def dest!: set_dropWhileD)

lemma actor_label_no_newline:
  assumes "newline \<notin> set pubkey"
  shows "newline \<notin> set (actor_label pubkey name)"
proof -
  have cut: "newline \<notin> set (take 12 pubkey)" using assms by (meson in_set_takeD)
  show ?thesis
  proof (cases name)
    case None
    then show ?thesis using cut by (simp add: actor_label_def)
  next
    case (Some n)
    define l where "l = take 80 (trim (collapse False n))"
    have l: "newline \<notin> set l"
      using collapse_no_newline [of False n] set_trim [of "collapse False n"]
      unfolding l_def by (meson in_set_takeD subsetD)
    have "actor_label pubkey name = (case Some l of Some (c # cs) \<Rightarrow> c # cs | _ \<Rightarrow> take 12 pubkey)"
      by (simp add: actor_label_def Some l_def)
    then show ?thesis using l cut by (cases l) simp_all
  qed
qed

lemma projection_content:
  assumes "carries_template sign" "create_destination_projection sign t i key = Inr e"
  shows "ev_content e = attribution i @ newline # escape_body (pi_body i)"
    and "ev_kind e = buzz_message_kind" and "has_projection_marker e"
  using assms
  by (auto simp: create_destination_projection_def projection_template_def Let_def
      carries_template_def has_projection_marker_def projection_tags_def tag_at_def
      split: sum.splits option.splits if_splits)

section \<open>Properties\<close>

text \<open>
  C8. No loops: an event the bridge projected into a channel is dropped by every
  connector that reads it, whatever its route and whoever verifies it.
\<close>

theorem projections_never_reenter:
  assumes "carries_template sign" "create_destination_projection sign t i key = Inr e"
  shows "canonicalize_source_event verify sha256 e r now_seconds = Inr None"
  using projection_content(3) [OF assms] by (simp add: canonicalize_source_event_def)


text \<open>
  The escaping misses lines that end in a carriage return: the header shape
  does not match them (a dot matches no line terminator), so a body with CRLF
  line ends carries any header-like line into the projection unescaped.
\<close>

lemma carriage_return_evades_escape:
  assumes "carries_template sign" "create_destination_projection sign t i key = Inr e"
    and "pi_body i = forged @ CHR 0x0D # newline # rest"
    and "newline \<notin> set forged" "newline \<notin> set (pi_slug i)" "newline \<notin> set (pi_actor i)"
  shows "(forged @ [CHR 0x0D]) \<in> set (tl (split_lines (ev_content e)))"
proof -
  have "newline \<notin> set (attribution i)"
    using assms(5,6) actor_label_no_newline [of "pi_actor i" "pi_actor_name i"]
    by (auto simp: attribution_def newline_def)
  then have "tl (split_lines (ev_content e)) = map escape_line (split_lines (pi_body i))"
    unfolding projection_content(1) [OF assms(1,2)]
    by (simp add: split_lines_append_newline split_escape_body)
  moreover have "split_lines (pi_body i) = (forged @ [CHR 0x0D]) # split_lines rest"
    using split_lines_append_newline [of "forged @ [CHR 0x0D]" rest] assms(3,4)
    by (simp add: newline_def)
  moreover have "\<not> attribution_shape (forged @ [CHR 0x0D])"
    by (rule carriage_return_shape)
  ultimately show ?thesis by (simp add: escape_line_def)
qed

lemma find_event_tag: "find P ts = Some t \<Longrightarrow> P t"
  by (induction ts) (auto split: if_splits)

lemma reply_event_id_hex: "reply_event_id e = Some p \<Longrightarrow> is_hex_string 64 p"
proof -
  assume *: "reply_event_id e = Some p"
  then obtain t where t: "hex_event_tag t" "tag_at t 1 = Some p"
  proof (cases "find (\<lambda>t. hex_event_tag t \<and> tag_at t 3 = Some ''reply'') (ev_tags e)")
    case (Some t)
    moreover have "hex_event_tag t" using find_event_tag [OF Some] by simp
    ultimately show thesis using * that [of t] by (simp add: reply_event_id_def)
  next
    case None
    then obtain t q where q: "rev (filter hex_event_tag (ev_tags e)) = t # q" "tag_at t 1 = Some p"
      using * by (auto simp: reply_event_id_def split: list.splits)
    then have "t \<in> set (filter hex_event_tag (ev_tags e))" by (metis list.set_intros(1) set_rev)
    then show thesis using q that [of t] by simp
  qed
  then show ?thesis by (simp add: hex_event_tag_def)
qed

lemma utf8_length_slash: "utf8_length (CHR ''/'' # u) = 1 + utf8_length u"
  by simp

lemma routed_body_bytes:
  assumes "parse_message_address content = Some a"
  shows "1 \<le> utf8_length (routed_body a) \<and> utf8_length (routed_body a) \<le> utf8_length content"
  using assms
proof (cases rule: parse_address_parts)
  case (1 t pre post)
  have "pre \<noteq> []" using 1(3) by (auto simp: trim_start_def)
  then have lens: "1 \<le> utf8_length pre" "1 \<le> utf8_length post"
    using 1(4) utf8_length_ge [of pre] utf8_length_ge [of post] by (cases pre; cases post; force)+
  have body: "utf8_length content = utf8_length pre + utf8_length t + utf8_length post +
      utf8_length (adr_body a)"
    by (simp add: 1(1))
  have "adr_body a \<noteq> []" using 1(9) by (auto simp: trim_Nil_iff)
  then have "1 \<le> utf8_length (adr_body a)" using utf8_length_ge [of "adr_body a"]
    by (cases "adr_body a") auto
  then have "1 \<le> utf8_length (routed_body a)" by (auto simp: routed_body_def split: option.splits)
  moreover have "utf8_length (routed_body a) \<le> utf8_length content"
  proof (cases "adr_user a")
    case None
    then show ?thesis using body by (simp add: routed_body_def)
  next
    case (Some u)
    then have "t = fst (split_target t) @ CHR ''/'' # u" using 1(6) split_target_sub(2) by simp
    then have "utf8_length t = utf8_length (fst (split_target t)) + 1 + utf8_length u"
      by (metis add.assoc utf8_length_append utf8_length_slash)
    then show ?thesis using body lens Some by (simp add: routed_body_def)
  qed
  ultimately show ?thesis by simp
qed

text \<open>
  A message that is to be routed has passed every check, and satisfies what
  \<open>ingestBridgeMessage\<close> asserts of it: the event is verified, of the message kind,
  not from the future and of the route's channel, is not the bridge's own; its
  body has between 1 byte and 16 KiB; it names exactly one destination, a handle
  (with a user only then) or the peer the channel is bound to, and the handle,
  user and parent are well formed.
\<close>

lemma canonical_messages_are_routable:
  assumes "canonicalize_source_event verify sha256 e r now_seconds = Inr (Some m)"
  shows "verify e \<and> ev_kind e = 9 \<and> ev_created_at e \<le> now_seconds + 300 \<and>
         single_tag e ''h'' = Some (sr_local_channel r) \<and> ev_pubkey e \<noteq> sr_bridge_pubkey r \<and>
         1 \<le> utf8_length (cm_body m) \<and> utf8_length (cm_body m) \<le> 16384 \<and>
         (cm_slug m = None \<longleftrightarrow> cm_community m \<noteq> None) \<and>
         (cm_community m \<noteq> None \<longrightarrow> cm_community m = sr_dedicated_to r \<and>
            cm_body m = ev_content e \<and> cm_user m = None) \<and>
         (\<forall>s. cm_slug m = Some s \<longrightarrow> slug_syntax s) \<and>
         (\<forall>u. cm_user m = Some u \<longrightarrow> user_syntax u) \<and>
         (\<forall>p. cm_parent m = Some p \<longrightarrow> is_hex_string 64 p)"
proof -
  let ?peer = "if sr_dedicated_to r = Some [] then None else sr_dedicated_to r"
  have checks: "verify e" "ev_kind e = 9" "ev_created_at e \<le> now_seconds + 300"
    "single_tag e ''h'' = Some (sr_local_channel r)" "ev_pubkey e \<noteq> sr_bridge_pubkey r"
    "1 \<le> utf8_length (ev_content e)" "utf8_length (ev_content e) \<le> 16384"
    using assms by (auto simp: canonicalize_source_event_def buzz_message_kind_def
        max_body_bytes_def split: if_splits)
  have parent: "cm_parent m = Some p \<Longrightarrow> is_hex_string 64 p" for p
    using assms reply_event_id_hex [of e p]
    by (auto simp: canonicalize_source_event_def canonical_of_def split: if_splits option.splits)
  show ?thesis
  proof (cases ?peer)
    case None
    with assms obtain a where a: "parse_message_address (ev_content e) = Some a"
      and m: "m = canonical_of sha256 e r (routed_body a) (Some (adr_slug a)) None (adr_user a)"
      by (auto simp: canonicalize_source_event_def split: if_splits option.splits)
    from a have parts: "slug_syntax (adr_slug a)"
      "case adr_user a of None \<Rightarrow> True | Some u \<Rightarrow> user_syntax u"
      by (auto elim!: parse_address_parts)
    show ?thesis using checks parent parts routed_body_bytes [OF a] m
      by (auto simp: canonical_of_def)
  next
    case (Some peer)
    with assms have "m = canonical_of sha256 e r (ev_content e) None (Some peer) None"
      by (auto simp: canonicalize_source_event_def split: if_splits)
    then show ?thesis using checks parent Some by (auto simp: canonical_of_def split: if_splits)
  qed
qed

text \<open>
  What is read is what one types to reply: when the source community has a
  handle and the author's label is one word, the projected message parses as an
  address to exactly that community and that author.
\<close>

lemma projection_reads_as_reply_address:
  assumes "carries_template sign" "create_destination_projection sign t i key = Inr e"
    and "slug_syntax (pi_slug i)" "user_syntax (actor_label (pi_actor i) (pi_actor_name i))"
    and "trim (escape_body (pi_body i)) \<noteq> []"
  shows "parse_message_address (ev_content e) =
    Some \<lparr>adr_slug = pi_slug i, adr_user = Some (actor_label (pi_actor i) (pi_actor_name i)),
          adr_body = trim_start (escape_body (pi_body i))\<rparr>"
proof -
  let ?u = "actor_label (pi_actor i) (pi_actor_name i)" and ?b = "escape_body (pi_body i)"
  have tu: "list_all target_char (pi_slug i @ ''/'' @ ?u)" "2 \<le> length (pi_slug i @ ''/'' @ ?u)"
    "length (pi_slug i @ ''/'' @ ?u) \<le> 120"
    using target_with_user [OF assms(3,4)] slug_syntax_chars [OF assms(3)] by auto
  have hd: "hd (pi_slug i @ ''/'' @ ?u) \<noteq> CHR ''[''"
    using slug_no_bracket [OF assms(3)] slug_syntax_chars [OF assms(3)]
    by (cases "pi_slug i") simp_all
  have "split_target (pi_slug i @ ''/'' @ ?u) = (pi_slug i, Some ?u)"
    using split_target_slash slug_syntax_chars [OF assms(3)] by simp
  moreover have "address_match (''@'' @ (pi_slug i @ ''/'' @ ?u) @ newline # ?b) =
      Some (pi_slug i @ ''/'' @ ?u, trim_start ?b)"
    by (rule bare_match [OF tu hd]) (simp add: newline_def js_space_def)
  moreover have "trim (trim_start ?b) \<noteq> []"
    using assms(5) by (simp add: trim_def trim_start_def)
  ultimately show ?thesis
    using assms(3,4) tu(1) unfolding projection_content(1) [OF assms(1,2)] attribution_def
    by (intro parse_from_match [where t = "pi_slug i @ ''/'' @ ?u"]) simp_all
qed

end
