(* ===== verification/World.thy ===== *)
theory World
  imports Effects Bridge Connections
begin

text \<open>
  The world the connector process acts on: the database, the journal of channel
  handoffs, the clock, and a ghost log of what was given to a relay.  The
  answers of relays (interfaces \<open>RelayConnection\<close> and \<open>RelayConnectionFactory\<close> of
  src/shared-channels/connector.ts), of the database server and of
  \<open>randomUUID\<close> are fields of \<open>outside\<close>.
\<close>

section \<open>The environment\<close>

text \<open>
  Every answer is a function of the environment's state and may change it.
  \<open>out_uuid\<close> is one fresh id, \<open>out_ids\<close> the ids the database generates for the rows
  of one statement.  \<open>out_publish\<close> answers \<open>Some error\<close> when \<open>publish\<close> rejects; \<open>out_has\<close> also says how
  many milliseconds the lookup took, and so does \<open>out_profile\<close>; the roster is the list of \<open>(pubkey, role)\<close>
  entries of the map \<open>readRosterRoles\<close> returns, in its order; \<open>out_roster_keys\<close> is
  \<open>readRoster\<close>, \<open>out_members\<close> is \<open>readGroupMembers\<close>.  \<open>out_subscribe\<close> answers the
  reason when the subscription closes at once; \<open>out_lock\<close> is
  \<open>pg_try_advisory_lock\<close>.
\<close>

record 'e outside =
  out_query :: "'e \<Rightarrow> query_outcome \<times> 'e"
  out_uuid :: "'e \<Rightarrow> uuid \<times> 'e"
  out_ids :: "'e \<Rightarrow> (nat \<Rightarrow> uuid) \<times> 'e"
  out_connect :: "string \<Rightarrow> 'e \<Rightarrow> err option \<times> 'e"
  out_subscribe :: "string \<Rightarrow> route_config list \<Rightarrow> 'e \<Rightarrow> string option \<times> 'e"
  out_publish :: "string \<Rightarrow> nostr_event \<Rightarrow> 'e \<Rightarrow> err option \<times> 'e"
  out_has :: "string \<Rightarrow> string \<Rightarrow> 'e \<Rightarrow> (bool \<times> nat) \<times> 'e"
  out_roster :: "string \<Rightarrow> 'e \<Rightarrow> (string \<times> string) list option \<times> 'e"
  out_roster_keys :: "string \<Rightarrow> 'e \<Rightarrow> string list option \<times> 'e"
  out_members :: "string \<Rightarrow> string \<Rightarrow> 'e \<Rightarrow> string list option \<times> 'e"
  out_lock :: "string \<Rightarrow> 'e \<Rightarrow> bool \<times> 'e"
  out_profile :: "string \<Rightarrow> string \<Rightarrow> 'e \<Rightarrow> (string option \<times> nat) \<times> 'e"

section \<open>The journal and the log\<close>

datatype handoff_state = Creating | Created | Handed_off | Completed

record handoff =
  ho_id :: uuid
  ho_connection :: uuid
  ho_community :: uuid
  ho_requester :: string
  ho_relay_url :: string
  ho_channel :: uuid
  ho_name :: string
  ho_state :: handoff_state
  ho_key :: string
  ho_attempts :: nat
  ho_error :: "string option"

text \<open>\<open>Sent relay event\<close>: given to \<open>publish\<close> (whether or not the relay kept it);
  \<open>Confirmed relay event\<close>: seen stored afterwards.\<close>

datatype relay_entry = Sent string nostr_event | Confirmed string nostr_event

record 'e world =
  w_env :: 'e
  w_clock :: int
  w_db :: db
  w_handoffs :: "handoff list"
  w_log :: "relay_entry list"

text \<open>The clock counts milliseconds; \<open>Date.now()\<close> and the database's \<open>now()\<close> read it.\<close>

definition now_seconds :: "('e, 'z) world_scheme \<Rightarrow> int" where
  "now_seconds w = w_clock w div 1000"

definition db_time :: "('e, 'z) world_scheme \<Rightarrow> time" where
  "db_time w = 1000 * w_clock w"

section \<open>Calls\<close>

definition ask :: "('e \<Rightarrow> 'a \<times> 'e) \<Rightarrow> (('e, 'z) world_scheme, 'a) io" where
  "ask f = (\<lambda>w. case f (w_env w) of (a, e') \<Rightarrow> (Inr a, w\<lparr>w_env := e'\<rparr>))"

definition pool_query ::
  "'e outside \<Rightarrow> (('e, 'z) world_scheme, 'a) io \<Rightarrow> (('e, 'z) world_scheme, 'a) io" where
  "pool_query out m = io_query (out_query out) w_env (\<lambda>f w. w\<lparr>w_env := f (w_env w)\<rparr>) m"

text \<open>A store function: one query or one transaction on the database.\<close>

definition in_db :: "'e outside \<Rightarrow> (time \<Rightarrow> (db, 'a) tx) \<Rightarrow> (('e, 'z) world_scheme, 'a) io" where
  "in_db out m = pool_query out (\<lambda>w.
     case with_transaction (m (db_time w)) (w_db w) of (r, d') \<Rightarrow> (r, w\<lparr>w_db := d'\<rparr>))"

text \<open>A store function that is one statement and cannot throw.\<close>

definition on_db :: "'e outside \<Rightarrow> (time \<Rightarrow> db \<Rightarrow> 'a \<times> db) \<Rightarrow> (('e, 'z) world_scheme, 'a) io" where
  "on_db out f = in_db out (\<lambda>now d. Inr (f now d))"

definition relay_publish ::
  "'e outside \<Rightarrow> string \<Rightarrow> nostr_event \<Rightarrow> (('e, 'z) world_scheme, unit) io" where
  "relay_publish out url ev = (\<lambda>w.
     case out_publish out url ev (w_env w) of (answer, e') \<Rightarrow>
       (case answer of None \<Rightarrow> Inr () | Some e \<Rightarrow> Inl e,
        w\<lparr>w_env := e', w_log := Sent url ev # w_log w\<rparr>))"

definition relay_has ::
  "'e outside \<Rightarrow> string \<Rightarrow> nostr_event \<Rightarrow> (('e, 'z) world_scheme, bool) io" where
  "relay_has out url ev = (\<lambda>w.
     case out_has out url (ev_id ev) (w_env w) of ((found, ms), e') \<Rightarrow>
       (Inr found, w\<lparr>w_env := e', w_clock := w_clock w + int ms,
          w_log := (if found then Confirmed url ev # w_log w else w_log w)\<rparr>))"

section \<open>A database server that answers\<close>

definition queries_ok :: "'e outside \<Rightarrow> bool" where
  "queries_ok out \<longleftrightarrow> (\<forall>e. fst (out_query out e) = Query_ok)"

lemma in_db_ok:
  assumes "queries_ok out"
  shows "in_db out m w = (case with_transaction (m (db_time w)) (w_db w) of
    (r, d) \<Rightarrow> (r, w\<lparr>w_env := snd (out_query out (w_env w)), w_db := d\<rparr>))"
proof -
  have "fst (out_query out (w_env w)) = Query_ok" using assms by (simp add: queries_ok_def)
  then obtain e' where "out_query out (w_env w) = (Query_ok, e')" by (metis prod.collapse)
  then show ?thesis
    by (simp add: in_db_def pool_query_def io_query_def db_time_def split: prod.splits)
qed

lemma on_db_ok:
  "queries_ok out \<Longrightarrow> on_db out f w = (case f (db_time w) (w_db w) of
    (a, d) \<Rightarrow> (Inr a, w\<lparr>w_env := snd (out_query out (w_env w)), w_db := d\<rparr>))"
  by (simp add: on_db_def in_db_ok with_transaction_def split: prod.splits)

section \<open>What the calls leave alone\<close>

lemma leads_ask:
  assumes "\<And>w e a. P w \<Longrightarrow> I (w\<lparr>w_env := e\<rparr>) \<and> Q a (w\<lparr>w_env := e\<rparr>)"
  shows "leads P (ask f) I Q"
  using assms by (auto simp: leads_def ask_def split: prod.splits)

lemma leads_pool_query:
  assumes "\<And>w e. P w \<Longrightarrow> P (w\<lparr>w_env := e\<rparr>)" "\<And>w. P w \<Longrightarrow> I w" "leads P m I Q"
  shows "leads P (pool_query out m) I Q"
  unfolding pool_query_def by (rule leads_query) (use assms in auto)

lemma leads_in_db:
  assumes "\<And>w e. P w \<Longrightarrow> P (w\<lparr>w_env := e\<rparr>)" "\<And>w. P w \<Longrightarrow> I w"
    and "\<And>w a d. P w \<Longrightarrow> m (db_time w) (w_db w) = Inr (a, d) \<Longrightarrow>
      I (w\<lparr>w_db := d\<rparr>) \<and> Q a (w\<lparr>w_db := d\<rparr>)"
  shows "leads P (in_db out m) I Q"
  unfolding in_db_def
proof (rule leads_pool_query)
  show "P w \<Longrightarrow> P (w\<lparr>w_env := e\<rparr>)" for w e by (rule assms(1))
  show "P w \<Longrightarrow> I w" for w by (rule assms(2))
  show "leads P (\<lambda>w. case with_transaction (m (db_time w)) (w_db w) of (r, d') \<Rightarrow> (r, w\<lparr>w_db := d'\<rparr>)) I Q"
    unfolding leads_def
    using assms(2,3) by (auto simp: with_transaction_def split: sum.splits prod.splits)
qed

lemma leads_publish:
  assumes "\<And>w e. P w \<Longrightarrow> I (w\<lparr>w_env := e, w_log := Sent url ev # w_log w\<rparr>) \<and>
      Q () (w\<lparr>w_env := e, w_log := Sent url ev # w_log w\<rparr>)"
  shows "leads P (relay_publish out url ev) I Q"
  using assms by (auto simp: leads_def relay_publish_def split: prod.splits option.splits)

lemma leads_has:
  assumes "\<And>w e t. P w \<Longrightarrow> I (w\<lparr>w_env := e, w_clock := t, w_log := Confirmed url ev # w_log w\<rparr>) \<and>
      Q True (w\<lparr>w_env := e, w_clock := t, w_log := Confirmed url ev # w_log w\<rparr>)"
    and "\<And>w e t. P w \<Longrightarrow> I (w\<lparr>w_env := e, w_clock := t\<rparr>) \<and> Q False (w\<lparr>w_env := e, w_clock := t\<rparr>)"
  shows "leads P (relay_has out url ev) I Q"
proof (rule leadsI)
  fix w r w' assume P: "P w" and run: "relay_has out url ev w = (r, w')"
  obtain found ms e' where o: "out_has out url (ev_id ev) (w_env w) = ((found, ms), e')"
    by (metis prod.collapse)
  show "I w' \<and> (\<forall>a. r = Inr a \<longrightarrow> Q a w')"
    using run assms(1) [OF P, where e = e' and t = "w_clock w + int ms"]
      assms(2) [OF P, where e = e' and t = "w_clock w + int ms"]
    by (cases found) (auto simp: relay_has_def o)
qed

end
