(* ===== verification/Supervisor.thy ===== *)
theory Supervisor
  imports World Delivery Claims Hub "HOL-Library.AList"
begin

text \<open>
  The connector of src/shared-channels/connector.ts: the state of
  \<open>ConnectorSupervisor\<close> and its delivery path (\<open>deliver\<close>, \<open>hintDirectChannel\<close>).
  What the class is constructed with, and the functions of other packages it
  calls, are the fields of \<open>deployment\<close> (\<open>dp_href url\<close> is \<open>new URL(url).href\<close>).
\<close>

section \<open>State\<close>

record 'e deployment =
  dp_out :: "'e outside"
  dp_sign :: signer
  dp_verify :: "nostr_event \<Rightarrow> bool"
  dp_sha256 :: "string \<Rightarrow> string"
  dp_send :: send_job
  dp_cipher :: cipher
  dp_keys :: "int \<Rightarrow> nat list res"
  dp_env :: env
  dp_href :: "string \<Rightarrow> string option"

text \<open>
  A session; \<open>se_serial\<close> identifies the object (the code compares sessions with
  \<open>===\<close>).  Its relay is the one at the URL of its configuration.
\<close>

record session =
  se_config :: connection
  se_routes :: "route_config list"
  se_fingerprint :: "string \<times> string \<times> (string option \<times> uuid \<times> uuid) list \<times> int"
  se_key :: "nat list"
  se_last_inbound :: int
  se_serial :: nat

record failed_attempt =
  fa_attempts :: nat
  fa_next_attempt :: int

record member_names =
  mn_expires :: int
  mn_names :: "string list option"

text \<open>The maps keep insertion order; every key occurs once.\<close>

record 'e supervisor = "'e world" +
  sv_sessions :: "(uuid \<times> session) list"
  sv_failures :: "(uuid \<times> failed_attempt) list"
  sv_names :: "(uuid \<times> member_names) list"
  sv_next_serial :: nat
  sv_stopped :: bool

type_synonym ('e, 'a) act = "('e supervisor, 'a) io"

definition relay_url :: "session \<Rightarrow> string" where
  "relay_url s = conn_relay_url (se_config s)"

section \<open>Errors\<close>

text \<open>\<open>parseErrorCode\<close>, cut to 80 characters.\<close>

definition delivery_error_code :: "err \<Rightarrow> string" where
  "delivery_error_code e = take 80 (case e of Api c _ \<Rightarrow> c | _ \<Rightarrow> ''relay_publish_failed'')"

section \<open>Notices\<close>

text \<open>U+2014 has no code unit below 256: the notices carry its UTF-8 bytes.\<close>

definition em_dash :: string where
  "em_dash = [CHR 0xE2, CHR 0x80, CHR 0x94]"

text \<open>An event the bridge writes into a channel on its own account.\<close>

definition notice_template :: "string \<Rightarrow> string \<Rightarrow> string \<Rightarrow> int \<Rightarrow> event_template" where
  "notice_template content channel kind t = \<lparr>tp_content = content, tp_created_at = t,
     tp_kind = buzz_message_kind, tp_tags = [[''h'', channel], [''br'', ''notice'', kind]]\<rparr>"

definition publish_notice ::
  "'e deployment \<Rightarrow> session \<Rightarrow> string \<Rightarrow> string \<Rightarrow> string \<Rightarrow> ('e, unit) act" where
  "publish_notice dp s content channel kind =
     call_then (io_get now_seconds) (\<lambda>now.
       relay_publish (dp_out dp) (relay_url s)
         (dp_sign dp (se_key s) (notice_template content channel kind now)))"

definition hint_content :: "string \<Rightarrow> string" where
  "hint_content slug = ''buzzrouter: @'' @ slug @ '' messaged you here. '' @
     ''Type \"/open '' @ slug @ ''\" for a direct channel '' @ em_dash @ '' no tags.''"

section \<open>Delivering\<close>

text \<open>\<open>hintDirectChannel\<close>: claimed first, and nothing it does can throw.\<close>

definition hint_direct_channel :: "'e deployment \<Rightarrow> session \<Rightarrow> delivery_context \<Rightarrow> ('e, unit) act" where
  "hint_direct_channel dp s c =
     io_catch
       (call_then (on_db (dp_out dp) (\<lambda>_. claim_direct_channel_hint (ctx_endpoint c, ctx_community c)))
         (\<lambda>claimed.
          if \<not> claimed then io_return ()
          else publish_notice dp s (hint_content (ctx_community_slug c)) (ctx_channel_id c) ''hint''))
       (\<lambda>_. io_return ())"

definition projection_of :: "delivery_context \<Rightarrow> projection_input" where
  "projection_of c =
     \<lparr>pi_body = ctx_body c, pi_channel = ctx_channel_id c, pi_local_parent = ctx_local_parent c,
      pi_message = ctx_message c, pi_actor = ctx_actor c, pi_actor_name = ctx_actor_name c,
      pi_community = ctx_community c, pi_slug = ctx_community_slug c, pi_event = ctx_source_event c\<rparr>"

definition retry_delivery :: "'e deployment \<Rightarrow> uuid \<Rightarrow> string \<Rightarrow> bool \<Rightarrow> err \<Rightarrow> ('e, unit) act" where
  "retry_delivery dp i code terminal e =
     call_then (on_db (dp_out dp) (\<lambda>now d. ((), mark_retry now i code terminal d)))
       (\<lambda>_. if terminal then io_return () else io_throw e)"

definition cancel_route :: "'e deployment \<Rightarrow> uuid \<Rightarrow> ('e, unit) act" where
  "cancel_route dp i = on_db (dp_out dp) (\<lambda>now d. ((), cancel_delivery now i ''route_inactive'' d))"

text \<open>Truthiness of an optional string.\<close>

definition present :: "string option \<Rightarrow> bool" where
  "present x \<longleftrightarrow> x \<noteq> None \<and> x \<noteq> Some []"

text \<open>From the persisted event to the completed delivery.\<close>

definition finish_delivery ::
  "'e deployment \<Rightarrow> session \<Rightarrow> delivery_context \<Rightarrow> uuid \<Rightarrow> nostr_event \<Rightarrow> ('e, unit) act" where
  "finish_delivery dp s c i ev =
     call_then (in_db (dp_out dp) (\<lambda>now. complete_bridge_delivery now i ev))
       (\<lambda>_. hint_direct_channel dp s c)"

definition send_event ::
  "'e deployment \<Rightarrow> session \<Rightarrow> delivery_context \<Rightarrow> uuid \<Rightarrow> bool \<Rightarrow> nostr_event \<Rightarrow> ('e, unit) act" where
  "send_event dp s c i terminal ev =
     call_then (io_attempt (relay_publish (dp_out dp) (relay_url s) ev)) (\<lambda>answer.
     case answer of
       Inr _ \<Rightarrow> finish_delivery dp s c i ev
     | Inl e \<Rightarrow>
         call_then (relay_has (dp_out dp) (relay_url s) ev) (\<lambda>stored.
         if stored then finish_delivery dp s c i ev
         else retry_delivery dp i (delivery_error_code e) terminal e))"

definition deliver_over ::
  "'e deployment \<Rightarrow> session \<Rightarrow> delivery_context \<Rightarrow> uuid \<Rightarrow> bool \<Rightarrow> ('e, unit) act" where
  "deliver_over dp s c i terminal =
     call_then (in_db (dp_out dp) (\<lambda>now. mark_delivering now i)) (\<lambda>marked.
     if \<not> marked then io_return ()
     else
       call_then (io_get now_seconds) (\<lambda>now.
       call_then (io_res (case ctx_event c of
           Some ev \<Rightarrow> Inr ev
         | None \<Rightarrow> create_destination_projection (dp_sign dp) now (projection_of c) (se_key s)))
         (\<lambda>projection.
       call_then (in_db (dp_out dp) (\<lambda>t. persist_destination_event t i projection)) (\<lambda>ev.
       call_then (on_db (dp_out dp) (\<lambda>_ d. (is_route_active i d, d))) (\<lambda>active.
       if \<not> active then cancel_route dp i
       else send_event dp s c i terminal ev)))))"

definition final_states :: "delivery_state set" where
  "final_states = {Delivered_to_relay, Cancelled, Delivery_failed}"

definition deliver :: "'e deployment \<Rightarrow> uuid \<Rightarrow> bool \<Rightarrow> ('e, unit) act" where
  "deliver dp i terminal =
     call_then (in_db (dp_out dp) (\<lambda>_. get_bridge_delivery_context i)) (\<lambda>context.
     case context of
       None \<Rightarrow> io_return ()
     | Some c \<Rightarrow>
         if ctx_state c \<in> final_states then io_return ()
         else if \<not> ctx_route_active c then cancel_route dp i
         else if present (ctx_source_parent c) \<and> \<not> present (ctx_local_parent c)
         then retry_delivery dp i ''parent_mapping_missing'' terminal (Api ''parent_mapping_missing'' 409)
         else
           call_then (io_get (\<lambda>w. map_of (sv_sessions w) (ctx_connection c))) (\<lambda>found.
           case found of
             None \<Rightarrow> retry_delivery dp i ''connector_unavailable'' terminal
                       (Api ''connector_unavailable'' 503)
           | Some s \<Rightarrow> deliver_over dp s c i terminal))"

end
