(* ===== verification/Handoff.thy ===== *)
theory Handoff
  imports World "HOL-Library.Product_Lexorder"
begin

text \<open>
  src/shared-channels/channel-handoff.ts: creating a channel on a community's
  relay and handing it over to the relay's owner.  The three relay round trips
  (create, promote the owner, step down) are journaled in
  \<open>bridge_channel_handoffs\<close>; a call with the same idempotency key resumes.
\<close>

section \<open>Inputs\<close>

record create_channel_input =
  cc_community :: uuid
  cc_owner :: string
  cc_name :: string
  cc_key :: string
  cc_members :: "string list option"

definition normalize_channel_name :: "string \<Rightarrow> string res" where
  "normalize_channel_name name =
     (if trim name = [] \<or> length (trim name) > 80 then Inl (Api ''invalid_input'' 400)
      else Inr (trim name))"

definition assert_idempotency_key :: "string \<Rightarrow> unit res" where
  "assert_idempotency_key key =
     (if length key < 8 \<or> length key > 200 then Inl (Api ''invalid_input'' 400) else Inr ())"

definition normalize_members :: "string list option \<Rightarrow> string \<Rightarrow> string list" where
  "normalize_members members bridge =
     (case members of None \<Rightarrow> []
      | Some ms \<Rightarrow> js_set (filter (\<lambda>m. is_hex_string 64 m \<and> m \<noteq> bridge) ms))"

section \<open>Relay events\<close>

definition group_create_kind :: nat where "group_create_kind = 9007"
definition group_put_user_kind :: nat where "group_put_user_kind = 9000"

definition create_template :: "uuid \<Rightarrow> string \<Rightarrow> int \<Rightarrow> event_template" where
  "create_template channel name t = \<lparr>tp_content = [], tp_created_at = t,
     tp_kind = group_create_kind, tp_tags = [[''h'', channel], [''name'', name]]\<rparr>"

definition put_user_template :: "uuid \<Rightarrow> string \<Rightarrow> string \<Rightarrow> int \<Rightarrow> event_template" where
  "put_user_template channel pubkey role t = \<lparr>tp_content = [], tp_created_at = t,
     tp_kind = group_put_user_kind,
     tp_tags = [[''h'', channel], [''p'', pubkey, role], [''role'', role]]\<rparr>"

text \<open>
  Polling for the event: a lookup, then a 100 ms pause, until it is found or the
  clock has passed the deadline.
\<close>

function confirm_stored ::
  "'e outside \<Rightarrow> string \<Rightarrow> nostr_event \<Rightarrow> int \<Rightarrow> ('e, 'z) world_scheme \<Rightarrow> unit res \<times> ('e, 'z) world_scheme" where
  "confirm_stored out url ev deadline w =
     (case out_has out url (ev_id ev) (w_env w) of ((found, ms), e') \<Rightarrow>
        if found
        then (Inr (), w\<lparr>w_env := e', w_clock := w_clock w + int ms,
                        w_log := Confirmed url ev # w_log w\<rparr>)
        else if w_clock w + int ms \<ge> deadline
        then (Inl (Api ''channel_event_not_stored'' 502),
              w\<lparr>w_env := e', w_clock := w_clock w + int ms\<rparr>)
        else confirm_stored out url ev deadline
              (w\<lparr>w_env := e', w_clock := w_clock w + int ms + 100\<rparr>))"
  by pat_completeness auto

termination confirm_stored
  by (relation "measure (\<lambda>(out, url, ev, deadline, w). nat (deadline - w_clock w))") auto

declare confirm_stored.simps [simp del]

definition publish_confirmed ::
  "'e outside \<Rightarrow> string \<Rightarrow> nostr_event \<Rightarrow> (('e, 'z) world_scheme, unit) io" where
  "publish_confirmed out url ev =
     call_then (relay_publish out url ev) (\<lambda>_.
     call_then (io_get (\<lambda>w. w_clock w + 3000)) (\<lambda>deadline. confirm_stored out url ev deadline))"

text \<open>\<open>finalize(privateKey, template)\<close> stamps the current second; then publish and confirm.\<close>

definition publish_template ::
  "'e outside \<Rightarrow> signer \<Rightarrow> nat list \<Rightarrow> string \<Rightarrow> (int \<Rightarrow> event_template) \<Rightarrow>
   (('e, 'z) world_scheme, unit) io" where
  "publish_template out sign key url t =
     call_then (io_get now_seconds) (\<lambda>now. publish_confirmed out url (sign key (t now)))"

section \<open>The journal\<close>

definition find_handoff :: "uuid \<Rightarrow> string \<Rightarrow> handoff list \<Rightarrow> handoff option" where
  "find_handoff conn key hs = find (\<lambda>h. ho_connection h = conn \<and> ho_key h = key) hs"

definition find_handoff_by_key ::
  "'e outside \<Rightarrow> uuid \<Rightarrow> string \<Rightarrow> (('e, 'z) world_scheme, handoff option) io" where
  "find_handoff_by_key out conn key =
     pool_query out (io_get (\<lambda>w. find_handoff conn key (w_handoffs w)))"

text \<open>INSERT ... ON CONFLICT (connection_id, idempotency_key) DO UPDATE ... RETURNING.\<close>

definition reserve_handoff ::
  "'e outside \<Rightarrow> connection \<Rightarrow> string \<Rightarrow> string \<Rightarrow> string \<Rightarrow> (('e, 'z) world_scheme, handoff) io" where
  "reserve_handoff out conn name key requester =
     call_then (ask (out_uuid out)) (\<lambda>channel.
     call_then (ask (out_uuid out)) (\<lambda>row_id.
     pool_query out (\<lambda>w.
       case find_handoff (conn_id conn) key (w_handoffs w) of
         Some h \<Rightarrow> (Inr h, w)
       | None \<Rightarrow>
           let h = \<lparr>ho_id = row_id, ho_connection = conn_id conn,
                    ho_community = conn_community conn, ho_requester = requester,
                    ho_relay_url = conn_relay_url conn, ho_channel = channel, ho_name = name,
                    ho_state = Creating, ho_key = key, ho_attempts = 0, ho_error = None\<rparr>
           in if \<not> is_hex_string 64 requester then (Inl (Pg ''23514''), w)
              else if has_row (\<lambda>r. ho_id r = row_id) (w_handoffs w) then (Inl (Pg ''23505''), w)
              else (Inr h, w\<lparr>w_handoffs := w_handoffs w @ [h]\<rparr>))))"

definition advance_handoff ::
  "'e outside \<Rightarrow> handoff \<Rightarrow> handoff_state \<Rightarrow> handoff_state \<Rightarrow> (('e, 'z) world_scheme, handoff) io" where
  "advance_handoff out h from_state to_state =
     call_then (pool_query out (io_put (\<lambda>w. w\<lparr>w_handoffs :=
         update_where (\<lambda>r. ho_id r = ho_id h \<and> ho_state r = from_state)
           (\<lambda>r. r\<lparr>ho_state := to_state, ho_error := None\<rparr>) (w_handoffs w)\<rparr>)))
       (\<lambda>_. io_return (h\<lparr>ho_state := to_state\<rparr>))"

definition record_handoff_error ::
  "'e outside \<Rightarrow> uuid \<Rightarrow> string \<Rightarrow> (('e, 'z) world_scheme, unit) io" where
  "record_handoff_error out i code =
     pool_query out (io_put (\<lambda>w. w\<lparr>w_handoffs := update_where (\<lambda>r. ho_id r = i)
         (\<lambda>r. r\<lparr>ho_attempts := ho_attempts r + 1, ho_error := Some (take 200 code)\<rparr>)
         (w_handoffs w)\<rparr>))"

definition get_channel_handoff ::
  "'e outside \<Rightarrow> string \<Rightarrow> string \<Rightarrow> (('e, 'z) world_scheme, handoff option) io" where
  "get_channel_handoff out requester key =
     pool_query out (io_get (\<lambda>w.
       find (\<lambda>h. ho_requester h = requester \<and> ho_key h = key) (w_handoffs w)))"

section \<open>The sequence\<close>

definition run_step ::
  "'e outside \<Rightarrow> handoff \<Rightarrow> string \<Rightarrow> (('e, 'z) world_scheme, unit) io \<Rightarrow>
   (('e, 'z) world_scheme, unit) io" where
  "run_step out h code step =
     io_catch step (\<lambda>e.
       call_then (record_handoff_error out (ho_id h) code)
         (\<lambda>_. io_throw (case e of Api c s \<Rightarrow> Api c s | _ \<Rightarrow> Api code 502)))"

text \<open>What every step needs: the environment, the signer, the key and the relay.\<close>

type_synonym ('e, 'z) publisher =
  "(int \<Rightarrow> event_template) \<Rightarrow> (('e, 'z) world_scheme, unit) io"

definition create_step ::
  "'e outside \<Rightarrow> ('e, 'z) publisher \<Rightarrow> handoff \<Rightarrow> (('e, 'z) world_scheme, handoff) io" where
  "create_step out publish h =
     (if ho_state h = Creating
      then call_then (run_step out h ''channel_create_failed''
             (publish (create_template (ho_channel h) (ho_name h))))
           (\<lambda>_. advance_handoff out h Creating Created)
      else io_return h)"

definition promote_step ::
  "'e outside \<Rightarrow> ('e, 'z) publisher \<Rightarrow> string list \<Rightarrow> handoff \<Rightarrow> (('e, 'z) world_scheme, handoff) io" where
  "promote_step out publish members h =
     (if ho_state h = Created
      then call_then (run_step out h ''channel_handoff_incomplete''
             (call_then (publish (put_user_template (ho_channel h) (ho_requester h) ''owner''))
               (\<lambda>_. io_each (\<lambda>m. publish (put_user_template (ho_channel h) m ''member''))
                 (filter (\<lambda>m. m \<noteq> ho_requester h) members))))
           (\<lambda>_. advance_handoff out h Created Handed_off)
      else io_return h)"

definition demote_step ::
  "'e outside \<Rightarrow> ('e, 'z) publisher \<Rightarrow> string \<Rightarrow> handoff \<Rightarrow> (('e, 'z) world_scheme, handoff) io" where
  "demote_step out publish bridge h =
     (if ho_state h = Handed_off
      then call_then (run_step out h ''channel_handoff_incomplete''
             (publish (put_user_template (ho_channel h) bridge ''member'')))
           (\<lambda>_. advance_handoff out h Handed_off Completed)
      else io_return h)"

definition run_handoff ::
  "'e outside \<Rightarrow> ('e, 'z) publisher \<Rightarrow> string \<Rightarrow> handoff \<Rightarrow> string list \<Rightarrow>
   (('e, 'z) world_scheme, unit) io" where
  "run_handoff out publish bridge h members =
     call_then (create_step out publish h) (\<lambda>h1.
     call_then (promote_step out publish members h1) (\<lambda>h2.
     call_then (demote_step out publish bridge h2) (\<lambda>_. io_return ())))"

section \<open>The call\<close>

definition resolve_channel_owner ::
  "'e outside \<Rightarrow> string \<Rightarrow> string \<Rightarrow> (('e, 'z) world_scheme, string) io" where
  "resolve_channel_owner out url bridge =
     call_then (ask (out_roster out url)) (\<lambda>roster.
     case roster of
       None \<Rightarrow> io_throw (Api ''channel_owner_unavailable'' 502)
     | Some entries \<Rightarrow>
         (case first_by (\<lambda>(pubkey, role). (role \<noteq> ''owner'', pubkey))
                 (filter (\<lambda>(pubkey, role). pubkey \<noteq> bridge \<and> role \<in> {''owner'', ''admin''}) entries) of
            None \<Rightarrow> io_throw (Api ''channel_owner_unavailable'' 409)
          | Some (pubkey, role) \<Rightarrow> io_return pubkey))"

text \<open>
  The part after the journal was consulted: unwrap the connector's key, connect,
  reserve a row when there is none, and run what is left.  The wrapping keys and
  the cipher are those of theory Connections.
\<close>

definition resume_channel ::
  "'e outside \<Rightarrow> signer \<Rightarrow> cipher \<Rightarrow> (int \<Rightarrow> nat list res) \<Rightarrow> create_channel_input \<Rightarrow> string \<Rightarrow>
   connection \<Rightarrow> handoff option \<Rightarrow> (('e, 'z) world_scheme, uuid \<times> string) io" where
  "resume_channel out sign c wrapping_keys i name conn existing =
     call_then (io_res (wrapping_keys (conn_key_version conn))) (\<lambda>wrapping_key.
     call_then (io_res (decrypt_connector_private_key c (conn_key conn) wrapping_key
         (conn_community conn))) (\<lambda>key.
     call_then (ask (out_connect out (conn_relay_url conn))) (\<lambda>refused.
     call_then (case refused of Some e \<Rightarrow> io_throw e | None \<Rightarrow> io_return ()) (\<lambda>_.
     call_then (case existing of
         Some h \<Rightarrow> io_return h
       | None \<Rightarrow>
           call_then (resolve_channel_owner out (conn_relay_url conn) (conn_bridge_pubkey conn))
             (reserve_handoff out conn name (cc_key i))) (\<lambda>h.
     call_then (run_handoff out (publish_template out sign key (conn_relay_url conn))
         (conn_bridge_pubkey conn) h
         (normalize_members (cc_members i) (conn_bridge_pubkey conn))) (\<lambda>_.
     io_return (ho_channel h, ho_name h)))))))"

definition create_dedicated_channel ::
  "'e outside \<Rightarrow> signer \<Rightarrow> cipher \<Rightarrow> (int \<Rightarrow> nat list res) \<Rightarrow> create_channel_input \<Rightarrow>
   (('e, 'z) world_scheme, uuid \<times> string) io" where
  "create_dedicated_channel out sign c wrapping_keys i =
     call_then (io_res (normalize_channel_name (cc_name i))) (\<lambda>name.
     call_then (io_res (assert_idempotency_key (cc_key i))) (\<lambda>_.
     call_then (in_db out (\<lambda>_. owned_community_connection (cc_community i) (cc_owner i))) (\<lambda>owned.
     case owned of
       None \<Rightarrow> io_throw (Api ''connection_required'' 409)
     | Some conn \<Rightarrow>
         call_then (find_handoff_by_key out (conn_id conn) (cc_key i)) (\<lambda>existing.
         case existing of
           Some h \<Rightarrow>
             if ho_state h = Completed then io_return (ho_channel h, ho_name h)
             else resume_channel out sign c wrapping_keys i name conn (Some h)
         | None \<Rightarrow> resume_channel out sign c wrapping_keys i name conn None))))"

section \<open>What relay traffic keeps\<close>

text \<open>
  A property of the world that the passing of time, the environment's own moves
  and further confirmations do not destroy.
\<close>

locale kept_by_relay =
  fixes P :: "('e, 'z) world_scheme \<Rightarrow> bool"
  assumes env: "P w \<Longrightarrow> P (w\<lparr>w_env := e\<rparr>)"
    and clock: "P w \<Longrightarrow> P (w\<lparr>w_clock := t\<rparr>)"
    and confirmed: "P w \<Longrightarrow> P (w\<lparr>w_log := Confirmed url ev # w_log w\<rparr>)"
begin

lemma confirm_stored_leads:
  "P w \<Longrightarrow> confirm_stored out url ev deadline w = (r, w') \<Longrightarrow>
   P w' \<and> (r = Inr () \<longrightarrow> Confirmed url ev \<in> set (w_log w'))"
proof (induction out url ev deadline w rule: confirm_stored.induct)
  case (1 out url ev deadline w)
  obtain found ms e' where o: "out_has out url (ev_id ev) (w_env w) = ((found, ms), e')"
    by (metis prod.collapse)
  have moved: "P (w\<lparr>w_env := e', w_clock := t\<rparr>)" for t
    using clock [OF env [OF "1.prems"(1)]] by simp
  show ?case
  proof (cases "found \<or> w_clock w + int ms \<ge> deadline")
    case True
    then show ?thesis using "1.prems"(2) moved confirmed [OF moved]
      by (auto simp: confirm_stored.simps [of out url ev deadline w] o split: if_splits)
  next
    case False
    then show ?thesis
      using "1.prems"(2) "1.IH" [OF o [symmetric] refl] moved
      by (simp add: confirm_stored.simps [of out url ev deadline w] o)
  qed
qed

lemma publish_confirmed_leads:
  assumes "\<And>w e. P w \<Longrightarrow> P (w\<lparr>w_env := e, w_log := Sent url ev # w_log w\<rparr>)"
  shows "leads P (publish_confirmed out url ev) P (\<lambda>_ w. P w \<and> Confirmed url ev \<in> set (w_log w))"
  unfolding publish_confirmed_def
proof (rule leads_then)
  show "leads P (relay_publish out url ev) P (\<lambda>_. P)"
    by (rule leads_publish) (use assms in auto)
next
  show "leads P (call_then (io_get (\<lambda>w. w_clock w + 3000)) (confirm_stored out url ev)) P
      (\<lambda>_ w. P w \<and> Confirmed url ev \<in> set (w_log w))"
    by (rule leads_then [where R = "\<lambda>_. P"], rule leads_get, simp, rule leadsI)
      (use confirm_stored_leads in auto)
qed

lemma publish_template_leads:
  assumes "\<And>w e now. P w \<Longrightarrow> P (w\<lparr>w_env := e, w_log := Sent url (sign key (t now)) # w_log w\<rparr>)"
  shows "leads P (publish_template out sign key url t) P
    (\<lambda>_ w. P w \<and> (\<exists>now. Confirmed url (sign key (t now)) \<in> set (w_log w)))"
  unfolding publish_template_def
  by (rule leads_then [where R = "\<lambda>_. P"], rule leads_get, simp)
    (rule leads_weaken, rule publish_confirmed_leads, use assms in auto)

end

section \<open>Ownership\<close>

definition puts :: "nostr_event \<Rightarrow> uuid \<Rightarrow> string \<Rightarrow> string \<Rightarrow> bool" where
  "puts ev channel pubkey role \<longleftrightarrow> ev_kind ev = group_put_user_kind \<and>
     ev_tags ev = tp_tags (put_user_template channel pubkey role 0)"

definition owner_confirmed :: "relay_entry list \<Rightarrow> uuid \<Rightarrow> bool" where
  "owner_confirmed past channel \<longleftrightarrow>
     (\<exists>url ev p. Confirmed url ev \<in> set past \<and> puts ev channel p ''owner'')"

text \<open>The log, newest entry first, never shows a member put before the owner's promotion.\<close>

fun log_ok :: "relay_entry list \<Rightarrow> bool" where
  "log_ok [] = True"
| "log_ok (Sent url ev # past) \<longleftrightarrow> log_ok past \<and>
     (\<forall>c p. puts ev c p ''member'' \<longrightarrow> owner_confirmed past c)"
| "log_ok (Confirmed url ev # past) \<longleftrightarrow> log_ok past"

definition owned_states :: "handoff_state set" where
  "owned_states = {Handed_off, Completed}"

definition handoff_inv :: "('e, 'z) world_scheme \<Rightarrow> bool" where
  "handoff_inv w \<longleftrightarrow> log_ok (w_log w) \<and> distinct (map ho_id (w_handoffs w)) \<and>
     distinct (map (\<lambda>h. (ho_connection h, ho_key h)) (w_handoffs w)) \<and>
     (\<forall>h \<in> set (w_handoffs w). ho_state h \<in> owned_states \<longrightarrow> owner_confirmed (w_log w) (ho_channel h))"

text \<open>The row of the handoff a call holds in memory; another process may have counted errors.\<close>

definition agrees :: "handoff \<Rightarrow> handoff \<Rightarrow> bool" where
  "agrees r h \<longleftrightarrow> r = h\<lparr>ho_attempts := ho_attempts r, ho_error := ho_error r\<rparr>"

definition working_inv :: "handoff \<Rightarrow> ('e, 'z) world_scheme \<Rightarrow> bool" where
  "working_inv h w \<longleftrightarrow> handoff_inv w \<and> (\<exists>r \<in> set (w_handoffs w). agrees r h)"

lemma owner_confirmed_mono: "owner_confirmed past c \<Longrightarrow> owner_confirmed (x # past) c"
  by (auto simp: owner_confirmed_def)

lemma log_ok_split:
  "log_ok (later @ Sent url ev # past) \<Longrightarrow> puts ev c p ''member'' \<Longrightarrow> owner_confirmed past c"
proof (induction later)
  case Nil
  then show ?case by auto
next
  case (Cons x later)
  then show ?case by (cases x) auto
qed

lemma working_handoff: "working_inv h w \<Longrightarrow> handoff_inv w"
  by (simp add: working_inv_def)

lemma agrees_fields:
  "agrees r h \<Longrightarrow> ho_id r = ho_id h \<and> ho_connection r = ho_connection h \<and> ho_key r = ho_key h \<and>
     ho_channel r = ho_channel h \<and> ho_name r = ho_name h \<and> ho_state r = ho_state h"
  by (cases r; cases h) (auto simp: agrees_def)

lemma agrees_error: "agrees r h \<Longrightarrow> agrees (r\<lparr>ho_attempts := a, ho_error := e\<rparr>) h"
  by (cases r; cases h) (simp add: agrees_def)

lemma agrees_state:
  "agrees r h \<Longrightarrow> agrees (r\<lparr>ho_state := s, ho_error := e\<rparr>) (h\<lparr>ho_state := s\<rparr>)"
  by (cases r; cases h) (simp add: agrees_def)

lemma agrees_refl: "agrees h h"
  by (cases h) (simp add: agrees_def)

lemma working_owned:
  "working_inv h w \<Longrightarrow> ho_state h \<in> owned_states \<Longrightarrow> owner_confirmed (w_log w) (ho_channel h)"
  unfolding working_inv_def handoff_inv_def using agrees_fields by metis

lemma working_sent:
  assumes "working_inv h w" "\<And>c p. puts ev c p ''member'' \<Longrightarrow> owner_confirmed (w_log w) c"
  shows "working_inv h (w\<lparr>w_env := e, w_log := Sent url ev # w_log w\<rparr>)"
  using assms by (auto simp: working_inv_def handoff_inv_def intro: owner_confirmed_mono)

interpretation work: kept_by_relay "working_inv h" for h
  by unfold_locales (auto simp: working_inv_def handoff_inv_def intro: owner_confirmed_mono)

lemma puts_put_user:
  "carries_template sign \<Longrightarrow>
   puts (sign key (put_user_template c p role now)) c' p' role' \<longleftrightarrow> c' = c \<and> p' = p \<and> role' = role"
  by (auto simp: puts_def carries_template_def put_user_template_def)

lemma puts_create:
  "carries_template sign \<Longrightarrow> \<not> puts (sign key (create_template c n now)) c' p' role'"
  by (simp add: puts_def carries_template_def put_user_template_def create_template_def
      group_create_kind_def group_put_user_kind_def)

lemma update_rows_inv:
  assumes "handoff_inv w" "\<And>r. ho_id (f r) = ho_id r \<and> ho_connection (f r) = ho_connection r \<and>
      ho_key (f r) = ho_key r \<and> ho_channel (f r) = ho_channel r"
    and "\<And>r. r \<in> set (w_handoffs w) \<Longrightarrow> S r \<Longrightarrow> ho_state (f r) \<in> owned_states \<Longrightarrow>
      owner_confirmed (w_log w) (ho_channel r)"
  shows "handoff_inv (w\<lparr>w_handoffs := update_where S f (w_handoffs w)\<rparr>)"
  using assms by (auto simp: handoff_inv_def set_update_where)

lemma in_update_where: "r \<in> set rs \<Longrightarrow> (if S r then f r else r) \<in> set (update_where S f rs)"
  by (simp add: set_update_where)

lemma record_error_leads:
  "leads (working_inv h) (record_handoff_error out i code) (working_inv h) (\<lambda>_. working_inv h)"
proof -
  let ?f = "\<lambda>r. r\<lparr>ho_attempts := ho_attempts r + 1, ho_error := Some (take 200 code)\<rparr>"
  have "working_inv h (w\<lparr>w_handoffs := update_where (\<lambda>r. ho_id r = i) ?f (w_handoffs w)\<rparr>)"
    if w: "working_inv h w" for w :: "('a, 'b) world_scheme"
  proof -
    obtain r where r: "r \<in> set (w_handoffs w)" "agrees r h" using w by (auto simp: working_inv_def)
    then have "agrees (if ho_id r = i then ?f r else r) h"
      by (simp add: agrees_error)
    moreover have "handoff_inv (w\<lparr>w_handoffs := update_where (\<lambda>r. ho_id r = i) ?f (w_handoffs w)\<rparr>)"
      by (rule update_rows_inv) (use w in \<open>auto simp: working_inv_def handoff_inv_def\<close>)
    ultimately show ?thesis
      using in_update_where [OF r(1), of "\<lambda>r. ho_id r = i" ?f] by (auto simp: working_inv_def)
  qed
  then show ?thesis
    unfolding record_handoff_error_def
    by (intro leads_pool_query leads_put) (auto simp: work.env)
qed

lemma run_step_leads:
  assumes "leads (working_inv h) m (working_inv h) Q"
  shows "leads (working_inv h) (run_step out h code m) (working_inv h) Q"
  unfolding run_step_def
  by (rule leads_catch [OF assms], rule leads_then [OF record_error_leads], rule leads_throw)

lemma advance_leads:
  assumes "\<And>w. R w \<Longrightarrow> working_inv h w \<and> (s' \<in> owned_states \<longrightarrow> owner_confirmed (w_log w) (ho_channel h))"
    and "\<And>w e. R w \<Longrightarrow> R (w\<lparr>w_env := e\<rparr>)" and "ho_state h = s"
  shows "leads R (advance_handoff out h s s') handoff_inv
    (\<lambda>h' w. h' = h\<lparr>ho_state := s'\<rparr> \<and> working_inv h' w)"
proof -
  let ?S = "\<lambda>r. ho_id r = ho_id h \<and> ho_state r = s"
  let ?f = "\<lambda>r. r\<lparr>ho_state := s', ho_error := None\<rparr>"
  let ?set = "\<lambda>w. w\<lparr>w_handoffs := update_where ?S ?f (w_handoffs w)\<rparr>"
  have upd: "working_inv (h\<lparr>ho_state := s'\<rparr>) (?set w)" if "R w" for w
  proof -
    have w: "working_inv h w" "s' \<in> owned_states \<longrightarrow> owner_confirmed (w_log w) (ho_channel h)"
      using assms(1) [OF that] by auto
    obtain r where r: "r \<in> set (w_handoffs w)" "agrees r h" using w by (auto simp: working_inv_def)
    have same: "q = r" if "q \<in> set (w_handoffs w)" "ho_id q = ho_id h" for q
      using that r agrees_fields [OF r(2)] w(1) distinct_key_unique [of ho_id "w_handoffs w" q r]
      by (simp add: working_inv_def handoff_inv_def)
    have "handoff_inv (?set w)"
      by (rule update_rows_inv) (use w same agrees_fields [OF r(2)] in \<open>auto simp: working_handoff\<close>)
    moreover have "?S r" using agrees_fields [OF r(2)] assms(3) by simp
    moreover have "agrees (?f r) (h\<lparr>ho_state := s'\<rparr>)"
      using r(2) by (rule agrees_state)
    ultimately show ?thesis using r(1)
      unfolding working_inv_def by (force simp: set_update_where)
  qed
  have "leads R (pool_query out (io_put ?set)) handoff_inv (\<lambda>_. working_inv (h\<lparr>ho_state := s'\<rparr>))"
  proof (rule leads_pool_query)
    show "R w \<Longrightarrow> R (w\<lparr>w_env := e\<rparr>)" for w e by (rule assms(2))
    show "R w \<Longrightarrow> handoff_inv w" for w using assms(1) working_handoff by blast
    show "leads R (io_put ?set) handoff_inv (\<lambda>_. working_inv (h\<lparr>ho_state := s'\<rparr>))"
      by (rule leads_put) (use upd working_handoff in blast)
  qed
  then show ?thesis
    unfolding advance_handoff_def
    by (rule leads_then) (rule leads_return, simp add: working_handoff)
qed

definition owned_inv :: "handoff \<Rightarrow> ('e, 'z) world_scheme \<Rightarrow> bool" where
  "owned_inv h w \<longleftrightarrow> working_inv h w \<and> owner_confirmed (w_log w) (ho_channel h)"

lemma owned_working: "owned_inv h w \<Longrightarrow> working_inv h w"
  by (simp add: owned_inv_def)

interpretation own: kept_by_relay "owned_inv h" for h
  by unfold_locales (auto simp: owned_inv_def work.env work.clock work.confirmed
      intro: owner_confirmed_mono)

lemma owned_sent:
  assumes "owned_inv h w" "\<And>c p. puts ev c p ''member'' \<Longrightarrow> owner_confirmed (w_log w) c"
  shows "owned_inv h (w\<lparr>w_env := e, w_log := Sent url ev # w_log w\<rparr>)"
  using assms working_sent [of h w ev] by (auto simp: owned_inv_def intro: owner_confirmed_mono)

lemma create_publish_leads:
  assumes "carries_template sign"
  shows "leads (working_inv h) (publish_template out sign key url (create_template c n))
    (working_inv h) (\<lambda>_. working_inv h)"
proof (rule leads_weaken [OF work.publish_template_leads])
  show "working_inv h w \<Longrightarrow>
      working_inv h (w\<lparr>w_env := e, w_log := Sent url (sign key (create_template c n now)) # w_log w\<rparr>)"
    for w e now by (rule working_sent) (auto simp: puts_create [OF assms])
qed auto

lemma promote_publish_leads:
  assumes "carries_template sign"
  shows "leads (working_inv h)
    (publish_template out sign key url (put_user_template (ho_channel h) p ''owner''))
    (working_inv h) (\<lambda>_. owned_inv h)"
proof (rule leads_weaken [OF work.publish_template_leads])
  show "working_inv h w \<Longrightarrow> working_inv h (w\<lparr>w_env := e, w_log :=
      Sent url (sign key (put_user_template (ho_channel h) p ''owner'' now)) # w_log w\<rparr>)" for w e now
    by (rule working_sent) (auto simp: puts_put_user [OF assms])
next
  fix a w assume "working_inv h w \<and> (\<exists>now. Confirmed url
    (sign key (put_user_template (ho_channel h) p ''owner'' now)) \<in> set (w_log w))"
  then show "owned_inv h w"
    using puts_put_user [OF assms] unfolding owned_inv_def owner_confirmed_def by blast
qed auto

lemma member_publish_leads:
  assumes "carries_template sign"
  shows "leads (owned_inv h)
    (publish_template out sign key url (put_user_template (ho_channel h) p ''member''))
    (owned_inv h) (\<lambda>_. owned_inv h)"
proof (rule leads_weaken [OF own.publish_template_leads])
  show "owned_inv h w \<Longrightarrow> owned_inv h (w\<lparr>w_env := e, w_log :=
      Sent url (sign key (put_user_template (ho_channel h) p ''member'' now)) # w_log w\<rparr>)" for w e now
    by (rule owned_sent) (auto simp: puts_put_user [OF assms] owned_inv_def)
qed auto

text \<open>What a step leaves: the same handoff, in a state past the step's own.\<close>

definition stepped :: "handoff \<Rightarrow> handoff_state set \<Rightarrow> handoff \<Rightarrow> ('e, 'z) world_scheme \<Rightarrow> bool" where
  "stepped h past h' w \<longleftrightarrow> (\<exists>s. h' = h\<lparr>ho_state := s\<rparr> \<and> s \<notin> past) \<and> working_inv h' w"

lemma stay_leads:
  "ho_state h \<notin> past \<Longrightarrow> leads (working_inv h) (io_return h) handoff_inv (stepped h past)"
  by (rule leads_return) (auto simp: stepped_def working_handoff intro: exI [of _ "ho_state h"])

lemma create_step_leads:
  assumes "carries_template sign"
  shows "leads (working_inv h) (create_step out (publish_template out sign key url) h) handoff_inv
    (stepped h {Creating})"
proof (cases "ho_state h = Creating")
  case True
  have "leads (working_inv h) (call_then (run_step out h ''channel_create_failed''
          (publish_template out sign key url (create_template (ho_channel h) (ho_name h))))
        (\<lambda>_. advance_handoff out h Creating Created)) handoff_inv (stepped h {Creating})"
    by (rule leads_then [where R = "\<lambda>_. working_inv h"],
        rule leads_weaken [OF run_step_leads [OF create_publish_leads [OF assms]]],
        simp_all add: working_handoff,
        rule leads_weaken [OF advance_leads [where R = "working_inv h"]])
      (auto simp: work.env owned_states_def stepped_def True)
  then show ?thesis by (simp add: create_step_def True)
next
  case False
  then show ?thesis by (simp add: create_step_def stay_leads)
qed

lemma promote_step_leads:
  assumes "carries_template sign" "ho_state h \<noteq> Creating"
  shows "leads (working_inv h) (promote_step out (publish_template out sign key url) members h) handoff_inv
    (stepped h {Creating, Created})"
proof (cases "ho_state h = Created")
  case True
  let ?members = "io_each (\<lambda>m. publish_template out sign key url
      (put_user_template (ho_channel h) m ''member'')) (filter (\<lambda>m. m \<noteq> ho_requester h) members)"
  have members: "leads (owned_inv h) ?members (working_inv h) (\<lambda>_. owned_inv h)"
    by (rule leads_weaken [OF leads_each [OF member_publish_leads [OF assms(1)]]]) (auto simp: owned_working)
  have "leads (working_inv h) (call_then (run_step out h ''channel_handoff_incomplete''
          (call_then (publish_template out sign key url
              (put_user_template (ho_channel h) (ho_requester h) ''owner'')) (\<lambda>_. ?members)))
        (\<lambda>_. advance_handoff out h Created Handed_off)) handoff_inv (stepped h {Creating, Created})"
    by (rule leads_then [where R = "\<lambda>_. owned_inv h"],
        rule leads_weaken [OF run_step_leads
          [OF leads_then [OF promote_publish_leads [OF assms(1)] members]]],
        simp_all add: working_handoff,
        rule leads_weaken [OF advance_leads [where R = "owned_inv h"]])
      (auto simp: own.env owned_working stepped_def True, simp add: owned_inv_def)
  then show ?thesis by (simp add: promote_step_def True)
next
  case False
  then show ?thesis using assms(2) by (simp add: promote_step_def stay_leads)
qed

lemma demote_step_leads:
  assumes "carries_template sign" "ho_state h \<in> owned_states"
  shows "leads (working_inv h) (demote_step out (publish_template out sign key url) bridge h) handoff_inv
    (stepped h {Creating, Created, Handed_off})"
proof (cases "ho_state h = Handed_off")
  case True
  have "leads (owned_inv h) (publish_template out sign key url
      (put_user_template (ho_channel h) bridge ''member'')) (working_inv h) (\<lambda>_. owned_inv h)"
    by (rule leads_weaken [OF member_publish_leads [OF assms(1)]]) (auto simp: owned_inv_def)
  then have pub: "leads (working_inv h) (publish_template out sign key url
      (put_user_template (ho_channel h) bridge ''member'')) (working_inv h) (\<lambda>_. owned_inv h)"
    by (rule leads_weaken) (use working_owned assms(2) in \<open>auto simp: owned_inv_def\<close>)
  have "leads (working_inv h) (call_then (run_step out h ''channel_handoff_incomplete''
          (publish_template out sign key url (put_user_template (ho_channel h) bridge ''member'')))
        (\<lambda>_. advance_handoff out h Handed_off Completed)) handoff_inv
        (stepped h {Creating, Created, Handed_off})"
    by (rule leads_then [where R = "\<lambda>_. owned_inv h"],
        rule leads_weaken [OF run_step_leads [OF pub]],
        simp_all add: working_handoff,
        rule leads_weaken [OF advance_leads [where R = "owned_inv h"]])
      (auto simp: own.env owned_working stepped_def True, simp add: owned_inv_def)
  then show ?thesis by (simp add: demote_step_def True)
next
  case False
  then show ?thesis using assms(2) by (simp add: demote_step_def stay_leads owned_states_def)
qed

lemma past_states:
  "s \<notin> {Creating, Created} \<Longrightarrow> s \<in> owned_states"
  "s \<notin> {Creating, Created, Handed_off} \<Longrightarrow> s = Completed"
  by (cases s; simp add: owned_states_def)+

lemma stepped_completed:
  assumes "stepped h {Creating, Created, Handed_off} h' w"
  shows "working_inv (h\<lparr>ho_state := Completed\<rparr>) w"
proof -
  obtain s where s: "h' = h\<lparr>ho_state := s\<rparr>" "s \<notin> {Creating, Created, Handed_off}" "working_inv h' w"
    using assms unfolding stepped_def by blast
  from s(2) have "s = Completed" by (rule past_states(2))
  with s show ?thesis by simp
qed

lemma run_handoff_leads:
  assumes "carries_template sign"
  shows "leads (working_inv h) (run_handoff out (publish_template out sign key url) bridge h members)
    handoff_inv (\<lambda>_. working_inv (h\<lparr>ho_state := Completed\<rparr>))"
  unfolding run_handoff_def
proof (rule leads_then [OF create_step_leads [OF assms]])
  fix h1
  let ?publish = "publish_template out sign key url"
  have three: "leads (stepped h2 {Creating, Created, Handed_off} h3) (io_return ()) handoff_inv
      (\<lambda>_. working_inv (h\<lparr>ho_state := Completed\<rparr>))" if "h2\<lparr>ho_state := Completed\<rparr> = h\<lparr>ho_state := Completed\<rparr>"
    for h2 h3
    by (rule leads_return) (use that stepped_completed working_handoff in metis)
  have two: "leads (stepped h1 {Creating, Created} h2)
      (call_then (demote_step out ?publish bridge h2) (\<lambda>_. io_return ())) handoff_inv
      (\<lambda>_. working_inv (h\<lparr>ho_state := Completed\<rparr>))" if "h1\<lparr>ho_state := Completed\<rparr> = h\<lparr>ho_state := Completed\<rparr>"
    for h2
  proof (cases "(\<exists>s. h2 = h1\<lparr>ho_state := s\<rparr> \<and> s \<notin> {Creating, Created})")
    case True
    then obtain s where s: "h2 = h1\<lparr>ho_state := s\<rparr>" "s \<notin> {Creating, Created}" by blast
    then have "ho_state h2 \<in> owned_states" using past_states(1) by simp
    then have "leads (working_inv h2)
      (call_then (demote_step out ?publish bridge h2) (\<lambda>_. io_return ())) handoff_inv
      (\<lambda>_. working_inv (h\<lparr>ho_state := Completed\<rparr>))"
      using that s by (intro leads_then [OF demote_step_leads [OF assms]] three) simp_all
    then show ?thesis by (rule leads_weaken) (auto simp: stepped_def)
  next
    case False
    then show ?thesis by (auto simp: leads_def stepped_def)
  qed
  show "leads (stepped h {Creating} h1) (call_then (promote_step out ?publish members h1)
      (\<lambda>h2. call_then (demote_step out ?publish bridge h2) (\<lambda>_. io_return ()))) handoff_inv
      (\<lambda>_. working_inv (h\<lparr>ho_state := Completed\<rparr>))"
  proof (cases "(\<exists>s. h1 = h\<lparr>ho_state := s\<rparr> \<and> s \<notin> {Creating})")
    case True
    then obtain s where s: "h1 = h\<lparr>ho_state := s\<rparr>" "s \<noteq> Creating" by blast
    then have "leads (working_inv h1) (call_then (promote_step out ?publish members h1)
      (\<lambda>h2. call_then (demote_step out ?publish bridge h2) (\<lambda>_. io_return ()))) handoff_inv
      (\<lambda>_. working_inv (h\<lparr>ho_state := Completed\<rparr>))"
      by (intro leads_then [OF promote_step_leads [OF assms]] two) simp_all
    then show ?thesis by (rule leads_weaken) (auto simp: stepped_def)
  next
    case False
    then show ?thesis by (auto simp: leads_def stepped_def)
  qed
qed

section \<open>The whole call\<close>

lemma handoff_env: "handoff_inv w \<Longrightarrow> handoff_inv (w\<lparr>w_env := e\<rparr>)"
  by (simp add: handoff_inv_def)

lemma row_working: "handoff_inv w \<Longrightarrow> h \<in> set (w_handoffs w) \<Longrightarrow> working_inv h w"
  using agrees_refl by (auto simp: working_inv_def)

definition row_for :: "uuid \<Rightarrow> string \<Rightarrow> handoff \<Rightarrow> ('e, 'z) world_scheme \<Rightarrow> bool" where
  "row_for conn key h w \<longleftrightarrow> working_inv h w \<and> ho_connection h = conn \<and> ho_key h = key"

lemma find_handoff_leads:
  "leads handoff_inv (find_handoff_by_key out conn key) handoff_inv
     (\<lambda>x w. handoff_inv w \<and> (\<forall>h. x = Some h \<longrightarrow> row_for conn key h w))"
  unfolding find_handoff_by_key_def
proof (rule leads_pool_query)
  show "leads handoff_inv (io_get (\<lambda>w. find_handoff conn key (w_handoffs w))) handoff_inv
      (\<lambda>x w. handoff_inv w \<and> (\<forall>h. x = Some h \<longrightarrow> row_for conn key h w))"
    by (rule leads_get) (auto simp: find_handoff_def row_for_def dest: find_Some_set intro: row_working)
qed (auto simp: handoff_env)

lemma reserve_handoff_leads:
  "leads handoff_inv (reserve_handoff out conn name key requester) handoff_inv
     (row_for (conn_id conn) key)"
  unfolding reserve_handoff_def
proof (rule leads_then [where R = "\<lambda>_. handoff_inv"], rule leads_ask, simp add: handoff_env,
    rule leads_then [where R = "\<lambda>_. handoff_inv"], rule leads_ask, simp add: handoff_env,
    rule leads_pool_query)
  fix channel row_id
  let ?h = "\<lparr>ho_id = row_id, ho_connection = conn_id conn, ho_community = conn_community conn,
      ho_requester = requester, ho_relay_url = conn_relay_url conn, ho_channel = channel,
      ho_name = name, ho_state = Creating, ho_key = key, ho_attempts = 0, ho_error = None\<rparr>"
  have new: "handoff_inv (w\<lparr>w_handoffs := w_handoffs w @ [?h]\<rparr>) \<and>
      row_for (conn_id conn) key ?h (w\<lparr>w_handoffs := w_handoffs w @ [?h]\<rparr>)"
    if "handoff_inv w" "\<not> has_row (\<lambda>r. ho_id r = row_id) (w_handoffs w)"
      "find_handoff (conn_id conn) key (w_handoffs w) = None" for w
  proof -
    have "handoff_inv (w\<lparr>w_handoffs := w_handoffs w @ [?h]\<rparr>)"
      using that by (auto simp: handoff_inv_def owned_states_def has_row_iff find_handoff_def
          find_None_set)
    then show ?thesis by (auto simp: row_for_def intro: row_working)
  qed
  show "leads handoff_inv (\<lambda>w. case find_handoff (conn_id conn) key (w_handoffs w) of
         Some h \<Rightarrow> (Inr h, w)
       | None \<Rightarrow>
           let h = ?h
           in if \<not> is_hex_string 64 requester then (Inl (Pg ''23514''), w)
              else if has_row (\<lambda>r. ho_id r = row_id) (w_handoffs w) then (Inl (Pg ''23505''), w)
              else (Inr h, w\<lparr>w_handoffs := w_handoffs w @ [h]\<rparr>)) handoff_inv (row_for (conn_id conn) key)"
    (is "leads _ ?m _ _")
  proof (rule leadsI)
    fix w r w' assume w: "handoff_inv w" and run: "?m w = (r, w')"
    show "handoff_inv w' \<and> (\<forall>a. r = Inr a \<longrightarrow> row_for (conn_id conn) key a w')"
    proof (cases "find_handoff (conn_id conn) key (w_handoffs w)")
      case None
      then show ?thesis using run w new [OF w] by (auto simp: Let_def split: if_splits)
    next
      case (Some h)
      then have "row_for (conn_id conn) key h w"
        using w by (auto simp: find_handoff_def row_for_def dest: find_Some_set intro: row_working)
      then show ?thesis using run w Some by auto
    qed
  qed
qed (auto simp: handoff_env)

lemma resolve_owner_leads:
  "leads handoff_inv (resolve_channel_owner out url bridge) handoff_inv (\<lambda>_. handoff_inv)"
  unfolding resolve_channel_owner_def
  by (rule leads_then [where R = "\<lambda>_. handoff_inv"], rule leads_ask, simp add: handoff_env)
    (auto intro!: leads_throw leads_return leads_option simp: case_prod_beta)

text \<open>A successful call leaves the completed row it answered from.\<close>

definition finished :: "uuid \<Rightarrow> string \<Rightarrow> uuid \<times> string \<Rightarrow> ('e, 'z) world_scheme \<Rightarrow> bool" where
  "finished conn key res w \<longleftrightarrow> (\<exists>h. row_for conn key h w \<and> ho_state h = Completed \<and>
     res = (ho_channel h, ho_name h))"

lemma resume_channel_leads:
  assumes "carries_template sign"
  shows "leads (\<lambda>w. handoff_inv w \<and> (\<forall>h. existing = Some h \<longrightarrow> row_for (conn_id conn) (cc_key i) h w))
    (resume_channel out sign c keys i name conn existing) handoff_inv
    (finished (conn_id conn) (cc_key i))"
proof -
  let ?P = "\<lambda>w. handoff_inv w \<and> (\<forall>h. existing = Some h \<longrightarrow> row_for (conn_id conn) (cc_key i) h w)"
  let ?publish = "\<lambda>key. publish_template out sign key (conn_relay_url conn)"
  have row: "leads ?P (case existing of Some h \<Rightarrow> io_return h
      | None \<Rightarrow> call_then (resolve_channel_owner out (conn_relay_url conn) (conn_bridge_pubkey conn))
          (reserve_handoff out conn name (cc_key i))) handoff_inv (row_for (conn_id conn) (cc_key i))"
  proof (cases existing)
    case None
    then show ?thesis
      using leads_then [OF resolve_owner_leads reserve_handoff_leads] by (simp add: fun_eq_iff)
  qed (simp add: leads_return)
  have finish: "leads (row_for (conn_id conn) (cc_key i) h)
      (call_then (run_handoff out (?publish key) bridge h members)
        (\<lambda>_. io_return (ho_channel h, ho_name h))) handoff_inv (finished (conn_id conn) (cc_key i))"
    for h key bridge members
  proof (cases "ho_connection h = conn_id conn \<and> ho_key h = cc_key i")
    case True
    then have "leads (working_inv h)
      (call_then (run_handoff out (?publish key) bridge h members)
        (\<lambda>_. io_return (ho_channel h, ho_name h))) handoff_inv (finished (conn_id conn) (cc_key i))"
      by (intro leads_then [OF run_handoff_leads [OF assms]] leads_return)
        (auto simp: working_handoff finished_def row_for_def
          intro!: exI [of _ "h\<lparr>ho_state := Completed\<rparr>"])
    then show ?thesis by (rule leads_weaken) (auto simp: row_for_def)
  next
    case False
    then show ?thesis by (auto simp: leads_def row_for_def)
  qed
  show ?thesis
    unfolding resume_channel_def
    by (rule leads_then [where R = "\<lambda>_. ?P"], rule leads_res, simp, simp,
        rule leads_then [where R = "\<lambda>_. ?P"], rule leads_res, simp, simp,
        rule leads_then [where R = "\<lambda>_. ?P"], rule leads_ask,
        simp add: handoff_env work.env row_for_def,
        rule leads_then [where R = "\<lambda>_. ?P"], rule leads_option, rule leads_return, simp,
        rule leads_throw, simp,
        rule leads_then [OF row finish])
qed

definition owned_connection :: "db \<Rightarrow> create_channel_input \<Rightarrow> connection option" where
  "owned_connection d i =
     find (\<lambda>c. conn_community c = cc_community i \<and> conn_state c = Active) (connections d)"

lemma create_channel_leads:
  assumes "carries_template sign"
  shows "leads (\<lambda>w. handoff_inv w \<and> w_db w = d) (create_dedicated_channel out sign c keys i)
    handoff_inv (\<lambda>r w. \<exists>conn. owned_connection d i = Some conn \<and> finished (conn_id conn) (cc_key i) r w)"
    (is "leads ?P _ _ ?Q")
  unfolding create_dedicated_channel_def
proof (rule leads_then [where R = "\<lambda>_. ?P"], rule leads_res, simp, simp,
    rule leads_then [where R = "\<lambda>_. ?P"], rule leads_res, simp, simp,
    rule leads_then [where R = "\<lambda>owned w. handoff_inv w \<and> owned = owned_connection d i"])
  show "leads ?P (in_db out (\<lambda>_. owned_community_connection (cc_community i) (cc_owner i)))
      handoff_inv (\<lambda>owned w. handoff_inv w \<and> owned = owned_connection d i)"
    by (rule leads_in_db)
      (auto simp: handoff_inv_def owned_community_connection_def assert_hex_def tx_inversion
        owned_connection_def)
next
  fix name owned
  let ?found = "\<lambda>conn x w. handoff_inv w \<and> (\<forall>h. x = Some h \<longrightarrow> row_for (conn_id conn) (cc_key i) h w)"
  have go: "leads (?found conn x) (case x of
          Some h \<Rightarrow> if ho_state h = Completed then io_return (ho_channel h, ho_name h)
             else resume_channel out sign c keys i name conn (Some h)
        | None \<Rightarrow> resume_channel out sign c keys i name conn None) handoff_inv
        (finished (conn_id conn) (cc_key i))" for x conn
  proof (cases x)
    case None
    then show ?thesis using resume_channel_leads [OF assms, of None] by simp
  next
    case (Some h)
    then show ?thesis using resume_channel_leads [OF assms, of "Some h"]
      by (auto intro!: leads_return simp: finished_def)
  qed
  show "leads (\<lambda>w. handoff_inv w \<and> owned = owned_connection d i) (case owned of
       None \<Rightarrow> io_throw (Api ''connection_required'' 409)
     | Some conn \<Rightarrow>
         call_then (find_handoff_by_key out (conn_id conn) (cc_key i)) (\<lambda>existing.
         case existing of
           Some h \<Rightarrow>
             if ho_state h = Completed then io_return (ho_channel h, ho_name h)
             else resume_channel out sign c keys i name conn (Some h)
         | None \<Rightarrow> resume_channel out sign c keys i name conn None)) handoff_inv ?Q"
  proof (cases "owned = owned_connection d i")
    case True
    have "leads handoff_inv (call_then (find_handoff_by_key out (conn_id conn) (cc_key i)) (\<lambda>x. case x of
          Some h \<Rightarrow> if ho_state h = Completed then io_return (ho_channel h, ho_name h)
             else resume_channel out sign c keys i name conn (Some h)
        | None \<Rightarrow> resume_channel out sign c keys i name conn None)) handoff_inv ?Q"
      if "owned_connection d i = Some conn" for conn
      by (rule leads_weaken [OF leads_then [OF find_handoff_leads go]]) (use that in auto)
    then show ?thesis
      unfolding True by (cases "owned_connection d i") (simp_all add: leads_throw)
  next
    case False
    then show ?thesis by (simp add: leads_def)
  qed
qed

section \<open>Histories\<close>

text \<open>
  The worlds that calls of \<open>createDedicatedChannel\<close> reach from an empty journal.
  Between two calls anything else may happen: the environment, the clock and the
  database are replaced at will.  A call may end in any error.
\<close>

inductive handoff_history ::
  "'e outside \<Rightarrow> signer \<Rightarrow> cipher \<Rightarrow> (int \<Rightarrow> nat list res) \<Rightarrow> 'e world \<Rightarrow> bool"
  for out sign c keys where
  start: "w_handoffs w = [] \<Longrightarrow> w_log w = [] \<Longrightarrow> handoff_history out sign c keys w"
| call: "handoff_history out sign c keys w \<Longrightarrow>
    handoff_history out sign c keys (snd (create_dedicated_channel out sign c keys i w))"
| elsewhere: "handoff_history out sign c keys w \<Longrightarrow>
    handoff_history out sign c keys (w\<lparr>w_env := e, w_clock := t, w_db := d\<rparr>)"

lemma history_inv:
  assumes "carries_template sign" "handoff_history out sign c keys w"
  shows "handoff_inv w"
  using assms(2)
proof induction
  case (call w i)
  then show ?case using create_channel_leads [OF assms(1), where d = "w_db w"]
    unfolding leads_def by blast
qed (auto simp: handoff_inv_def)

lemma call_finished:
  assumes "carries_template sign" "handoff_inv w"
    and "create_dedicated_channel out sign c keys i w = (Inr r, w')"
  obtains conn h where "owned_connection (w_db w) i = Some conn" "find_handoff (conn_id conn) (cc_key i) (w_handoffs w') = Some h"
    "ho_state h = Completed" "r = (ho_channel h, ho_name h)" "handoff_inv w'"
proof -
  have *: "handoff_inv w' \<and> (\<exists>conn. owned_connection (w_db w) i = Some conn \<and>
      finished (conn_id conn) (cc_key i) r w')"
    using leadsD [OF create_channel_leads [OF assms(1), where d = "w_db w"] _ assms(3)] assms(2) by simp
  then obtain conn h row where h: "owned_connection (w_db w) i = Some conn" "handoff_inv w'"
    "ho_connection h = conn_id conn" "ho_key h = cc_key i" "ho_state h = Completed"
    "r = (ho_channel h, ho_name h)" "row \<in> set (w_handoffs w')" "agrees row h"
    by (auto simp: finished_def row_for_def working_inv_def)
  note row = agrees_fields [OF h(8)]
  obtain q where q: "find_handoff (conn_id conn) (cc_key i) (w_handoffs w') = Some q"
    using find_ex [OF h(7), of "\<lambda>r. ho_connection r = conn_id conn \<and> ho_key r = cc_key i"] h(3,4) row
    by (auto simp: find_handoff_def)
  then have "q \<in> set (w_handoffs w')" "ho_connection q = conn_id conn" "ho_key q = cc_key i"
    by (auto simp: find_handoff_def dest: find_Some_set)
  then have "q = row"
    using h(2,3,4,7) row
      distinct_key_unique [of "\<lambda>h. (ho_connection h, ho_key h)" "w_handoffs w'" q row]
    by (simp add: handoff_inv_def)
  then show thesis using that [OF h(1) q] h row by simp
qed

text \<open>
  C10. A channel never ends up without an owner: in every history, each event
  that makes someone a plain member of a channel (the bridge's own stepping down
  above all) was sent after the relay had confirmed the promotion of an owner of
  that channel.
\<close>

theorem owner_confirmed_before_step_down:
  assumes "carries_template sign" "handoff_history out sign c keys w"
    and "w_log w = later @ Sent url ev # past" "puts ev channel pubkey ''member''"
  shows "\<exists>url' ev' owner. Confirmed url' ev' \<in> set past \<and> puts ev' channel owner ''owner''"
  using log_ok_split [of later url ev past channel pubkey] history_inv [OF assms(1,2)] assms(3,4)
  by (simp add: handoff_inv_def owner_confirmed_def)

text \<open>
  One key, one channel: a call with the key of a call that succeeded, over
  the same connection, returns the same channel whatever happened in between,
  and sends nothing to the relay.
\<close>

lemma same_key_same_channel:
  assumes "carries_template sign" "handoff_history out sign c keys w"
    and "create_dedicated_channel out sign c keys i w = (Inr r, w1)"
    and "create_dedicated_channel out sign c keys j w2 = (Inr r', w3)"
    and "w_handoffs w2 = w_handoffs w1" "cc_key j = cc_key i"
    and "map_option conn_id (owned_connection (w_db w2) j) = map_option conn_id (owned_connection (w_db w) i)"
  shows "r' = r \<and> w_log w3 = w_log w2 \<and> w_handoffs w3 = w_handoffs w2"
proof -
  obtain conn h where h: "owned_connection (w_db w) i = Some conn"
    "find_handoff (conn_id conn) (cc_key i) (w_handoffs w1) = Some h"
    "ho_state h = Completed" "r = (ho_channel h, ho_name h)"
    using call_finished [OF assms(1) history_inv [OF assms(1,2)] assms(3)] by metis
  obtain conn2 where conn2: "owned_connection (w_db w2) j = Some conn2" "conn_id conn2 = conn_id conn"
    using assms(7) h(1) by auto
  let ?m = "in_db out (\<lambda>_. owned_community_connection (cc_community j) (cc_owner j))"
  from assms(4) obtain owned v where read: "?m w2 = (Inr owned, v)" and rest:
    "(case owned of
       None \<Rightarrow> io_throw (Api ''connection_required'' 409)
     | Some conn \<Rightarrow>
         call_then (find_handoff_by_key out (conn_id conn) (cc_key j)) (\<lambda>existing.
         case existing of
           Some h \<Rightarrow>
             if ho_state h = Completed then io_return (ho_channel h, ho_name h)
             else resume_channel out sign c keys j (trim (cc_name j)) conn (Some h)
         | None \<Rightarrow> resume_channel out sign c keys j (trim (cc_name j)) conn None)) v = (Inr r', w3)"
    by (auto simp: create_dedicated_channel_def io_inversion normalize_channel_name_def
        assert_idempotency_key_def split: if_splits)
  have v: "owned = Some conn2" "w_handoffs v = w_handoffs w2" "w_log v = w_log w2"
    using read conn2(1)
    by (auto simp: in_db_def pool_query_def io_query_def with_transaction_def Let_def
        owned_community_connection_def assert_hex_def owned_connection_def tx_inversion
        split: prod.splits query_outcome.splits sum.splits)
  obtain x v2 where found: "find_handoff_by_key out (conn_id conn2) (cc_key j) v = (Inr x, v2)"
    and rest2: "(case x of
           Some h \<Rightarrow>
             if ho_state h = Completed then io_return (ho_channel h, ho_name h)
             else resume_channel out sign c keys j (trim (cc_name j)) conn2 (Some h)
         | None \<Rightarrow> resume_channel out sign c keys j (trim (cc_name j)) conn2 None) v2 = (Inr r', w3)"
    using rest v(1) by (auto simp: call_then_Inr)
  have "x = Some h" "w_handoffs v2 = w_handoffs w2" "w_log v2 = w_log w2"
    using found v h(2) assms(5,6) conn2(2)
    by (auto simp: find_handoff_by_key_def pool_query_def io_query_def io_get_def Let_def
        split: prod.splits query_outcome.splits)
  then show ?thesis using rest2 h(3,4) by (simp add: io_return_Inr)
qed

lemma first_by_least:
  assumes "first_by k rs = Some r" "x \<in> set rs"
  shows "k r \<le> k x"
proof -
  obtain rest where rest: "sort_key k rs = r # rest"
    using assms(1) by (auto simp: first_by_def split: list.splits)
  have "sorted (map k (sort_key k rs))" by simp
  then have "\<forall>y \<in> set (r # rest). k r \<le> k y" unfolding rest by auto
  moreover have "x \<in> set (r # rest)" using assms(2) by (metis rest set_sort)
  ultimately show ?thesis by blast
qed

section \<open>Finishing what was interrupted\<close>

text \<open>An environment in which every query runs and the relay keeps what it is sent.\<close>

definition cooperative :: "'e outside \<Rightarrow> bool" where
  "cooperative out \<longleftrightarrow> (\<forall>e url ev i. fst (out_query out e) = Query_ok \<and>
     fst (out_connect out url e) = None \<and> fst (out_publish out url ev e) = None \<and>
     fst (fst (out_has out url i e)))"

definition always :: "('w, 'a) io \<Rightarrow> bool" where
  "always m \<longleftrightarrow> (\<forall>w. \<exists>a w'. m w = (Inr a, w'))"

lemma always_then: "always m \<Longrightarrow> (\<And>a. always (f a)) \<Longrightarrow> always (call_then m f)"
  unfolding always_def call_then_def by (metis (mono_tags, lifting) case_prod_conv sum.case(2))

lemma always_return: "always (io_return a)"
  by (simp add: always_def io_return_def)

lemma always_get: "always (io_get f)"
  by (simp add: always_def io_get_def)

lemma always_put: "always (io_put f)"
  by (simp add: always_def io_put_def)

lemma always_catch: "always m \<Longrightarrow> always (io_catch m h)"
  unfolding always_def io_catch_def by (metis (mono_tags, lifting) case_prod_conv sum.case(2))

lemma always_each: "(\<And>x. always (f x)) \<Longrightarrow> always (io_each f xs)"
  by (induction xs) (auto intro: always_return always_then)

lemma coop_query:
  assumes "cooperative out"
  shows "pool_query out m w = m (w\<lparr>w_env := snd (out_query out (w_env w))\<rparr>)"
proof -
  have "fst (out_query out (w_env w)) = Query_ok" using assms by (simp add: cooperative_def)
  then obtain e' where "out_query out (w_env w) = (Query_ok, e')" by (metis prod.collapse)
  then show ?thesis by (simp add: pool_query_def io_query_def)
qed

lemma always_query: "cooperative out \<Longrightarrow> always m \<Longrightarrow> always (pool_query out m)"
  by (simp add: always_def coop_query)

lemma always_confirm: "cooperative out \<Longrightarrow> always (confirm_stored out url ev deadline)"
  unfolding always_def
proof
  fix w :: "('a, 'b) world_scheme"
  assume coop: "cooperative out"
  obtain found ms e' where o: "out_has out url (ev_id ev) (w_env w) = ((found, ms), e')"
    by (metis prod.collapse)
  moreover have "fst (fst (out_has out url (ev_id ev) (w_env w)))"
    using coop unfolding cooperative_def by blast
  ultimately have "found" by simp
  then show "\<exists>a w'. confirm_stored out url ev deadline w = (Inr a, w')"
    by (simp add: confirm_stored.simps [of out url ev deadline w] o)
qed

lemma always_publish:
  assumes "cooperative out"
  shows "always (publish_template out sign key url t)"
proof -
  have "always (relay_publish out url ev)" for ev
  proof -
    have "fst (out_publish out url ev e) = None" for e using assms by (simp add: cooperative_def)
    then show ?thesis by (simp add: always_def relay_publish_def case_prod_beta)
  qed
  then show ?thesis unfolding publish_template_def publish_confirmed_def
    by (intro always_then always_get always_confirm [OF assms])
qed

lemma always_run_handoff:
  assumes "cooperative out"
  shows "always (run_handoff out (publish_template out sign key url) bridge h members)"
proof -
  note steps = always_then always_catch always_each always_publish [OF assms] always_return
    always_query [OF assms] always_put
  have "always (create_step out (publish_template out sign key url) k)"
    "always (promote_step out (publish_template out sign key url) members k)"
    "always (demote_step out (publish_template out sign key url) bridge k)" for k
    by (simp_all add: create_step_def promote_step_def demote_step_def run_step_def
        advance_handoff_def steps)
  then show ?thesis unfolding run_handoff_def by (intro always_then always_return)
qed


text \<open>
  Who becomes the owner: never the bridge itself, always an entry of the
  relay's roster with the role owner, or, only when no such owner is listed, one
  with the role admin.
\<close>

lemma channel_owner_choice:
  assumes "out_roster out url (w_env w) = (Some entries, e)"
    and "resolve_channel_owner out url bridge w = (Inr p, w')"
  shows "p \<noteq> bridge \<and> ((p, ''owner'') \<in> set entries \<or>
    (p, ''admin'') \<in> set entries \<and> (\<forall>q. (q, ''owner'') \<in> set entries \<longrightarrow> q = bridge))"
proof -
  let ?k = "\<lambda>(pubkey, role). (role \<noteq> ''owner'', pubkey)"
  let ?es = "filter (\<lambda>(pubkey, role). pubkey \<noteq> bridge \<and> role \<in> {''owner'', ''admin''}) entries"
  obtain role where first: "first_by ?k ?es = Some (p, role)"
    using assms by (auto simp: resolve_channel_owner_def ask_def call_then_def io_defs
        split: option.splits prod.splits)
  then have mem: "(p, role) \<in> set ?es" by (rule first_by_Some)
  have least: "?k (p, role) \<le> ?k x" if "x \<in> set ?es" for x
    using first_by_least [OF first that] by simp
  show ?thesis
  proof (cases "role = ''owner''")
    case True
    then show ?thesis using mem by auto
  next
    case False
    have "q = bridge" if "(q, ''owner'') \<in> set entries" for q
    proof (rule ccontr)
      assume "q \<noteq> bridge"
      then have "(q, ''owner'') \<in> set ?es" using that by simp
      then show False using least [of "(q, ''owner'')"] False by (simp add: less_eq_prod_def)
    qed
    then show ?thesis using mem False by auto
  qed
qed

end
