(* ===== verification/Reconnect.thy ===== *)
theory Reconnect
  imports Supervisor Handoff
begin

text \<open>
  The sessions of the connector (src/shared-channels/connector.ts): \<open>reconcile\<close>,
  \<open>startConnection\<close>, the close callback, and the reconciliation of the operated
  community's channel with its roster.
\<close>

section \<open>Health\<close>

fun has_infix :: "string \<Rightarrow> string \<Rightarrow> bool" where
  "has_infix needle [] \<longleftrightarrow> needle = []"
| "has_infix needle (c # cs) \<longleftrightarrow> take (length needle) (c # cs) = needle \<or> has_infix needle cs"

text \<open>An \<open>ApiError\<close> shows its code, any other \<open>Error\<close> its name.\<close>

definition safe_error_message :: "err \<Rightarrow> string" where
  "safe_error_message e = (case e of Api c _ \<Rightarrow> c | Pg _ \<Rightarrow> ''error'' | Raw \<Rightarrow> ''Error'')"

definition connection_health_for_error :: "err \<Rightarrow> health" where
  "connection_health_for_error e =
     (if (case e of Api c _ \<Rightarrow> take 12 c = ''wrapping_key'' | _ \<Rightarrow> False) then Credential_error
      else let message = to_lower (safe_error_message e) in
        if has_infix ''auth'' message \<or> has_infix ''permission'' message then Unauthorized
        else Unreachable)"

definition record_health ::
  "'e deployment \<Rightarrow> uuid \<Rightarrow> health \<Rightarrow> string option \<Rightarrow> ('e, unit) act" where
  "record_health dp i h error =
     on_db (dp_out dp) (\<lambda>now d. ((), record_connection_health now i h error d))"

section \<open>Sessions\<close>

definition connection_fingerprint ::
  "connection \<Rightarrow> route_config list \<Rightarrow> string \<times> string \<times> (string option \<times> uuid \<times> uuid) list \<times> int" where
  "connection_fingerprint c rs = (conn_bridge_pubkey c, conn_relay_url c,
     map (\<lambda>r. (rt_local_channel r, rt_endpoint r, rt_shared_channel r)) rs, conn_key_version c)"

definition is_stale :: "int \<Rightarrow> session \<Rightarrow> bool" where
  "is_stale now s \<longleftrightarrow> now - se_last_inbound s \<ge> 60000"

definition drop_session :: "uuid \<Rightarrow> ('e supervisor \<Rightarrow> 'e supervisor)" where
  "drop_session i w = w\<lparr>sv_sessions := AList.delete i (sv_sessions w)\<rparr>"

definition put_session :: "session \<Rightarrow> ('e supervisor \<Rightarrow> 'e supervisor)" where
  "put_session s w = w\<lparr>sv_sessions := AList.update (conn_id (se_config s)) s (sv_sessions w)\<rparr>"

text \<open>\<open>this.sessions.get(id) === session\<close>\<close>

definition holds_session :: "session \<Rightarrow> 'e supervisor \<Rightarrow> bool" where
  "holds_session s w \<longleftrightarrow>
     (case map_of (sv_sessions w) (conn_id (se_config s)) of
        None \<Rightarrow> False | Some t \<Rightarrow> se_serial t = se_serial s)"

definition retry_delay_ms :: "nat \<Rightarrow> int" where
  "retry_delay_ms attempts = min (15 * 60000) (15000 * 2 ^ min (attempts - 1) 6)"

definition previous_attempts :: "uuid \<Rightarrow> 'e supervisor \<Rightarrow> nat" where
  "previous_attempts i w =
     (case map_of (sv_failures w) i of None \<Rightarrow> 0 | Some f \<Rightarrow> fa_attempts f)"

definition note_failure :: "uuid \<Rightarrow> 'e supervisor \<Rightarrow> 'e supervisor" where
  "note_failure i w =
     (let attempts = previous_attempts i w + 1 in
      w\<lparr>sv_failures := AList.update i
          \<lparr>fa_attempts = attempts, fa_next_attempt = w_clock w + retry_delay_ms attempts\<rparr>
          (sv_failures w)\<rparr>)"

text \<open>The \<open>onClose\<close> callback of a subscription.\<close>

definition session_closed :: "'e deployment \<Rightarrow> session \<Rightarrow> string \<Rightarrow> ('e, unit) act" where
  "session_closed dp s reason =
     call_then (io_get (holds_session s)) (\<lambda>current.
     if \<not> current then io_return ()
     else call_then (io_put (drop_session (conn_id (se_config s))))
       (\<lambda>_. io_catch (record_health dp (conn_id (se_config s)) Degraded (Some reason))
              (\<lambda>_. io_return ())))"

text \<open>The body of the \<open>try\<close> of \<open>startConnection\<close>.\<close>

definition open_session :: "'e deployment \<Rightarrow> connection \<Rightarrow> route_config list \<Rightarrow> ('e, unit) act" where
  "open_session dp c rs =
     call_then (io_res (dp_keys dp (conn_key_version c))) (\<lambda>wrapping_key.
     call_then (io_res (decrypt_connector_private_key (dp_cipher dp) (conn_key c) wrapping_key
         (conn_community c))) (\<lambda>key.
     call_then (ask (out_connect (dp_out dp) (conn_relay_url c))) (\<lambda>refused.
     call_then (case refused of Some e \<Rightarrow> io_throw e | None \<Rightarrow> io_return ()) (\<lambda>_.
     call_then (io_get (\<lambda>w. \<lparr>se_config = c, se_routes = rs,
         se_fingerprint = connection_fingerprint c rs, se_key = key,
         se_last_inbound = w_clock w, se_serial = sv_next_serial w\<rparr>)) (\<lambda>s.
     call_then (io_put (\<lambda>w. (put_session s w)\<lparr>sv_next_serial := sv_next_serial w + 1,
         sv_failures := AList.delete (conn_id c) (sv_failures w)\<rparr>)) (\<lambda>_.
     call_then (ask (out_subscribe (dp_out dp) (conn_relay_url c) rs)) (\<lambda>closed.
     call_then (case closed of Some reason \<Rightarrow> session_closed dp s reason | None \<Rightarrow> io_return ()) (\<lambda>_.
     call_then (io_get (holds_session s)) (\<lambda>current.
     if \<not> current then io_return ()
     else record_health dp (conn_id c) Healthy None)))))))))"

definition start_connection :: "'e deployment \<Rightarrow> connection \<Rightarrow> route_config list \<Rightarrow> ('e, unit) act" where
  "start_connection dp c rs =
     io_catch (open_session dp c rs) (\<lambda>e.
       call_then (io_put (\<lambda>w. note_failure (conn_id c) (drop_session (conn_id c) w)))
         (\<lambda>_. record_health dp (conn_id c) (connection_health_for_error e)
                (Some (safe_error_message e))))"

text \<open>One turn of the loop over the active configurations.\<close>

definition reconcile_config :: "'e deployment \<Rightarrow> connection \<times> route_config list \<Rightarrow> ('e, unit) act" where
  "reconcile_config dp = (\<lambda>(c, rs).
     call_then (io_get (\<lambda>w. (w_clock w, map_of (sv_sessions w) (conn_id c)))) (\<lambda>(now, current).
     if (case current of None \<Rightarrow> False
         | Some s \<Rightarrow> se_fingerprint s = connection_fingerprint c rs \<and> \<not> is_stale now s)
     then io_return ()
     else
       call_then (io_put (if current = None then (\<lambda>w. w) else drop_session (conn_id c))) (\<lambda>_.
       call_then (io_get (\<lambda>w. map_of (sv_failures w) (conn_id c))) (\<lambda>failed.
       if (case failed of None \<Rightarrow> False | Some f \<Rightarrow> fa_next_attempt f > now)
       then io_return ()
       else start_connection dp c rs))))"

definition forget_inactive :: "uuid set \<Rightarrow> 'e supervisor \<Rightarrow> 'e supervisor" where
  "forget_inactive active w =
     (let gone = filter (\<lambda>i. i \<notin> active) (map fst (sv_sessions w)) in
      w\<lparr>sv_sessions := filter (\<lambda>(i, s). i \<in> active) (sv_sessions w),
        sv_failures := filter (\<lambda>(i, f). i \<notin> set gone) (sv_failures w),
        sv_names := filter (\<lambda>(i, n). i \<notin> set gone) (sv_names w)\<rparr>)"

definition reconcile :: "'e deployment \<Rightarrow> ('e, unit) act" where
  "reconcile dp =
     call_then (io_get sv_stopped) (\<lambda>stopped.
     if stopped then io_return ()
     else
       call_then (on_db (dp_out dp) (\<lambda>_ d. (list_active_connector_configs d, d))) (\<lambda>configs.
       call_then (io_put (forget_inactive (set (map (conn_id \<circ> fst) configs)))) (\<lambda>_.
       io_each (reconcile_config dp) configs)))"

text \<open>\<open>start\<close>, without the timer that repeats \<open>reconcile\<close> every 30 seconds.\<close>

definition start :: "'e deployment \<Rightarrow> ('e, unit) act" where
  "start dp =
     call_then (io_get sv_stopped) (\<lambda>stopped.
     if \<not> stopped then io_return ()
     else call_then (io_put (\<lambda>w. w\<lparr>sv_stopped := False\<rparr>)) (\<lambda>_. reconcile dp))"

definition stop :: "'e supervisor \<Rightarrow> 'e supervisor" where
  "stop w = w\<lparr>sv_stopped := True, sv_sessions := []\<rparr>"

section \<open>The operated community's channel\<close>

definition is_operated_relay :: "'e deployment \<Rightarrow> string \<Rightarrow> bool" where
  "is_operated_relay dp url =
     (case (dp_href dp url, dp_href dp (home_community_relay_url (dp_env dp))) of
        (Some a, Some b) \<Rightarrow> a = b | _ \<Rightarrow> False)"

text \<open>The event that adds a member: \<open>["h", channel], ["p", pubkey], ["role", "member"]\<close>.\<close>

definition add_member_template :: "string \<Rightarrow> string \<Rightarrow> int \<Rightarrow> event_template" where
  "add_member_template channel pubkey t = \<lparr>tp_content = [], tp_created_at = t,
     tp_kind = group_put_user_kind,
     tp_tags = [[''h'', channel], [''p'', pubkey], [''role'', ''member'']]\<rparr>"

text \<open>The loop over the roster; \<open>members\<close> grows as members are added.\<close>

fun add_members ::
  "'e deployment \<Rightarrow> string \<Rightarrow> nat list \<Rightarrow> string \<Rightarrow> ('e supervisor \<Rightarrow> bool) \<Rightarrow> string list \<Rightarrow>
   string list \<Rightarrow> nat \<Rightarrow> ('e, nat) act" where
  "add_members dp url key channel continue members [] added = io_return added"
| "add_members dp url key channel continue members (p # ps) added =
     (if p \<in> set members then add_members dp url key channel continue members ps added
      else
        call_then (io_get continue) (\<lambda>go.
        if \<not> go then io_return added
        else
          call_then (io_get now_seconds) (\<lambda>now.
          call_then (relay_publish (dp_out dp) url (dp_sign dp key (add_member_template channel p now)))
            (\<lambda>_. add_members dp url key channel continue (p # members) ps (added + 1)))))"

definition reconcile_home_community_members ::
  "'e deployment \<Rightarrow> string \<Rightarrow> nat list \<Rightarrow> ('e supervisor \<Rightarrow> bool) \<Rightarrow> ('e, nat option) act" where
  "reconcile_home_community_members dp url key continue =
     call_then (ask (out_roster_keys (dp_out dp) url)) (\<lambda>roster.
     case roster of
       None \<Rightarrow> io_return None
     | Some rs \<Rightarrow>
         call_then (ask (out_members (dp_out dp) url (home_community_channel_id (dp_env dp)))) (\<lambda>group.
         case group of
           None \<Rightarrow> io_return None
         | Some ms \<Rightarrow>
             call_then (add_members dp url key (home_community_channel_id (dp_env dp)) continue ms rs 0)
               (\<lambda>n. io_return (Some n))))"

text \<open>
  One link of the chain \<open>scheduleHomeMembershipReconciliation\<close> appends to: it does
  nothing for another community's relay, for a session that was replaced, or while
  another process holds the lock.
\<close>

definition home_membership_pass :: "'e deployment \<Rightarrow> session \<Rightarrow> ('e, unit) act" where
  "home_membership_pass dp s =
     (if \<not> is_operated_relay dp (relay_url s) then io_return ()
      else io_catch
        (call_then (io_get (holds_session s)) (\<lambda>current.
         if \<not> current then io_return ()
         else
           call_then (ask (out_lock (dp_out dp) (''home-membership:'' @ conn_id (se_config s) @ '':'' @
               home_community_channel_id (dp_env dp)))) (\<lambda>acquired.
           call_then (io_get (holds_session s)) (\<lambda>still.
           if \<not> acquired \<or> \<not> still then io_return ()
           else
             call_then (reconcile_home_community_members dp (relay_url s) (se_key s)
                 (\<lambda>w. \<not> sv_stopped w \<and> holds_session s w)) (\<lambda>added.
             if added = None then io_throw (Api ''home_roster_unreadable'' 503) else io_return ())))))
        (\<lambda>e. call_then (io_get (\<lambda>w. \<not> sv_stopped w \<and> holds_session s w)) (\<lambda>report.
          if report then record_health dp (conn_id (se_config s)) Degraded (Some (safe_error_message e))
          else io_return ())))"

end
