(* ===== verification/Listener.thy ===== *)
theory Listener
  imports Reconnect
begin

text \<open>
  What the connector of src/shared-channels/connector.ts does with an event it
  reads (\<open>handleSourceEvent\<close>): slash commands, bounces, and ingestion.
\<close>

section \<open>Texts\<close>

definition undeliverable_notice :: "string \<Rightarrow> string option \<Rightarrow> string" where
  "undeliverable_notice slug user =
     (let address = (case user of None \<Rightarrow> ''@'' @ slug | Some u \<Rightarrow> ''@'' @ slug @ ''/'' @ u);
          cause = (case user of
              None \<Rightarrow> ''no connected community has that name''
            | Some u \<Rightarrow> ''@'' @ slug @ '' is connected, but nobody there is named '' @ u)
      in ''BuzzRouter: not delivered to '' @ address @ '' '' @ em_dash @ '' '' @ cause @ ''.'')"

fun join_with :: "string \<Rightarrow> string list \<Rightarrow> string" where
  "join_with sep [] = []"
| "join_with sep [x] = x"
| "join_with sep (x # y # xs) = x @ sep @ join_with sep (y # xs)"

definition handles :: "string list \<Rightarrow> string" where
  "handles names = join_with '', '' (map (\<lambda>n. ''@'' @ n) names)"

section \<open>Bounces\<close>

definition report_undeliverable ::
  "'e deployment \<Rightarrow> session \<Rightarrow> route_config \<Rightarrow> string \<Rightarrow> string \<Rightarrow> string option \<Rightarrow> ('e, unit) act" where
  "report_undeliverable dp s r event_id slug user =
     (let reason = (if user = None then Unknown_destination else Unknown_user);
          kind = (if user = None then ''unknown-destination'' else ''unknown-user'')
      in io_catch
        (call_then (on_db (dp_out dp)
             (\<lambda>_. claim_undeliverable_notice ((rt_endpoint r, event_id), reason))) (\<lambda>claimed.
         if \<not> claimed then io_return ()
         else publish_notice dp s (undeliverable_notice slug user)
                (case rt_local_channel r of Some ch \<Rightarrow> ch | None \<Rightarrow> []) kind))
        (\<lambda>_. io_return ()))"

section \<open>Member names\<close>

definition remember_names :: "session \<Rightarrow> string list option \<Rightarrow> ('e, unit) act" where
  "remember_names s names = io_put (\<lambda>w. w\<lparr>sv_names :=
     AList.update (conn_id (se_config s))
       \<lparr>mn_expires = w_clock w + 5000, mn_names = names\<rparr> (sv_names w)\<rparr>)"

text \<open>One batch of profile reads, made at the same time: the slowest decides how long it takes.\<close>

fun profile_batch :: "'e outside \<Rightarrow> string \<Rightarrow> string list \<Rightarrow> 'e \<Rightarrow> (string option list \<times> nat) \<times> 'e" where
  "profile_batch out url [] e = (([], 0), e)"
| "profile_batch out url (p # ps) e =
     (case out_profile out url p e of ((name, ms), e1) \<Rightarrow>
      case profile_batch out url ps e1 of ((names, longest), e2) \<Rightarrow>
        ((name # names, max ms longest), e2))"

definition batch_names :: "string list \<Rightarrow> string option list \<Rightarrow> string list" where
  "batch_names pubkeys profiles =
     concat (map (\<lambda>(p, profile). to_lower p #
       (case profile of None \<Rightarrow> [] | Some [] \<Rightarrow> [] | Some n \<Rightarrow> [to_lower (trim n)]))
       (zip pubkeys profiles))"

text \<open>The loop over the roster in batches of eight; past the deadline the build is given up.\<close>

function collect_names ::
  "'e outside \<Rightarrow> string \<Rightarrow> int \<Rightarrow> string list \<Rightarrow> string list \<Rightarrow>
   ('e, 'z) world_scheme \<Rightarrow> string list option \<times> ('e, 'z) world_scheme" where
  "collect_names out url deadline names pubkeys w =
     (if pubkeys = [] then (Some names, w)
      else if w_clock w > deadline then (None, w)
      else case profile_batch out url (take 8 pubkeys) (w_env w) of ((profiles, ms), e') \<Rightarrow>
        collect_names out url deadline (names @ batch_names (take 8 pubkeys) profiles)
          (drop 8 pubkeys) (w\<lparr>w_env := e', w_clock := w_clock w + int ms\<rparr>))"
  by pat_completeness auto

termination collect_names
  by (relation "measure (\<lambda>(out, url, deadline, names, pubkeys, w). length pubkeys)") auto

declare collect_names.simps [simp del]

definition build_member_names :: "'e deployment \<Rightarrow> session \<Rightarrow> ('e, string list option) act" where
  "build_member_names dp s =
     call_then (ask (out_roster (dp_out dp) (relay_url s))) (\<lambda>roster.
     call_then (case roster of
         None \<Rightarrow> io_return None
       | Some entries \<Rightarrow> (\<lambda>w.
           case collect_names (dp_out dp) (relay_url s) (w_clock w + 4000) [] (map fst entries) w of
             (names, w') \<Rightarrow> (Inr names, w'))) (\<lambda>names.
     call_then (remember_names s names) (\<lambda>_. io_return names)))"

definition community_member_names :: "'e deployment \<Rightarrow> session \<Rightarrow> ('e, string list option) act" where
  "community_member_names dp s =
     call_then (io_get (\<lambda>w. (w_clock w, map_of (sv_names w) (conn_id (se_config s))))) (\<lambda>(now, cached).
     case cached of
       Some m \<Rightarrow> if mn_expires m > now then io_return (mn_names m) else build_member_names dp s
     | None \<Rightarrow> build_member_names dp s)"

definition destination_has_member :: "'e deployment \<Rightarrow> uuid \<Rightarrow> string \<Rightarrow> ('e, bool option) act" where
  "destination_has_member dp community user =
     call_then (io_get (\<lambda>w. find (\<lambda>(i, s). conn_community (se_config s) = community) (sv_sessions w)))
       (\<lambda>found.
     case found of
       None \<Rightarrow> io_return None
     | Some (i, s) \<Rightarrow>
         io_catch (call_then (community_member_names dp s)
           (\<lambda>names. io_return (map_option (\<lambda>ns. to_lower user \<in> set ns) names)))
           (\<lambda>_. io_return None))"

section \<open>Commands\<close>

definition command_verb_of :: "parsed_command \<Rightarrow> command_verb" where
  "command_verb_of c = (case c of Cmd_open _ \<Rightarrow> Verb_open | Cmd_close _ \<Rightarrow> Verb_close
     | Cmd_list \<Rightarrow> Verb_list | Cmd_usage _ \<Rightarrow> Verb_usage)"

definition store_read :: "'e deployment \<Rightarrow> (db \<Rightarrow> 'a) \<Rightarrow> ('e, 'a) act" where
  "store_read dp f = on_db (dp_out dp) (\<lambda>_ d. (f d, d))"

definition session_community :: "session \<Rightarrow> uuid" where
  "session_community s = conn_community (se_config s)"

definition run_list_command :: "'e deployment \<Rightarrow> session \<Rightarrow> ('e, string) act" where
  "run_list_command dp s =
     call_then (store_read dp (list_direct_channel_peers (session_community s))) (\<lambda>direct.
     call_then (store_read dp (list_inbound_without_direct_channel (session_community s))) (\<lambda>inbound.
     io_return (''BuzzRouter'' @ [newline] @
       (if direct \<noteq> [] then ''Direct channels: '' @ handles direct @ ''.''
        else ''Direct channels: none yet.'') @ [newline] @
       (if inbound \<noteq> []
        then ''Messaging your inbox with no direct channel: '' @ handles inbound @ '' '' @ em_dash @
          '' open one with /open <community> to reply untagged.''
        else ''No communities are messaging your inbox without a direct channel.''))))"

definition dedicated_key :: "uuid \<Rightarrow> string" where
  "dedicated_key peer = ''hub-dedicated:'' @ peer"

definition run_open_command ::
  "'e deployment \<Rightarrow> session \<Rightarrow> nostr_event \<Rightarrow> string \<Rightarrow> ('e, string) act" where
  "run_open_command dp s ev slug =
     call_then (store_read dp (get_community_inbox_endpoint (session_community s))) (\<lambda>found.
     case found of
       None \<Rightarrow> io_return (''BuzzRouter: this community is not fully connected, '' @
         ''so a direct channel cannot be opened.'')
     | Some inbox \<Rightarrow>
         call_then (store_read dp (find_routable_community_by_slug (home_shared_channel inbox) slug))
           (\<lambda>peer.
         case peer of
           None \<Rightarrow> io_return (''BuzzRouter: no connected community named '' @ slug @ ''.'')
         | Some (peer_id, peer_slug) \<Rightarrow>
             if peer_id = session_community s
             then io_return (''BuzzRouter: '' @ slug @ '' is this community.'')
             else
               call_then (create_dedicated_channel (dp_out dp) (dp_sign dp) (dp_cipher dp) (dp_keys dp)
                 \<lparr>cc_community = home_community inbox, cc_owner = home_owner inbox,
                  cc_name = ''connect-'' @ peer_slug, cc_key = dedicated_key peer_id,
                  cc_members = Some [ev_pubkey ev]\<rparr>) (\<lambda>(channel, name).
               call_then (ask (out_uuid (dp_out dp))) (\<lambda>fresh.
               call_then (in_db (dp_out dp) (\<lambda>now.
                   attach_dedicated_peer_channel now fresh inbox channel name peer_id)) (\<lambda>bound.
               call_then (if bound then io_return True
                 else on_db (dp_out dp)
                   (\<lambda>_. reopen_dedicated_peer_channel (session_community s) peer_id)) (\<lambda>_.
               io_return (''Opened #'' @ name @ '' '' @ em_dash @ '' talk here, no tags.'')))))))"

text \<open>The peer of \<open>/close\<close>, or the reply that says why there is none.\<close>

definition close_target ::
  "'e deployment \<Rightarrow> session \<Rightarrow> route_config \<Rightarrow> string option \<Rightarrow> ('e, string + uuid) act" where
  "close_target dp s r slug =
     (case slug of
        None \<Rightarrow>
          io_return (if present (rt_dedicated_to r) then Inr (the (rt_dedicated_to r))
            else Inl (''BuzzRouter: /close needs a community name, '' @
              ''or use it inside a direct channel.''))
      | Some name \<Rightarrow>
          call_then (store_read dp (get_community_inbox_endpoint (session_community s))) (\<lambda>inbox.
          call_then (case inbox of None \<Rightarrow> io_return None
            | Some h \<Rightarrow> store_read dp (find_routable_community_by_slug (home_shared_channel h) name))
            (\<lambda>peer. io_return (case peer of
                None \<Rightarrow> Inl (''BuzzRouter: no connected community named '' @ name @ ''.'')
              | Some (peer_id, _) \<Rightarrow> Inr peer_id))))"

definition run_close_command ::
  "'e deployment \<Rightarrow> session \<Rightarrow> route_config \<Rightarrow> string option \<Rightarrow> ('e, string) act" where
  "run_close_command dp s r slug =
     call_then (close_target dp s r slug) (\<lambda>target.
     case target of
       Inl reply \<Rightarrow> io_return reply
     | Inr peer \<Rightarrow>
         call_then (on_db (dp_out dp) (\<lambda>_. unbind_dedicated_peer_channel (session_community s) peer))
           (\<lambda>closed. io_return
             (case closed of
                Some handle \<Rightarrow> ''Closed the direct channel with @'' @ handle @ '' '' @ em_dash @
                  '' messages fall back to your inbox.''
              | None \<Rightarrow>
                  (case slug of
                     None \<Rightarrow> ''BuzzRouter: there is no open direct channel here to close.''
                   | Some n \<Rightarrow> ''BuzzRouter: no open direct channel with '' @ n @ '' to close.''))))"

definition run_command ::
  "'e deployment \<Rightarrow> session \<Rightarrow> route_config \<Rightarrow> nostr_event \<Rightarrow> parsed_command \<Rightarrow> ('e, string) act" where
  "run_command dp s r ev c =
     (case c of
        Cmd_usage m \<Rightarrow> io_return m
      | Cmd_list \<Rightarrow> run_list_command dp s
      | Cmd_open slug \<Rightarrow> run_open_command dp s ev slug
      | Cmd_close slug \<Rightarrow> run_close_command dp s r slug)"

definition reply_in_channel ::
  "'e deployment \<Rightarrow> session \<Rightarrow> route_config \<Rightarrow> string \<Rightarrow> ('e, unit) act" where
  "reply_in_channel dp s r reply =
     io_catch (publish_notice dp s reply
         (case rt_local_channel r of Some ch \<Rightarrow> ch | None \<Rightarrow> []) ''command'')
       (\<lambda>_. io_return ())"

definition handle_command ::
  "'e deployment \<Rightarrow> session \<Rightarrow> route_config \<Rightarrow> nostr_event \<Rightarrow> parsed_command \<Rightarrow> ('e, unit) act" where
  "handle_command dp s r ev c =
     call_then (on_db (dp_out dp)
         (\<lambda>_. claim_command_receipt ((rt_endpoint r, ev_id ev), command_verb_of c))) (\<lambda>claimed.
     if \<not> claimed then io_return ()
     else
       call_then (io_catch (run_command dp s r ev c) (\<lambda>_. io_return
           (''BuzzRouter: that command could not be completed '' @ em_dash @ '' try again.'')))
         (reply_in_channel dp s r))"

section \<open>Source events\<close>

definition ingest_input_of :: "canonical_message \<Rightarrow> uuid \<Rightarrow> uuid \<Rightarrow> string option \<Rightarrow> ingest_input" where
  "ingest_input_of m destination message_id actor_name =
     \<lparr>in_body = cm_body m, in_sha256 = cm_sha256 m, in_destination = Some destination,
      in_message = message_id, in_parent_message = None, in_channel = cm_shared_channel m,
      in_signed_event = cm_event m, in_actor = cm_actor m, in_actor_name = actor_name,
      in_created_at = cm_created_at m, in_source = cm_endpoint m, in_event_id = cm_event_id m,
      in_parent_event = cm_parent m\<rparr>"

definition ingest_canonical ::
  "'e deployment \<Rightarrow> session \<Rightarrow> canonical_message \<Rightarrow> uuid \<Rightarrow> ('e, unit) act" where
  "ingest_canonical dp s m destination =
     call_then (ask (out_profile (dp_out dp) (relay_url s) (cm_actor m))) (\<lambda>(actor_name, _).
     call_then (ask (out_uuid (dp_out dp))) (\<lambda>message_id.
     call_then (ask (out_ids (dp_out dp))) (\<lambda>ids.
     call_then (in_db (dp_out dp) (\<lambda>now. ingest_tx (dp_send dp) now ids
         (ingest_input_of m destination message_id actor_name))) (\<lambda>_.
     record_health dp (conn_id (se_config s)) Healthy None))))"

text \<open>What happens to a canonical message: its destination is resolved, or it bounces.\<close>

definition route_canonical ::
  "'e deployment \<Rightarrow> session \<Rightarrow> route_config \<Rightarrow> canonical_message \<Rightarrow> ('e, unit) act" where
  "route_canonical dp s r m =
     (case (cm_community m, cm_slug m) of
        (Some peer, _) \<Rightarrow> ingest_canonical dp s m peer
      | (None, None) \<Rightarrow> io_return ()
      | (None, Some slug) \<Rightarrow>
          call_then (store_read dp (find_routable_community_by_slug (cm_shared_channel m) slug))
            (\<lambda>destination.
          case destination of
            None \<Rightarrow> report_undeliverable dp s r (cm_event_id m) slug None
          | Some (community, destination_slug) \<Rightarrow>
              (case cm_user m of
                 None \<Rightarrow> ingest_canonical dp s m community
               | Some user \<Rightarrow>
                   call_then (destination_has_member dp community user) (\<lambda>addressable.
                   if addressable = Some False
                   then report_undeliverable dp s r (cm_event_id m) destination_slug (Some user)
                   else ingest_canonical dp s m community))))"

definition ignored_error :: "err \<Rightarrow> bool" where
  "ignored_error e = (case e of
     Api code _ \<Rightarrow> take 7 code = ''source_'' \<or> code = ''route_inactive'' | _ \<Rightarrow> False)"

definition source_route_of :: "session \<Rightarrow> route_config \<Rightarrow> string \<Rightarrow> source_route" where
  "source_route_of s r channel =
     \<lparr>sr_bridge_pubkey = conn_bridge_pubkey (se_config s), sr_local_channel = channel,
      sr_shared_channel = rt_shared_channel r, sr_endpoint = rt_endpoint r,
      sr_dedicated_to = rt_dedicated_to r\<rparr>"

definition process_source_event ::
  "'e deployment \<Rightarrow> session \<Rightarrow> route_config \<Rightarrow> string \<Rightarrow> nostr_event \<Rightarrow> ('e, unit) act" where
  "process_source_event dp s r channel ev =
     io_catch
       (call_then (io_get now_seconds) (\<lambda>now.
        call_then (io_res (canonicalize_source_event (dp_verify dp) (dp_sha256 dp) ev
            (source_route_of s r channel) now)) (\<lambda>canonical.
        case canonical of None \<Rightarrow> io_return () | Some m \<Rightarrow> route_canonical dp s r m)))
       (\<lambda>e. if ignored_error e then io_return ()
            else record_health dp (conn_id (se_config s)) Degraded (Some (safe_error_message e)))"

text \<open>\<open>event.tags.find((tag) => tag[0] === "h")?.[1]\<close>\<close>

definition event_channel :: "nostr_event \<Rightarrow> string option" where
  "event_channel ev = Option.bind (find (\<lambda>t. tag_at t 0 = Some ''h'') (ev_tags ev)) (\<lambda>t. tag_at t 1)"

definition handle_source_event :: "'e deployment \<Rightarrow> session \<Rightarrow> nostr_event \<Rightarrow> ('e, unit) act" where
  "handle_source_event dp s ev =
     (if \<not> present (event_channel ev) then io_return ()
      else case find (\<lambda>r. rt_local_channel r = event_channel ev) (se_routes s) of
        None \<Rightarrow> io_return ()
      | Some r \<Rightarrow>
          (case (if ev_pubkey ev \<noteq> conn_bridge_pubkey (se_config s) \<and> \<not> has_projection_marker ev
                 then parse_command (ev_content ev) else None) of
             Some c \<Rightarrow> handle_command dp s r ev c
           | None \<Rightarrow> process_source_event dp s r (the (event_channel ev)) ev))"

end
