(* ===== verification/Listener_Properties.thy ===== *)
theory Listener_Properties
  imports Listener
begin

text \<open>
  What reading an event can and cannot do: local messages stay local, replayed
  events act once, and a stored message is never stored again.
\<close>

section \<open>Local messages\<close>

lemma canonicalize_local:
  assumes "ev_pubkey ev = sr_bridge_pubkey r \<or> has_projection_marker ev \<or>
      \<not> present (sr_dedicated_to r) \<and> parse_message_address (ev_content ev) = None"
    and "canonicalize_source_event verify sha256 ev r now = res"
  shows "res = Inr None \<or> (\<exists>e. res = Inl e \<and> ignored_error e)"
  using assms
  by (auto simp: canonicalize_source_event_def present_def ignored_error_def split: if_splits option.splits)


section \<open>What is stored once\<close>

text \<open>The tables a message lives in.\<close>

definition same_messages :: "db \<Rightarrow> db \<Rightarrow> bool" where
  "same_messages d d' \<longleftrightarrow> messages d' = messages d \<and> deliveries d' = deliveries d \<and>
     mappings d' = mappings d \<and> endpoints d' = endpoints d \<and> jobs d' = jobs d"

lemma same_messages_refl: "same_messages d d"
  by (simp add: same_messages_def)

definition message_known :: "route_config \<Rightarrow> nostr_event \<Rightarrow> db \<Rightarrow> bool" where
  "message_known r ev d \<longleftrightarrow>
     has_row (\<lambda>m. msg_key m = (rt_shared_channel r, rt_endpoint r, ev_id ev)) (messages d)"

lemma ingest_tx_known:
  assumes "ingest_tx send now ids i d = Inr (res, d')"
    and "has_row (\<lambda>m. msg_key m = (in_channel i, in_source i, in_event_id i)) (messages d)"
  shows "d' = d"
proof -
  have key: "msg_key (message_row i) = (in_channel i, in_source i, in_event_id i)"
    by (simp add: msg_key_def message_row_def)
  from assms(1) obtain src dests inserted d1 where
    ins: "insert_message (message_row i) d = Inr (inserted, d1)"
    and rest: "(if \<not> inserted then ingest_known i else ingest_new send now ids i dests) d1 = Inr (res, d')"
    by (auto simp: ingest_tx_def assert_hex_def assert_text_def Let_def tx_inversion split: if_splits)
  have "\<not> inserted \<and> d1 = d"
    using ins assms(2) key by (auto simp: insert_message_def tx_inversion split: if_splits)
  then show ?thesis using rest
    by (auto simp: ingest_known_def tx_inversion split: list.splits)
qed

definition keeps_messages :: "db \<Rightarrow> ('e supervisor, 'a) io \<Rightarrow> bool" where
  "keeps_messages d m \<longleftrightarrow>
     leads (\<lambda>w. same_messages d (w_db w)) m (\<lambda>w. same_messages d (w_db w))
       (\<lambda>_ w. same_messages d (w_db w))"

lemma keeps_messages_then:
  "keeps_messages d m \<Longrightarrow> (\<And>a. keeps_messages d (f a)) \<Longrightarrow> keeps_messages d (call_then m f)"
  unfolding keeps_messages_def by (rule leads_then)

lemma keeps_messages_catch:
  "keeps_messages d m \<Longrightarrow> (\<And>e. keeps_messages d (h e)) \<Longrightarrow> keeps_messages d (io_catch m h)"
  unfolding keeps_messages_def by (rule leads_catch)

lemma keeps_messages_simple:
  "keeps_messages d (io_return a)" "keeps_messages d (io_throw e)" "keeps_messages d (io_res r)"
  "keeps_messages d (io_get g)" "keeps_messages d (ask q)" "keeps_messages d (relay_publish out url ev)"
  "(\<And>w. w_db (p w) = w_db w) \<Longrightarrow> keeps_messages d (io_put p)"
  unfolding keeps_messages_def
  by (auto intro!: leads_return leads_throw leads_res leads_get leads_ask leads_publish leads_put)

lemma keeps_messages_in_db:
  "(\<And>now d1 a d2. same_messages d d1 \<Longrightarrow> m now d1 = Inr (a, d2) \<Longrightarrow> same_messages d d2) \<Longrightarrow>
   keeps_messages d (in_db out m)"
  unfolding keeps_messages_def by (rule leads_in_db) auto

lemma keeps_messages_on_db:
  "(\<And>now d1. same_messages d d1 \<Longrightarrow> same_messages d (snd (f now d1))) \<Longrightarrow>
   keeps_messages d (on_db out f)"
  unfolding on_db_def by (rule keeps_messages_in_db) (metis Inr_inject prod.sel(2))

lemma keeps_messages_if:
  "keeps_messages d m \<Longrightarrow> keeps_messages d n \<Longrightarrow> keeps_messages d (if b then m else n)"
  by simp

lemma same_messages_health: "same_messages d d1 \<Longrightarrow> same_messages d (record_connection_health now i h e d1)"
  by (simp add: same_messages_def record_connection_health_def)

lemma same_messages_notice: "same_messages d d1 \<Longrightarrow> same_messages d (snd (claim_undeliverable_notice n d1))"
  by (simp add: same_messages_def claim_undeliverable_notice_def)

lemmas keeps_messages_rules = keeps_messages_then keeps_messages_catch keeps_messages_simple
  keeps_messages_if

lemma keeps_messages_health: "keeps_messages d (record_health dp i h e)"
  unfolding record_health_def by (rule keeps_messages_on_db) (simp add: same_messages_health)

lemma keeps_messages_read: "keeps_messages d (store_read dp f)"
  unfolding store_read_def by (rule keeps_messages_on_db) simp

lemma keeps_messages_report: "keeps_messages d (report_undeliverable dp s r i slug user)"
  unfolding report_undeliverable_def publish_notice_def Let_def
  by (intro keeps_messages_rules keeps_messages_on_db) (simp_all add: same_messages_notice)

lemma collect_names_db: "w_db (snd (collect_names out url dl ns ps w)) = w_db w"
proof (induction out url dl ns ps w rule: collect_names.induct)
  case (1 out url dl ns ps w)
  then show ?case
    by (subst collect_names.simps) (auto split: prod.splits)
qed

lemma collect_names_run: "collect_names out url dl ns ps w = (names, w') \<Longrightarrow> w_db w' = w_db w"
  using collect_names_db [of out url dl ns ps w] by simp

lemma keeps_messages_members: "keeps_messages d (destination_has_member dp c u)"
proof -
  have loop: "keeps_messages d (\<lambda>w. case collect_names out url (w_clock w + 4000) [] ps w of
      (names, w') \<Rightarrow> (Inr names, w'))" for out url ps
    unfolding keeps_messages_def leads_def
    by (auto dest: collect_names_run split: prod.splits)
  have build: "keeps_messages d (build_member_names dp s)" for s
    unfolding build_member_names_def remember_names_def
    by (intro keeps_messages_rules) (auto simp: loop intro: keeps_messages_rules split: option.split)
  have names: "keeps_messages d (community_member_names dp s)" for s
    unfolding community_member_names_def
    by (intro keeps_messages_rules) (auto simp: build intro: keeps_messages_rules split: option.split)
  show ?thesis
    unfolding destination_has_member_def
    by (intro keeps_messages_rules) (auto simp: names intro!: keeps_messages_rules split: option.split)
qed

lemma keeps_messages_ingest:
  assumes "has_row (\<lambda>x. msg_key x = (cm_shared_channel m, cm_endpoint m, cm_event_id m)) (messages d)"
  shows "keeps_messages d (ingest_canonical dp s m destination)"
proof -
  have "same_messages d d2"
    if "same_messages d d1" "ingest_tx (dp_send dp) now ids
        (ingest_input_of m destination message_id name) d1 = Inr (res, d2)"
    for now ids message_id name d1 d2 res
  proof -
    have "d2 = d1"
      by (rule ingest_tx_known [OF that(2)])
        (use assms that(1) in \<open>simp add: ingest_input_of_def same_messages_def\<close>)
    with that(1) show ?thesis by simp
  qed
  then show ?thesis
    unfolding ingest_canonical_def
    by (auto intro!: keeps_messages_rules keeps_messages_in_db keeps_messages_health)
qed

lemma canonical_source:
  "canonicalize_source_event verify sha256 ev r now = Inr (Some m) \<Longrightarrow>
     cm_shared_channel m = sr_shared_channel r \<and> cm_endpoint m = sr_endpoint r \<and> cm_event_id m = ev_id ev"
  by (auto simp: canonicalize_source_event_def canonical_of_def split: if_splits option.splits)

lemma keeps_messages_route:
  assumes "has_row (\<lambda>x. msg_key x = (cm_shared_channel m, cm_endpoint m, cm_event_id m)) (messages d)"
  shows "keeps_messages d (route_canonical dp s r m)"
  unfolding route_canonical_def
  by (auto intro!: keeps_messages_rules keeps_messages_ingest [OF assms] keeps_messages_read
      keeps_messages_report keeps_messages_members split: option.split prod.split)

lemma keeps_messages_process:
  assumes "message_known r ev d"
  shows "keeps_messages d (process_source_event dp s r channel ev)"
proof -
  have "keeps_messages d (call_then (io_res (canonicalize_source_event (dp_verify dp) (dp_sha256 dp) ev
            (source_route_of s r channel) now)) (\<lambda>canonical.
        case canonical of None \<Rightarrow> io_return () | Some m \<Rightarrow> route_canonical dp s r m))" (is "keeps_messages d ?m")
    for now
  proof (cases "\<exists>m. canonicalize_source_event (dp_verify dp) (dp_sha256 dp) ev
            (source_route_of s r channel) now = Inr (Some m)")
    case True
    then obtain m where m: "canonicalize_source_event (dp_verify dp) (dp_sha256 dp) ev
            (source_route_of s r channel) now = Inr (Some m)" by blast
    have "keeps_messages d (route_canonical dp s r m)"
      by (rule keeps_messages_route)
        (use assms canonical_source [OF m] in \<open>simp add: message_known_def source_route_of_def\<close>)
    then show ?thesis
      unfolding m by (simp add: keeps_messages_def leads_def call_then_def io_res_def)
  next
    case False
    then have "?m w = (case canonicalize_source_event (dp_verify dp) (dp_sha256 dp) ev
            (source_route_of s r channel) now of Inl e \<Rightarrow> (Inl e, w) | Inr _ \<Rightarrow> (Inr (), w))" for w :: "'a supervisor"
      by (auto simp: call_then_def io_res_def io_return_def split: sum.splits option.splits)
    then show ?thesis by (auto simp: keeps_messages_def leads_def split: sum.splits)
  qed
  then have body: "keeps_messages d (call_then (io_get now_seconds) (\<lambda>now.
        call_then (io_res (canonicalize_source_event (dp_verify dp) (dp_sha256 dp) ev
            (source_route_of s r channel) now)) (\<lambda>canonical.
        case canonical of None \<Rightarrow> io_return () | Some m \<Rightarrow> route_canonical dp s r m)))"
    by (rule keeps_messages_then [OF keeps_messages_simple(4)])
  show ?thesis
    unfolding process_source_event_def
    by (rule keeps_messages_catch [OF body]) (simp add: keeps_messages_simple keeps_messages_health)
qed

text \<open>
  C14. A stored message is never stored, delivered or queued again: however often
  the relay replays its event, and whatever the relay and the database server
  answer, the tables of messages, deliveries, mappings, endpoints and jobs stay
  as they are.
\<close>

theorem stored_messages_are_stored_once:
  assumes "handle_source_event dp s ev w = (res, w')"
    and "parse_command (ev_content ev) = None"
    and "\<forall>r \<in> set (se_routes s). rt_local_channel r = event_channel ev \<longrightarrow> message_known r ev (w_db w)"
  shows "same_messages (w_db w) (w_db w')"
proof (cases "present (event_channel ev) \<and>
    find (\<lambda>r. rt_local_channel r = event_channel ev) (se_routes s) \<noteq> None")
  case False
  then show ?thesis using assms(1)
    by (auto simp: handle_source_event_def io_return_def same_messages_def split: if_splits)
next
  case True
  then obtain r where r: "find (\<lambda>r. rt_local_channel r = event_channel ev) (se_routes s) = Some r"
    by auto
  have known: "message_known r ev (w_db w)" using find_Some_set [OF r] assms(3) by auto
  have "process_source_event dp s r (the (event_channel ev)) ev w = (res, w')"
    using assms(1,2) True r by (simp add: handle_source_event_def split: if_splits)
  from leadsD [OF keeps_messages_process [OF known, unfolded keeps_messages_def] same_messages_refl this]
  show ?thesis by simp
qed

lemma on_db_unchanged:
  assumes "on_db out f w = (r, w')" "f (db_time (w\<lparr>w_env := w_env w'\<rparr>)) (w_db w) = (a, w_db w)"
  shows "(r = Inr a \<or> r = Inl Raw) \<and> w' = w\<lparr>w_env := w_env w'\<rparr>"
  using assms
  by (auto simp: on_db_def in_db_def pool_query_def io_query_def with_transaction_def Let_def
      db_time_def split: prod.splits query_outcome.splits)

text \<open>
  A command runs once: after its receipt was claimed, reading the same event
  again changes nothing in the database and sends nothing to any relay.
\<close>

lemma claimed_commands_do_nothing:
  assumes "find (\<lambda>r. rt_local_channel r = event_channel ev) (se_routes s) = Some r"
    and "parse_command (ev_content ev) = Some c"
    and "has_row (\<lambda>x. fst x = (rt_endpoint r, ev_id ev)) (receipts (w_db w))"
    and "handle_source_event dp s ev w = (res, w')"
  shows "w_db w' = w_db w \<and> w_log w' = w_log w"
proof (cases "present (event_channel ev) \<and> ev_pubkey ev \<noteq> conn_bridge_pubkey (se_config s) \<and>
    \<not> has_projection_marker ev")
  case True
  let ?claim = "claim_command_receipt ((rt_endpoint r, ev_id ev), command_verb_of c)"
  obtain q v where q: "on_db (dp_out dp) (\<lambda>_. ?claim) w = (q, v)" by fastforce
  have "?claim (w_db w) = (False, w_db w)" using assms(3) by (simp add: claim_command_receipt_def)
  with on_db_unchanged [OF q] have v: "q = Inr False \<or> q = Inl Raw" "v = w\<lparr>w_env := w_env v\<rparr>"
    by auto
  have "handle_command dp s r ev c w = (res, w')"
    using assms(1,2,4) True by (simp add: handle_source_event_def)
  then have "w' = v"
    using q v(1) by (auto simp: handle_command_def call_then_def io_return_def)
  then show ?thesis using v(2) by (metis world.select_convs(3,5) world.surjective world.update_convs(1))
next
  case False
  have "ev_pubkey ev = conn_bridge_pubkey (se_config s) \<or> has_projection_marker ev \<Longrightarrow>
      process_source_event dp s r (the (event_channel ev)) ev w = (Inr (), w)"
    by (auto simp: process_source_event_def canonicalize_source_event_def source_route_of_def io_defs)
  then show ?thesis using assms(1,4) False
    by (auto simp: handle_source_event_def io_return_def split: if_splits)
qed

section \<open>A delivered message can bounce\<close>

text \<open>
  The bounce does not look at what was delivered: when the relay replays a
  message (its cursor is inclusive) after its destination stopped being routable,
  the sender is told that nothing was delivered, although the message is stored
  and its delivery completed.
\<close>

lemma delivered_message_can_bounce:
  assumes "queries_ok (dp_out dp)"
    and "present (event_channel ev)" "ev_pubkey ev \<noteq> conn_bridge_pubkey (se_config s)"
    and "\<not> has_projection_marker ev" "parse_command (ev_content ev) = None"
    and "find (\<lambda>r. rt_local_channel r = event_channel ev) (se_routes s) = Some r"
    and "canonicalize_source_event (dp_verify dp) (dp_sha256 dp) ev
      (source_route_of s r (the (event_channel ev))) (now_seconds w) = Inr (Some m)"
    and "cm_community m = None" "cm_slug m = Some slug"
    and "find_routable_community_by_slug (rt_shared_channel r) slug (w_db w) = None"
    and "\<not> has_row (\<lambda>x. fst x = (rt_endpoint r, ev_id ev)) (notices (w_db w))"
    and "row \<in> set (messages (w_db w))" "msg_key row = (rt_shared_channel r, rt_endpoint r, ev_id ev)"
    and "x \<in> set (deliveries (w_db w))" "dl_message x = msg_id row" "dl_state x = Delivered_to_relay"
  shows "\<exists>notice w'. handle_source_event dp s ev w = (Inr (), w') \<and>
    w_log w' = Sent (relay_url s) (dp_sign dp (se_key s) notice) # w_log w \<and>
    tp_content notice = undeliverable_notice slug None \<and>
    row \<in> set (messages (w_db w')) \<and> x \<in> set (deliveries (w_db w'))"
proof -
  let ?url = "relay_url s"
  let ?w1 = "w\<lparr>w_env := snd (out_query (dp_out dp) (w_env w))\<rparr>"
  let ?reason = "((rt_endpoint r, ev_id ev), Unknown_destination)"
  let ?w2 = "?w1\<lparr>w_env := snd (out_query (dp_out dp) (w_env ?w1)),
      w_db := (w_db w)\<lparr>notices := notices (w_db w) @ [?reason]\<rparr>\<rparr>"
  let ?ch = "case rt_local_channel r of Some ch \<Rightarrow> ch | None \<Rightarrow> []"
  let ?notice = "notice_template (undeliverable_notice slug None) ?ch ''unknown-destination'' (now_seconds ?w2)"
  have src: "cm_shared_channel m = rt_shared_channel r" "cm_event_id m = ev_id ev"
    using canonical_source [OF assms(7)] by (simp_all add: source_route_of_def)
  have claim: "claim_undeliverable_notice ?reason (w_db w) =
      (True, (w_db w)\<lparr>notices := notices (w_db w) @ [?reason]\<rparr>)"
    using assms(11) by (simp add: claim_undeliverable_notice_def)
  obtain answer e' where pub: "out_publish (dp_out dp) ?url (dp_sign dp (se_key s) ?notice) (w_env ?w2) = (answer, e')"
    by fastforce
  let ?w3 = "?w2\<lparr>w_env := e', w_log := Sent ?url (dp_sign dp (se_key s) ?notice) # w_log w\<rparr>"
  have report: "report_undeliverable dp s r (ev_id ev) slug None ?w1 = (Inr (), ?w3)"
    using pub by (cases answer)
      (simp_all add: report_undeliverable_def on_db_ok [OF assms(1)] claim io_defs publish_notice_def
        relay_publish_def)
  have "route_canonical dp s r m w = (Inr (), ?w3)"
    using report assms(8,9,10) src
    by (simp add: route_canonical_def store_read_def on_db_ok [OF assms(1)] call_then_def)
  then have "process_source_event dp s r (the (event_channel ev)) ev w = (Inr (), ?w3)"
    by (simp add: process_source_event_def io_defs assms(7))
  then have "handle_source_event dp s ev w = (Inr (), ?w3)"
    using assms(2-6) by (simp add: handle_source_event_def)
  then show ?thesis
    by (intro exI [of _ ?notice] exI [of _ ?w3]) (simp add: notice_template_def assms(12,14))
qed

end
