(* ===== verification/Connector_Samples.thy ===== *)
theory Connector_Samples
  imports Listener_Properties Samples
begin

text \<open>
  A concrete environment, deployment and session over the sample database, on
  which the properties of the bridge and the connector are applied.  Every
  answer of this environment is a success; its state counts the ids it gave.
\<close>

definition sample_outside :: "nat outside" where
  "sample_outside = \<lparr>
     out_query = (\<lambda>n. (Query_ok, n)),
     out_uuid = (\<lambda>n. (''u'' @ show_nat n, n + 1)),
     out_ids = (\<lambda>n. (sample_ids, n)),
     out_connect = (\<lambda>_ n. (None, n)),
     out_subscribe = (\<lambda>_ _ n. (None, n)),
     out_publish = (\<lambda>_ _ n. (None, n)),
     out_has = (\<lambda>_ _ n. ((True, 20), n)),
     out_roster = (\<lambda>_ n. (Some [(hex_c, ''admin''), (hex_a, ''owner''), (hex_b, ''owner'')], n)),
     out_roster_keys = (\<lambda>_ n. (Some [hex_a], n)),
     out_members = (\<lambda>_ _ n. (Some [], n)),
     out_lock = (\<lambda>_ n. (True, n)),
     out_profile = (\<lambda>_ _ n. ((None, 5), n))\<rparr>"

definition sample_sign :: signer where
  "sample_sign key t = \<lparr>ev_id = replicate 64 (CHR ''d''), ev_pubkey = hex_b,
     ev_created_at = tp_created_at t, ev_kind = tp_kind t, ev_tags = tp_tags t,
     ev_content = tp_content t\<rparr>"

definition sample_cipher :: cipher where
  "sample_cipher = \<lparr>seal = (\<lambda>k n a p. (p, replicate 16 0)), unseal = (\<lambda>k n a ct tag. Some ct)\<rparr>"

definition sample_keys :: "int \<Rightarrow> nat list res" where
  "sample_keys version = Inr (replicate 32 1)"

definition sample_deployment :: "nat deployment" where
  "sample_deployment = \<lparr>dp_out = sample_outside, dp_sign = sample_sign, dp_verify = (\<lambda>_. True),
     dp_sha256 = (\<lambda>_. hex_a), dp_send = send_ok, dp_cipher = sample_cipher, dp_keys = sample_keys,
     dp_env = \<lparr>env_home_host = None, env_home_relay = None, env_home_channel = None\<rparr>, dp_href = Some\<rparr>"

definition sample_world :: "nat world" where
  "sample_world = \<lparr>w_env = 0, w_clock = 9000000, w_db = sample_hub, w_handoffs = [], w_log = []\<rparr>"

definition sample_channel :: create_channel_input where
  "sample_channel = \<lparr>cc_community = ''c1'', cc_owner = hex_a, cc_name = '' plans '',
     cc_key = ''plans-key'', cc_members = Some [hex_c]\<rparr>"

definition sample_route :: "string option \<Rightarrow> route_config" where
  "sample_route peer = \<lparr>rt_last_event = 0, rt_local_channel = Some ''lobby'',
     rt_shared_channel = ''hub'', rt_endpoint = ''e2'', rt_dedicated_to = peer\<rparr>"

definition sample_session :: session where
  "sample_session = \<lparr>se_config = sample_connection ''n2'' ''c2'' Active, se_routes = [sample_route None],
     se_fingerprint = (''wss://r'', hex_b, [], 1), se_key = replicate 32 7, se_last_inbound = 0,
     se_serial = 1\<rparr>"

definition sample_supervisor :: "db \<Rightarrow> nat supervisor" where
  "sample_supervisor d = \<lparr>w_env = 0, w_clock = 9000000, w_db = d, w_handoffs = [], w_log = [],
     sv_sessions = [(''n2'', sample_session)], sv_failures = [], sv_names = [], sv_next_serial = 2,
     sv_stopped = False\<rparr>"

definition typed :: "string \<Rightarrow> nostr_event" where
  "typed text = \<lparr>ev_id = hex_b, ev_pubkey = hex_a, ev_created_at = 8000, ev_kind = 9,
     ev_tags = [[''h'', ''lobby'']], ev_content = text\<rparr>"

definition sample_projection :: "string \<Rightarrow> projection_input" where
  "sample_projection body = \<lparr>pi_body = body, pi_channel = ''lobby'', pi_local_parent = Some hex_c,
     pi_message = ''m1'', pi_actor = hex_a, pi_actor_name = Some '' ann '', pi_community = ''c1'',
     pi_slug = ''hive'', pi_event = hex_b\<rparr>"

definition sample_source :: source_route where
  "sample_source = source_route_of sample_session (sample_route None) ''lobby''"

lemma sample_carries: "carries_template sample_sign"
  by (simp add: carries_template_def sample_sign_def)

lemma sample_cooperative: "cooperative sample_outside"
  by (simp add: cooperative_def sample_outside_def)

lemma sample_queries_ok: "queries_ok sample_outside"
  by (simp add: queries_ok_def sample_outside_def)

end
