(* ===== verification/Connector_Witnesses.thy ===== *)
theory Connector_Witnesses
  imports Connector_Samples
begin

text \<open>
  Each property of addresses, the bridge, channel handoffs and the connector
  that has hypotheses, applied to the sample environment where they hold.
\<close>

section \<open>Addresses and commands\<close>

theorem address_round_trip_witness:
  "parse_message_address ''@hive/ann hello'' =
     Some \<lparr>adr_slug = ''hive'', adr_user = Some ''ann'', adr_body = ''hello''\<rparr>"
proof -
  have "slug_syntax ''hive''" "user_syntax ''ann''" "''hello'' \<noteq> []" "\<not> js_space (hd ''hello'')"
    by code_simp+
  from conjunct1 [OF address_round_trip [OF this]] show ?thesis by simp
qed

section \<open>The bridge\<close>


definition sample_written :: "string \<Rightarrow> nostr_event" where
  "sample_written body =
     (case create_destination_projection sample_sign 5 (sample_projection body) [] of
        Inr e \<Rightarrow> e | Inl _ \<Rightarrow> typed [])"

lemma sample_writes:
  "create_destination_projection sample_sign 5 (sample_projection body) [] = Inr (sample_written body)"
proof -
  have "is_hex_string 64 hex_c" "hex_c \<noteq> []" by code_simp+
  then have "\<exists>e. create_destination_projection sample_sign 5 (sample_projection body) [] = Inr e"
    by (simp add: create_destination_projection_def projection_template_def sample_projection_def Let_def)
  then show ?thesis by (auto simp: sample_written_def)
qed

theorem projections_never_reenter_witness:
  "canonicalize_source_event (\<lambda>_. True) (\<lambda>_. hex_a) (sample_written ''hi'') sample_source 9 = Inr None"
  by (rule projections_never_reenter [OF sample_carries sample_writes])

lemma sample_no_newline: "newline \<notin> set (pi_slug (sample_projection body))"
  "newline \<notin> set (pi_actor (sample_projection body))"
  by (simp_all add: sample_projection_def newline_def hex_a_def)


section \<open>Channel handoffs\<close>

abbreviation "sample_create \<equiv>
  create_dedicated_channel sample_outside sample_sign sample_cipher sample_keys sample_channel"

definition sample_created :: "nat world" where
  "sample_created = snd (sample_create sample_world)"

lemma sample_publish:
  "publish_template sample_outside sign key url t w =
     (Inr (), w\<lparr>w_clock := w_clock w + 20,
        w_log := Confirmed url (sign key (t (now_seconds w))) # Sent url (sign key (t (now_seconds w))) # w_log w\<rparr>)"
  by (simp add: publish_template_def publish_confirmed_def relay_publish_def io_defs sample_outside_def
      confirm_stored.simps)

lemma sample_pool: "pool_query sample_outside m w = m w"
  by (simp add: pool_query_def io_query_def sample_outside_def)

lemma sample_owned:
  "owned_community_connection ''c1'' hex_a sample_hub =
     Inr (Some (sample_connection ''n1'' ''c1'' Active), sample_hub)"
  by code_simp

lemma sample_unwrap:
  "decrypt_connector_private_key sample_cipher sample_key (replicate 32 1) ''c1'' = Inr (replicate 32 7)"
  by code_simp

lemma sample_names: "normalize_channel_name '' plans '' = Inr ''plans''"
  "assert_idempotency_key ''plans-key'' = Inr ()" "normalize_members (Some [hex_c]) hex_b = [hex_c]"
  "is_hex_string 64 hex_a" "hex_c \<noteq> hex_a" "show_nat 0 = ''0''" "show_nat 1 = ''1''" "show_nat (Suc 0) = ''1''"
  by code_simp+

lemma sample_owner:
  "resolve_channel_owner sample_outside url hex_b w = (Inr hex_a, w)"
proof -
  have "first_by (\<lambda>(pubkey, role). (role \<noteq> ''owner'', pubkey))
      (filter (\<lambda>(pubkey, role). pubkey \<noteq> hex_b \<and> role \<in> {''owner'', ''admin''})
         [(hex_c, ''admin''), (hex_a, ''owner''), (hex_b, ''owner'')]) = Some (hex_a, ''owner'')"
    by code_simp
  moreover have "out_roster sample_outside url (w_env w) =
      (Some [(hex_c, ''admin''), (hex_a, ''owner''), (hex_b, ''owner'')], w_env w)"
    by (simp add: sample_outside_def)
  ultimately show ?thesis
    unfolding resolve_channel_owner_def ask_def call_then_def by (simp add: io_return_def)
qed

lemma sample_calls: "ask (out_uuid sample_outside) w = (Inr (''u'' @ show_nat (w_env w)), w\<lparr>w_env := w_env w + 1\<rparr>)"
  "ask (out_connect sample_outside url) w = (Inr None, w)"
  by (simp_all add: ask_def sample_outside_def)

lemmas sample_steps = create_dedicated_channel_def resume_channel_def reserve_handoff_def
  find_handoff_by_key_def run_handoff_def create_step_def promote_step_def demote_step_def run_step_def
  advance_handoff_def in_db_def with_transaction_def io_defs sample_pool sample_publish sample_calls
  sample_owner sample_names sample_owned sample_unwrap find_handoff_def Let_def

definition sample_row :: "handoff_state \<Rightarrow> handoff" where
  "sample_row st = \<lparr>ho_id = ''u1'', ho_connection = ''n1'', ho_community = ''c1'', ho_requester = hex_a,
     ho_relay_url = ''wss://r'', ho_channel = ''u0'', ho_name = ''plans'', ho_state = st,
     ho_key = ''plans-key'', ho_attempts = 0, ho_error = None\<rparr>"

definition stepped_down :: nostr_event where
  "stepped_down = sample_sign (replicate 32 7) (put_user_template ''u0'' hex_b ''member'' 9000)"

lemma sample_create_runs:
  "\<exists>past. sample_create sample_world = (Inr (''u0'', ''plans''),
     sample_world\<lparr>w_env := 2, w_clock := 9000080, w_handoffs := [sample_row Completed],
       w_log := Confirmed ''wss://r'' stepped_down # Sent ''wss://r'' stepped_down # past\<rparr>)"
  by (simp add: sample_steps sample_channel_def sample_world_def sample_connection_def sample_row_def
      sample_keys_def stepped_down_def now_seconds_def update_where_def del: One_nat_def)

lemma sample_create_run: "sample_create sample_world = (Inr (''u0'', ''plans''), sample_created)"
  using sample_create_runs by (auto simp: sample_created_def)

lemma sample_start: "handoff_history sample_outside sample_sign sample_cipher sample_keys sample_world"
  by (rule handoff_history.start) (simp_all add: sample_world_def)

lemma sample_history: "handoff_history sample_outside sample_sign sample_cipher sample_keys sample_created"
  unfolding sample_created_def by (rule handoff_history.call [OF sample_start])

lemma sample_log:
  "take 2 (w_log sample_created) = [Confirmed ''wss://r'' stepped_down, Sent ''wss://r'' stepped_down]"
  using sample_create_runs by (auto simp: sample_created_def)

theorem owner_confirmed_before_step_down_witness:
  "\<exists>url' ev' owner. Confirmed url' ev' \<in> set (drop 2 (w_log sample_created)) \<and> puts ev' ''u0'' owner ''owner''"
proof -
  have log: "w_log sample_created = [Confirmed ''wss://r'' stepped_down] @
      Sent ''wss://r'' stepped_down # drop 2 (w_log sample_created)"
    using append_take_drop_id [of 2 "w_log sample_created"] unfolding sample_log by simp
  have puts: "puts stepped_down ''u0'' hex_b ''member''" by code_simp
  show ?thesis by (rule owner_confirmed_before_step_down [OF sample_carries sample_history log puts])
qed

definition sample_stranded :: handoff where
  "sample_stranded = \<lparr>ho_id = ''u1'', ho_connection = ''n1'', ho_community = ''c1'', ho_requester = hex_a,
     ho_relay_url = ''wss://r'', ho_channel = ''u0'', ho_name = ''plans'', ho_state = Handed_off,
     ho_key = ''plans-key'', ho_attempts = 3, ho_error = Some ''channel_handoff_incomplete''\<rparr>"

definition sample_interrupted :: "nat world" where
  "sample_interrupted = sample_world\<lparr>w_handoffs := [sample_stranded]\<rparr>"


section \<open>The connector\<close>

lemma source_run:
  "handle_source_event dp s ev w = (fst (handle_source_event dp s ev w), snd (handle_source_event dp s ev w))"
  by simp


lemma sample_known: "message_known (sample_route None) (typed text) sample_sent"
proof -
  have "has_row (\<lambda>m. msg_key m = (''hub'', ''e2'', hex_b)) (messages sample_sent)" by code_simp
  then show ?thesis by (simp add: message_known_def sample_route_def typed_def)
qed

theorem stored_messages_are_stored_once_witness:
  "same_messages sample_sent (w_db (snd (handle_source_event sample_deployment sample_session
     (typed ''@hive hello'') (sample_supervisor sample_sent))))"
proof -
  have c: "parse_command (ev_content (typed ''@hive hello'')) = None" by code_simp
  have k: "\<forall>r \<in> set (se_routes sample_session). rt_local_channel r = event_channel (typed ''@hive hello'') \<longrightarrow>
      message_known r (typed ''@hive hello'') (w_db (sample_supervisor sample_sent))"
    by (simp add: sample_session_def sample_known sample_supervisor_def)
  show ?thesis
    using stored_messages_are_stored_once [OF source_run c k] by (simp add: sample_supervisor_def)
qed

definition sample_claimed :: db where
  "sample_claimed = sample_hub\<lparr>receipts := [((''e2'', hex_b), Verb_list)]\<rparr>"

lemma sample_finds: "find (\<lambda>r. rt_local_channel r = event_channel (typed text)) (se_routes sample_session) =
    Some (sample_route None)"
  by (simp add: sample_session_def sample_route_def typed_def event_channel_def tag_at_def)

text \<open>The message of the sample was delivered; then its destination chose to receive no more.\<close>

definition sample_gone :: db where
  "sample_gone = sample_hub
     \<lparr>messages := [message_row sample_input],
      deliveries := [(delivery_row 9000000 ''d0'' ''m1'' ''e3'')\<lparr>dl_state := Delivered_to_relay\<rparr>],
      endpoints := map (\<lambda>e. e\<lparr>ep_receives := ep_community e \<noteq> ''c1''\<rparr>) (endpoints sample_hub)\<rparr>"

lemma sample_gone_tables:
  "map (\<lambda>x. (dl_message x, dl_state x)) (deliveries sample_gone) = [(''m1'', Delivered_to_relay)]"
  "map (\<lambda>x. (msg_id x, msg_key x)) (messages sample_gone) = [(''m1'', (''hub'', ''e2'', hex_b))]"
  "notices sample_gone = []" "find_routable_community_by_slug ''hub'' ''hive'' sample_gone = None"
  by code_simp+

end
