(* ===== verification/Delivery_Path.thy ===== *)
theory Delivery_Path
  imports Supervisor
begin

text \<open>
  What one run of \<open>deliver\<close> (src/shared-channels/connector.ts) does to its
  delivery and sends to the relay: the event is persisted before it is
  published, every attempt publishes the same event, and a relay that is down
  leaves no delivery half way.
\<close>

section \<open>The persisted event\<close>

definition stored_event :: "uuid \<Rightarrow> nostr_event \<Rightarrow> db \<Rightarrow> bool" where
  "stored_event i e d \<longleftrightarrow> (\<exists>x. delivery_by_id d i = Some x \<and> dl_event x = Some e)"

lemma stored_event_unique: "stored_event i e d \<Longrightarrow> stored_event i e' d \<Longrightarrow> e' = e"
  by (auto simp: stored_event_def)

lemma stored_event_op: "schema_ok d \<Longrightarrow> stored_event i e d \<Longrightarrow> stored_event i e (run_delivery_ops ops d)"
  unfolding stored_event_def by (auto simp: row_reach_def elim!: run_delivery_ops_by_id)

lemma stored_event_op1: "schema_ok d \<Longrightarrow> stored_event i e d \<Longrightarrow> stored_event i e (run_delivery_op op d)"
  using stored_event_op [of d i e "[op]"] by (simp add: run_delivery_ops_def)

lemma persist_stores:
  assumes "schema_ok d" "persist_destination_event now i ev d = Inr (e, d')"
  shows "stored_event i e d'"
  using assms(2)
proof (cases rule: persist_Inr)
  case (stored x)
  then show ?thesis by (auto simp: stored_event_def)
next
  case (fresh x)
  have ok: "schema_ok d'" using keepsD [OF persist_keeps assms] .
  let ?x = "x\<lparr>dl_event := Some ev, dl_event_id := Some (ev_id ev), dl_updated_at := now\<rparr>"
  have "?x \<in> set (deliveries d')" "dl_id ?x = i"
    using fresh(1,7) by (auto simp: update_delivery_def set_update_where delivery_by_id_Some assms(1))
  then have "delivery_by_id d' i = Some ?x" by (simp add: delivery_by_id_Some [OF ok])
  then show ?thesis using fresh(5) by (simp add: stored_event_def)
qed

section \<open>What is sent\<close>

definition sent_since :: "relay_entry list \<Rightarrow> relay_entry list \<Rightarrow> nostr_event \<Rightarrow> bool" where
  "sent_since past now e \<longleftrightarrow> (\<exists>new url. now = new @ past \<and> Sent url e \<in> set new)"

text \<open>
  Every projection sent since \<open>past\<close>, and every event of \<open>K\<close>, is the persisted
  event of delivery \<open>i\<close>.
\<close>

definition publishes_stored :: "nostr_event set \<Rightarrow> uuid \<Rightarrow> relay_entry list \<Rightarrow> ('e, 'z) world_scheme \<Rightarrow> bool" where
  "publishes_stored K i past w \<longleftrightarrow> schema_ok (w_db w) \<and>
     (\<forall>e \<in> K. stored_event i e (w_db w)) \<and> (\<exists>new. w_log w = new @ past \<and>
        (\<forall>url e. Sent url e \<in> set new \<longrightarrow> has_projection_marker e \<longrightarrow> stored_event i e (w_db w)))"

lemma publishes_stored_env: "publishes_stored K i past w \<Longrightarrow> publishes_stored K i past (w\<lparr>w_env := e\<rparr>)"
  by (simp add: publishes_stored_def)

lemma publishes_stored_db:
  assumes "publishes_stored K i past w" "schema_ok d"
    "\<And>e. stored_event i e (w_db w) \<Longrightarrow> stored_event i e d"
  shows "publishes_stored K i past (w\<lparr>w_db := d\<rparr>)"
  using assms by (auto simp: publishes_stored_def)

lemma publishes_stored_op:
  "publishes_stored K i past w \<Longrightarrow> publishes_stored K i past (w\<lparr>w_db := run_delivery_op op (w_db w)\<rparr>)"
  by (rule publishes_stored_db)
    (auto simp: publishes_stored_def intro: run_delivery_op_keeps stored_event_op1)

text \<open>The assertion that holds once \<open>ev\<close> is persisted.\<close>

definition about_to_send :: "nostr_event set \<Rightarrow> uuid \<Rightarrow> relay_entry list \<Rightarrow> nostr_event \<Rightarrow> ('e, 'z) world_scheme \<Rightarrow> bool" where
  "about_to_send K i past ev w \<longleftrightarrow> publishes_stored K i past w \<and> stored_event i ev (w_db w)"

lemma about_to_send_op:
  "about_to_send K i past ev w \<Longrightarrow> about_to_send K i past ev (w\<lparr>w_db := run_delivery_op op (w_db w)\<rparr>)"
  using publishes_stored_op [of K i past w op] stored_event_op1 [of "w_db w" i ev op]
  by (simp add: about_to_send_def publishes_stored_def)

lemma about_to_send_env: "about_to_send K i past ev w \<Longrightarrow> about_to_send K i past ev (w\<lparr>w_env := e\<rparr>)"
  by (simp add: about_to_send_def publishes_stored_env)

lemma about_to_send_weaken: "about_to_send K i past ev w \<Longrightarrow> publishes_stored K i past w"
  by (simp add: about_to_send_def)

text \<open>Publishing the persisted event, or one without the projection's marker.\<close>

lemma publishes_stored_sent:
  assumes "publishes_stored K i past w" "has_projection_marker ev \<Longrightarrow> stored_event i ev (w_db w)"
  shows "publishes_stored K i past (w\<lparr>w_env := e, w_log := Sent url ev # w_log w\<rparr>)"
proof -
  obtain new where new: "w_log w = new @ past"
    "\<forall>url e. Sent url e \<in> set new \<longrightarrow> has_projection_marker e \<longrightarrow> stored_event i e (w_db w)"
    using assms(1) by (auto simp: publishes_stored_def)
  then show ?thesis using assms
    by (auto simp: publishes_stored_def intro!: exI [of _ "Sent url ev # new"])
qed

lemma publishes_stored_confirmed:
  assumes "publishes_stored K i past w"
  shows "publishes_stored K i past (w\<lparr>w_env := e, w_clock := t, w_log := Confirmed url ev # w_log w\<rparr>)"
    "publishes_stored K i past (w\<lparr>w_env := e, w_clock := t\<rparr>)"
proof -
  obtain new where new: "w_log w = new @ past"
    "\<forall>url e. Sent url e \<in> set new \<longrightarrow> has_projection_marker e \<longrightarrow> stored_event i e (w_db w)"
    using assms by (auto simp: publishes_stored_def)
  then show "publishes_stored K i past (w\<lparr>w_env := e, w_clock := t, w_log := Confirmed url ev # w_log w\<rparr>)"
    using assms by (auto simp: publishes_stored_def intro!: exI [of _ "Confirmed url ev # new"])
  show "publishes_stored K i past (w\<lparr>w_env := e, w_clock := t\<rparr>)"
    using assms by (auto simp: publishes_stored_def)
qed

section \<open>Along the code\<close>

abbreviation keeps_stored :: "nostr_event set \<Rightarrow> uuid \<Rightarrow> relay_entry list \<Rightarrow> (('e, 'z) world_scheme, 'a) io \<Rightarrow> bool" where
  "keeps_stored K i past m \<equiv> leads (publishes_stored K i past) m (publishes_stored K i past) (\<lambda>_. publishes_stored K i past)"

lemma keeps_stored_op:
  assumes "\<And>now d a d'. m now d = Inr (a, d') \<Longrightarrow> d' = run_delivery_op (op now) d"
  shows "keeps_stored K i past (in_db out m)"
proof (rule leads_in_db)
  fix w a d assume P: "publishes_stored K i past w" and run: "m (db_time w) (w_db w) = Inr (a, d)"
  show "publishes_stored K i past (w\<lparr>w_db := d\<rparr>) \<and> publishes_stored K i past (w\<lparr>w_db := d\<rparr>)"
    using publishes_stored_op [OF P] assms [OF run] by simp
qed (simp_all add: publishes_stored_env)

lemma keeps_stored_on_db_op:
  assumes "\<And>now d. snd (f now d) = run_delivery_op (op now) d"
  shows "keeps_stored K i past (on_db out f)"
  unfolding on_db_def by (rule keeps_stored_op [where op = op]) (metis Inr_inject assms snd_conv)

lemma keeps_stored_mark: "keeps_stored K i past (in_db out (\<lambda>now. mark_delivering now j))"
  by (rule keeps_stored_op [where op = "\<lambda>now. Op_mark now j"]) (simp add: with_transaction_def)

lemma keeps_stored_complete: "keeps_stored K i past (in_db out (\<lambda>now. complete_bridge_delivery now j ev))"
  by (rule keeps_stored_op [where op = "\<lambda>now. Op_complete now j ev"]) (simp add: with_transaction_def)

lemma keeps_stored_cancel: "keeps_stored K i past (cancel_route dp j)"
  unfolding cancel_route_def
  by (rule keeps_stored_on_db_op [where op = "\<lambda>now. Op_cancel now j ''route_inactive''"]) simp

lemma keeps_stored_retry: "keeps_stored K i past (retry_delivery dp j code terminal e)"
  unfolding retry_delivery_def
  by (rule leads_then [OF keeps_stored_on_db_op [where op = "\<lambda>now. Op_retry now j code terminal"]])
    (auto intro: leads_return leads_throw)

lemma keeps_stored_read:
  assumes "\<And>d a d'. m d = Inr (a, d') \<Longrightarrow> d' = d"
  shows "leads (about_to_send K i past ev) (in_db out (\<lambda>_. m)) (publishes_stored K i past) (\<lambda>_. about_to_send K i past ev)"
    "keeps_stored K i past (in_db out (\<lambda>_. m))"
  by (rule leads_in_db; auto simp: about_to_send_env publishes_stored_env dest!: assms
      intro: about_to_send_weaken)+

lemma keeps_stored_hint:
  assumes "carries_template (dp_sign dp)"
  shows "keeps_stored K i past (hint_direct_channel dp s c)"
proof -
  have "\<not> has_projection_marker (dp_sign dp key (notice_template content channel ''hint'' now))"
    for key content channel now
    using assms by (simp add: carries_template_def has_projection_marker_def notice_template_def tag_at_def)
  then have notice: "keeps_stored K i past (publish_notice dp s content channel ''hint'')" for content channel
    unfolding publish_notice_def
    by (intro leads_then [where R = "\<lambda>_. publishes_stored K i past"] leads_get leads_publish)
      (auto intro!: publishes_stored_sent)
  have claim: "keeps_stored K i past (on_db (dp_out dp)
      (\<lambda>_. claim_direct_channel_hint (ctx_endpoint c, ctx_community c)))"
    unfolding on_db_def
  proof (rule leads_in_db)
    fix w a d
    assume P: "publishes_stored K i past w"
      and run: "Inr (claim_direct_channel_hint (ctx_endpoint c, ctx_community c) (w_db w)) = Inr (a, d)"
    then have d: "d = snd (claim_direct_channel_hint (ctx_endpoint c, ctx_community c) (w_db w))" by (metis Inr_inject snd_conv)
    have "deliveries d = deliveries (w_db w)" by (simp add: d claim_direct_channel_hint_def)
    then have same: "stored_event i e (w_db w) \<Longrightarrow> stored_event i e d" for e
      by (simp add: stored_event_def delivery_by_id_def)
    have "schema_ok d" using P d claims_keep_schema(3) by (auto simp: publishes_stored_def)
    then show "publishes_stored K i past (w\<lparr>w_db := d\<rparr>) \<and> publishes_stored K i past (w\<lparr>w_db := d\<rparr>)"
      using publishes_stored_db [OF P _ same] by blast
  qed (simp_all add: publishes_stored_env)
  show ?thesis
    unfolding hint_direct_channel_def
    by (intro leads_catch leads_then [OF claim] leads_if leads_return notice) auto
qed

lemma keeps_stored_finish:
  assumes "carries_template (dp_sign dp)"
  shows "keeps_stored K i past (finish_delivery dp s c i ev)"
  unfolding finish_delivery_def
  by (rule leads_then [OF keeps_stored_complete keeps_stored_hint [OF assms]])

lemma send_event_leads:
  assumes "carries_template (dp_sign dp)"
  shows "leads (about_to_send K i past ev) (send_event dp s c i terminal ev)
    (publishes_stored K i past) (\<lambda>_. publishes_stored K i past)"
proof -
  have publish: "leads (about_to_send K i past ev) (io_attempt (relay_publish (dp_out dp) (relay_url s) ev))
      (publishes_stored K i past) (\<lambda>_. publishes_stored K i past)"
    by (intro leads_attempt leads_publish)
      (auto simp: about_to_send_def intro!: publishes_stored_sent)
  have has: "keeps_stored K i past (relay_has (dp_out dp) (relay_url s) ev)"
    by (rule leads_has) (simp_all add: publishes_stored_confirmed)
  show ?thesis
    unfolding send_event_def
  proof (rule leads_then [OF publish])
    fix answer :: "unit res"
    show "keeps_stored K i past (case answer of Inl e \<Rightarrow>
          call_then (relay_has (dp_out dp) (relay_url s) ev) (\<lambda>stored.
            if stored then finish_delivery dp s c i ev
            else retry_delivery dp i (delivery_error_code e) terminal e)
        | Inr _ \<Rightarrow> finish_delivery dp s c i ev)"
      by (cases answer) (auto intro!: leads_then [OF has] leads_if keeps_stored_finish [OF assms] keeps_stored_retry)
  qed
qed

lemma persist_leads:
  "leads (publishes_stored K i past) (in_db out (\<lambda>t. persist_destination_event t i projection))
     (publishes_stored K i past) (about_to_send K i past)"
proof (rule leads_in_db)
  fix w a d assume P: "publishes_stored K i past w"
    and run: "persist_destination_event (db_time w) i projection (w_db w) = Inr (a, d)"
  have "d = run_delivery_op (Op_persist (db_time w) i projection) (w_db w)"
    using run by (simp add: with_transaction_def)
  then have "publishes_stored K i past (w\<lparr>w_db := d\<rparr>)" using publishes_stored_op [OF P, of "Op_persist (db_time w) i projection"] by simp
  moreover have "stored_event i a d"
    by (rule persist_stores [OF _ run]) (use P in \<open>simp add: publishes_stored_def\<close>)
  ultimately show "publishes_stored K i past (w\<lparr>w_db := d\<rparr>) \<and> about_to_send K i past a (w\<lparr>w_db := d\<rparr>)"
    by (simp add: about_to_send_def)
qed (simp_all add: publishes_stored_env)

lemma deliver_over_leads:
  assumes "carries_template (dp_sign dp)"
  shows "keeps_stored K i past (deliver_over dp s c i terminal)"
proof -
  have active: "leads (about_to_send K i past ev) (on_db (dp_out dp) (\<lambda>_ d. (is_route_active i d, d)))
      (publishes_stored K i past) (\<lambda>_. about_to_send K i past ev)" for ev
    unfolding on_db_def by (rule keeps_stored_read(1)) simp
  have cancel: "leads (about_to_send K i past ev) (cancel_route dp i) (publishes_stored K i past) (\<lambda>_. publishes_stored K i past)" for ev
    by (rule leads_weaken [OF keeps_stored_cancel]) (auto simp: about_to_send_def)
  have pure: "keeps_stored K i past (io_get g)" "keeps_stored K i past (io_res r)" for g r
    by (auto intro: leads_get leads_res)
  show ?thesis
    unfolding deliver_over_def
    by (intro leads_then [OF keeps_stored_mark] leads_if leads_return leads_then [OF pure(1)]
        leads_then [OF pure(2)] leads_then [OF persist_leads] leads_then [OF active] cancel
        send_event_leads [OF assms]) auto
qed

lemma get_context_same: "get_bridge_delivery_context i d = Inr (a, d') \<Longrightarrow> d' = d"
  by (auto simp: get_bridge_delivery_context_def split: option.splits prod.splits if_splits)

lemma deliver_leads:
  assumes "carries_template (dp_sign dp)"
  shows "keeps_stored K i past (deliver dp i terminal)"
proof -
  have read: "keeps_stored K i past (in_db (dp_out dp) (\<lambda>_. get_bridge_delivery_context i))"
    by (rule keeps_stored_read(2)) (rule get_context_same)
  have look: "keeps_stored K i past (io_get g)" for g by (rule leads_get) simp
  have ret: "keeps_stored K i past (io_return ())" by (rule leads_return) simp
  show ?thesis
    unfolding deliver_def
    by (intro leads_then [OF read] leads_option leads_if ret keeps_stored_cancel keeps_stored_retry
        leads_then [OF look] deliver_over_leads [OF assms])
qed

text \<open>
  C15. Retries resend: whatever a delivery's first attempt published, every later
  attempt, by this process or another one, with its own clock, keys and
  sessions, after any other operations on deliveries, publishes the very same
  signed event; and that event is persisted before the attempt ends.
\<close>

theorem retries_resend_same_event:
  assumes "carries_template (dp_sign dp)" "carries_template (dp_sign dp')" "schema_ok (w_db w)"
    and "deliver dp i terminal w = (r, w1)" "sent_since (w_log w) (w_log w1) e" "has_projection_marker e"
    and "w_db v = run_delivery_ops ops (w_db w1)"
    and "deliver dp' i terminal' v = (r', v1)" "sent_since (w_log v) (w_log v1) e'" "has_projection_marker e'"
  shows "e' = e \<and> stored_event i e (w_db w1)"
proof -
  have stored: "schema_ok (w_db u1) \<and> stored_event i x (w_db u1) \<and> (\<forall>y \<in> K. stored_event i y (w_db u1))"
    if "carries_template (dp_sign q)" "schema_ok (w_db u)" "\<forall>y \<in> K. stored_event i y (w_db u)"
      "deliver q i t u = (s, u1)" "sent_since (w_log u) (w_log u1) x" "has_projection_marker x" for q u u1 s t x K
    using leadsD [OF deliver_leads [OF that(1)], of K i "w_log u" u t s u1] that
    by (auto simp: publishes_stored_def sent_since_def)
  note first = stored [OF assms(1,3) _ assms(4,5,6), of "{}"]
  have ok: "schema_ok (w_db v)" unfolding assms(7) using run_delivery_ops_reach first by blast
  have "\<forall>y \<in> {e}. stored_event i y (w_db v)" unfolding assms(7) using stored_event_op first by blast
  from stored [OF assms(2) ok this assms(8,9,10)] first show ?thesis
    by (auto dest: stored_event_unique)
qed

section \<open>A relay that is down\<close>

definition relay_down :: "'e outside \<Rightarrow> bool" where
  "relay_down out \<longleftrightarrow>
     (\<forall>url ev i e. fst (out_publish out url ev e) \<noteq> None \<and> \<not> fst (fst (out_has out url i e)))"

definition signs_hex_ids :: "signer \<Rightarrow> bool" where
  "signs_hex_ids sign \<longleftrightarrow> (\<forall>key t. is_hex_string 64 (ev_id (sign key t)))"

lemma delivery_by_id_update:
  assumes "\<And>x. dl_id (f x) = dl_id x"
  shows "delivery_by_id (update_delivery P f d) i = map_option (\<lambda>x. if P x then f x else x) (delivery_by_id d i)"
proof -
  have "find (\<lambda>x. dl_id x = i) (update_where P f xs) =
      map_option (\<lambda>x. if P x then f x else x) (find (\<lambda>x. dl_id x = i) xs)" for xs
    by (induction xs) (simp_all add: assms)
  then show ?thesis by (simp add: delivery_by_id_def update_delivery_def)
qed

text \<open>The delivery after \<open>deliver\<close> ended with \<open>r\<close>: closed, or waiting and to be run again.\<close>

definition settled :: "uuid \<Rightarrow> bool \<Rightarrow> unit res \<times> ('e, 'z) world_scheme \<Rightarrow> bool" where
  "settled i terminal q \<longleftrightarrow> (\<exists>y. delivery_by_id (w_db (snd q)) i = Some y \<and>
     (dl_state y \<in> final_states \<and> fst q = Inr () \<or>
      dl_state y = Retry \<and> \<not> terminal \<and> fst q \<noteq> Inr ()))"

lemma cancel_settles:
  assumes "queries_ok (dp_out dp)" "delivery_by_id (w_db w) i = Some x" "dl_state x \<noteq> Delivered_to_relay"
  shows "settled i terminal (cancel_route dp i w)"
  using assms(2,3) find_Some_set [OF assms(2) [unfolded delivery_by_id_def]]
  by (simp add: cancel_route_def on_db_ok [OF assms(1)] settled_def cancel_delivery_def
      delivery_by_id_update final_states_def)

lemma retry_settles:
  assumes "queries_ok (dp_out dp)" "delivery_by_id (w_db w) i = Some x"
    "dl_state x \<noteq> Delivered_to_relay" "dl_state x \<noteq> Cancelled"
  shows "settled i terminal (retry_delivery dp i code terminal e w)"
  using assms(2-4) find_Some_set [OF assms(2) [unfolded delivery_by_id_def]]
  by (auto simp: retry_delivery_def on_db_ok [OF assms(1)] settled_def mark_retry_def call_then_def
      delivery_by_id_update final_states_def io_return_def io_throw_def)

lemma read_context:
  assumes "get_bridge_delivery_context i d = Inr (Some c, d')"
  obtains x m dst where "delivery_by_id d i = Some x" "ctx_state c = dl_state x" "ctx_event c = dl_event x"
    "ctx_local_parent c = local_parent_event d m dst"
  using assms
  by (auto simp: get_bridge_delivery_context_def joined_delivery_def bind_eq_Some_conv
      split: option.splits prod.splits if_splits)

lemma local_parent_hex:
  assumes "schema_ok d" "local_parent_event d m dst = Some p"
  shows "is_hex_string 64 p"
proof -
  obtain q where "q \<in> set (mappings d)" "map_local_event q = p"
    using assms(2) by (auto simp: local_parent_event_def split: option.splits dest!: find_Some_set)
  then show ?thesis
    using schema_ok_tables(9) [OF assms(1)] by (auto simp: mappings_ok_def list_all_iff mapping_check_def)
qed

lemma projection_written:
  assumes "\<And>p. pi_local_parent q = Some p \<Longrightarrow> is_hex_string 64 p"
  shows "\<exists>t. create_destination_projection sign now q key = Inr (sign key t)"
  using assms
  by (cases "pi_local_parent q") (auto simp: create_destination_projection_def projection_template_def Let_def)

lemma delivering_row:
  assumes "delivery_by_id d i = Some x" "dl_state x \<in> {Queued, Retry, Delivering}"
  shows "\<exists>y d'. with_transaction (mark_delivering now i) d = (Inr True, d') \<and>
    d' = d\<lparr>deliveries := deliveries d'\<rparr> \<and>
    delivery_by_id d' i = Some y \<and> dl_state y = Delivering \<and> dl_event y = dl_event x \<and>
    dl_event_id y = dl_event_id x \<and> dl_message y = dl_message x \<and> dl_destination y = dl_destination x"
proof -
  have "x \<in> set (deliveries d)" "dl_id x = i"
    using find_Some_set [OF assms(1) [unfolded delivery_by_id_def]] by auto
  then show ?thesis
    using assms
    by (auto simp: mark_delivering_def with_transaction_def tx_defs delivery_by_id_update can_deliver_def has_row_iff)
      (simp_all add: update_delivery_def)
qed

lemma persisted_row:
  assumes "delivery_by_id d i = Some x" "dl_state x = Delivering"
    and "dl_event x = Some ev \<or> dl_event x = None \<and> is_hex_string 64 (ev_id ev)"
  shows "\<exists>y d'. with_transaction (persist_destination_event now i ev) d = (Inr ev, d') \<and>
    d' = d\<lparr>deliveries := deliveries d'\<rparr> \<and> delivery_by_id d' i = Some y \<and> dl_state y = Delivering \<and>
    (dl_event_id x = map_option ev_id (dl_event x) \<longrightarrow> dl_event_id y = Some (ev_id ev)) \<and>
    dl_message y = dl_message x \<and> dl_destination y = dl_destination x"
  using assms find_Some_set [OF assms(1) [unfolded delivery_by_id_def]]
  by (auto simp: persist_destination_event_def with_transaction_def tx_defs tx_row_def delivery_by_id_update)
    (simp_all add: update_delivery_def)

lemma outage_send_settles:
  assumes "queries_ok (dp_out dp)" "relay_down (dp_out dp)"
    and "delivery_by_id (w_db w) i = Some x" "dl_state x = Delivering"
  shows "settled i terminal (send_event dp s c i terminal ev w)"
proof -
  obtain e n where p: "out_publish (dp_out dp) (relay_url s) ev (w_env w) = (Some e, n)"
    using assms(2) by (metis not_None_eq prod.collapse relay_down_def)
  obtain ms n' where h: "out_has (dp_out dp) (relay_url s) (ev_id ev) n = ((False, ms), n')"
    using assms(2) by (metis (full_types) prod.collapse relay_down_def)
  let ?v = "w\<lparr>w_env := n', w_clock := w_clock w + int ms, w_log := Sent (relay_url s) ev # w_log w\<rparr>"
  have "send_event dp s c i terminal ev w = retry_delivery dp i (delivery_error_code e) terminal e ?v"
    by (simp add: send_event_def io_attempt_def relay_publish_def relay_has_def call_then_def p h)
  then show ?thesis
    using retry_settles [OF assms(1), of ?v] assms(3,4) by simp
qed

text \<open>The events an attempt may publish for a delivery: the persisted one, or one signed now.\<close>

definition event_of_attempt :: "signer \<Rightarrow> delivery_context \<Rightarrow> nostr_event \<Rightarrow> bool" where
  "event_of_attempt sign c ev \<longleftrightarrow>
     (case ctx_event c of Some e \<Rightarrow> ev = e | None \<Rightarrow> \<exists>key t. ev = sign key t)"

text \<open>Up to the second look at the route, an attempt over a database that answers cannot fail.\<close>

lemma deliver_over_run:
  assumes out: "queries_ok (dp_out dp)" and sign: "signs_hex_ids (dp_sign dp)"
    and parent: "\<And>p. ctx_local_parent c = Some p \<Longrightarrow> is_hex_string 64 p"
    and x: "delivery_by_id (w_db w) i = Some x" "dl_state x \<in> {Queued, Retry, Delivering}"
    and event: "ctx_event c = dl_event x"
  obtains ev z v where "event_of_attempt (dp_sign dp) c ev"
    "w_db v = (w_db w)\<lparr>deliveries := deliveries (w_db v)\<rparr>"
    "delivery_by_id (w_db v) i = Some z" "dl_state z = Delivering"
    "dl_event_id x = map_option ev_id (dl_event x) \<Longrightarrow> dl_event_id z = Some (ev_id ev)"
    "dl_message z = dl_message x" "dl_destination z = dl_destination x"
    "deliver_over dp s c i terminal w =
       (if is_route_active i (w_db v) then send_event dp s c i terminal ev v else cancel_route dp i v)"
proof -
  note in_db = in_db_ok [OF out] and on_db = on_db_ok [OF out]
  obtain y d1 where y: "with_transaction (mark_delivering (db_time w) i) (w_db w) = (Inr True, d1)"
    "d1 = (w_db w)\<lparr>deliveries := deliveries d1\<rparr>"
    "delivery_by_id d1 i = Some y" "dl_state y = Delivering" "dl_event y = dl_event x"
    "dl_event_id y = dl_event_id x" "dl_message y = dl_message x" "dl_destination y = dl_destination x"
    using delivering_row [OF x, of "db_time w"] by blast
  let ?w1 = "w\<lparr>w_env := snd (out_query (dp_out dp) (w_env w)), w_db := d1\<rparr>"
  obtain t where t: "create_destination_projection (dp_sign dp) (now_seconds ?w1) (projection_of c) (se_key s) =
      Inr (dp_sign dp (se_key s) t)"
  proof -
    have "pi_local_parent (projection_of c) = Some p \<Longrightarrow> is_hex_string 64 p" for p
      using parent by (simp add: projection_of_def)
    from projection_written [OF this] that show thesis by blast
  qed
  define ev where "ev = (case ctx_event c of Some e \<Rightarrow> e | None \<Rightarrow> dp_sign dp (se_key s) t)"
  have ev: "(case ctx_event c of Some e \<Rightarrow> Inr e
      | None \<Rightarrow> create_destination_projection (dp_sign dp) (now_seconds ?w1) (projection_of c) (se_key s)) = Inr ev"
    using t by (simp add: ev_def split: option.split)
  have attempt: "event_of_attempt (dp_sign dp) c ev"
    by (auto simp: event_of_attempt_def ev_def split: option.split)
  have "dl_event y = Some ev \<or> dl_event y = None \<and> is_hex_string 64 (ev_id ev)"
    using sign by (auto simp: ev_def event y(5) signs_hex_ids_def split: option.split)
  then obtain z d2 where z: "with_transaction (persist_destination_event (db_time ?w1) i ev) d1 = (Inr ev, d2)"
    "d2 = d1\<lparr>deliveries := deliveries d2\<rparr>"
    "delivery_by_id d2 i = Some z" "dl_state z = Delivering"
    "dl_event_id y = map_option ev_id (dl_event y) \<Longrightarrow> dl_event_id z = Some (ev_id ev)"
    "dl_message z = dl_message y" "dl_destination z = dl_destination y"
    using persisted_row [OF y(3,4), of ev "db_time ?w1"] by blast
  let ?n = "\<lambda>n. snd (out_query (dp_out dp) n)"
  let ?v = "w\<lparr>w_db := d2, w_env := ?n (?n (?n (w_env w)))\<rparr>"
  have run: "deliver_over dp s c i terminal w =
      (if is_route_active i d2 then send_event dp s c i terminal ev ?v else cancel_route dp i ?v)"
    using ev z(1) y(1)
    by (simp add: deliver_over_def call_then_def in_db on_db io_get_def io_res_def)
  have "d2 = (w_db w)\<lparr>deliveries := deliveries d2\<rparr>"
    by (subst z(2), subst y(2)) simp
  then show thesis
    using that [of ev ?v z] attempt z(3-7) y(5-8) run by simp
qed

lemma outage_deliver_over_settles:
  assumes out: "queries_ok (dp_out dp)" "relay_down (dp_out dp)" and sign: "signs_hex_ids (dp_sign dp)"
    and parent: "\<And>p. ctx_local_parent c = Some p \<Longrightarrow> is_hex_string 64 p"
    and x: "delivery_by_id (w_db w) i = Some x" "dl_state x \<in> {Queued, Retry, Delivering}"
    and event: "ctx_event c = dl_event x"
  shows "settled i terminal (deliver_over dp s c i terminal w)"
proof (rule deliver_over_run [OF out(1) sign parent x event])
  fix ev z v
  assume z: "delivery_by_id (w_db v) i = Some z" "dl_state z = Delivering"
    and run: "deliver_over dp s c i terminal w =
       (if is_route_active i (w_db v) then send_event dp s c i terminal ev v else cancel_route dp i v)"
  then show ?thesis using outage_send_settles [OF out z] cancel_settles [OF out(1) z(1)] z(2) by simp
qed

text \<open>With a readable context, \<open>deliver\<close> over a database that answers is its decision tree.\<close>

lemma deliver_run:
  assumes "queries_ok (dp_out dp)" "get_bridge_delivery_context i (w_db w) = Inr (Some c, d)"
  shows "deliver dp i terminal w =
      (if ctx_state c \<in> final_states then io_return ()
       else if \<not> ctx_route_active c then cancel_route dp i
       else if present (ctx_source_parent c) \<and> \<not> present (ctx_local_parent c)
       then retry_delivery dp i ''parent_mapping_missing'' terminal (Api ''parent_mapping_missing'' 409)
       else case map_of (sv_sessions w) (ctx_connection c) of
           None \<Rightarrow> retry_delivery dp i ''connector_unavailable'' terminal (Api ''connector_unavailable'' 503)
         | Some s \<Rightarrow> deliver_over dp s c i terminal)
      (w\<lparr>w_env := snd (out_query (dp_out dp) (w_env w)), w_db := w_db w\<rparr>)"
  using assms(2) get_context_same [OF assms(2)]
  by (simp add: deliver_def call_then_def in_db_ok [OF assms(1)] with_transaction_def io_get_def)


section \<open>A relay that answers\<close>

lemma find_refine: "find Q xs = Some x \<Longrightarrow> P x \<Longrightarrow> (\<And>y. P y \<Longrightarrow> Q y) \<Longrightarrow> find P xs = Some x"
  by (induction xs) (auto split: if_splits)

lemma completed_row:
  assumes z: "delivery_by_id d i = Some z" "dl_state z = Delivering" "dl_event_id z = Some (ev_id ev)"
    and m: "message_by_id d (dl_message z) = Some m" and hex: "is_hex_string 64 (ev_id ev)"
    and free: "\<forall>p \<in> set (mappings d). map_event_key p = (dl_destination z, ev_id ev) \<longrightarrow> map_message p = dl_message z"
  shows "\<exists>d' y. with_transaction (complete_bridge_delivery now i ev) d = (Inr (), d') \<and>
    delivery_by_id d' i = Some y \<and> dl_state y = Delivered_to_relay \<and>
    (\<exists>p \<in> set (mappings d'). map_message_key p = (dl_destination z, dl_message z))"
proof -
  have "dl_id z = i" using find_Some_set [OF z(1) [unfolded delivery_by_id_def]] by simp
  then have can: "can_complete i ev d z" using z m by (simp add: can_complete_def)
  then have row: "find (can_complete i ev d) (deliveries d) = Some z"
    by (rule find_refine [OF z(1) [unfolded delivery_by_id_def]]) (simp add: can_complete_def)
  let ?f = "\<lambda>y. y\<lparr>dl_state := Delivered_to_relay, dl_delivered_at := Some now, dl_error := None, dl_updated_at := now\<rparr>"
  let ?d1 = "update_delivery (can_complete i ev d) ?f d"
  let ?m = "\<lparr>map_channel = msg_channel m, map_endpoint = dl_destination z, map_message = dl_message z,
     map_local_event = ev_id ev, map_local_parent = None\<rparr>"
  have d1: "delivery_by_id ?d1 i = Some (?f z)" "mappings ?d1 = mappings d"
    using z(1) can by (simp_all add: delivery_by_id_update) (simp add: update_delivery_def)
  have once: "\<exists>d'. insert_mapping_once ?m ?d1 = Inr ((), d') \<and> deliveries d' = deliveries ?d1 \<and>
      (\<exists>p \<in> set (mappings d'). map_message_key p = (dl_destination z, dl_message z))"
  proof (cases "has_row (\<lambda>x. map_message_key x = map_message_key ?m) (mappings ?d1)")
    case True
    then show ?thesis
      by (auto simp: insert_mapping_once_def tx_defs has_row_iff map_message_key_def)
  next
    case False
    moreover have "\<not> has_row (\<lambda>x. map_event_key x = map_event_key ?m) (mappings ?d1)"
    proof
      assume "has_row (\<lambda>x. map_event_key x = map_event_key ?m) (mappings ?d1)"
      then obtain p where p: "p \<in> set (mappings d)" "map_event_key p = (dl_destination z, ev_id ev)"
        by (auto simp: has_row_iff d1(2) map_event_key_def)
      then have "map_message_key p = map_message_key ?m"
        using free by (auto simp: map_event_key_def map_message_key_def)
      then show False using False p(1) by (auto simp: has_row_iff d1(2))
    qed
    moreover have "mapping_check ?m" using hex by (simp add: mapping_check_def hex_or_null_def)
    ultimately show ?thesis
      by (auto simp: insert_mapping_once_def insert_mapping_def tx_defs has_row_or map_message_key_def)
  qed
  then obtain d' where d': "insert_mapping_once ?m ?d1 = Inr ((), d')" "deliveries d' = deliveries ?d1"
    "\<exists>p \<in> set (mappings d'). map_message_key p = (dl_destination z, dl_message z)" by blast
  have "with_transaction (complete_bridge_delivery now i ev) d = (Inr (), d')"
    using row m d'(1)
    by (simp add: complete_bridge_delivery_def with_transaction_def tx_row_def tx_defs)
  moreover have "delivery_by_id d' i = Some (?f z)" using d1(1) d'(2) by (simp add: delivery_by_id_def)
  ultimately show ?thesis using d'(3) by (intro exI [of _ d'] exI [of _ "?f z"]) simp
qed

lemma hint_result:
  assumes "queries_ok (dp_out dp)"
  shows "\<exists>v. hint_direct_channel dp s c w = (Inr (), v) \<and> deliveries (w_db v) = deliveries (w_db w) \<and>
    mappings (w_db v) = mappings (w_db w)"
proof -
  obtain r v where run: "hint_direct_channel dp s c w = (r, v)" by fastforce
  have "r = Inr () \<and> deliveries (w_db v) = deliveries (w_db w) \<and> mappings (w_db v) = mappings (w_db w)"
    using run
    by (auto simp: hint_direct_channel_def io_catch_def call_then_def on_db_ok [OF assms] publish_notice_def
        io_return_def io_get_def relay_publish_def claim_direct_channel_hint_def
        split: prod.splits sum.splits option.splits if_splits)
  with run show ?thesis by blast
qed

definition relay_accepts :: "'e outside \<Rightarrow> bool" where
  "relay_accepts out \<longleftrightarrow> (\<forall>url ev e. fst (out_publish out url ev e) = None)"

lemma read_active_context:
  assumes "get_bridge_delivery_context i d = Inr (Some c, d')" "delivery_by_id d i = Some x"
  shows "\<exists>m src dst. message_by_id d (dl_message x) = Some m \<and> channel_by_id d (msg_channel m) \<noteq> None \<and>
    endpoint_by_id d (msg_source m) = Some src \<and> endpoint_by_id d (dl_destination x) = Some dst \<and>
    ctx_route_active c = route_open d (msg_channel m) src dst \<and>
    ctx_endpoint c = dl_destination x \<and> ctx_message c = dl_message x"
  using assms
  by (auto simp: endpoint_by_id_def message_by_id_def dest!: find_Some_set simp: get_bridge_delivery_context_def joined_delivery_def bind_eq_Some_conv
      split: option.splits prod.splits if_splits)

lemma still_active:
  assumes "d' = d\<lparr>deliveries := deliveries d'\<rparr>" "delivery_by_id d' i = Some z" "dl_state z = Delivering"
    and "message_by_id d (dl_message z) = Some m" "channel_by_id d (msg_channel m) \<noteq> None"
    and "endpoint_by_id d (msg_source m) = Some src" "endpoint_by_id d (dl_destination z) = Some dst"
    and "route_open d (msg_channel m) src dst"
  shows "is_route_active i d'"
proof -
  have same: "message_by_id d' = message_by_id d" "channel_by_id d' = channel_by_id d"
    "endpoint_by_id d' = endpoint_by_id d" "channel_active d' = channel_active d"
    by (subst assms(1), simp add: message_by_id_def channel_by_id_def endpoint_by_id_def channel_active_def fun_eq_iff)+
  have "joined_delivery d' i = Some (z, m, src, dst)"
    using assms(2-7) by (auto simp: joined_delivery_def same)
  then show ?thesis using assms(3,8) by (simp add: is_route_active_def route_open_def same)
qed

lemma finish_arrives:
  assumes ok: "queries_ok (dp_out dp)" "relay_accepts (dp_out dp)"
    and z: "delivery_by_id (w_db w) i = Some z" "dl_state z = Delivering" "dl_event_id z = Some (ev_id ev)"
    and m: "message_by_id (w_db w) (dl_message z) = Some m" and hex: "is_hex_string 64 (ev_id ev)"
    and free: "\<forall>p \<in> set (mappings (w_db w)).
      map_event_key p = (dl_destination z, ev_id ev) \<longrightarrow> map_message p = dl_message z"
  shows "\<exists>y v. send_event dp s c i terminal ev w = (Inr (), v) \<and> delivery_by_id (w_db v) i = Some y \<and>
    dl_state y = Delivered_to_relay \<and>
    (\<exists>p \<in> set (mappings (w_db v)). map_message_key p = (dl_destination z, dl_message z))"
proof -
  have "fst (out_publish (dp_out dp) (relay_url s) ev (w_env w)) = None"
    using ok(2) by (simp add: relay_accepts_def)
  then obtain n where n: "out_publish (dp_out dp) (relay_url s) ev (w_env w) = (None, n)"
    by (metis prod.collapse)
  let ?w1 = "w\<lparr>w_env := n, w_log := Sent (relay_url s) ev # w_log w\<rparr>"
  obtain d y where d: "with_transaction (complete_bridge_delivery (db_time ?w1) i ev) (w_db w) = (Inr (), d)"
    "delivery_by_id d i = Some y" "dl_state y = Delivered_to_relay"
    "\<exists>p \<in> set (mappings d). map_message_key p = (dl_destination z, dl_message z)"
    using completed_row [OF z m hex free, of "db_time ?w1"] by blast
  let ?w2 = "?w1\<lparr>w_env := snd (out_query (dp_out dp) n), w_db := d\<rparr>"
  obtain v where v: "hint_direct_channel dp s c ?w2 = (Inr (), v)" "deliveries (w_db v) = deliveries (w_db ?w2)"
    "mappings (w_db v) = mappings (w_db ?w2)"
    using hint_result [OF ok(1)] by blast
  have "send_event dp s c i terminal ev w = hint_direct_channel dp s c ?w2"
    using d(1) by (simp add: send_event_def io_attempt_def relay_publish_def call_then_def n finish_delivery_def
        in_db_ok [OF ok(1)])
  then show ?thesis using v d(2-4) by (auto simp: delivery_by_id_def)
qed


end
