(* ===== verification/Reconnect_Properties.thy ===== *)
theory Reconnect_Properties
  imports Reconnect
begin

text \<open>
  What a pass of \<open>reconcile\<close> establishes: the sessions that remain are those of
  active connections, with the configuration of the database and a subscription
  that is not stale; and how long a connection that failed is left alone.
\<close>

section \<open>Current sessions\<close>

definition current_session :: "int \<Rightarrow> connection \<Rightarrow> route_config list \<Rightarrow> session \<Rightarrow> bool" where
  "current_session t c rs s \<longleftrightarrow> se_fingerprint s = connection_fingerprint c rs \<and> \<not> is_stale t s"

text \<open>The sessions belong to the configurations \<open>all\<close>; those of \<open>done\<close> are current.\<close>

definition tidy :: "int \<Rightarrow> uuid set \<Rightarrow> (connection \<times> route_config list) set \<Rightarrow> 'e supervisor \<Rightarrow> bool" where
  "tidy t ids checked w \<longleftrightarrow> w_clock w = t \<and> dom (map_of (sv_sessions w)) \<subseteq> ids \<and>
     (\<forall>(c, rs) \<in> checked. \<forall>s. map_of (sv_sessions w) (conn_id c) = Some s \<longrightarrow> current_session t c rs s)"

lemma tidy_same:
  "tidy t ids checked w \<Longrightarrow> w_clock w' = w_clock w \<Longrightarrow> sv_sessions w' = sv_sessions w \<Longrightarrow> tidy t ids checked w'"
  by (simp add: tidy_def)

lemma tidy_drop: "tidy t ids checked w \<Longrightarrow> tidy t ids checked (drop_session i w)"
  by (auto simp: tidy_def drop_session_def delete_conv' split: if_splits)

lemma dropped: "map_of (sv_sessions (drop_session i w)) i = None"
  by (simp add: drop_session_def delete_conv')

lemma tidy_put:
  assumes "tidy t ids checked w" "conn_id (se_config s) \<in> ids"
    and "\<And>c rs. (c, rs) \<in> checked \<Longrightarrow> conn_id c = conn_id (se_config s) \<Longrightarrow> current_session t c rs s"
  shows "tidy t ids checked ((put_session s w)\<lparr>sv_next_serial := n, sv_failures := fs\<rparr>)"
  using assms by (auto simp: tidy_def put_session_def update_conv' split: if_splits)

lemma tidy_insert:
  "tidy t ids checked w \<Longrightarrow> (\<And>s. map_of (sv_sessions w) (conn_id c) = Some s \<Longrightarrow> current_session t c rs s) \<Longrightarrow>
   tidy t ids (insert (c, rs) checked) w"
  by (auto simp: tidy_def)

lemma tidy_subset: "tidy t ids checked w \<Longrightarrow> checked' \<subseteq> checked \<Longrightarrow> tidy t ids checked' w"
  by (fastforce simp: tidy_def)

text \<open>Every step of one turn of the loop keeps what was established before it.\<close>

abbreviation keeps_tidy :: "int \<Rightarrow> uuid set \<Rightarrow> (connection \<times> route_config list) set \<Rightarrow> ('e, 'a) act \<Rightarrow> bool" where
  "keeps_tidy t ids checked m \<equiv> leads (tidy t ids checked) m (tidy t ids checked) (\<lambda>_. tidy t ids checked)"

lemma keeps_tidy_health: "keeps_tidy t ids checked (record_health dp i h e)"
  unfolding record_health_def on_db_def by (rule leads_in_db) (auto intro: tidy_same)

lemma keeps_tidy_ask: "keeps_tidy t ids checked (ask f)"
  by (rule leads_ask) (auto intro: tidy_same)

lemma keeps_tidy_closed: "keeps_tidy t ids checked (session_closed dp s reason)"
proof -
  have drop: "keeps_tidy t ids checked (io_put (drop_session i))" for i
    by (rule leads_put) (simp add: tidy_drop)
  have look: "keeps_tidy t ids checked (io_get g)" for g by (rule leads_get) simp
  show ?thesis
    unfolding session_closed_def
    by (intro leads_then [OF look] leads_if leads_then [OF drop] leads_catch keeps_tidy_health leads_return) simp_all
qed

lemma leads_extend:
  "keeps_tidy t ids all m \<Longrightarrow> checked \<subseteq> all \<Longrightarrow>
   leads (tidy t ids all) m (tidy t ids checked) (\<lambda>_. tidy t ids all)"
  by (erule leads_weaken) (auto intro: tidy_subset)

lemma open_session_leads:
  assumes "conn_id c \<in> ids" "\<forall>(c', rs') \<in> checked. conn_id c' = conn_id c \<longrightarrow> c' = c \<and> rs' = rs"
  shows "leads (\<lambda>w. tidy t ids checked w \<and> map_of (sv_sessions w) (conn_id c) = None)
    (open_session dp c rs) (tidy t ids checked) (\<lambda>_. tidy t ids (insert (c, rs) checked))"
    (is "leads ?P _ ?I ?Q")
proof -
  let ?all = "insert (c, rs) checked"
  let ?T = "tidy t ids ?all"
  have weak: "?T w \<Longrightarrow> ?I w" for w by (erule tidy_subset) auto
  have fresh: "?P w \<Longrightarrow> ?T w" for w by (auto intro: tidy_insert)
  have res: "leads ?P (io_res r) ?I (\<lambda>_. ?P)" for r by (rule leads_res) simp_all
  have ask: "leads ?P (ask f) ?I (\<lambda>_. ?P)" for f by (rule leads_ask) (auto intro: tidy_same)
  have refuse: "leads ?P (case x of Some e \<Rightarrow> io_throw e | None \<Rightarrow> io_return ()) ?I (\<lambda>_. ?P)" for x
    by (cases x) (auto intro: leads_throw leads_return)
  let ?new = "\<lambda>key w. \<lparr>se_config = c, se_routes = rs, se_fingerprint = connection_fingerprint c rs,
      se_key = key, se_last_inbound = w_clock w, se_serial = sv_next_serial w\<rparr>"
  let ?made = "\<lambda>s w. ?P w \<and> se_config s = c \<and> current_session t c rs s"
  have make: "leads ?P (io_get (?new key)) ?I ?made" for key
    by (rule leads_get) (auto simp: current_session_def is_stale_def tidy_def)
  have put: "leads (?made s) (io_put (\<lambda>w. (put_session s w)\<lparr>sv_next_serial := sv_next_serial w + 1,
         sv_failures := AList.delete (conn_id c) (sv_failures w)\<rparr>)) ?I (\<lambda>_. ?T)" for s
  proof (rule leads_put)
    fix w assume w: "?made s w"
    have "?T ((put_session s w)\<lparr>sv_next_serial := sv_next_serial w + 1,
         sv_failures := AList.delete (conn_id c) (sv_failures w)\<rparr>)"
      by (rule tidy_put) (use w assms fresh in auto)
    then show "?I ((put_session s w)\<lparr>sv_next_serial := sv_next_serial w + 1,
         sv_failures := AList.delete (conn_id c) (sv_failures w)\<rparr>) \<and>
      ?T ((put_session s w)\<lparr>sv_next_serial := sv_next_serial w + 1,
         sv_failures := AList.delete (conn_id c) (sv_failures w)\<rparr>)"
      using weak by blast
  qed
  have closing: "leads ?T (case x of Some reason \<Rightarrow> session_closed dp s reason | None \<Rightarrow> io_return ()) ?I (\<lambda>_. ?T)"
    for x s
    by (cases x) (auto intro: leads_extend [OF keeps_tidy_closed] leads_return weak)
  have look: "leads ?T (io_get g) ?I (\<lambda>_. ?T)" for g by (rule leads_get) (simp add: weak)
  have healthy: "leads ?T (record_health dp i h e) ?I (\<lambda>_. ?T)" for i h e
    by (rule leads_extend [OF keeps_tidy_health]) auto
  have subscribed: "leads ?T (ask f) ?I (\<lambda>_. ?T)" for f
    by (rule leads_extend [OF keeps_tidy_ask]) auto
  show ?thesis
    unfolding open_session_def
    by (intro leads_then [OF res] leads_then [OF ask] leads_then [OF refuse] leads_then [OF make]
        leads_then [OF put] leads_then [OF subscribed] leads_then [OF closing] leads_then [OF look]
        leads_if leads_return healthy) (auto intro: weak)
qed

lemma start_connection_leads:
  assumes "conn_id c \<in> ids" "\<forall>(c', rs') \<in> checked. conn_id c' = conn_id c \<longrightarrow> c' = c \<and> rs' = rs"
  shows "leads (\<lambda>w. tidy t ids checked w \<and> map_of (sv_sessions w) (conn_id c) = None)
    (start_connection dp c rs) (tidy t ids checked) (\<lambda>_. tidy t ids (insert (c, rs) checked))"
proof -
  have drop: "leads (tidy t ids checked) (io_put (\<lambda>w. note_failure (conn_id c) (drop_session (conn_id c) w)))
      (tidy t ids checked) (\<lambda>_. tidy t ids (insert (c, rs) checked))"
  proof (rule leads_put)
    fix w assume w: "tidy t ids checked w"
    let ?w' = "note_failure (conn_id c) (drop_session (conn_id c) w)"
    have same: "w_clock ?w' = w_clock (drop_session (conn_id c) w)"
      "sv_sessions ?w' = sv_sessions (drop_session (conn_id c) w)"
      by (simp_all add: note_failure_def Let_def)
    have "tidy t ids checked ?w'" by (rule tidy_same [OF tidy_drop [OF w] same])
    moreover have "map_of (sv_sessions ?w') (conn_id c) = None"
      unfolding same(2) by (rule dropped)
    ultimately show "tidy t ids checked ?w' \<and> tidy t ids (insert (c, rs) checked) ?w'"
      by (auto intro: tidy_insert)
  qed
  have health: "leads (tidy t ids (insert (c, rs) checked)) (record_health dp i h e)
      (tidy t ids checked) (\<lambda>_. tidy t ids (insert (c, rs) checked))" for i h e
    by (rule leads_extend [OF keeps_tidy_health]) auto
  show ?thesis
    unfolding start_connection_def
    by (rule leads_catch [OF open_session_leads [OF assms] leads_then [OF drop health]])
qed

lemma reconcile_config_leads:
  assumes "conn_id c \<in> ids" "\<forall>(c', rs') \<in> checked. conn_id c' = conn_id c \<longrightarrow> c' = c \<and> rs' = rs"
  shows "leads (tidy t ids checked) (reconcile_config dp (c, rs))
    (tidy t ids checked) (\<lambda>_. tidy t ids (insert (c, rs) checked))"
proof -
  let ?I = "tidy t ids checked"
  let ?Q = "\<lambda>_. tidy t ids (insert (c, rs) checked)"
  let ?gone = "\<lambda>w. ?I w \<and> map_of (sv_sessions w) (conn_id c) = None"
  let ?seen = "\<lambda>(now, current) w. ?I w \<and> now = t \<and> current = map_of (sv_sessions w) (conn_id c)"
  have look: "leads ?I (io_get (\<lambda>w. (w_clock w, map_of (sv_sessions w) (conn_id c)))) ?I ?seen"
    by (rule leads_get) (simp add: tidy_def)
  have keep: "leads (?seen (now, current)) (io_return ()) ?I ?Q"
    if "case current of None \<Rightarrow> False
        | Some s \<Rightarrow> se_fingerprint s = connection_fingerprint c rs \<and> \<not> is_stale now s" for now current
    by (rule leads_return) (use that in \<open>auto simp: current_session_def intro!: tidy_insert split: option.splits\<close>)
  have clear: "leads (?seen (now, current))
      (io_put (if current = None then (\<lambda>w. w) else drop_session (conn_id c))) ?I (\<lambda>_. ?gone)" for now current
    by (rule leads_put) (auto simp: tidy_drop dropped)
  have failed: "leads ?gone (io_get g) ?I (\<lambda>_. ?gone)" for g by (rule leads_get) simp
  have wait: "leads ?gone (io_return ()) ?I ?Q"
    by (rule leads_return) (auto intro: tidy_insert)
  show ?thesis
    unfolding reconcile_config_def prod.case
    apply (rule leads_then [OF look])
    subgoal for x
      apply (cases x)
      apply (simp only: prod.case)
      apply (rule leads_if)
       apply (erule keep [unfolded prod.case])
      apply (rule leads_then [OF clear [unfolded prod.case]])
      apply (rule leads_then [OF failed])
      apply (rule leads_if)
       apply (rule wait)
      apply (rule start_connection_leads [OF assms])
      done
    done
qed

lemma reconcile_each_leads:
  assumes "set cfgs \<subseteq> all" "conn_id ` fst ` all \<subseteq> ids"
    and "\<forall>x \<in> all. \<forall>y \<in> all. conn_id (fst x) = conn_id (fst y) \<longrightarrow> x = y"
  shows "checked \<subseteq> all \<Longrightarrow> leads (tidy t ids checked) (io_each (reconcile_config dp) cfgs) (\<lambda>_. True)
    (\<lambda>_. tidy t ids (checked \<union> set cfgs))"
  using assms(1)
proof (induction cfgs arbitrary: checked)
  case Nil
  then show ?case by (simp add: leads_return)
next
  case (Cons x xs)
  obtain c rs where x: "x = (c, rs)" by (cases x)
  have "leads (tidy t ids checked) (reconcile_config dp (c, rs)) (tidy t ids checked)
      (\<lambda>_. tidy t ids (insert (c, rs) checked))"
  proof (rule reconcile_config_leads)
    have all: "(c, rs) \<in> all" using Cons.prems(2) x by simp
    then show "conn_id c \<in> ids" using assms(2) by force
    have "c' = c \<and> rs' = rs" if "(c', rs') \<in> checked" "conn_id c' = conn_id c" for c' rs'
      using assms(3) all Cons.prems(1) that by (metis fst_conv prod.inject subsetD)
    then show "\<forall>(c', rs') \<in> checked. conn_id c' = conn_id c \<longrightarrow> c' = c \<and> rs' = rs" by blast
  qed
  then have step: "leads (tidy t ids checked) (reconcile_config dp x) (\<lambda>_. True)
      (\<lambda>_. tidy t ids (insert x checked))"
    unfolding x by (rule leads_weaken) auto
  have "leads (tidy t ids (insert x checked)) (io_each (reconcile_config dp) xs) (\<lambda>_. True)
      (\<lambda>_. tidy t ids (insert x checked \<union> set xs))"
    by (rule Cons.IH) (use Cons.prems in auto)
  with step show ?case by (auto intro: leads_then)
qed

section \<open>A pass always ends\<close>

lemma always_on_db: "queries_ok out \<Longrightarrow> always (on_db out f)"
  by (simp add: always_def on_db_ok split: prod.splits)

lemma always_if: "always m \<Longrightarrow> always n \<Longrightarrow> always (if b then m else n)"
  by simp

lemma always_handled: "(\<And>e. always (h e)) \<Longrightarrow> always (io_catch m h)"
  by (auto simp: always_def io_catch_def split: prod.split sum.split)

lemma always_start: "queries_ok (dp_out dp) \<Longrightarrow> always (start_connection dp c rs)"
  unfolding start_connection_def record_health_def
  by (intro always_handled always_then always_put always_on_db)

lemma always_reconcile_config: "queries_ok (dp_out dp) \<Longrightarrow> always (reconcile_config dp x)"
  unfolding reconcile_config_def
  by (cases x, simp only: prod.case)
    (intro always_then always_get, simp only: split_beta, intro always_then always_get always_if
      always_return always_put always_start)

lemma active_configs_unique:
  assumes "schema_ok d" "x \<in> set (list_active_connector_configs d)" "y \<in> set (list_active_connector_configs d)"
    and "conn_id (fst x) = conn_id (fst y)"
  shows "x = y"
proof -
  have "distinct (map conn_id (connections d))"
    using schema_ok_tables(3) [OF assms(1)] by (simp add: connections_ok_def)
  then have "fst x = fst y"
    using assms(2-4) distinct_key_unique [of conn_id "connections d" "fst x" "fst y"]
    by (auto simp: list_active_connector_configs_def)
  then show ?thesis using assms(2,3) by (auto simp: list_active_connector_configs_def)
qed

lemma map_of_kept: "map_of (filter (\<lambda>(i, s). i \<in> ids) xs) i = Some s \<Longrightarrow> i \<in> ids"
  by (induction xs) (auto split: if_splits)

lemma tidy_forget: "w_clock w = t \<Longrightarrow> tidy t ids {} (forget_inactive ids w)"
  unfolding tidy_def forget_inactive_def Let_def
  by (auto dest: map_of_kept)


section \<open>Backing off\<close>

text \<open>
  A connection that cannot be opened is left alone: the failure leaves no
  session, counts one attempt more, and sets the next attempt 15 seconds times a
  power of two ahead, at least 15 seconds and at most 15 minutes; until then a
  pass neither connects to its relay nor changes anything for it.
\<close>

lemma failed_connection_waits:
  assumes "queries_ok (dp_out dp)" "open_session dp c rs w = (Inl e, v)"
    and "start_connection dp c rs w = (r, w')"
  shows "r = Inr () \<and> map_of (sv_sessions w') (conn_id c) = None \<and>
    (\<exists>f. map_of (sv_failures w') (conn_id c) = Some f \<and>
       fa_attempts f = previous_attempts (conn_id c) v + 1 \<and>
       fa_next_attempt f = w_clock w' + min 900000 (15000 * 2 ^ min (previous_attempts (conn_id c) v) 6) \<and>
       w_clock w' + 15000 \<le> fa_next_attempt f \<and> fa_next_attempt f \<le> w_clock w' + 900000 \<and>
       (\<forall>u. w_clock u < fa_next_attempt f \<longrightarrow> map_of (sv_failures u) (conn_id c) = Some f \<longrightarrow>
          map_of (sv_sessions u) (conn_id c) = None \<longrightarrow> reconcile_config dp (c, rs') u = (Inr (), u)))"
proof -
  let ?n = "previous_attempts (conn_id c) v"
  let ?f = "\<lparr>fa_attempts = ?n + 1, fa_next_attempt = w_clock v + retry_delay_ms (?n + 1)\<rparr>"
  let ?u = "note_failure (conn_id c) (drop_session (conn_id c) v)"
  have u: "sv_sessions ?u = sv_sessions (drop_session (conn_id c) v)" "w_clock ?u = w_clock v"
    "map_of (sv_failures ?u) (conn_id c) = Some ?f"
    by (simp_all add: note_failure_def drop_session_def previous_attempts_def update_conv' Let_def)
  have "start_connection dp c rs w = record_health dp (conn_id c) (connection_health_for_error e)
      (Some (safe_error_message e)) ?u"
    using assms(2) by (simp add: start_connection_def io_catch_def call_then_def io_put_def)
  then have w': "r = Inr ()" "sv_sessions w' = sv_sessions ?u" "w_clock w' = w_clock v"
    "sv_failures w' = sv_failures ?u"
    using assms(3) u(2) by (auto simp: record_health_def on_db_ok [OF assms(1)])
  have waits: "reconcile_config dp (c, rs') y = (Inr (), y)"
    if "w_clock y < fa_next_attempt ?f" "map_of (sv_failures y) (conn_id c) = Some ?f"
      "map_of (sv_sessions y) (conn_id c) = None" for y
    using that by (simp add: reconcile_config_def call_then_def io_get_def io_put_def io_return_def)
  have "(1::int) \<le> 2 ^ min ?n 6" by simp
  then have delay: "15000 \<le> retry_delay_ms (?n + 1)" "retry_delay_ms (?n + 1) \<le> 900000"
    "retry_delay_ms (?n + 1) = min 900000 (15000 * 2 ^ min ?n 6)"
    by (simp_all add: retry_delay_ms_def)
  have f: "map_of (sv_failures w') (conn_id c) = Some ?f" "map_of (sv_sessions w') (conn_id c) = None"
    using w'(2,4) u(1,3) dropped [of "conn_id c" v] by simp_all
  show ?thesis
    using w'(1,3) delay f waits
    by (intro conjI exI [of _ ?f]) simp_all
qed

end
