(* ===== verification/Delivery_Witnesses.thy ===== *)
theory Delivery_Witnesses
  imports Connector_Samples Delivery_Path Reconnect_Properties
begin

text \<open>
  The properties of deliveries and sessions, applied to the sample environment:
  one open delivery of the sample message to a direct channel, under a relay that
  answers and under one that is down.
\<close>

definition down_outside :: "nat outside" where
  "down_outside = sample_outside\<lparr>out_connect := (\<lambda>_ n. (Some Raw, n)),
     out_publish := (\<lambda>_ _ n. (Some Raw, n)), out_has := (\<lambda>_ _ n. ((False, 5), n))\<rparr>"

definition down_deployment :: "nat deployment" where
  "down_deployment = sample_deployment\<lparr>dp_out := down_outside\<rparr>"

definition hive_session :: session where
  "hive_session = sample_session\<lparr>se_config := sample_connection ''n1'' ''c1'' Active\<rparr>"

definition marked_event :: nostr_event where
  "marked_event = sample_event\<lparr>ev_tags := [[''br'', ''message'', ''m1'']]\<rparr>"

definition sample_open :: db where
  "sample_open = sample_hub
     \<lparr>messages := [message_row sample_input],
      deliveries := [(delivery_row 9000000 ''d0'' ''m1'' ''e3'')
        \<lparr>dl_event := Some marked_event, dl_event_id := Some hex_c, dl_state := Retry\<rparr>]\<rparr>"

definition hive_supervisor :: "nat supervisor" where
  "hive_supervisor = (sample_supervisor sample_open)\<lparr>sv_sessions := [(''n1'', hive_session)]\<rparr>"

lemma sample_open_ok: "schema_ok sample_open" "delivered_recorded sample_open"
  by code_simp+

lemma hive_db: "w_db hive_supervisor = sample_open" "w_log hive_supervisor = []"
  "sv_sessions hive_supervisor = [(''n1'', hive_session)]"
  by (simp_all add: hive_supervisor_def sample_supervisor_def)

lemma deployments:
  "carries_template (dp_sign sample_deployment)" "carries_template (dp_sign down_deployment)"
  "queries_ok (dp_out sample_deployment)" "queries_ok (dp_out down_deployment)"
  "relay_accepts (dp_out sample_deployment)" "relay_down (dp_out down_deployment)"
  by (simp_all add: sample_deployment_def down_deployment_def sample_carries sample_queries_ok
      queries_ok_def down_outside_def relay_accepts_def relay_down_def) (simp_all add: sample_outside_def)

lemma sample_hex_ids: "signs_hex_ids sample_sign"
proof -
  have "is_hex_string 64 (replicate 64 (CHR ''d''))" by code_simp
  then show ?thesis by (simp add: signs_hex_ids_def sample_sign_def)
qed

lemma sample_open_context:
  "\<exists>c. get_bridge_delivery_context ''d0'' sample_open = Inr (Some c, sample_open) \<and> ctx_state c = Retry \<and>
     ctx_route_active c \<and> ctx_source_parent c = None \<and> ctx_connection c = ''n1'' \<and> ctx_endpoint c = ''e3'' \<and>
     ctx_message c = ''m1'' \<and> ctx_event c = Some marked_event"
proof -
  have "(case get_bridge_delivery_context ''d0'' sample_open of
      Inr (Some c, d) \<Rightarrow> ctx_state c = Retry \<and> ctx_route_active c \<and> ctx_source_parent c = None \<and>
        ctx_connection c = ''n1'' \<and> ctx_endpoint c = ''e3'' \<and> ctx_message c = ''m1'' \<and>
        ctx_event c = Some marked_event
    | _ \<Rightarrow> False)"
    by code_simp
  then show ?thesis
    by (auto split: sum.splits option.splits dest: get_context_same)
qed

definition attempted :: "nat supervisor" where
  "attempted = snd (deliver down_deployment ''d0'' False hive_supervisor)"

definition sends_marked :: "relay_entry list \<Rightarrow> relay_entry list \<Rightarrow> bool" where
  "sends_marked past log \<longleftrightarrow> log \<noteq> [] \<and> tl log = past \<and>
     (case hd log of Sent url e \<Rightarrow> e = marked_event | Confirmed url e \<Rightarrow> False)"

lemma sample_attempts_send:
  "sends_marked [] (w_log attempted)"
  "sends_marked (w_log attempted) (w_log (snd (deliver sample_deployment ''d0'' True attempted)))"
  by code_simp+

lemma sends_marked_since: "sends_marked past log \<Longrightarrow> sent_since past log marked_event"
  by (cases log) (auto simp: sends_marked_def sent_since_def split: relay_entry.splits)

lemma sample_sent_since:
  "sent_since (w_log hive_supervisor) (w_log attempted) marked_event"
  "sent_since (w_log attempted) (w_log (snd (deliver sample_deployment ''d0'' True attempted))) marked_event"
  using sample_attempts_send by (simp_all add: hive_db sends_marked_since)

theorem retries_resend_same_event_witness:
  "stored_event ''d0'' marked_event (w_db attempted)"
proof -
  have first: "deliver down_deployment ''d0'' False hive_supervisor =
      (fst (deliver down_deployment ''d0'' False hive_supervisor), attempted)"
    by (simp add: attempted_def)
  have again: "deliver sample_deployment ''d0'' True attempted =
      (fst (deliver sample_deployment ''d0'' True attempted), snd (deliver sample_deployment ''d0'' True attempted))"
    by simp
  have marked: "has_projection_marker marked_event" by code_simp
  have ok: "schema_ok (w_db hive_supervisor)" by (simp add: hive_db sample_open_ok)
  have db: "w_db attempted = run_delivery_ops [] (w_db attempted)" by (simp add: run_delivery_ops_def)
  from retries_resend_same_event [OF deployments(2,1) ok first sample_sent_since(1) marked db again
      sample_sent_since(2) marked]
  show ?thesis by simp
qed




end
