(* ===== verification/Rate_Limit.thy ===== *)
theory Rate_Limit
  imports Prelude
begin

text \<open>
  src/http/rate-limit.ts: the in-memory sliding windows over submissions (per
  address and minute, per address and hour, all addresses and minute) and over
  event beacons.  Times are milliseconds; the module's two maps and two arrays
  are the state.
\<close>

section \<open>State\<close>

record limiter =
  lim_by_ip :: "string \<rightharpoonup> int list"
  lim_global :: "int list"

definition reset_limiter :: limiter where
  "reset_limiter = \<lparr>lim_by_ip = Map.empty, lim_global = []\<rparr>"

definition of_ip :: "limiter \<Rightarrow> string \<Rightarrow> int list" where
  "of_ip s ip = (case lim_by_ip s ip of None \<Rightarrow> [] | Some ts \<Rightarrow> ts)"

text \<open>\<open>pruneBefore\<close>: drops the leading timestamps at or before the cutoff.\<close>

definition prune_before :: "int list \<Rightarrow> int \<Rightarrow> int list" where
  "prune_before ts cutoff = dropWhile (\<lambda>t. t \<le> cutoff) ts"

text \<open>\<open>Math.ceil(x / 1000)\<close>\<close>

definition ceil_seconds :: "int \<Rightarrow> int" where
  "ceil_seconds x = - ((- x) div 1000)"

definition retry_after_for :: "int list \<Rightarrow> nat \<Rightarrow> int \<Rightarrow> int \<Rightarrow> int" where
  "retry_after_for ts limit window now =
     max 1 (ceil_seconds (ts ! (length ts - limit) + window - now))"

text \<open>A list kept, or the key removed when nothing is left of it.\<close>

definition keep_ip :: "string \<Rightarrow> int list \<Rightarrow> (string \<rightharpoonup> int list) \<Rightarrow> (string \<rightharpoonup> int list)" where
  "keep_ip ip ts m = (if ts = [] then m(ip := None) else m(ip \<mapsto> ts))"

section \<open>Submissions\<close>

record verdict =
  vd_allowed :: bool
  vd_retry :: "int option"

definition check_submission :: "string \<Rightarrow> int \<Rightarrow> limiter \<Rightarrow> verdict \<times> limiter" where
  "check_submission ip now s =
     (let hour = prune_before (of_ip s ip) (now - 3600000);
          minute = prune_before hour (now - 60000);
          all = prune_before (lim_global s) (now - 60000);
          retries =
            (if 5 \<le> length minute then [retry_after_for minute 5 60000 now] else []) @
            (if 20 \<le> length hour then [retry_after_for hour 20 3600000 now] else []) @
            (if 30 \<le> length all then [retry_after_for all 30 60000 now] else [])
      in if retries \<noteq> []
         then (\<lparr>vd_allowed = False, vd_retry = Some (Min (set retries))\<rparr>,
               \<lparr>lim_by_ip = keep_ip ip hour (lim_by_ip s), lim_global = all\<rparr>)
         else (\<lparr>vd_allowed = True, vd_retry = None\<rparr>,
               \<lparr>lim_by_ip = (lim_by_ip s)(ip \<mapsto> hour @ [now]), lim_global = all @ [now]\<rparr>))"

section \<open>Event beacons\<close>

definition check_event :: "string \<Rightarrow> int \<Rightarrow> limiter \<Rightarrow> bool \<times> limiter" where
  "check_event ip now s =
     (let mine = prune_before (of_ip s ip) (now - 60000);
          all = prune_before (lim_global s) (now - 60000)
      in if 60 \<le> length mine \<or> 1000 \<le> length all
         then (False, \<lparr>lim_by_ip = keep_ip ip mine (lim_by_ip s), lim_global = all\<rparr>)
         else (True, \<lparr>lim_by_ip = (lim_by_ip s)(ip \<mapsto> mine @ [now]), lim_global = all @ [now]\<rparr>))"

section \<open>Windows\<close>

text \<open>At most \<open>n\<close> of the times \<open>ts\<close> lie in any window of length \<open>w\<close>.\<close>

definition within_limit :: "nat \<Rightarrow> int \<Rightarrow> int list \<Rightarrow> bool" where
  "within_limit n w ts \<longleftrightarrow> (\<forall>t. length (filter (\<lambda>x. t - w < x \<and> x \<le> t) ts) \<le> n)"

text \<open>\<open>live\<close> is what is left of the times \<open>ts\<close>: only times out of the window are gone.\<close>

definition remembers :: "int \<Rightarrow> int \<Rightarrow> int list \<Rightarrow> int list \<Rightarrow> bool" where
  "remembers w now ts live \<longleftrightarrow> (\<exists>old. ts = old @ live \<and> (\<forall>x \<in> set old. x \<le> now - w))"

lemma dropWhile_sorted: "sorted xs \<Longrightarrow> dropWhile (\<lambda>x. x \<le> c) xs = filter (\<lambda>x. c < x) xs"
  for xs :: "int list"
proof (induction xs)
  case (Cons x xs)
  then show ?case by (auto simp: filter_id_conv intro!: sym [OF filter_True])
qed simp

lemma remembers_prune:
  assumes "remembers w now ts live" "sorted ts" "now \<le> now'" "w' \<le> w"
  shows "prune_before live (now' - w') = filter (\<lambda>x. now' - w' < x) ts"
proof -
  obtain old where old: "ts = old @ live" "\<forall>x \<in> set old. x \<le> now - w"
    using assms(1) by (auto simp: remembers_def)
  have "filter (\<lambda>x. now' - w' < x) old = []" using old(2) assms(3,4) by (auto simp: filter_empty_conv)
  then show ?thesis
    using old(1) assms(2) by (simp add: prune_before_def dropWhile_sorted sorted_append)
qed

lemma within_limit_snoc:
  assumes "within_limit n w ts" "\<forall>x \<in> set ts. x \<le> now" "length (filter (\<lambda>x. now - w < x) ts) < n"
  shows "within_limit n w (ts @ [now])"
  unfolding within_limit_def
proof
  fix t
  show "length (filter (\<lambda>x. t - w < x \<and> x \<le> t) (ts @ [now])) \<le> n"
  proof (cases "t - w < now \<and> now \<le> t")
    case True
    have "length (filter (\<lambda>x. t - w < x \<and> x \<le> t) ts) \<le> length (filter (\<lambda>x. now - w < x) ts)"
      using True by (induction ts) auto
    with assms(3) True show ?thesis by simp
  next
    case False
    with assms(1) show ?thesis by (auto simp: within_limit_def)
  qed
qed

lemma within_limit_Nil: "within_limit n w []"
  by (simp add: within_limit_def)

section \<open>Runs of a limiter\<close>

type_synonym decision = "string \<Rightarrow> int \<Rightarrow> limiter \<Rightarrow> bool \<times> limiter"

fun admitted :: "decision \<Rightarrow> (string \<times> int) list \<Rightarrow> limiter \<Rightarrow> (string \<times> int) list \<times> limiter" where
  "admitted d [] s = ([], s)"
| "admitted d ((ip, t) # rs) s =
     (case d ip t s of (ok, s1) \<Rightarrow>
      case admitted d rs s1 of (xs, s2) \<Rightarrow> ((if ok then (ip, t) # xs else xs), s2))"

definition times_of :: "string \<Rightarrow> (string \<times> int) list \<Rightarrow> int list" where
  "times_of ip xs = map snd (filter (\<lambda>x. fst x = ip) xs)"

lemma times_of_append [simp]: "times_of ip (xs @ ys) = times_of ip xs @ times_of ip ys"
  by (simp add: times_of_def)

lemma times_of_simps [simp]: "times_of ip [] = []" "times_of ip [(i, t)] = (if i = ip then [t] else [])"
  by (simp_all add: times_of_def)

lemma set_times_of: "set (times_of ip xs) \<subseteq> snd ` set xs"
  by (auto simp: times_of_def)

lemma sorted_times_of: "sorted (map snd xs) \<Longrightarrow> sorted (times_of ip xs)"
proof (induction xs)
  case (Cons x xs)
  then show ?case using set_times_of [of ip xs] by (force simp: times_of_def)
qed simp

text \<open>
  What a limiter over \<open>limiter\<close> states promises: a call is let through exactly when
  every window it keeps has room, and the lists lose only what is out of every
  window and gain only admitted calls.
\<close>

locale sliding_limiter =
  fixes decide :: decision and keep :: int and ip_limits :: "(nat \<times> int) set" and all_limit :: nat
  assumes room: "fst (decide ip now s) \<longleftrightarrow>
      (\<forall>(n, w) \<in> ip_limits. length (prune_before (of_ip s ip) (now - w)) < n) \<and>
      length (prune_before (lim_global s) (now - 60000)) < all_limit"
    and mine: "of_ip (snd (decide ip now s)) ip =
      prune_before (of_ip s ip) (now - keep) @ (if fst (decide ip now s) then [now] else [])"
    and others: "ip' \<noteq> ip \<Longrightarrow> of_ip (snd (decide ip now s)) ip' = of_ip s ip'"
    and global: "lim_global (snd (decide ip now s)) =
      prune_before (lim_global s) (now - 60000) @ (if fst (decide ip now s) then [now] else [])"
    and kept: "(n, w) \<in> ip_limits \<Longrightarrow> w \<le> keep"
begin

definition limits_hold :: "(string \<times> int) list \<Rightarrow> bool" where
  "limits_hold xs \<longleftrightarrow> within_limit all_limit 60000 (map snd xs) \<and>
     (\<forall>ip. \<forall>(n, w) \<in> ip_limits. within_limit n w (times_of ip xs))"

definition accounted :: "(string \<times> int) list \<Rightarrow> int \<Rightarrow> limiter \<Rightarrow> bool" where
  "accounted xs now s \<longleftrightarrow> sorted (map snd xs) \<and> (\<forall>x \<in> set xs. snd x \<le> now) \<and>
     (\<forall>ip. remembers keep now (times_of ip xs) (of_ip s ip)) \<and>
     remembers 60000 now (map snd xs) (lim_global s) \<and> limits_hold xs"

lemma remembers_step:
  assumes "remembers w now ts live" "now \<le> t"
  shows "remembers w t (ts @ new) (prune_before live (t - w) @ new)"
proof -
  obtain old where old: "ts = old @ live" "\<forall>x \<in> set old. x \<le> now - w"
    using assms(1) by (auto simp: remembers_def)
  let ?cut = "takeWhile (\<lambda>x. x \<le> t - w) live"
  have "live = ?cut @ prune_before live (t - w)" by (simp add: prune_before_def)
  then have "ts @ new = (old @ ?cut) @ prune_before live (t - w) @ new" using old(1) by simp
  moreover have "\<forall>x \<in> set (old @ ?cut). x \<le> t - w"
    using old(2) assms(2) by (auto dest: set_takeWhileD)
  ultimately show ?thesis unfolding remembers_def by blast
qed

lemma remembers_later: "remembers w now ts live \<Longrightarrow> now \<le> t \<Longrightarrow> remembers w t ts live"
  by (force simp: remembers_def)

lemma accounted_step:
  assumes acc: "accounted xs now s" and later: "now \<le> t"
  shows "accounted (xs @ (if fst (decide ip t s) then [(ip, t)] else [])) t (snd (decide ip t s))"
proof -
  let ?ok = "fst (decide ip t s)"
  let ?new = "if ?ok then [(ip, t)] else []"
  have times: "times_of i ?new = (if i = ip \<and> ?ok then [t] else [])" "map snd ?new = (if ?ok then [t] else [])" for i
    by simp_all
  have past: "\<forall>x \<in> set xs. snd x \<le> t" "sorted (map snd xs)"
    using acc later by (force simp: accounted_def)+
  have mem: "remembers keep now (times_of i xs) (of_ip s i)" "remembers 60000 now (map snd xs) (lim_global s)" for i
    using acc by (simp_all add: accounted_def)
  have "remembers keep t (times_of i (xs @ ?new)) (of_ip (snd (decide ip t s)) i)" for i
  proof (cases "i = ip")
    case True
    then show ?thesis
      using remembers_step [OF mem(1) later, of ip "if ?ok then [t] else []"]
      by (simp add: mine times(1) del: times_of_simps(2))
  next
    case False
    then show ?thesis using remembers_later [OF mem(1) later] by (simp add: others times(1) del: times_of_simps(2))
  qed
  moreover have "remembers 60000 t (map snd (xs @ ?new)) (lim_global (snd (decide ip t s)))"
    using remembers_step [OF mem(2) later, of "if ?ok then [t] else []"] by (cases ?ok) (simp_all add: global)
  moreover have "limits_hold (xs @ ?new)"
  proof (cases ?ok)
    case False
    then show ?thesis using acc by (simp add: accounted_def)
  next
    case True
    have global_ok: "within_limit all_limit 60000 (map snd xs @ [t])"
    proof (rule within_limit_snoc)
      show "length (filter (\<lambda>x. t - 60000 < x) (map snd xs)) < all_limit"
        using True remembers_prune [OF mem(2) past(2) later, of 60000] by (simp add: room)
    qed (use acc past in \<open>auto simp: accounted_def limits_hold_def\<close>)
    have ip_ok: "within_limit n w (times_of i xs @ (if i = ip then [t] else []))" if "(n, w) \<in> ip_limits" for n w i
    proof (cases "i = ip")
      case True
      have "within_limit n w (times_of ip xs @ [t])"
      proof (rule within_limit_snoc)
        show "within_limit n w (times_of ip xs)" using acc that by (auto simp: accounted_def limits_hold_def)
        show "\<forall>x \<in> set (times_of ip xs). x \<le> t" using past(1) set_times_of [of ip xs] by force
        show "length (filter (\<lambda>x. t - w < x) (times_of ip xs)) < n"
          using \<open>?ok\<close> that remembers_prune [OF mem(1) sorted_times_of [OF past(2)] later kept [OF that], of ip]
          by (auto simp: room)
      qed
      then show ?thesis using True by simp
    next
      case False
      then show ?thesis using acc that by (auto simp: accounted_def limits_hold_def)
    qed
    have new: "times_of i (xs @ ?new) = times_of i xs @ (if i = ip then [t] else [])"
      "map snd (xs @ ?new) = map snd xs @ [t]" for i
      using True by auto
    show ?thesis unfolding limits_hold_def new using global_ok ip_ok by blast
  qed
  ultimately show ?thesis
    using past by (auto simp: accounted_def sorted_append)
qed

lemma admitted_accounted:
  "accounted xs now s \<Longrightarrow> sorted (now # map snd rs) \<Longrightarrow> limits_hold (xs @ fst (admitted decide rs s))"
proof (induction rs arbitrary: xs now s)
  case Nil
  then show ?case by (simp add: accounted_def)
next
  case (Cons r rs)
  obtain ip t where r: "r = (ip, t)" by fastforce
  let ?new = "if fst (decide ip t s) then [(ip, t)] else []"
  have "now \<le> t" "sorted (t # map snd rs)" using Cons.prems(2) r by auto
  then have "limits_hold ((xs @ ?new) @ fst (admitted decide rs (snd (decide ip t s))))"
    using Cons.IH [OF accounted_step [OF Cons.prems(1)]] by blast
  moreover have "fst (admitted decide (r # rs) s) = ?new @ fst (admitted decide rs (snd (decide ip t s)))"
    by (simp add: r split: prod.splits)
  ultimately show ?case by simp
qed

lemma admitted_within_limits:
  assumes "sorted (map snd rs)"
  shows "limits_hold (fst (admitted decide rs reset_limiter))"
proof -
  define now where "now = (case rs of [] \<Rightarrow> 0 | r # _ \<Rightarrow> snd r)"
  have "accounted [] now reset_limiter"
    by (auto simp: accounted_def remembers_def of_ip_def reset_limiter_def limits_hold_def within_limit_Nil)
  moreover have "sorted (now # map snd rs)"
    using assms by (cases rs) (auto simp: now_def)
  ultimately show ?thesis using admitted_accounted [of "[]" now reset_limiter rs] by simp
qed

end

section \<open>The two limiters\<close>

lemma prune_twice: "c \<le> c' \<Longrightarrow> prune_before (prune_before ts c) c' = prune_before ts c'"
  by (induction ts) (auto simp: prune_before_def)

definition submission_decision :: decision where
  "submission_decision ip now s = (case check_submission ip now s of (v, s') \<Rightarrow> (vd_allowed v, s'))"

interpretation submissions: sliding_limiter submission_decision 3600000 "{(5, 60000), (20, 3600000)}" 30
proof
  fix ip ip' now s
  have twice: "prune_before (prune_before ts (now - 3600000)) (now - 60000) = prune_before ts (now - 60000)" for ts
    by (rule prune_twice) simp
  show "fst (submission_decision ip now s) \<longleftrightarrow>
      (\<forall>(n, w) \<in> {(5, 60000), (20, 3600000)}. length (prune_before (of_ip s ip) (now - w)) < n) \<and>
      length (prune_before (lim_global s) (now - 60000)) < 30"
    by (auto simp: submission_decision_def check_submission_def twice Let_def)
  show "of_ip (snd (submission_decision ip now s)) ip = prune_before (of_ip s ip) (now - 3600000) @
      (if fst (submission_decision ip now s) then [now] else [])"
    "lim_global (snd (submission_decision ip now s)) = prune_before (lim_global s) (now - 60000) @
      (if fst (submission_decision ip now s) then [now] else [])"
    by (auto simp: submission_decision_def check_submission_def Let_def of_ip_def keep_ip_def)
  show "of_ip (snd (submission_decision ip now s)) ip' = of_ip s ip'" if "ip' \<noteq> ip"
    using that by (auto simp: submission_decision_def check_submission_def Let_def of_ip_def keep_ip_def)
qed auto

interpretation events: sliding_limiter check_event 60000 "{(60, 60000)}" 1000
proof
  fix ip ip' now s
  show "of_ip (snd (check_event ip now s)) ip = prune_before (of_ip s ip) (now - 60000) @
      (if fst (check_event ip now s) then [now] else [])"
    "lim_global (snd (check_event ip now s)) = prune_before (lim_global s) (now - 60000) @
      (if fst (check_event ip now s) then [now] else [])"
    by (auto simp: check_event_def Let_def of_ip_def keep_ip_def)
  show "of_ip (snd (check_event ip now s)) ip' = of_ip s ip'" if "ip' \<noteq> ip"
    using that by (auto simp: check_event_def Let_def of_ip_def keep_ip_def)
qed (auto simp: check_event_def Let_def)

section \<open>Properties\<close>

text \<open>
  C19. The limits hold over every window, not only over calendar minutes: whatever
  requests arrive, in the order of their times, in any 60 seconds at most 5
  submissions of an address and 30 of all are let through and in any hour at most
  20 of an address; and of event beacons in any 60 seconds at most 60 of an
  address and 1000 of all.
\<close>

theorem every_window_is_limited:
  assumes "sorted (map snd rs)"
  shows "within_limit 5 60000 (times_of ip (fst (admitted submission_decision rs reset_limiter))) \<and>
    within_limit 20 3600000 (times_of ip (fst (admitted submission_decision rs reset_limiter))) \<and>
    within_limit 30 60000 (map snd (fst (admitted submission_decision rs reset_limiter))) \<and>
    within_limit 60 60000 (times_of ip (fst (admitted check_event rs reset_limiter))) \<and>
    within_limit 1000 60000 (map snd (fst (admitted check_event rs reset_limiter)))"
  using submissions.admitted_within_limits [OF assms] events.admitted_within_limits [OF assms]
  by (simp add: submissions.limits_hold_def events.limits_hold_def)

text \<open>
  A refused submission costs nothing: whoever asks next, and at whatever later
  time, is answered as if the refused call had not been made, so hammering the
  endpoint does not push one's window forward.
\<close>

lemma refused_calls_are_free:
  assumes "\<not> vd_allowed (fst (check_submission ip now s))" "now \<le> now'"
  shows "fst (check_submission ip' now' (snd (check_submission ip now s))) = fst (check_submission ip' now' s)"
proof -
  let ?s = "snd (check_submission ip now s)"
  have refused: "of_ip ?s i = (if i = ip then prune_before (of_ip s ip) (now - 3600000) else of_ip s i)"
    "lim_global ?s = prune_before (lim_global s) (now - 60000)" for i
    using assms(1) by (auto simp: check_submission_def Let_def of_ip_def keep_ip_def split: if_splits)
  have "prune_before (of_ip ?s ip') (now' - 3600000) = prune_before (of_ip s ip') (now' - 3600000)"
    "prune_before (lim_global ?s) (now' - 60000) = prune_before (lim_global s) (now' - 60000)"
    using assms(2) by (auto simp: refused prune_twice)
  then show ?thesis by (simp add: check_submission_def Let_def)
qed

text \<open>
  The advice given with a refusal can be too short: when two windows are full
  it is the time until the first of them has room, not until both have.  An address
  whose 20 submissions of the last hour end with 5 in the last seconds is told to
  wait 55 seconds, does so with nobody else asking, and is refused again, for
  another half hour.
\<close>

definition patient_requests :: "(string \<times> int) list" where
  "patient_requests = map (\<lambda>n. (''a'', 100000 * int n)) [0..<15] @ map (\<lambda>n. (''a'', 1700000 + 1000 * int n)) [0..<5]"

lemma retry_advice_can_be_too_short:
  "\<exists>s s'. sorted (map snd patient_requests) \<and>
     admitted submission_decision patient_requests reset_limiter = (patient_requests, s) \<and>
     check_submission ''a'' 1705000 s = (\<lparr>vd_allowed = False, vd_retry = Some 55\<rparr>, s') \<and>
     vd_allowed (fst (check_submission ''a'' (1705000 + 55 * 1000) s')) = False \<and>
     vd_retry (fst (check_submission ''a'' (1705000 + 55 * 1000) s')) = Some 1840"
proof -
  let ?run = "admitted submission_decision patient_requests reset_limiter"
  let ?first = "check_submission ''a'' 1705000 (snd ?run)"
  have sorted: "sorted (map snd patient_requests)" and run: "fst ?run = patient_requests" by code_simp+
  have first: "fst ?first = \<lparr>vd_allowed = False, vd_retry = Some 55\<rparr>"
    by (rule verdict.equality) (code_simp, code_simp, simp)
  have second: "vd_allowed (fst (check_submission ''a'' (1705000 + 55 * 1000) (snd ?first))) = False"
    "vd_retry (fst (check_submission ''a'' (1705000 + 55 * 1000) (snd ?first))) = Some 1840"
    by code_simp+
  have pair: "p = (a, snd p)" if "fst p = a" for p :: "'a \<times> 'b" and a using that by (cases p) simp
  show ?thesis
    by (rule exI [of _ "snd ?run"], rule exI [of _ "snd ?first"])
      (intro conjI sorted second pair [OF run] pair [OF first])
qed

section \<open>Witnesses\<close>

theorem every_window_is_limited_witness:
  "sorted (map snd patient_requests) \<and>
   within_limit 20 3600000 (times_of ''a'' (fst (admitted submission_decision patient_requests reset_limiter))) \<and>
   length (fst (admitted submission_decision patient_requests reset_limiter)) = 20"
proof -
  have "sorted (map snd patient_requests)"
    "length (fst (admitted submission_decision patient_requests reset_limiter)) = 20" by code_simp+
  then show ?thesis using every_window_is_limited [of patient_requests "''a''"] by blast
qed

definition five_requests :: limiter where
  "five_requests = snd (admitted submission_decision (map (\<lambda>n. (''a'', 1000 * int n)) [0..<5]) reset_limiter)"

end
