(* ===== verification/Relay_Url.thy ===== *)
theory Relay_Url
  imports Prelude "HOL-Library.AList"
begin

text \<open>
  src/discovery/normalize.ts and src/discovery/network-policy.ts: the one spelling
  of a relay's URL, and the rule that the program opens connections to public
  addresses only.  The WHATWG URL parser, \<open>domainToASCII\<close> and \<open>isIP\<close> of Node, and
  the package ipaddr.js are parameters; a \<open>DiscoveryError\<close> is its code.
\<close>

section \<open>URLs\<close>

text \<open>
  What the code reads of a \<open>URL\<close> object.  \<open>u_port\<close> is the number the string \<open>port\<close>
  denotes (None: the empty string, the default port of the scheme); a query or
  fragment may be absent or empty, which \<open>search\<close> and \<open>hash\<close> do not tell apart.
\<close>

record url =
  u_protocol :: string
  u_username :: string
  u_password :: string
  u_hostname :: string
  u_port :: "nat option"
  u_pathname :: string
  u_query :: "string option"
  u_fragment :: "string option"

record web =
  parse_url :: "string \<Rightarrow> url option"
  domain_to_ascii :: "string \<Rightarrow> string"
  ip_version :: "string \<Rightarrow> nat"

text \<open>What the code throws: a \<open>DiscoveryError\<close> with its code, or an error of the runtime.\<close>

datatype thrown = Discovery string | Runtime_error

type_synonym 'a discovery = "thrown + 'a"

definition port_suffix :: "nat option \<Rightarrow> string" where
  "port_suffix p = (case p of None \<Rightarrow> [] | Some n \<Rightarrow> CHR '':'' # show_nat n)"

text \<open>\<open>url.host\<close>, and \<open>url.toString()\<close> of a URL of one of the special schemes.\<close>

definition url_host :: "url \<Rightarrow> string" where
  "url_host u = u_hostname u @ port_suffix (u_port u)"

definition credentials :: "url \<Rightarrow> string" where
  "credentials u = (if u_username u = [] \<and> u_password u = [] then []
     else u_username u @ (if u_password u = [] then [] else CHR '':'' # u_password u) @ ''@'')"

definition href :: "url \<Rightarrow> string" where
  "href u = u_protocol u @ ''//'' @ credentials u @ url_host u @ u_pathname u @
     (case u_query u of None \<Rightarrow> [] | Some q \<Rightarrow> CHR ''?'' # q) @
     (case u_fragment u of None \<Rightarrow> [] | Some f \<Rightarrow> CHR ''#'' # f)"

definition accepted_protocols :: "string set" where
  "accepted_protocols = {''http:'', ''https:'', ''ws:'', ''wss:''}"

section \<open>Hosts\<close>

definition wrapped :: "string \<Rightarrow> bool" where
  "wrapped h \<longleftrightarrow> h \<noteq> [] \<and> hd h = CHR ''['' \<and> last h = CHR '']''"

definition unwrap_ipv6 :: "string \<Rightarrow> string" where
  "unwrap_ipv6 h = (if wrapped h then butlast (tl h) else h)"

text \<open>\<open>s.replace(/\.$/, "")\<close>\<close>

definition without_dot :: "string \<Rightarrow> string" where
  "without_dot s = (if s \<noteq> [] \<and> last s = CHR ''.'' then butlast s else s)"

text \<open>\<open>s.split(".")\<close>\<close>

fun split_dots :: "string \<Rightarrow> string list" where
  "split_dots [] = [[]]"
| "split_dots (c # cs) =
     (if c = CHR ''.'' then [] # split_dots cs
      else (c # hd (split_dots cs)) # tl (split_dots cs))"

definition label_char :: "char \<Rightarrow> bool" where
  "label_char c \<longleftrightarrow> is_lower c \<or> is_digit c \<or> c = CHR ''-''"

definition label_ok :: "string \<Rightarrow> bool" where
  "label_ok l \<longleftrightarrow> l \<noteq> [] \<and> length l \<le> 63 \<and> list_all label_char l \<and>
     hd l \<noteq> CHR ''-'' \<and> last l \<noteq> CHR ''-''"

definition normalize_host :: "web \<Rightarrow> string \<Rightarrow> string discovery" where
  "normalize_host W h =
     (let s = without_dot (to_lower (unwrap_ipv6 h)) in
      if s = [] then Inl (Discovery ''invalid_host'')
      else if ip_version W s \<noteq> 0 then Inr s
      else let a = domain_to_ascii W s in
        if a = [] \<or> length a > 253 then Inl (Discovery ''invalid_host'')
        else if length (split_dots a) < 2 \<or> \<not> list_all label_ok (split_dots a)
        then Inl (Discovery ''invalid_host'') else Inr a)"

section \<open>Ports and the canonical URL\<close>

definition default_port :: "string \<Rightarrow> nat" where
  "default_port protocol = (if protocol = ''http:'' \<or> protocol = ''ws:'' then 80 else 443)"

definition normalize_port :: "url \<Rightarrow> nat option discovery" where
  "normalize_port u =
     (case u_port u of
        None \<Rightarrow> Inr None
      | Some n \<Rightarrow> if n < 1 \<or> n > 65535 then Inl (Discovery ''invalid_url'')
                  else Inr (if n = default_port (u_protocol u) then None else Some n))"

record relay_name =
  rn_url :: string
  rn_host :: string
  rn_port :: "nat option"

definition authority_host :: "web \<Rightarrow> string \<Rightarrow> string" where
  "authority_host W h = (if ip_version W h = 6 then ''['' @ h @ '']'' else h)"

definition canonical_url :: "web \<Rightarrow> string \<Rightarrow> nat option \<Rightarrow> string" where
  "canonical_url W h p = ''wss://'' @ authority_host W h @ port_suffix p"

definition relay_of :: "web \<Rightarrow> string \<Rightarrow> nat option \<Rightarrow> relay_name" where
  "relay_of W h p = \<lparr>rn_url = canonical_url W h p, rn_host = h, rn_port = p\<rparr>"

definition normalize_relay_url :: "web \<Rightarrow> string \<Rightarrow> relay_name discovery" where
  "normalize_relay_url W s =
     (case parse_url W s of
        None \<Rightarrow> Inl (Discovery ''invalid_url'')
      | Some u \<Rightarrow>
          if u_protocol u \<notin> accepted_protocols then Inl (Discovery ''unsupported_scheme'')
          else if u_username u \<noteq> [] \<or> u_password u \<noteq> [] then Inl (Discovery ''embedded_credentials'')
          else case normalize_host W (u_hostname u) of
            Inl e \<Rightarrow> Inl e
          | Inr h \<Rightarrow> (case normalize_port u of Inl e \<Rightarrow> Inl e | Inr p \<Rightarrow> Inr (relay_of W h p)))"

section \<open>What the URL standard documents\<close>

text \<open>
  A URL written with the host of a parsed URL is parsed again, to that host and
  to no credentials, and drops the port when it is 443 (the default of wss); the
  host name of a URL has no zone index, so an address in it neither starts with a
  bracket nor ends in a dot; the ASCII form of a name is its own ASCII form.
\<close>

definition reparses :: "web \<Rightarrow> string \<Rightarrow> nat option \<Rightarrow> bool" where
  "reparses W h p \<longleftrightarrow> (\<exists>u. parse_url W (canonical_url W h p) = Some u \<and>
     u_protocol u = ''wss:'' \<and> u_username u = [] \<and> u_password u = [] \<and>
     u_hostname u = authority_host W h \<and> u_port u = (if p = Some 443 then None else p))"

definition url_standard :: "web \<Rightarrow> bool" where
  "url_standard W \<longleftrightarrow>
     (\<forall>s u h p. parse_url W s = Some u \<and> u_protocol u \<in> accepted_protocols \<and>
        normalize_host W (u_hostname u) = Inr h \<and> p \<in> {None, u_port u} \<longrightarrow>
        reparses W h p \<and> (ip_version W h \<noteq> 0 \<longrightarrow> hd h \<noteq> CHR ''['' \<and> last h \<noteq> CHR ''.'')) \<and>
     (\<forall>s. domain_to_ascii W (domain_to_ascii W s) = domain_to_ascii W s)"

section \<open>Lemmas\<close>

lemma js_lower_idem [simp]: "js_lower_char (js_lower_char c) = js_lower_char c"
proof (cases "(65 \<le> (of_char c :: nat) \<and> (of_char c :: nat) \<le> 90) \<or>
    (192 \<le> (of_char c :: nat) \<and> (of_char c :: nat) \<le> 222 \<and> (of_char c :: nat) \<noteq> 215)")
  case True
  then have "of_char (js_lower_char c) = (of_char c + 32 :: nat)"
    by (auto simp: js_lower_char_def Let_def)
  with True show ?thesis by (auto simp: js_lower_char_def [of "js_lower_char c"] Let_def)
next
  case False
  then have "js_lower_char c = c" by (auto simp: js_lower_char_def Let_def)
  then show ?thesis by simp
qed

lemma to_lower_idem [simp]: "to_lower (to_lower s) = to_lower s"
  by (simp add: to_lower_def)

lemma split_dots_not_Nil [simp]: "split_dots s \<noteq> []"
  by (cases s) auto

lemma split_dots_set: "c \<in> set s \<Longrightarrow> c = CHR ''.'' \<or> (\<exists>l \<in> set (split_dots s). c \<in> set l)"
proof (induction s)
  case (Cons a s)
  then show ?case by (cases "split_dots s") auto
qed simp

lemma split_dots_hd: "s \<noteq> [] \<Longrightarrow> hd s = CHR ''.'' \<Longrightarrow> [] \<in> set (split_dots s)"
  by (cases s) auto

lemma split_dots_empty: "split_dots s = [[]] \<Longrightarrow> s = []"
  by (cases s) (auto split: if_splits)

lemma split_dots_last: "s \<noteq> [] \<Longrightarrow> last s = CHR ''.'' \<Longrightarrow> last (split_dots s) = []"
proof (induction s)
  case (Cons a s)
  then show ?case
    by (cases "split_dots s"; cases "tl (split_dots s)") (auto split: if_splits dest: split_dots_empty)
qed simp

lemma label_char_ascii: "label_char c \<Longrightarrow> js_lower_char c = c \<and> c \<noteq> CHR ''[''"
  by (auto simp: label_char_def js_lower_char_def is_lower_def is_digit_def less_eq_char_def Let_def)

lemma to_lower_without_dot: "to_lower (without_dot s) = without_dot (to_lower s)"
proof (cases "s = []")
  case False
  have dot: "js_lower_char c = CHR ''.'' \<longleftrightarrow> c = CHR ''.''" for c
    by (cases "c = CHR ''.''") (auto simp: js_lower_char_def Let_def dest: arg_cong [where f = "of_char :: char \<Rightarrow> nat"])
  from False show ?thesis
    by (simp add: without_dot_def to_lower_def map_butlast last_map dot)
qed (simp add: without_dot_def to_lower_def)

text \<open>A host that \<open>normalizeHost\<close> returned, in brackets or not, is its own normal form.\<close>

lemma normalize_host_stable:
  assumes h: "normalize_host W x = Inr h"
    and ip: "ip_version W h \<noteq> 0 \<Longrightarrow> hd h \<noteq> CHR ''['' \<and> last h \<noteq> CHR ''.''"
    and ascii: "\<And>s. domain_to_ascii W (domain_to_ascii W s) = domain_to_ascii W s"
  shows "normalize_host W (authority_host W h) = Inr h"
proof -
  let ?s = "without_dot (to_lower (unwrap_ipv6 x))"
  have s: "?s \<noteq> []" using h by (auto simp: normalize_host_def Let_def)
  show ?thesis
  proof (cases "ip_version W ?s = 0")
    case False
    then have hs: "h = ?s" using h s by (simp add: normalize_host_def Let_def)
    then have "to_lower h = h" by (simp add: to_lower_without_dot)
    moreover have "unwrap_ipv6 (authority_host W h) = h"
      using ip s False hs by (auto simp: unwrap_ipv6_def wrapped_def authority_host_def)
    moreover have "without_dot h = h" using ip False hs by (simp add: without_dot_def)
    ultimately show ?thesis using s False hs by (simp add: normalize_host_def Let_def)
  next
    case True
    then have hs: "h = domain_to_ascii W ?s" "h \<noteq> []" "\<not> length h > 253"
      "\<not> length (split_dots h) < 2" and labels: "list_all label_ok (split_dots h)"
      using h s by (auto simp: normalize_host_def Let_def split: if_splits)
    have chars: "label_char c \<or> c = CHR ''.''" if "c \<in> set h" for c
      using split_dots_set [OF that] labels by (auto simp: list_all_iff label_ok_def)
    have "to_lower h = h"
      unfolding to_lower_def
    proof (rule map_idI)
      fix c assume "c \<in> set h"
      with chars have "label_char c \<or> c = CHR ''.''" by blast
      then show "js_lower_char c = c" using label_char_ascii by (auto simp: js_lower_char_def)
    qed
    moreover have "without_dot h = h"
      using split_dots_last [OF hs(2)] labels last_in_set [OF split_dots_not_Nil, of h]
      by (auto simp: without_dot_def list_all_iff label_ok_def)
    moreover have "hd h \<noteq> CHR ''[''"
      using chars [OF hd_in_set [OF hs(2)]] label_char_ascii by force
    then have "unwrap_ipv6 (authority_host W h) = h"
      using hs(2) by (auto simp: unwrap_ipv6_def wrapped_def authority_host_def)
    moreover have "domain_to_ascii W h = h" using ascii hs(1) by metis
    ultimately show ?thesis
      using hs(2-) labels by (auto simp: normalize_host_def Let_def)
  qed
qed

lemma normalize_relay_url_Inr:
  "normalize_relay_url W s = Inr r \<longleftrightarrow> (\<exists>u h p. parse_url W s = Some u \<and>
     u_protocol u \<in> accepted_protocols \<and> u_username u = [] \<and> u_password u = [] \<and>
     normalize_host W (u_hostname u) = Inr h \<and> normalize_port u = Inr p \<and> r = relay_of W h p)"
  by (auto simp: normalize_relay_url_def split: option.splits sum.splits)

lemma normalize_port_cases:
  "normalize_port u = Inr p \<Longrightarrow> p \<in> {None, u_port u} \<and>
     (\<forall>n. p = Some n \<longrightarrow> 1 \<le> n \<and> n \<le> 65535 \<and> n \<noteq> default_port (u_protocol u))"
  by (auto simp: normalize_port_def split: option.splits if_splits)

section \<open>Public addresses\<close>

text \<open>The calls of ipaddr.js, over its own representation \<open>'i\<close> of an address.\<close>

record 'i ipaddr =
  ip_parse :: "string \<Rightarrow> 'i option"
  ip_is_mapped :: "'i \<Rightarrow> bool"
  ip_unmapped :: "'i \<Rightarrow> 'i"
  ip_range :: "'i \<Rightarrow> string"

definition blocked_hosts :: "string set" where
  "blocked_hosts = {''localhost'', ''metadata.google.internal'', ''metadata.aws.internal''}"

definition blocked_suffixes :: "string list" where
  "blocked_suffixes = [''.localhost'', ''.local'', ''.internal'', ''.home.arpa'', ''.onion'',
     ''.example'', ''.invalid'', ''.test'']"

definition ends_with :: "string \<Rightarrow> string \<Rightarrow> bool" where
  "ends_with s t \<longleftrightarrow> length t \<le> length s \<and> drop (length s - length t) s = t"

definition assert_public_hostname :: "string \<Rightarrow> unit discovery" where
  "assert_public_hostname host =
     (let h = without_dot (to_lower host) in
      if h \<in> blocked_hosts \<or> list_ex (ends_with h) blocked_suffixes
      then Inl (Discovery ''blocked_host'') else Inr ())"

definition assert_public_ip :: "'i ipaddr \<Rightarrow> string \<Rightarrow> unit discovery" where
  "assert_public_ip I address =
     (case ip_parse I address of
        None \<Rightarrow> Inl (Discovery ''blocked_address'')
      | Some a \<Rightarrow> (let b = (if ip_is_mapped I a then ip_unmapped I a else a) in
          if ip_range I b \<noteq> ''unicast'' then Inl (Discovery ''blocked_address'') else Inr ()))"

text \<open>The loop over the answers of the lookup; \<open>Map.set\<close> keeps the place of a known key.\<close>

fun collect_public :: "'i ipaddr \<Rightarrow> (string \<times> nat) list \<Rightarrow> (string \<times> nat) list \<Rightarrow>
    (string \<times> nat) list discovery" where
  "collect_public I [] acc = Inr acc"
| "collect_public I ((address, family) # rest) acc =
     (if family \<noteq> 4 \<and> family \<noteq> 6 then Inl (Discovery ''blocked_address'')
      else case assert_public_ip I address of
        Inl e \<Rightarrow> Inl e
      | Inr _ \<Rightarrow> collect_public I rest (AList.update address family acc))"

text \<open>\<open>answers\<close> is what the DNS lookup of the host returned, None when it threw.\<close>

definition resolve_public_addresses ::
  "web \<Rightarrow> 'i ipaddr \<Rightarrow> string \<Rightarrow> (string \<times> nat) list option \<Rightarrow> (string \<times> nat) list discovery" where
  "resolve_public_addresses W I host answers =
     (case assert_public_hostname host of
        Inl e \<Rightarrow> Inl e
      | Inr _ \<Rightarrow>
          if ip_version W host \<noteq> 0
          then (case assert_public_ip I host of
                  Inl e \<Rightarrow> Inl e | Inr _ \<Rightarrow> Inr [(host, ip_version W host)])
          else case answers of
            None \<Rightarrow> Inl (Discovery ''dns_failed'')
          | Some as \<Rightarrow> if as = [] then Inl (Discovery ''dns_no_answers'') else collect_public I as [])"

text \<open>An address the library calls unicast, also as the IPv4 address an IPv6 one maps.\<close>

definition public_address :: "'i ipaddr \<Rightarrow> string \<Rightarrow> bool" where
  "public_address I address \<longleftrightarrow> (\<exists>a. ip_parse I address = Some a \<and>
     ip_range I (if ip_is_mapped I a then ip_unmapped I a else a) = ''unicast'')"

lemma assert_public_ip_Inr: "assert_public_ip I address = Inr u \<longleftrightarrow> public_address I address"
  by (auto simp: assert_public_ip_def public_address_def Let_def split: option.splits)

lemma collect_public_Inr:
  "collect_public I as acc = Inr r \<Longrightarrow>
     (\<forall>(a, f) \<in> set as. public_address I a \<and> f \<in> {4, 6}) \<and>
     (distinct (map fst acc) \<longrightarrow> distinct (map fst r)) \<and>
     fst ` set r = fst ` set acc \<union> fst ` set as \<and>
     (\<forall>x \<in> set r. x \<in> set acc \<or> x \<in> set as)"
proof (induction I as acc rule: collect_public.induct)
  case (2 I a f rest acc)
  have step: "collect_public I rest (AList.update a f acc) = Inr r" "public_address I a" "f \<in> {4, 6}"
    using 2(2) by (auto simp: assert_public_ip_Inr split: if_splits sum.splits)
  have "\<forall>x \<in> set (AList.update a f acc). x \<in> set acc \<or> x = (a, f)"
  proof (induction acc)
    case (Cons y acc)
    then show ?case by (cases y) auto
  qed simp
  moreover have "\<exists>u. assert_public_ip I a = Inr u" using step(2) by (simp add: assert_public_ip_Inr)
  ultimately show ?case
    using 2(1) [OF _ _ step(1)] step(2,3) AList.distinct_update [of acc a f]
    by (auto simp: AList.dom_update)
qed simp

section \<open>Properties\<close>

text \<open>
  C24. The canonical URL of a relay names it: normalising the canonical URL returns
  the same relay, so a relay is recorded under one name.  The exception is a
  relay whose canonical URL was written with port 443 (it came from an http or ws
  URL with that port): normalising that URL drops the port, so such a relay has two
  names.
\<close>

theorem canonical_url_names_itself:
  assumes "url_standard W" "normalize_relay_url W s = Inr r"
  shows "normalize_relay_url W (rn_url r) =
    Inr (if rn_port r = Some 443 then relay_of W (rn_host r) None else r)"
proof -
  obtain u h p where u: "parse_url W s = Some u" "u_protocol u \<in> accepted_protocols"
    "normalize_host W (u_hostname u) = Inr h" "normalize_port u = Inr p" "r = relay_of W h p"
    using assms(2) by (auto simp: normalize_relay_url_Inr)
  note p = normalize_port_cases [OF u(4)]
  have "reparses W h p \<and> (ip_version W h \<noteq> 0 \<longrightarrow> hd h \<noteq> CHR ''['' \<and> last h \<noteq> CHR ''.'')"
    using assms(1) u(1-3) p unfolding url_standard_def by blast
  then obtain v where v: "parse_url W (canonical_url W h p) = Some v" "u_protocol v = ''wss:''"
    "u_username v = []" "u_password v = []" "u_hostname v = authority_host W h"
    "u_port v = (if p = Some 443 then None else p)"
    and ip: "ip_version W h \<noteq> 0 \<Longrightarrow> hd h \<noteq> CHR ''['' \<and> last h \<noteq> CHR ''.''"
    unfolding reparses_def by blast
  have "domain_to_ascii W (domain_to_ascii W x) = domain_to_ascii W x" for x
    using assms(1) unfolding url_standard_def by blast
  with normalize_host_stable [OF u(3) ip]
  have "normalize_host W (u_hostname v) = Inr h" by (simp add: v(5))
  moreover have "normalize_port v = Inr (if p = Some 443 then None else p)"
    using p v(2,6) by (auto simp: normalize_port_def default_port_def split: option.splits)
  ultimately show ?thesis
    using v(1-4) u(5) by (auto simp: normalize_relay_url_def relay_of_def accepted_protocols_def)
qed

end
