(* ===== verification/Relay_Info.thy ===== *)
theory Relay_Info
  imports Relay_Url
begin

text \<open>
  src/discovery/nip11.ts (the information document of a relay), classifier.ts (is it
  a Buzz relay) and listing-eligibility.ts (may it be listed).  The SHA-256 of
  \<open>node:crypto\<close> and \<open>Date.parse\<close> are parameters.
\<close>

section \<open>JSON\<close>

text \<open>
  What \<open>JSON.parse\<close> returns; \<open>JReal n\<close> is a number that is not an integer, with its
  floor, and \<open>JInfinite\<close> one beyond the range of a double.  The keys of an object occur
  once.
\<close>

datatype json = JNull | JBool bool | JInt int | JReal int | JInfinite | JStr string
  | JArr "json list" | JObj "(string \<times> json) list"

definition json_field :: "(string \<times> json) list \<Rightarrow> string \<Rightarrow> json option" where
  "json_field fs name = map_of fs name"

definition optional_string :: "json option \<Rightarrow> string option discovery" where
  "optional_string v = (case v of
     None \<Rightarrow> Inr None | Some JNull \<Rightarrow> Inr None | Some (JStr s) \<Rightarrow> Inr (Some s)
   | _ \<Rightarrow> Inl (Discovery ''invalid_nip11''))"

definition optional_boolean :: "json option \<Rightarrow> bool option discovery" where
  "optional_boolean v = (case v of
     None \<Rightarrow> Inr None | Some JNull \<Rightarrow> Inr None | Some (JBool b) \<Rightarrow> Inr (Some b)
   | _ \<Rightarrow> Inl (Discovery ''invalid_nip11''))"

section \<open>The information document\<close>

record nip11 =
  ni_name :: "string option"
  ni_description :: "string option"
  ni_icon :: "string option"
  ni_software :: "string option"
  ni_version :: "string option"
  ni_nips :: "nat list"
  ni_self :: "string option"
  ni_auth_required :: "bool option"
  ni_restricted_writes :: "bool option"

definition nip_number :: "json \<Rightarrow> nat option" where
  "nip_number v = (case v of JInt n \<Rightarrow> if n < 0 then None else Some (nat n) | _ \<Rightarrow> None)"

definition supported_nips :: "json option \<Rightarrow> nat list discovery" where
  "supported_nips v = (case v of
     None \<Rightarrow> Inr []
   | Some (JArr ns) \<Rightarrow> if list_ex (\<lambda>n. nip_number n = None) ns then Inl (Discovery ''invalid_nip11'')
       else Inr (map (the \<circ> nip_number) ns)
   | _ \<Rightarrow> Inl (Discovery ''invalid_nip11''))"

definition limitation_fields :: "json option \<Rightarrow> (string \<times> json) list discovery" where
  "limitation_fields v = (case v of
     None \<Rightarrow> Inr [] | Some (JObj fs) \<Rightarrow> Inr fs | _ \<Rightarrow> Inl (Discovery ''invalid_nip11''))"

definition then_ok :: "'a discovery \<Rightarrow> ('a \<Rightarrow> 'b discovery) \<Rightarrow> 'b discovery" where
  "then_ok r f = (case r of Inl e \<Rightarrow> Inl e | Inr a \<Rightarrow> f a)"

lemma then_ok_simps [simp]: "then_ok (Inl e) f = Inl e" "then_ok (Inr a) f = f a"
  by (simp_all add: then_ok_def)

lemma then_ok_Inr: "then_ok r f = Inr b \<longleftrightarrow> (\<exists>a. r = Inr a \<and> f a = Inr b)"
  by (cases r) simp_all

definition parse_nip11_document :: "json \<Rightarrow> nip11 discovery" where
  "parse_nip11_document v = (case v of
     JObj fs \<Rightarrow>
       then_ok (supported_nips (json_field fs ''supported_nips'')) (\<lambda>nips.
       then_ok (limitation_fields (json_field fs ''limitation'')) (\<lambda>ls.
       then_ok (optional_string (json_field fs ''name'')) (\<lambda>name.
       then_ok (optional_string (json_field fs ''description'')) (\<lambda>description.
       then_ok (optional_string (json_field fs ''icon'')) (\<lambda>icon.
       then_ok (optional_string (json_field fs ''software'')) (\<lambda>software.
       then_ok (optional_string (json_field fs ''version'')) (\<lambda>version.
       then_ok (optional_string (json_field fs ''self'')) (\<lambda>self.
       then_ok (optional_boolean (json_field ls ''auth_required'')) (\<lambda>auth.
       then_ok (optional_boolean (json_field ls ''restricted_writes'')) (\<lambda>restricted.
       Inr \<lparr>ni_name = name, ni_description = description, ni_icon = icon, ni_software = software,
         ni_version = version, ni_nips = nips, ni_self = self, ni_auth_required = auth,
         ni_restricted_writes = restricted\<rparr>))))))))))
   | _ \<Rightarrow> Inl (Discovery ''invalid_nip11''))"

definition hash_public_icon :: "(string \<Rightarrow> string) \<Rightarrow> string option \<Rightarrow> string option" where
  "hash_public_icon sha256 icon =
     (case icon of None \<Rightarrow> None | Some i \<Rightarrow> if i = [] then None else Some (sha256 i))"

section \<open>Is it a Buzz relay\<close>

datatype buzz_state = Is_verified | Is_probable | Is_rejected

record classification =
  cl_state :: buzz_state
  cl_reason :: string
  cl_version :: nat

definition classification_of :: "buzz_state \<Rightarrow> string \<Rightarrow> classification" where
  "classification_of s r = \<lparr>cl_state = s, cl_reason = r, cl_version = 1\<rparr>"

definition buzz_software_url :: string where
  "buzz_software_url = ''https://github.com/block/buzz''"

definition without_slashes :: "string \<Rightarrow> string" where
  "without_slashes s = rev (dropWhile (\<lambda>c. c = CHR ''/'') (rev s))"

definition without_slash :: "string \<Rightarrow> string" where
  "without_slash s = (if s \<noteq> [] \<and> last s = CHR ''/'' then butlast s else s)"

text \<open>Setting \<open>pathname\<close> of an https URL to the empty string leaves \<open>/\<close>.\<close>

definition set_path :: "string \<Rightarrow> url \<Rightarrow> url" where
  "set_path p u = u\<lparr>u_pathname := (if p = [] then ''/'' else p)\<rparr>"

definition absent :: "string option \<Rightarrow> bool" where
  "absent x \<longleftrightarrow> x = None \<or> x = Some []"

definition normalize_software_url :: "web \<Rightarrow> string option \<Rightarrow> string option" where
  "normalize_software_url W software = (case software of
     None \<Rightarrow> None
   | Some s \<Rightarrow>
       if s = [] then None
       else (case parse_url W s of
         None \<Rightarrow> Some s
       | Some u \<Rightarrow>
           if u_protocol u \<noteq> ''https:'' \<or> u_username u \<noteq> [] \<or> u_password u \<noteq> [] \<or>
              \<not> absent (u_query u) \<or> \<not> absent (u_fragment u)
           then Some s
           else Some (without_slash (href (set_path (without_slashes (u_pathname u))
             (u\<lparr>u_hostname := to_lower (u_hostname u)\<rparr>))))))"

definition has_canonical_buzz_software :: "web \<Rightarrow> string option \<Rightarrow> bool" where
  "has_canonical_buzz_software W software \<longleftrightarrow>
     normalize_software_url W software = Some buzz_software_url"

definition has_buzz_nips :: "nip11 \<Rightarrow> bool" where
  "has_buzz_nips n \<longleftrightarrow> 29 \<in> set (ni_nips n) \<and> 42 \<in> set (ni_nips n)"

definition classify_buzz_relay :: "web \<Rightarrow> nip11 \<Rightarrow> bool \<Rightarrow> classification" where
  "classify_buzz_relay W n websocket_opened =
     (let software = normalize_software_url W (ni_software n) in
      if \<not> websocket_opened then classification_of Is_rejected ''websocket_unavailable''
      else if software = Some buzz_software_url \<and> has_buzz_nips n
      then classification_of Is_verified ''exact_software_and_protocol''
      else if software \<noteq> None \<and> software \<noteq> Some [] \<and> software \<noteq> Some buzz_software_url
      then classification_of Is_rejected ''different_software''
      else if ni_name n = Some ''Buzz Relay'' \<and> has_buzz_nips n \<and>
        (ni_auth_required n = Some True \<or> ni_restricted_writes n = Some True)
      then classification_of Is_probable ''buzz_metadata_without_canonical_software''
      else classification_of Is_rejected ''insufficient_buzz_evidence'')"

section \<open>May it be listed\<close>

record evidence =
  el_type :: string
  el_actor :: "string option"
  el_observed :: string

record last_probe =
  lp_probed :: string
  lp_result :: string
  lp_tls :: bool

record eligibility =
  eg_eligible :: bool
  eg_sources :: nat
  eg_reason :: string

definition eligibility_of :: "bool \<Rightarrow> nat \<Rightarrow> string \<Rightarrow> eligibility" where
  "eligibility_of e n r = \<lparr>eg_eligible = e, eg_sources = n, eg_reason = r\<rparr>"

definition verified_probe_max_age :: int where "verified_probe_max_age = 48 * 60 * 60 * 1000"
definition nip66_max_age :: int where "nip66_max_age = 7 * 24 * 60 * 60 * 1000"
definition intent_max_age :: int where "intent_max_age = 30 * 24 * 60 * 60 * 1000"

text \<open>\<open>date s\<close> is \<open>Date.parse(s)\<close>, None for NaN.\<close>

definition is_within_age :: "(string \<Rightarrow> int option) \<Rightarrow> string \<Rightarrow> int \<Rightarrow> int \<Rightarrow> bool" where
  "is_within_age date s now maximum = (case date s of
     None \<Rightarrow> False | Some t \<Rightarrow> 0 \<le> now - t \<and> now - t \<le> maximum)"

definition has_fresh_verification ::
  "(string \<Rightarrow> int option) \<Rightarrow> last_probe option \<Rightarrow> int \<Rightarrow> bool" where
  "has_fresh_verification date p now = (case p of
     None \<Rightarrow> False
   | Some q \<Rightarrow> lp_tls q \<and> lp_result q = ''exact_software_and_protocol'' \<and>
       is_within_age date (lp_probed q) now verified_probe_max_age)"

definition is_fresh_evidence :: "(string \<Rightarrow> int option) \<Rightarrow> int \<Rightarrow> evidence \<Rightarrow> bool" where
  "is_fresh_evidence date now e =
     (if el_type e = ''nip66'' then is_within_age date (el_observed e) now nip66_max_age
      else if el_type e = ''github'' \<or> el_type e = ''provider''
      then is_within_age date (el_observed e) now intent_max_age
      else False)"

definition qualifying :: "evidence \<Rightarrow> bool" where
  "qualifying e \<longleftrightarrow> el_type e \<in> {''github'', ''nip66'', ''provider''}"

definition monitors :: "evidence list \<Rightarrow> string list" where
  "monitors es = remdups (map (the \<circ> el_actor)
     (filter (\<lambda>e. el_type e = ''nip66'' \<and> \<not> absent (el_actor e)) es))"

definition evaluate_listing_eligibility ::
  "(string \<Rightarrow> int option) \<Rightarrow> string \<Rightarrow> evidence list \<Rightarrow> last_probe option \<Rightarrow> int \<Rightarrow> eligibility" where
  "evaluate_listing_eligibility date state sources probe now =
     (if state = ''suppressed'' then eligibility_of False 0 ''suppressed''
      else if state \<noteq> ''verified_buzz'' then eligibility_of False 0 ''technical_not_verified''
      else if \<not> has_fresh_verification date probe now
      then eligibility_of False 0 ''technical_verification_stale''
      else
        let fresh = filter (is_fresh_evidence date now) sources;
            provider = list_ex (\<lambda>e. el_type e = ''provider'') fresh;
            github = list_ex (\<lambda>e. el_type e = ''github'') fresh;
            n = (if provider then 1 else 0) + (if github then 1 else 0) + length (monitors fresh)
        in if provider then eligibility_of True n ''provider_intent''
           else if 2 \<le> length (monitors fresh) then eligibility_of True n ''two_nip66_monitors''
           else if github \<and> 1 \<le> length (monitors fresh)
           then eligibility_of True n ''mixed_public_sources''
           else eligibility_of False n
             (if list_ex (\<lambda>e. qualifying e \<and> \<not> is_fresh_evidence date now e) sources \<and>
                 \<not> list_ex qualifying fresh
              then ''public_evidence_stale'' else ''insufficient_public_evidence''))"

section \<open>Properties\<close>

lemma length_monitors: "length (monitors es) = card (the ` el_actor `
    {e \<in> set es. el_type e = ''nip66'' \<and> \<not> absent (el_actor e)})"
  by (simp add: monitors_def length_remdups_card_conv image_comp)

lemma two_actors:
  "2 \<le> card (the ` el_actor ` {e \<in> set es. el_type e = ''nip66'' \<and> \<not> absent (el_actor e)}) \<longleftrightarrow>
   (\<exists>a \<in> set es. \<exists>b \<in> set es. el_type a = ''nip66'' \<and> el_type b = ''nip66'' \<and>
      el_actor a \<noteq> el_actor b \<and> \<not> absent (el_actor a) \<and> \<not> absent (el_actor b))" (is "2 \<le> card ?A \<longleftrightarrow> ?R")
proof -
  have fin: "finite ?A" by simp
  have "2 \<le> card ?A \<longleftrightarrow> \<not> card ?A \<le> Suc 0" by auto
  also have "\<dots> \<longleftrightarrow> (\<exists>x \<in> ?A. \<exists>y \<in> ?A. x \<noteq> y)" using card_le_Suc0_iff_eq [OF fin] by blast
  also have "\<dots> \<longleftrightarrow> ?R"
  proof
    assume "\<exists>x \<in> ?A. \<exists>y \<in> ?A. x \<noteq> y"
    then obtain a b where "a \<in> set es" "el_type a = ''nip66''" "\<not> absent (el_actor a)"
      "b \<in> set es" "el_type b = ''nip66''" "\<not> absent (el_actor b)" "the (el_actor a) \<noteq> the (el_actor b)"
      by (elim bexE imageE CollectE conjE) simp
    then show ?R by (intro bexI [of _ a] bexI [of _ b]) auto
  next
    assume ?R
    then obtain a b where a: "a \<in> set es" "el_type a = ''nip66''" "\<not> absent (el_actor a)"
      and b: "b \<in> set es" "el_type b = ''nip66''" "\<not> absent (el_actor b)" and "el_actor a \<noteq> el_actor b"
      by blast
    then have "the (el_actor a) \<noteq> the (el_actor b)" by (auto simp: absent_def)
    with a b show "\<exists>x \<in> ?A. \<exists>y \<in> ?A. x \<noteq> y"
      by (intro bexI [of _ "the (el_actor a)"] bexI [of _ "the (el_actor b)"] imageI) simp_all
  qed
  finally show ?thesis .
qed

text \<open>
  A relay is listed only on independent evidence: it is eligible exactly when its
  state is verified, its last probe was a verified one over valid TLS of the last 48
  hours, and among the sources there is a provider's of the last 30 days, or two
  different monitors' of the last 7 days, or one monitor's of the last 7 days and one
  on GitHub of the last 30.  However often one monitor reports, it counts once.
\<close>

lemma listing_needs_independent_evidence:
  "eg_eligible (evaluate_listing_eligibility date state sources probe now) \<longleftrightarrow>
   state = ''verified_buzz'' \<and>
   (\<exists>p. probe = Some p \<and> lp_tls p \<and> lp_result p = ''exact_software_and_protocol'' \<and>
      is_within_age date (lp_probed p) now (48 * 3600000)) \<and>
   ((\<exists>e \<in> set sources. el_type e = ''provider'' \<and> is_within_age date (el_observed e) now (30 * 86400000)) \<or>
    (\<exists>a \<in> set sources. \<exists>b \<in> set sources. el_type a = ''nip66'' \<and> el_type b = ''nip66'' \<and>
       el_actor a \<noteq> el_actor b \<and> \<not> absent (el_actor a) \<and> \<not> absent (el_actor b) \<and>
       is_within_age date (el_observed a) now (7 * 86400000) \<and>
       is_within_age date (el_observed b) now (7 * 86400000)) \<or>
    (\<exists>a \<in> set sources. \<exists>b \<in> set sources. el_type a = ''nip66'' \<and> el_type b = ''github'' \<and>
       \<not> absent (el_actor a) \<and> is_within_age date (el_observed a) now (7 * 86400000) \<and>
       is_within_age date (el_observed b) now (30 * 86400000)))"
proof -
  let ?fresh = "filter (is_fresh_evidence date now) sources"
  have fresh: "has_fresh_verification date probe now \<longleftrightarrow> (\<exists>p. probe = Some p \<and> lp_tls p \<and>
      lp_result p = ''exact_software_and_protocol'' \<and> is_within_age date (lp_probed p) now (48 * 3600000))"
    by (auto simp: has_fresh_verification_def verified_probe_max_age_def split: option.splits)
  have kind: "is_fresh_evidence date now e \<longleftrightarrow>
      el_type e = ''nip66'' \<and> is_within_age date (el_observed e) now (7 * 86400000) \<or>
      el_type e \<in> {''github'', ''provider''} \<and> is_within_age date (el_observed e) now (30 * 86400000)" for e
    by (auto simp: is_fresh_evidence_def nip66_max_age_def intent_max_age_def)
  have one: "1 \<le> length (monitors ?fresh) \<longleftrightarrow>
      (\<exists>a \<in> set ?fresh. el_type a = ''nip66'' \<and> \<not> absent (el_actor a))"
    by (auto simp: monitors_def Suc_le_eq filter_empty_conv)
  have two: "2 \<le> length (monitors ?fresh) \<longleftrightarrow>
      (\<exists>a \<in> set ?fresh. \<exists>b \<in> set ?fresh. el_type a = ''nip66'' \<and> el_type b = ''nip66'' \<and>
         el_actor a \<noteq> el_actor b \<and> \<not> absent (el_actor a) \<and> \<not> absent (el_actor b))"
    unfolding length_monitors two_actors ..
  have "eg_eligible (evaluate_listing_eligibility date state sources probe now) \<longleftrightarrow>
      state = ''verified_buzz'' \<and> has_fresh_verification date probe now \<and>
      (list_ex (\<lambda>e. el_type e = ''provider'') ?fresh \<or> 2 \<le> length (monitors ?fresh) \<or>
       list_ex (\<lambda>e. el_type e = ''github'') ?fresh \<and> 1 \<le> length (monitors ?fresh))"
    by (simp add: evaluate_listing_eligibility_def eligibility_of_def Let_def)
  moreover have "list_ex (\<lambda>e. el_type e = ''provider'') ?fresh \<longleftrightarrow> (\<exists>e \<in> set sources.
      el_type e = ''provider'' \<and> is_within_age date (el_observed e) now (30 * 86400000))"
    by (auto simp: kind list_ex_iff)
  moreover have "2 \<le> length (monitors ?fresh) \<longleftrightarrow> (\<exists>a \<in> set sources. \<exists>b \<in> set sources.
       el_type a = ''nip66'' \<and> el_type b = ''nip66'' \<and>
       el_actor a \<noteq> el_actor b \<and> \<not> absent (el_actor a) \<and> \<not> absent (el_actor b) \<and>
       is_within_age date (el_observed a) now (7 * 86400000) \<and>
       is_within_age date (el_observed b) now (7 * 86400000))"
    unfolding two set_filter mem_Collect_eq bex_simps kind by fastforce
  moreover have "list_ex (\<lambda>e. el_type e = ''github'') ?fresh \<and> 1 \<le> length (monitors ?fresh) \<longleftrightarrow>
      (\<exists>a \<in> set sources. \<exists>b \<in> set sources. el_type a = ''nip66'' \<and> el_type b = ''github'' \<and>
       \<not> absent (el_actor a) \<and> is_within_age date (el_observed a) now (7 * 86400000) \<and>
       is_within_age date (el_observed b) now (30 * 86400000))"
    unfolding one list_ex_iff by (auto simp: kind)
  ultimately show ?thesis unfolding fresh by blast
qed

end
