(* ===== verification/Relay_Probe.thy ===== *)
theory Relay_Probe
  imports Relay_Info
begin

text \<open>
  src/discovery/probe.ts: fetching a relay's information document and opening its
  WebSocket, over connections pinned to an address that was checked to be public.
  The resolver, the HTTPS response and the socket are an environment that answers at
  will; \<open>pb_opened\<close> is a ghost log of the connections opened, with the name and
  the address connected to.
\<close>

section \<open>What the sockets report\<close>

text \<open>
  The events of one request in their order, up to the total timer of five seconds:
  when the list ends with nothing settled, the timer fires.
\<close>

datatype http_event = Response nat | Data "nat list" | Response_end | Response_error
  | Request_error | Connect_timeout

datatype socket_event = Socket_open nat | Socket_unexpected | Socket_error

definition body_limit :: nat where
  "body_limit = 256 * 1024"

text \<open>
  \<open>requestBoundedJson\<close>: the status once the response callback ran, and the bytes so
  far.  Handlers of the response exist only after that callback.
\<close>

fun read_response :: "http_event list \<Rightarrow> nat option \<Rightarrow> nat list \<Rightarrow> (nat list \<times> nat) discovery" where
  "read_response [] status body = Inl (Discovery ''http_timeout'')"
| "read_response (Response n # es) status body =
     (if n \<noteq> 200 then Inl (Discovery ''http_status'') else read_response es (Some n) body)"
| "read_response (Data chunk # es) status body =
     (case status of
        None \<Rightarrow> read_response es None body
      | Some n \<Rightarrow> if length body + length chunk > body_limit then Inl (Discovery ''response_too_large'')
                  else read_response es (Some n) (body @ chunk))"
| "read_response (Response_end # es) status body =
     (case status of None \<Rightarrow> read_response es None body | Some n \<Rightarrow> Inr (body, n))"
| "read_response (Response_error # es) status body =
     (case status of None \<Rightarrow> read_response es None body | Some n \<Rightarrow> Inl (Discovery ''invalid_nip11''))"
| "read_response (Request_error # es) status body = Inl (Discovery ''invalid_nip11'')"
| "read_response (Connect_timeout # es) status body = Inl (Discovery ''http_timeout'')"

fun socket_result :: "socket_event list \<Rightarrow> nat discovery" where
  "socket_result [] = Inl (Discovery ''ws_timeout'')"
| "socket_result (Socket_open ms # es) = Inr ms"
| "socket_result (Socket_unexpected # es) = Inl (Discovery ''ws_failed'')"
| "socket_result (Socket_error # es) = Inl (Discovery ''ws_failed'')"

section \<open>The network\<close>

text \<open>\<open>nw_lookup\<close> is None when the DNS lookup throws; \<open>nw_json\<close> is \<open>JSON.parse\<close> of the
  bytes read as UTF-8, None when it throws.\<close>

record ('e, 'i) network =
  nw_web :: web
  nw_ip :: "'i ipaddr"
  nw_sha256 :: "string \<Rightarrow> string"
  nw_json :: "nat list \<Rightarrow> json option"
  nw_lookup :: "string \<Rightarrow> 'e \<Rightarrow> (string \<times> nat) list option \<times> 'e"
  nw_http :: "string \<Rightarrow> string \<times> nat \<Rightarrow> 'e \<Rightarrow> http_event list \<times> 'e"
  nw_socket :: "string \<Rightarrow> string \<times> nat \<Rightarrow> 'e \<Rightarrow> socket_event list \<times> 'e"

record 'e probing =
  pb_env :: 'e
  pb_opened :: "(string \<times> string) list"

type_synonym ('e, 'a) probe = "'e probing \<Rightarrow> 'a discovery \<times> 'e probing"

definition probe_then :: "('e, 'a) probe \<Rightarrow> ('a \<Rightarrow> ('e, 'b) probe) \<Rightarrow> ('e, 'b) probe" where
  "probe_then m f = (\<lambda>w. case m w of (Inl e, w') \<Rightarrow> (Inl e, w') | (Inr a, w') \<Rightarrow> f a w')"

definition probe_res :: "'a discovery \<Rightarrow> ('e, 'a) probe" where
  "probe_res r = (\<lambda>w. (r, w))"

section \<open>Resolving and connecting\<close>

definition looks_up :: "web \<Rightarrow> string \<Rightarrow> bool" where
  "looks_up W host \<longleftrightarrow> assert_public_hostname host = Inr () \<and> ip_version W host = 0"

definition resolve :: "('e, 'i) network \<Rightarrow> string \<Rightarrow> ('e, (string \<times> nat) list) probe" where
  "resolve net host = (\<lambda>w.
     if looks_up (nw_web net) host
     then (case nw_lookup net host (pb_env w) of (answers, e') \<Rightarrow>
       (resolve_public_addresses (nw_web net) (nw_ip net) host answers, w\<lparr>pb_env := e'\<rparr>))
     else (resolve_public_addresses (nw_web net) (nw_ip net) host None, w))"

definition request_json :: "('e, 'i) network \<Rightarrow> string \<Rightarrow> string \<times> nat \<Rightarrow> ('e, nat list \<times> nat) probe" where
  "request_json net host pinned = (\<lambda>w. case nw_http net host pinned (pb_env w) of (es, e') \<Rightarrow>
     (read_response es None [], w\<lparr>pb_env := e', pb_opened := (host, fst pinned) # pb_opened w\<rparr>))"

definition open_socket :: "('e, 'i) network \<Rightarrow> string \<Rightarrow> string \<times> nat \<Rightarrow> ('e, nat) probe" where
  "open_socket net host pinned = (\<lambda>w. case nw_socket net host pinned (pb_env w) of (es, e') \<Rightarrow>
     (socket_result es, w\<lparr>pb_env := e', pb_opened := (host, fst pinned) # pb_opened w\<rparr>))"

definition host_of_url :: "web \<Rightarrow> string \<Rightarrow> string discovery" where
  "host_of_url W url = (case parse_url W url of
     None \<Rightarrow> Inl Runtime_error | Some u \<Rightarrow> Inr (unwrap_ipv6 (u_hostname u)))"

definition fetch_nip11 :: "('e, 'i) network \<Rightarrow> string \<Rightarrow> ('e, nip11 \<times> nat) probe" where
  "fetch_nip11 net url =
     probe_then (probe_res (host_of_url (nw_web net) url)) (\<lambda>host.
     probe_then (resolve net host) (\<lambda>addresses.
     probe_then (request_json net host (hd addresses)) (\<lambda>(body, status).
     case nw_json net body of
       None \<Rightarrow> probe_res (Inl (Discovery ''invalid_nip11''))
     | Some v \<Rightarrow> probe_then (probe_res (parse_nip11_document v)) (\<lambda>doc.
         probe_res (Inr (doc, status))))))"

definition open_websocket :: "('e, 'i) network \<Rightarrow> string \<Rightarrow> ('e, nat) probe" where
  "open_websocket net url =
     probe_then (probe_res (host_of_url (nw_web net) url)) (\<lambda>host.
     probe_then (resolve net host) (\<lambda>addresses.
     open_socket net host (hd addresses)))"

section \<open>probeRelay\<close>

record probe_success =
  ps_http_status :: nat
  ps_open_ms :: nat
  ps_nip11 :: nip11
  ps_icon_hash :: "string option"
  ps_classification :: classification

datatype probe_result = Probe_ok string probe_success | Probe_failed string string

definition to_discovery_error :: "thrown \<Rightarrow> string \<Rightarrow> string" where
  "to_discovery_error e fallback = (case e of Discovery c \<Rightarrow> c | Runtime_error \<Rightarrow> fallback)"

definition probe_both :: "('e, 'i) network \<Rightarrow> string \<Rightarrow> ('e, probe_success) probe" where
  "probe_both net url =
     probe_then (fetch_nip11 net url) (\<lambda>(doc, status).
     probe_then (open_websocket net url) (\<lambda>ms.
     probe_res (Inr \<lparr>ps_http_status = status, ps_open_ms = ms, ps_nip11 = doc,
       ps_icon_hash = hash_public_icon (nw_sha256 net) (ni_icon doc),
       ps_classification = classify_buzz_relay (nw_web net) doc True\<rparr>)))"

definition probe_relay :: "('e, 'i) network \<Rightarrow> string \<Rightarrow> ('e, probe_result) probe" where
  "probe_relay net candidate =
     probe_then (probe_res (normalize_relay_url (nw_web net) candidate)) (\<lambda>r w.
       case probe_both net (rn_url r) w of
         (Inr p, w') \<Rightarrow> (Inr (Probe_ok (rn_url r) p), w')
       | (Inl e, w') \<Rightarrow> (Inr (Probe_failed (rn_url r) (to_discovery_error e ''ws_failed'')), w'))"

section \<open>Only public addresses are connected to\<close>

definition reachable_host :: "'i ipaddr \<Rightarrow> string \<times> string \<Rightarrow> bool" where
  "reachable_host I = (\<lambda>(host, address).
     assert_public_hostname host = Inr () \<and> public_address I address)"

text \<open>\<open>m\<close> opens at most \<open>n\<close> connections, all of them to public addresses.\<close>

definition opens_public :: "'i ipaddr \<Rightarrow> nat \<Rightarrow> ('e, 'a) probe \<Rightarrow> bool" where
  "opens_public I n m \<longleftrightarrow> (\<forall>w. \<exists>new. pb_opened (snd (m w)) = new @ pb_opened w \<and>
     length new \<le> n \<and> list_all (reachable_host I) new)"

named_theorems opens_intros \<open>rules that a probe opens public connections only\<close>

lemma opens_quiet: "(\<And>w. pb_opened (snd (m w)) = pb_opened w) \<Longrightarrow> opens_public I n m"
  by (simp add: opens_public_def)

lemma opens_res [opens_intros]: "opens_public I n (probe_res r)"
  by (rule opens_quiet) (simp add: probe_res_def)

lemma opens_then [opens_intros]:
  assumes "opens_public I n m" "\<And>a. opens_public I k (f a)"
  shows "opens_public I (n + k) (probe_then m f)"
  unfolding opens_public_def
proof
  fix w
  obtain new where new: "pb_opened (snd (m w)) = new @ pb_opened w" "length new \<le> n"
    "list_all (reachable_host I) new"
    using assms(1) unfolding opens_public_def by blast
  show "\<exists>new. pb_opened (snd (probe_then m f w)) = new @ pb_opened w \<and> length new \<le> n + k \<and>
      list_all (reachable_host I) new"
  proof (cases "m w")
    case (Pair r w1)
    show ?thesis
    proof (cases r)
      case (Inl e)
      with Pair new show ?thesis by (auto simp: probe_then_def)
    next
      case (Inr a)
      obtain more where more: "pb_opened (snd (f a w1)) = more @ pb_opened w1" "length more \<le> k"
        "list_all (reachable_host I) more"
        using assms(2) unfolding opens_public_def by blast
      show ?thesis
        by (rule exI [of _ "more @ new"]) (use Pair Inr new more in \<open>simp add: probe_then_def\<close>)
    qed
  qed
qed

lemma resolve_public_addresses_Inr:
  assumes "resolve_public_addresses W I host answers = Inr as"
  shows "assert_public_hostname host = Inr () \<and> as \<noteq> [] \<and> distinct (map fst as) \<and>
    (\<forall>(a, f) \<in> set as. public_address I a)"
proof -
  have host: "assert_public_hostname host = Inr ()"
    using assms by (auto simp: resolve_public_addresses_def split: sum.splits)
  show ?thesis
  proof (cases "ip_version W host = 0")
    case False
    with assms host show ?thesis
      by (auto simp: resolve_public_addresses_def assert_public_ip_Inr split: sum.splits)
  next
    case True
    then obtain xs where xs: "answers = Some xs" "xs \<noteq> []" and run: "collect_public I xs [] = Inr as"
      using assms host by (auto simp: resolve_public_addresses_def split: option.splits if_splits)
    note c = collect_public_Inr [OF run]
    have "as \<noteq> []" using c xs(2) by (cases as) auto
    with c host show ?thesis by fastforce
  qed
qed

text \<open>A connection made with the first address that \<open>resolve\<close> returned.\<close>

lemma opens_resolved:
  assumes "\<And>a w. \<exists>r e'. g a w = (r, w\<lparr>pb_env := e', pb_opened := (host, fst (hd a)) # pb_opened w\<rparr>)"
  shows "opens_public (nw_ip net) 1 (probe_then (resolve net host) g)"
  unfolding opens_public_def
proof
  fix w
  let ?I = "nw_ip net"
  obtain answers e' where run: "resolve net host w =
      (resolve_public_addresses (nw_web net) ?I host answers, w\<lparr>pb_env := e'\<rparr>)"
  proof (cases "looks_up (nw_web net) host")
    case True
    then show ?thesis by (cases "nw_lookup net host (pb_env w)") (auto simp: resolve_def intro: that)
  next
    case False
    then show ?thesis by (intro that [of None "pb_env w"]) (simp add: resolve_def)
  qed
  show "\<exists>new. pb_opened (snd (probe_then (resolve net host) g w)) = new @ pb_opened w \<and>
      length new \<le> 1 \<and> list_all (reachable_host ?I) new"
  proof (cases "resolve_public_addresses (nw_web net) ?I host answers")
    case (Inl e)
    with run show ?thesis by (simp add: probe_then_def)
  next
    case (Inr as)
    note as = resolve_public_addresses_Inr [OF Inr]
    then have "reachable_host ?I (host, fst (hd as))"
      using hd_in_set [of as] by (cases "hd as") (auto simp: reachable_host_def)
    moreover obtain r e'' where "g as (w\<lparr>pb_env := e'\<rparr>) =
        (r, w\<lparr>pb_env := e'', pb_opened := (host, fst (hd as)) # pb_opened w\<rparr>)"
      using assms [of as "w\<lparr>pb_env := e'\<rparr>"] by auto
    ultimately show ?thesis
      by (intro exI [of _ "[(host, fst (hd as))]"]) (simp add: probe_then_def run Inr)
  qed
qed

lemma open_socket_runs: "\<exists>r e'. open_socket net host p w =
    (r, w\<lparr>pb_env := e', pb_opened := (host, fst p) # pb_opened w\<rparr>)"
  by (auto simp: open_socket_def split: prod.splits)

lemma request_json_runs: "\<exists>r e'. request_json net host p w =
    (r, w\<lparr>pb_env := e', pb_opened := (host, fst p) # pb_opened w\<rparr>)"
  by (auto simp: request_json_def split: prod.splits)

lemma probe_then_assoc: "probe_then (probe_then m f) g = probe_then m (\<lambda>a. probe_then (f a) g)"
  by (auto simp: probe_then_def fun_eq_iff split: prod.splits sum.splits)

lemmas opens_first = opens_then [where n = 0, simplified] and opens_last = opens_then [where k = 0, simplified]

lemma opens_websocket: "opens_public (nw_ip net) 1 (open_websocket net url)"
  unfolding open_websocket_def
  by (rule opens_first, rule opens_res, rule opens_resolved, rule open_socket_runs)

lemma opens_fetch: "opens_public (nw_ip net) 1 (fetch_nip11 net url)"
  for net :: "('e, 'i) network"
proof -
  have request: "opens_public (nw_ip net) 1 (probe_then (resolve net host)
      (\<lambda>as. probe_then (request_json net host (hd as)) h))"
    if "\<And>a. opens_public (nw_ip net) 0 (h a)" for host and h :: "nat list \<times> nat \<Rightarrow> ('e, nip11 \<times> nat) probe"
    unfolding probe_then_assoc [symmetric]
    by (rule opens_last [OF opens_resolved that]) (rule request_json_runs)
  show ?thesis
    unfolding fetch_nip11_def
  proof (rule opens_first [OF opens_res request])
    fix a :: "nat list \<times> nat"
    show "opens_public (nw_ip net) 0 (case a of (body, status) \<Rightarrow> case nw_json net body of
        None \<Rightarrow> probe_res (Inl (Discovery ''invalid_nip11''))
      | Some v \<Rightarrow> probe_then (probe_res (parse_nip11_document v)) (\<lambda>doc. probe_res (Inr (doc, status))))"
      by (auto split: option.splits prod.splits intro!: opens_res opens_first)
  qed
qed

lemma opens_both: "opens_public (nw_ip net) 2 (probe_both net url)"
proof -
  have "opens_public (nw_ip net) (1 + 1) (probe_both net url)"
    unfolding probe_both_def
  proof (rule opens_then [OF opens_fetch])
    fix a :: "nip11 \<times> nat"
    show "opens_public (nw_ip net) 1 (case a of (doc, status) \<Rightarrow>
        probe_then (open_websocket net url) (\<lambda>ms. probe_res (Inr \<lparr>ps_http_status = status,
          ps_open_ms = ms, ps_nip11 = doc, ps_icon_hash = hash_public_icon (nw_sha256 net) (ni_icon doc),
          ps_classification = classify_buzz_relay (nw_web net) doc True\<rparr>)))"
      by (cases a) (simp only: prod.case, rule opens_last [OF opens_websocket opens_res])
  qed
  then show ?thesis by (simp only: one_add_one)
qed

section \<open>What a successful probe read\<close>

lemma read_response_Inr:
  "read_response es status body = Inr (b, n) \<Longrightarrow> length body \<le> body_limit \<Longrightarrow>
     (\<forall>m. status = Some m \<longrightarrow> m = 200) \<Longrightarrow> length b \<le> body_limit \<and> n = 200"
  by (induction es status body rule: read_response.induct) (auto split: option.splits if_splits)

lemma probe_then_Inr:
  "probe_then m f w = (Inr b, w') \<longleftrightarrow> (\<exists>a w1. m w = (Inr a, w1) \<and> f a w1 = (Inr b, w'))"
  by (auto simp: probe_then_def split: prod.splits sum.splits)

lemma probe_res_Inr: "probe_res r w = (Inr a, w') \<longleftrightarrow> r = Inr a \<and> w' = w"
  by (auto simp: probe_res_def)

lemma fetch_nip11_Inr:
  assumes "fetch_nip11 net url w = (Inr (doc, status), w')"
  shows "status = 200 \<and> (\<exists>body v. length body \<le> body_limit \<and> nw_json net body = Some v \<and>
    parse_nip11_document v = Inr doc)"
proof -
  obtain host as w1 w2 body where run: "request_json net host (hd as) w1 = (Inr (body, status), w2)"
    and doc: "\<exists>v. nw_json net body = Some v \<and> parse_nip11_document v = Inr doc"
    using assms by (auto simp: fetch_nip11_def probe_then_Inr probe_res_Inr split: option.splits)
  then have "length body \<le> body_limit \<and> status = 200"
    using read_response_Inr [of _ None "[]" body status]
    by (auto simp: request_json_def split: prod.splits)
  with doc show ?thesis by blast
qed

section \<open>Properties\<close>

text \<open>
  C22. Probing a candidate cannot reach into a private network: whatever URL was
  submitted and whatever the resolver answers, differently each time if it likes, a
  probe opens at most two connections, each to an address that ipaddr.js calls
  unicast (also when it is an IPv4 address mapped into IPv6) and under a host name
  that is not one of the blocked ones.
\<close>

theorem probe_connects_to_public_addresses:
  "\<exists>new. pb_opened (snd (probe_relay net candidate w)) = new @ pb_opened w \<and> length new \<le> 2 \<and>
     (\<forall>(host, address) \<in> set new. assert_public_hostname host = Inr () \<and>
        public_address (nw_ip net) address)"
proof -
  have "\<exists>new. pb_opened (snd (probe_relay net candidate w)) = new @ pb_opened w \<and> length new \<le> 2 \<and>
      list_all (reachable_host (nw_ip net)) new"
  proof (cases "normalize_relay_url (nw_web net) candidate")
    case (Inl e)
    then show ?thesis by (simp add: probe_relay_def probe_then_def probe_res_def)
  next
    case (Inr r)
    then have "snd (probe_relay net candidate w) = snd (probe_both net (rn_url r) w)"
      by (auto simp: probe_relay_def probe_then_def probe_res_def split: prod.splits sum.splits)
    with opens_both [of net "rn_url r"] show ?thesis by (simp add: opens_public_def)
  qed
  then show ?thesis by (auto simp: list_all_iff reachable_host_def)
qed

text \<open>
  C23. A probe of a well-formed candidate URL never throws: every failure is a result
  with a code.  A probe that succeeded read a document of at most 256 KiB with status
  200, and calls the relay a verified Buzz relay exactly when the document names the
  Buzz software and the protocols 29 and 42.
\<close>

theorem probe_result_is_sound:
  assumes "normalize_relay_url (nw_web net) candidate = Inr r"
  shows "\<exists>result. fst (probe_relay net candidate w) = Inr result \<and>
    (\<forall>url p. result = Probe_ok url p \<longrightarrow> url = rn_url r \<and> ps_http_status p = 200 \<and>
       (\<exists>body v. length body \<le> 262144 \<and> nw_json net body = Some v \<and>
          parse_nip11_document v = Inr (ps_nip11 p)) \<and>
       (cl_state (ps_classification p) = Is_verified \<longleftrightarrow>
          has_canonical_buzz_software (nw_web net) (ni_software (ps_nip11 p)) \<and>
          {29, 42} \<subseteq> set (ni_nips (ps_nip11 p))))"
proof (cases "probe_both net (rn_url r) w")
  case (Pair outcome w')
  show ?thesis
  proof (cases outcome)
    case (Inl e)
    with Pair assms show ?thesis by (simp add: probe_relay_def probe_then_def probe_res_def)
  next
    case (Inr p)
    obtain doc status ms w1 where run: "fetch_nip11 net (rn_url r) w = (Inr (doc, status), w1)"
      and p: "ps_http_status p = status" "ps_nip11 p = doc"
        "ps_classification p = classify_buzz_relay (nw_web net) doc True"
      using Pair Inr by (auto simp: probe_both_def probe_then_Inr probe_res_Inr)
    have "cl_state (ps_classification p) = Is_verified \<longleftrightarrow>
        has_canonical_buzz_software (nw_web net) (ni_software doc) \<and> {29, 42} \<subseteq> set (ni_nips doc)"
      by (auto simp: p(3) classify_buzz_relay_def has_canonical_buzz_software_def has_buzz_nips_def
          classification_of_def Let_def)
    with fetch_nip11_Inr [OF run] p Pair Inr assms show ?thesis
      by (auto simp: probe_relay_def probe_then_def probe_res_def body_limit_def)
  qed
qed

end
