(* ===== verification/Discovery_Witnesses.thy ===== *)
theory Discovery_Witnesses
  imports Relay_Probe
begin

text \<open>
  A small concrete web (one relay, written in several ways), a network in which it
  answers, and the properties of the discovery theories applied to them.
\<close>

definition nest_url :: "string \<Rightarrow> nat option \<Rightarrow> url" where
  "nest_url protocol port = \<lparr>u_protocol = protocol, u_username = [], u_password = [],
     u_hostname = ''nest.buzz'', u_port = port, u_pathname = ''/'', u_query = None, u_fragment = None\<rparr>"

definition sample_web :: web where
  "sample_web = \<lparr>
     parse_url = map_of
       [(''https://Nest.buzz'', nest_url ''https:'' None),
        (''http://nest.buzz:443/'', nest_url ''http:'' (Some 443)),
        (''wss://nest.buzz'', nest_url ''wss:'' None),
        (''wss://nest.buzz:443'', nest_url ''wss:'' None)],
     domain_to_ascii = (\<lambda>s. s), ip_version = (\<lambda>s. 0)\<rparr>"

lemma sample_web_urls:
  "parse_url sample_web s = Some u \<Longrightarrow>
     u_hostname u = ''nest.buzz'' \<and> (u_port u = None \<or> u_port u = Some 443)"
  by (auto simp: sample_web_def nest_url_def split: if_splits)

lemma show_443: "show_nat 443 = ''443''"
proof -
  have "char_of (52 :: nat) = CHR ''4''" "char_of (51 :: nat) = CHR ''3''" by code_simp+
  then show ?thesis by (simp add: show_nat.simps)
qed

lemma sample_host: "normalize_host sample_web ''nest.buzz'' = Inr ''nest.buzz''"
  by code_simp

lemma sample_normal:
  "normalize_relay_url sample_web ''https://Nest.buzz'' = Inr (relay_of sample_web ''nest.buzz'' None)"
  "normalize_relay_url sample_web ''http://nest.buzz:443/'' =
     Inr (relay_of sample_web ''nest.buzz'' (Some 443))"
proof -
  have "parse_url sample_web ''https://Nest.buzz'' = Some (nest_url ''https:'' None)"
    "parse_url sample_web ''http://nest.buzz:443/'' = Some (nest_url ''http:'' (Some 443))"
    by (simp_all add: sample_web_def)
  then show "normalize_relay_url sample_web ''https://Nest.buzz'' = Inr (relay_of sample_web ''nest.buzz'' None)"
    "normalize_relay_url sample_web ''http://nest.buzz:443/'' =
       Inr (relay_of sample_web ''nest.buzz'' (Some 443))"
    by (simp_all add: normalize_relay_url_def nest_url_def accepted_protocols_def sample_host
        normalize_port_def default_port_def)
qed

lemma sample_canonical:
  "canonical_url sample_web ''nest.buzz'' None = ''wss://nest.buzz''"
  "canonical_url sample_web ''nest.buzz'' (Some 443) = ''wss://nest.buzz:443''"
  by (simp_all add: canonical_url_def authority_host_def sample_web_def port_suffix_def show_443)

lemma sample_web_standard: "url_standard sample_web"
proof -
  have again: "reparses sample_web ''nest.buzz'' None" "reparses sample_web ''nest.buzz'' (Some 443)"
    unfolding reparses_def sample_canonical
    by (rule exI [of _ "nest_url ''wss:'' None"]; simp add: sample_web_def authority_host_def nest_url_def)+
  have "reparses sample_web h p"
    if "parse_url sample_web s = Some u" "normalize_host sample_web (u_hostname u) = Inr h"
      "p \<in> {None, u_port u}" for s u h p
    using sample_web_urls [OF that(1)] that(2,3) again by (auto simp: sample_host)
  moreover have "ip_version sample_web h = 0" "domain_to_ascii sample_web s = s" for h s
    by (simp_all add: sample_web_def)
  ultimately show ?thesis unfolding url_standard_def by (metis (no_types))
qed

theorem canonical_url_names_itself_witness:
  "(\<exists>r. normalize_relay_url sample_web ''https://Nest.buzz'' = Inr r \<and>
      normalize_relay_url sample_web (rn_url r) = Inr r) \<and>
   (\<exists>r. normalize_relay_url sample_web ''http://nest.buzz:443/'' = Inr r \<and>
      rn_url r = ''wss://nest.buzz:443'' \<and>
      normalize_relay_url sample_web (rn_url r) = Inr (relay_of sample_web ''nest.buzz'' None))"
proof (intro conjI)
  from canonical_url_names_itself [OF sample_web_standard sample_normal(1)] sample_normal(1)
  show "\<exists>r. normalize_relay_url sample_web ''https://Nest.buzz'' = Inr r \<and>
      normalize_relay_url sample_web (rn_url r) = Inr r" by (simp add: relay_of_def)
  from canonical_url_names_itself [OF sample_web_standard sample_normal(2)] sample_normal(2)
  show "\<exists>r. normalize_relay_url sample_web ''http://nest.buzz:443/'' = Inr r \<and>
      rn_url r = ''wss://nest.buzz:443'' \<and>
      normalize_relay_url sample_web (rn_url r) = Inr (relay_of sample_web ''nest.buzz'' None)"
    by (simp add: relay_of_def sample_canonical)
qed

definition sample_network :: "(unit, string) network" where
  "sample_network = \<lparr>nw_web = sample_web,
     nw_ip = \<lparr>ip_parse = Some, ip_is_mapped = (\<lambda>a. False), ip_unmapped = (\<lambda>a. a),
       ip_range = (\<lambda>a. if take 3 a = ''10.'' then ''private'' else ''unicast'')\<rparr>,
     nw_sha256 = (\<lambda>s. s),
     nw_json = (\<lambda>b. Some (JObj [(''supported_nips'', JArr [JInt 29, JInt 42]),
       (''software'', JStr ''https://github.com/block/buzz'')])),
     nw_lookup = (\<lambda>h e. (Some [(''203.0.113.7'', 4)], e)),
     nw_http = (\<lambda>h p e. ([Response 200, Data [123, 125], Response_end], e)),
     nw_socket = (\<lambda>h p e. ([Socket_open 42], e))\<rparr>"

definition quiet_probing :: "unit probing" where
  "quiet_probing = \<lparr>pb_env = (), pb_opened = []\<rparr>"

definition nest_info :: nip11 where
  "nest_info = \<lparr>ni_name = None, ni_description = None, ni_icon = None,
     ni_software = Some ''https://github.com/block/buzz'', ni_version = None, ni_nips = [29, 42],
     ni_self = None, ni_auth_required = None, ni_restricted_writes = None\<rparr>"

lemma sample_resolve: "resolve sample_network ''nest.buzz'' w = (Inr [(''203.0.113.7'', 4)], w)"
proof -
  have "assert_public_hostname ''nest.buzz'' = Inr ()" by code_simp
  then show ?thesis
    by (simp add: resolve_def looks_up_def resolve_public_addresses_def sample_network_def sample_web_def
        assert_public_ip_def)
qed

lemma sample_fetch: "fetch_nip11 sample_network ''wss://nest.buzz'' quiet_probing =
  (Inr (nest_info, 200), quiet_probing\<lparr>pb_opened := [(''nest.buzz'', ''203.0.113.7'')]\<rparr>)"
proof -
  have host: "host_of_url (nw_web sample_network) ''wss://nest.buzz'' = Inr ''nest.buzz''" by code_simp
  have request: "request_json sample_network ''nest.buzz'' (''203.0.113.7'', 4) quiet_probing =
      (Inr ([123, 125], 200), quiet_probing\<lparr>pb_opened := [(''nest.buzz'', ''203.0.113.7'')]\<rparr>)"
    by (simp add: request_json_def sample_network_def quiet_probing_def body_limit_def)
  have doc: "nw_json sample_network [123, 125] = Some (JObj [(''supported_nips'', JArr [JInt 29, JInt 42]),
       (''software'', JStr ''https://github.com/block/buzz'')])"
    "parse_nip11_document (JObj [(''supported_nips'', JArr [JInt 29, JInt 42]),
       (''software'', JStr ''https://github.com/block/buzz'')]) = Inr nest_info"
    by (simp_all add: sample_network_def parse_nip11_document_def json_field_def supported_nips_def
        nip_number_def limitation_fields_def optional_string_def optional_boolean_def nest_info_def)
  show ?thesis
    by (simp add: fetch_nip11_def probe_then_def probe_res_def host sample_resolve request doc)
qed

lemma sample_open: "open_websocket sample_network ''wss://nest.buzz'' w =
  (Inr 42, w\<lparr>pb_opened := (''nest.buzz'', ''203.0.113.7'') # pb_opened w\<rparr>)"
proof -
  have "host_of_url (nw_web sample_network) ''wss://nest.buzz'' = Inr ''nest.buzz''" by code_simp
  moreover have "open_socket sample_network ''nest.buzz'' (''203.0.113.7'', 4) w =
      (Inr 42, w\<lparr>pb_opened := (''nest.buzz'', ''203.0.113.7'') # pb_opened w\<rparr>)"
    by (simp add: open_socket_def sample_network_def)
  ultimately show ?thesis
    by (simp add: open_websocket_def probe_then_def probe_res_def sample_resolve)
qed

lemma sample_classified: "cl_state (classify_buzz_relay sample_web nest_info True) = Is_verified"
proof -
  have "normalize_software_url sample_web (ni_software nest_info) = Some buzz_software_url"
    by (simp add: nest_info_def normalize_software_url_def sample_web_def buzz_software_url_def)
  then show ?thesis
    by (simp add: classify_buzz_relay_def has_buzz_nips_def nest_info_def classification_of_def)
qed

theorem probe_result_is_sound_witness:
  "\<exists>p w. probe_relay sample_network ''https://Nest.buzz'' quiet_probing =
       (Inr (Probe_ok ''wss://nest.buzz'' p), w) \<and>
     pb_opened w = [(''nest.buzz'', ''203.0.113.7''), (''nest.buzz'', ''203.0.113.7'')] \<and>
     ps_http_status p = 200 \<and> cl_state (ps_classification p) = Is_verified \<and>
     {29, 42} \<subseteq> set (ni_nips (ps_nip11 p))"
proof -
  let ?run = "probe_relay sample_network ''https://Nest.buzz'' quiet_probing"
  have web: "nw_web sample_network = sample_web" by (simp add: sample_network_def)
  have r: "normalize_relay_url (nw_web sample_network) ''https://Nest.buzz'' =
      Inr (relay_of sample_web ''nest.buzz'' None)"
    unfolding web by (rule sample_normal)
  obtain p where p: "fst ?run = Inr (Probe_ok ''wss://nest.buzz'' p)"
    "cl_state (ps_classification p) = Is_verified"
    "pb_opened (snd ?run) = [(''nest.buzz'', ''203.0.113.7''), (''nest.buzz'', ''203.0.113.7'')]"
    using sample_classified
    by (simp add: probe_relay_def probe_both_def probe_then_def probe_res_def web sample_normal(1) relay_of_def
        sample_canonical sample_fetch sample_open)
  then show ?thesis
    using probe_result_is_sound [OF r, of quiet_probing]
    by (intro exI [of _ p] exI [of _ "snd ?run"]) (auto simp: prod_eq_iff)
qed

lemma sample_opened: "pb_opened (snd (probe_relay sample_network ''https://Nest.buzz'' quiet_probing)) =
  [(''nest.buzz'', ''203.0.113.7''), (''nest.buzz'', ''203.0.113.7'')]"
proof -
  have web: "nw_web sample_network = sample_web" by (simp add: sample_network_def)
  show ?thesis
    by (simp add: probe_relay_def probe_both_def probe_then_def probe_res_def web sample_normal(1) relay_of_def
        sample_canonical sample_fetch sample_open)
qed

theorem probe_connects_to_public_addresses_witness:
  "public_address (nw_ip sample_network) ''203.0.113.7'' \<and> \<not> public_address (nw_ip sample_network) ''10.0.0.1'' \<and>
   assert_public_hostname ''nest.buzz'' = Inr ()"
proof -
  have "pb_opened quiet_probing = []" by (simp add: quiet_probing_def)
  moreover have "\<not> public_address (nw_ip sample_network) ''10.0.0.1''"
    by (simp add: public_address_def sample_network_def)
  ultimately show ?thesis
    using probe_connects_to_public_addresses [of sample_network "''https://Nest.buzz''" quiet_probing]
    unfolding sample_opened by auto
qed

end
