(* ===== verification/Installer.thy ===== *)
theory Installer
  imports World Communities Relay_Url
begin

text \<open>
  src/shared-channels/installer.ts and owner-session.ts: installing a community's
  connector from a token, the signer-free admission from an invite link, and the
  owner sessions it mints.  The relay, the database server, random bytes, the
  invite claim and the libraries are an environment that answers at will.
\<close>

section \<open>State\<close>

record owner_session =
  os_community :: uuid
  os_owner :: string
  os_hash :: string
  os_expires :: time

text \<open>\<open>iw_claims\<close> is a ghost log of the invite claims made: the signing key, the URL and the code.\<close>

record 'e install_world = "'e world" +
  iw_sessions :: "owner_session list"
  iw_claims :: "(nat list \<times> string \<times> string) list"

type_synonym ('e, 'a) install = "('e install_world, 'a) io"

record claim_target =
  ct_url :: string
  ct_code :: string

text \<open>
  \<open>ad_claim\<close> is the \<open>InviteClaimFn\<close> (None: it returned), \<open>ad_token\<close> and \<open>ad_hex\<close> are
  \<open>randomBytes(32)\<close> in base64url and in hex, \<open>ad_key\<close> is \<open>generateSecretKey\<close>,
  \<open>ad_decode\<close> is \<open>decodeURIComponent\<close>, \<open>ad_number\<close> is \<open>Number(raw)\<close> when it is an
  integer, \<open>ad_origin\<close> the origin the command names, \<open>ad_receipt\<close> the JSON of an
  activation receipt.
\<close>

record 'e admission =
  ad_out :: "'e outside"
  ad_web :: web
  ad_claim :: "nat list \<Rightarrow> claim_target \<Rightarrow> 'e \<Rightarrow> err option \<times> 'e"
  ad_token :: "'e \<Rightarrow> string \<times> 'e"
  ad_hex :: "'e \<Rightarrow> string \<times> 'e"
  ad_key :: "'e \<Rightarrow> nat list \<times> 'e"
  ad_nonce :: "'e \<Rightarrow> nat list \<times> 'e"
  ad_sha256 :: "string \<Rightarrow> string"
  ad_public_key :: "nat list \<Rightarrow> string"
  ad_npub :: "string \<Rightarrow> string"
  ad_sign :: signer
  ad_cipher :: cipher
  ad_wrapping_keys :: "int \<Rightarrow> nat list res"
  ad_decode :: "string \<Rightarrow> string option"
  ad_number :: "string \<Rightarrow> int option"
  ad_key_version :: "string option"
  ad_package :: "string option"
  ad_origin :: "string res"
  ad_receipt :: "string \<Rightarrow> string \<Rightarrow> string \<Rightarrow> int \<Rightarrow> string"

section \<open>Tokens\<close>

definition base64url_char :: "char \<Rightarrow> bool" where
  "base64url_char c \<longleftrightarrow> is_upper c \<or> is_lower c \<or> is_digit c \<or> c = CHR ''_'' \<or> c = CHR ''-''"

definition token_syntax :: "string \<Rightarrow> bool" where
  "token_syntax t \<longleftrightarrow> length t = 43 \<and> list_all base64url_char t"

definition hash_install_token :: "'e admission \<Rightarrow> string \<Rightarrow> string res" where
  "hash_install_token ad t =
     (if token_syntax t then Inr (ad_sha256 ad t) else Inl (Api ''invalid_input'' 400))"

definition hash_session_token :: "'e admission \<Rightarrow> string \<Rightarrow> string res" where
  "hash_session_token ad t =
     (if token_syntax t then Inr (ad_sha256 ad t) else Inl (Api ''owner_session_invalid'' 401))"

section \<open>Owner sessions\<close>

definition session_seconds :: int where
  "session_seconds = 30 * 60"

definition minted_session :: "'e admission \<Rightarrow> time \<Rightarrow> uuid \<Rightarrow> string \<Rightarrow> string \<Rightarrow> owner_session" where
  "minted_session ad now community owner token =
     \<lparr>os_community = community, os_owner = owner, os_hash = ad_sha256 ad token,
      os_expires = now + seconds session_seconds\<rparr>"

text \<open>The token and the time it expires.\<close>

definition mint_owner_session :: "'e admission \<Rightarrow> uuid \<Rightarrow> string \<Rightarrow> ('e, string \<times> time) install" where
  "mint_owner_session ad community owner =
     call_then (ask (ad_token ad)) (\<lambda>token.
     call_then (io_res (hash_session_token ad token)) (\<lambda>hash.
     pool_query (ad_out ad) (\<lambda>w.
       if has_row (\<lambda>s. os_hash s = hash) (iw_sessions w) then (Inl (Pg ''23505''), w)
       else let s = minted_session ad (db_time w) community owner token
            in (Inr (token, os_expires s), w\<lparr>iw_sessions := iw_sessions w @ [s]\<rparr>))))"

definition resolve_owner_session :: "'e admission \<Rightarrow> string \<Rightarrow> ('e, uuid \<times> string) install" where
  "resolve_owner_session ad token =
     call_then (io_res (hash_session_token ad token)) (\<lambda>hash.
     call_then (pool_query (ad_out ad) (io_get (\<lambda>w.
         find (\<lambda>s. os_hash s = hash \<and> os_expires s > db_time w) (iw_sessions w)))) (\<lambda>row.
     case row of
       None \<Rightarrow> io_throw (Api ''owner_session_invalid'' 401)
     | Some s \<Rightarrow> io_return (os_community s, os_owner s)))"

section \<open>Invite links\<close>

definition char_prefix :: "string \<Rightarrow> string \<Rightarrow> bool" where
  "char_prefix p s \<longleftrightarrow> take (length p) s = p"

text \<open>\<open>/^https?:\/\//i\<close>\<close>

definition is_link :: "string \<Rightarrow> bool" where
  "is_link s \<longleftrightarrow> char_prefix ''http://'' (to_lower (take 7 s)) \<or> char_prefix ''https://'' (to_lower (take 8 s))"

definition code_char :: "char \<Rightarrow> bool" where
  "code_char c \<longleftrightarrow> c \<noteq> CHR ''/'' \<and> c \<noteq> CHR ''?'' \<and> c \<noteq> CHR ''#''"

text \<open>The first match of \<open>/\/invite\/([^/?#]+)/\<close>.\<close>

fun invite_match :: "string \<Rightarrow> string option" where
  "invite_match [] = None"
| "invite_match (c # cs) =
     (let code = takeWhile code_char (drop 8 (c # cs)) in
      if char_prefix ''/invite/'' (c # cs) \<and> code \<noteq> [] then Some code else invite_match cs)"

definition bare_code_char :: "char \<Rightarrow> bool" where
  "bare_code_char c \<longleftrightarrow> is_upper c \<or> is_lower c \<or> is_digit c \<or> c \<in> set ''._~+/=-''"

definition invite_invalid :: err where
  "invite_invalid = Api ''invite_invalid'' 400"

text \<open>The code and, for a link, its URL.  A malformed escape in the code makes
  \<open>decodeURIComponent\<close> throw an error that is not an \<open>ApiError\<close>.\<close>

definition parse_invite :: "'e admission \<Rightarrow> string \<Rightarrow> (string \<times> url option) res" where
  "parse_invite ad invite =
     (let trimmed = trim invite in
      if is_link trimmed
      then (case parse_url (ad_web ad) trimmed of
        None \<Rightarrow> Inl invite_invalid
      | Some u \<Rightarrow> (case invite_match (u_pathname u) of
          None \<Rightarrow> Inl invite_invalid
        | Some code \<Rightarrow> (case ad_decode ad code of
            None \<Rightarrow> Inl Raw | Some decoded \<Rightarrow> Inr (decoded, Some u))))
      else if 1 \<le> length trimmed \<and> length trimmed \<le> 900 \<and> list_all bare_code_char trimmed
      then Inr (trimmed, None) else Inl invite_invalid)"

definition inviteRelayUrl :: "'e admission \<Rightarrow> string \<Rightarrow> string res" where
  "inviteRelayUrl ad invite =
     (let trimmed = trim invite in
      if \<not> is_link trimmed then Inl invite_invalid
      else case parse_url (ad_web ad) trimmed of
        None \<Rightarrow> Inl invite_invalid
      | Some u \<Rightarrow> (case normalize_relay_url (ad_web ad) (''wss://'' @ url_host u) of
          Inl e \<Rightarrow> Inl invite_invalid | Inr r \<Rightarrow> Inr (rn_url r)))"

definition claim_target_of :: "string \<Rightarrow> string \<Rightarrow> claim_target" where
  "claim_target_of canonical code =
     \<lparr>ct_url = ''https://'' @ drop (length ''wss://'') canonical @ ''/api/invites/claim'', ct_code = code\<rparr>"

text \<open>A relay on record that is not a URL makes \<open>normalizeRelayUrl\<close> throw (no \<open>ApiError\<close>).\<close>

definition resolve_invite_claim_target :: "'e admission \<Rightarrow> string \<Rightarrow> string \<Rightarrow> claim_target res" where
  "resolve_invite_claim_target ad relay_on_record invite =
     (case parse_invite ad invite of
        Inl e \<Rightarrow> Inl e
      | Inr (code, link) \<Rightarrow>
          (case normalize_relay_url (ad_web ad) relay_on_record of
             Inl e \<Rightarrow> Inl Raw
           | Inr record \<Rightarrow>
               (case link of
                  None \<Rightarrow> Inr (claim_target_of (rn_url record) code)
                | Some u \<Rightarrow>
                    (case normalize_relay_url (ad_web ad) (href u) of
                       Inl e \<Rightarrow> Inl invite_invalid
                     | Inr pasted \<Rightarrow>
                         if rn_url pasted \<noteq> rn_url record then Inl (Api ''invite_host_mismatch'' 400)
                         else Inr (claim_target_of (rn_url record) code)))))"

text \<open>A call of the claim function is logged, whatever it answers.\<close>

definition claim_invite :: "'e admission \<Rightarrow> nat list \<Rightarrow> claim_target \<Rightarrow> ('e, unit) install" where
  "claim_invite ad key t = (\<lambda>w. case ad_claim ad key t (w_env w) of (answer, e') \<Rightarrow>
     (case answer of None \<Rightarrow> Inr () | Some e \<Rightarrow> Inl e,
      w\<lparr>w_env := e', iw_claims := (key, ct_url t, ct_code t) # iw_claims w\<rparr>))"

definition redeem_invite_with_bridge_key ::
  "'e admission \<Rightarrow> nat list \<Rightarrow> string \<Rightarrow> string \<Rightarrow> ('e, unit) install" where
  "redeem_invite_with_bridge_key ad key relay_on_record invite =
     call_then (io_res (resolve_invite_claim_target ad relay_on_record invite)) (claim_invite ad key)"

text \<open>The claim over HTTP: \<open>fetch\<close> answers a status, or None when it throws.\<close>

definition claim_invite_over_http ::
  "(nat list \<Rightarrow> claim_target \<Rightarrow> 'e \<Rightarrow> nat option \<times> 'e) \<Rightarrow> nat list \<Rightarrow> claim_target \<Rightarrow> 'e \<Rightarrow> err option \<times> 'e" where
  "claim_invite_over_http fetch key t e =
     (case fetch key t e of
        (None, e') \<Rightarrow> (Some (Api ''invite_claim_unreachable'' 502), e')
      | (Some status, e') \<Rightarrow>
          (if 200 \<le> status \<and> status \<le> 299 then None else Some (Api ''invite_claim_rejected'' 502), e'))"

section \<open>The self-host command\<close>

text \<open>\<open>[0-9]+\.[0-9]+\.[0-9]+(?:-[0-9A-Za-z.-]+)?\<close>, the whole string\<close>

definition prerelease_char :: "char \<Rightarrow> bool" where
  "prerelease_char c \<longleftrightarrow> is_digit c \<or> is_upper c \<or> is_lower c \<or> c = CHR ''.'' \<or> c = CHR ''-''"

definition number_then :: "(string \<Rightarrow> bool) \<Rightarrow> string \<Rightarrow> bool" where
  "number_then f s \<longleftrightarrow> takeWhile is_digit s \<noteq> [] \<and> f (dropWhile is_digit s)"

definition dot_then :: "(string \<Rightarrow> bool) \<Rightarrow> string \<Rightarrow> bool" where
  "dot_then f s \<longleftrightarrow> (case s of [] \<Rightarrow> False | c # r \<Rightarrow> c = CHR ''.'' \<and> f r)"

definition optional_prerelease :: "string \<Rightarrow> bool" where
  "optional_prerelease s \<longleftrightarrow>
     (case s of [] \<Rightarrow> True | c # r \<Rightarrow> c = CHR ''-'' \<and> r \<noteq> [] \<and> list_all prerelease_char r)"

definition version_syntax :: "string \<Rightarrow> bool" where
  "version_syntax = number_then (dot_then (number_then (dot_then (number_then optional_prerelease))))"

definition package_name :: string where
  "package_name = ''@buzzrouter/connect@''"

definition release_prefix :: string where
  "release_prefix =
     ''https://github.com/lunchboxfortwo/buzzrouter/releases/download/connect-v''"

definition is_allowed_package_spec :: "string \<Rightarrow> bool" where
  "is_allowed_package_spec s \<longleftrightarrow>
     char_prefix package_name s \<and> version_syntax (drop (length package_name) s) \<or>
     (let v = takeWhile (\<lambda>c. c \<noteq> CHR ''/'') (drop (length release_prefix) s) in
      version_syntax v \<and> s = release_prefix @ v @ ''/buzzrouter-connect-'' @ v @ ''.tgz'')"

definition build_installer_command :: "'e admission \<Rightarrow> string \<Rightarrow> string res" where
  "build_installer_command ad token =
     (case ad_package ad of
        None \<Rightarrow> Inl (Api ''connector_package_unavailable'' 503)
      | Some s \<Rightarrow>
          if s = [] \<or> \<not> is_allowed_package_spec s then Inl (Api ''connector_package_unavailable'' 503)
          else case ad_origin ad of
            Inl e \<Rightarrow> Inl e
          | Inr origin \<Rightarrow> Inr (''npx --yes --package='' @ s @ '' buzzrouter-connect '' @ token @
              '' --router '' @ origin))"

definition optional_installer_command :: "'e admission \<Rightarrow> string \<Rightarrow> string option res" where
  "optional_installer_command ad token =
     (case build_installer_command ad token of
        Inr c \<Rightarrow> Inr (Some c)
      | Inl (Api code status) \<Rightarrow>
          if code = ''connector_package_unavailable'' then Inr None else Inl (Api code status)
      | Inl e \<Rightarrow> Inl e)"

definition configured_wrapping_key_version :: "'e admission \<Rightarrow> int res" where
  "configured_wrapping_key_version ad =
     (case ad_number ad (case ad_key_version ad of Some raw \<Rightarrow> raw | None \<Rightarrow> ''1'') of
        None \<Rightarrow> Inl (Api ''wrapping_key_version_invalid'' 500)
      | Some v \<Rightarrow> if v < 1 then Inl (Api ''wrapping_key_version_invalid'' 500) else Inr v)"

section \<open>Installing\<close>

record install_token =
  it_npub :: string
  it_pubkey :: string
  it_command :: "string option"
  it_expires :: time
  it_relay_url :: string
  it_token :: string

definition create_community_install_token ::
  "'e admission \<Rightarrow> uuid \<Rightarrow> string \<Rightarrow> nat list \<Rightarrow> ('e, install_token) install" where
  "create_community_install_token ad community owner key =
     call_then (ask (ad_token ad)) (\<lambda>token.
     call_then (io_res (optional_installer_command ad token)) (\<lambda>command.
     let pubkey = ad_public_key ad key in
     call_then (io_res (configured_wrapping_key_version ad)) (\<lambda>version.
     call_then (io_res (ad_wrapping_keys ad version)) (\<lambda>wrapping_key.
     call_then (io_res (hash_install_token ad token)) (\<lambda>hash.
     call_then (ask (ad_nonce ad)) (\<lambda>nonce.
     call_then (ask (out_uuid (ad_out ad))) (\<lambda>fresh_conn.
     call_then (ask (out_uuid (ad_out ad))) (\<lambda>fresh_token.
     call_then (in_db (ad_out ad) (\<lambda>now. begin_tx (ad_cipher ad) (ad_public_key ad) nonce now
         fresh_conn fresh_token
         \<lparr>bg_bridge_pubkey = pubkey, bg_community = community, bg_owner = owner,
          bg_private_key = key, bg_token_hash = hash, bg_wrapping_key = wrapping_key,
          bg_key_version = version\<rparr>)) (\<lambda>r.
     io_return \<lparr>it_npub = ad_npub ad pubkey, it_pubkey = pubkey, it_command = command,
       it_expires = bg_expires_at r, it_relay_url = conn_relay_url (bg_connection r),
       it_token = token\<rparr>)))))))))"

definition read_install_context :: "'e admission \<Rightarrow> string \<Rightarrow> ('e, connection \<times> token) install" where
  "read_install_context ad hash = in_db (ad_out ad) (\<lambda>now. install_context now hash)"

text \<open>Bridge key, expiry and relay.\<close>

definition get_community_install_descriptor :: "'e admission \<Rightarrow> string \<Rightarrow> ('e, string \<times> time \<times> string) install" where
  "get_community_install_descriptor ad token =
     call_then (io_res (hash_install_token ad token)) (\<lambda>hash.
     call_then (read_install_context ad hash) (\<lambda>(c, t).
     io_return (conn_bridge_pubkey c, tok_expires_at t, conn_relay_url c)))"

definition bridge_profile_content :: string where
  "bridge_profile_content = (let q = CHR 0x22 in
     ''{'' @ q # ''about'' @ q # '':'' @ q # ''Routes explicitly approved BuzzRouter hub connections.'' @ q #
     '','' @ q # ''display_name'' @ q # '':'' @ q # ''buzzrouter'' @ q # '','' @ q # ''name'' @ q # '':'' @
     q # ''buzzrouter'' @ q # ''}'')"

definition bridge_profile_template :: "int \<Rightarrow> event_template" where
  "bridge_profile_template now_s = \<lparr>tp_content = bridge_profile_content, tp_created_at = now_s,
     tp_kind = 0, tp_tags = [[''client'', ''buzzrouter-installer'']]\<rparr>"

definition stored_key :: "'e admission \<Rightarrow> connection \<Rightarrow> ('e, nat list) install" where
  "stored_key ad c =
     call_then (io_res (ad_wrapping_keys ad (conn_key_version c))) (\<lambda>wrapping_key.
     io_res (decrypt_connector_private_key (ad_cipher ad) (conn_key c) wrapping_key (conn_community c)))"

text \<open>The kind-0 round trip and the activation it proves.\<close>

definition prove_and_activate ::
  "'e admission \<Rightarrow> string \<Rightarrow> connection \<Rightarrow> nat list \<Rightarrow> ('e, connection) install" where
  "prove_and_activate ad hash c key =
     call_then (ask (out_connect (ad_out ad) (conn_relay_url c))) (\<lambda>refused.
     call_then (case refused of Some e \<Rightarrow> io_throw e | None \<Rightarrow> io_return ()) (\<lambda>_.
     call_then (io_get now_seconds) (\<lambda>now_s.
     let ev = ad_sign ad key (bridge_profile_template now_s) in
     call_then (relay_publish (ad_out ad) (conn_relay_url c) ev) (\<lambda>_.
     call_then (relay_has (ad_out ad) (conn_relay_url c) ev) (\<lambda>found.
     if \<not> found then io_throw (Api ''connector_round_trip_failed'' 502)
     else call_then (io_get w_clock) (\<lambda>ms.
       in_db (ad_out ad) (\<lambda>now. activate_tx now hash
         (ad_receipt ad (conn_bridge_pubkey c) (conn_relay_url c) (ev_id ev) ms)))))))) "

definition verify_and_activate_community_connection ::
  "'e admission \<Rightarrow> string \<Rightarrow> ('e, connection) install" where
  "verify_and_activate_community_connection ad token =
     call_then (io_res (hash_install_token ad token)) (\<lambda>hash.
     call_then (read_install_context ad hash) (\<lambda>(c, t).
     call_then (stored_key ad c) (prove_and_activate ad hash c)))"

definition redeem_invite_and_activate ::
  "'e admission \<Rightarrow> string \<Rightarrow> string \<Rightarrow> ('e, connection) install" where
  "redeem_invite_and_activate ad token invite =
     call_then (io_res (hash_install_token ad token)) (\<lambda>hash.
     call_then (read_install_context ad hash) (\<lambda>(c, t).
     call_then (io_res (resolve_invite_claim_target ad (conn_relay_url c) invite)) (\<lambda>target.
     call_then (stored_key ad c) (\<lambda>key.
     call_then (claim_invite ad key target) (\<lambda>_.
     verify_and_activate_community_connection ad token)))))"

section \<open>Admission from an invite link\<close>

record admission_result =
  ar_community :: uuid
  ar_display_name :: string
  ar_expires :: time
  ar_reentered :: bool
  ar_relay_url :: string
  ar_session :: string

definition read_candidate :: "'e admission \<Rightarrow> string \<Rightarrow> ('e, verified_candidate) install" where
  "read_candidate ad url = in_db (ad_out ad) (\<lambda>now d.
     case find_verified_candidate url d of Inl e \<Rightarrow> Inl e | Inr v \<Rightarrow> Inr (v, d))"

text \<open>The connection of a community that is already admitted.\<close>

definition existing_connection :: "'e admission \<Rightarrow> verified_candidate \<Rightarrow> ('e, connection option) install" where
  "existing_connection ad v =
     (case (vc_community v, vc_owner v) of
        (Some community, Some owner) \<Rightarrow>
          if community = [] \<or> owner = [] then io_return None
          else in_db (ad_out ad) (\<lambda>now. owned_community_connection community owner)
      | _ \<Rightarrow> io_return None)"

definition reenter :: "'e admission \<Rightarrow> string \<Rightarrow> verified_candidate \<Rightarrow> connection \<Rightarrow>
    ('e, admission_result) install" where
  "reenter ad invite v c =
     call_then (stored_key ad c) (\<lambda>key.
     call_then (redeem_invite_with_bridge_key ad key (vc_relay_url v) invite) (\<lambda>_.
     call_then (mint_owner_session ad (the (vc_community v)) (the (vc_owner v))) (\<lambda>(session, expires).
     io_return \<lparr>ar_community = the (vc_community v), ar_display_name = vc_display_name v,
       ar_expires = expires, ar_reentered = True, ar_relay_url = vc_relay_url v,
       ar_session = session\<rparr>)))"

definition admit :: "'e admission \<Rightarrow> string \<Rightarrow> verified_candidate \<Rightarrow> ('e, admission_result) install" where
  "admit ad invite v =
     call_then (ask (ad_key ad)) (\<lambda>key.
     call_then (redeem_invite_with_bridge_key ad key (vc_relay_url v) invite) (\<lambda>_.
     call_then (ask (ad_hex ad)) (\<lambda>principal.
     call_then (ask (out_uuid (ad_out ad))) (\<lambda>fresh.
     call_then (in_db (ad_out ad) (\<lambda>now. enroll_verified_community fresh (vc_candidate v) principal)) (\<lambda>c.
     call_then (create_community_install_token ad (vi_community c) (vi_owner c) key) (\<lambda>t.
     call_then (verify_and_activate_community_connection ad (it_token t)) (\<lambda>_.
     call_then (mint_owner_session ad (vi_community c) (vi_owner c)) (\<lambda>(session, expires).
     io_return \<lparr>ar_community = vi_community c, ar_display_name = vi_display_name c,
       ar_expires = expires, ar_reentered = False, ar_relay_url = vi_relay_url c,
       ar_session = session\<rparr>))))))))"

definition begin_connection_from_invite :: "'e admission \<Rightarrow> string \<Rightarrow> ('e, admission_result) install" where
  "begin_connection_from_invite ad invite =
     call_then (io_res (inviteRelayUrl ad invite)) (\<lambda>url.
     call_then (read_candidate ad url) (\<lambda>v.
     call_then (existing_connection ad v) (\<lambda>existing.
     case existing of Some c \<Rightarrow> reenter ad invite v c | None \<Rightarrow> admit ad invite v)))"

end
