(* ===== verification/Installer_Properties.thy ===== *)
theory Installer_Properties
  imports Installer
begin

text \<open>
  What installing and admission promise: where the signed invite claim goes, what a
  rejected invite leaves, what an activation proves, and what a session opens.
\<close>

text \<open>A step whose value is known.\<close>

lemma leads_known:
  assumes "leads P m I (\<lambda>a u. R u \<and> a = v)" "leads R (f v) I Q"
  shows "leads P (call_then m f) I Q"
  by (rule leads_then [OF assms(1)]) (use assms(2) in \<open>auto simp: leads_def\<close>)

lemma pool_query_Inr:
  "pool_query out m w = (Inr a, w') \<Longrightarrow> \<exists>e. m (w\<lparr>w_env := e\<rparr>) = (Inr a, w')"
  by (auto simp: pool_query_def io_query_def Let_def split: prod.splits query_outcome.splits)

lemma mint_owner_session_Inr:
  assumes "mint_owner_session ad community owner w = (Inr (token, expires), w')"
  shows "token_syntax token \<and> expires = os_expires (minted_session ad (db_time w) community owner token) \<and>
    iw_sessions w' = iw_sessions w @ [minted_session ad (db_time w) community owner token]"
  using assms
  by (auto simp: mint_owner_session_def io_inversion ask_def hash_session_token_def Let_def db_time_def
      minted_session_def split: prod.splits if_splits dest!: pool_query_Inr)

section \<open>Steps that make no claim\<close>

definition silent :: "('e, 'a) install \<Rightarrow> bool" where
  "silent m \<longleftrightarrow> (\<forall>w. iw_claims (snd (m w)) = iw_claims w)"

named_theorems silent_intros \<open>rules that an operation makes no invite claim\<close>

lemma silentD: "silent m \<Longrightarrow> m w = (r, w') \<Longrightarrow> iw_claims w' = iw_claims w"
  unfolding silent_def by (metis snd_conv)

lemma silent_io [silent_intros]:
  "silent (io_return a)" "silent (io_throw e)" "silent (io_res r)" "silent (io_get f)"
  by (simp_all add: silent_def io_return_def io_throw_def io_res_def io_get_def)

lemma silent_ask [silent_intros]: "silent (ask f)"
  by (auto simp: silent_def ask_def split: prod.splits)

lemma silent_then [silent_intros]: "silent m \<Longrightarrow> (\<And>a. silent (f a)) \<Longrightarrow> silent (call_then m f)"
  unfolding silent_def call_then_def by (auto split: prod.splits sum.splits) (metis snd_conv)+

lemma silent_query [silent_intros]: "silent m \<Longrightarrow> silent (pool_query out m)"
  by (auto simp: silent_def pool_query_def io_query_def Let_def split: prod.splits query_outcome.splits)

lemma silent_in_db [silent_intros]: "silent (in_db out m)"
  unfolding in_db_def by (rule silent_query) (auto simp: silent_def split: prod.splits)

lemma silent_relay [silent_intros]: "silent (relay_publish out url ev)" "silent (relay_has out url ev)"
  by (auto simp: silent_def relay_publish_def relay_has_def split: prod.splits)

lemma silent_mint [silent_intros]: "silent (mint_owner_session ad c w)"
proof -
  have "silent (\<lambda>w'. if has_row (\<lambda>s. os_hash s = hash) (iw_sessions w') then (Inl (Pg ''23505''), w')
      else let s = minted_session ad (db_time w') c w token
        in (Inr (token, os_expires s), w'\<lparr>iw_sessions := iw_sessions w' @ [s]\<rparr>))" for hash token
    by (simp add: silent_def Let_def)
  then show ?thesis unfolding mint_owner_session_def by (intro silent_intros)
qed

lemma silent_stored_key [silent_intros]: "silent (stored_key ad c)"
  unfolding stored_key_def by (intro silent_intros)

lemma silent_verify [silent_intros]: "silent (verify_and_activate_community_connection ad token)"
  unfolding verify_and_activate_community_connection_def read_install_context_def prove_and_activate_def Let_def
  by (intro silent_intros) (auto split: prod.splits option.splits intro!: silent_intros)

lemma silent_create [silent_intros]: "silent (create_community_install_token ad c w key)"
  unfolding create_community_install_token_def Let_def by (intro silent_intros)

lemma silent_reads [silent_intros]: "silent (read_candidate ad url)" "silent (existing_connection ad v)"
  "silent (read_install_context ad hash)"
  unfolding read_candidate_def existing_connection_def read_install_context_def
  by (auto split: option.splits intro!: silent_intros)

section \<open>The one claim of a call\<close>

text \<open>\<open>m\<close> makes at most one claim, and only one that \<open>allowed\<close> admits.\<close>

definition claims_once :: "(nat list \<times> string \<times> string \<Rightarrow> bool) \<Rightarrow> ('e, 'a) install \<Rightarrow> 'e install_world \<Rightarrow> bool" where
  "claims_once allowed m w \<longleftrightarrow> (\<exists>new. iw_claims (snd (m w)) = new @ iw_claims w \<and>
     length new \<le> 1 \<and> list_all allowed new)"

lemma claims_once_silent: "silent m \<Longrightarrow> claims_once A m w"
  by (simp add: claims_once_def silent_def)

lemma claims_once_before:
  assumes "silent m" "\<And>a w1. m w = (Inr a, w1) \<Longrightarrow> claims_once A (f a) w1"
  shows "claims_once A (call_then m f) w"
proof (cases "m w")
  case (Pair r w1)
  then have "iw_claims w1 = iw_claims w" using silentD [OF assms(1)] by simp
  with Pair assms(2) [of _ w1] show ?thesis
    by (cases r) (simp_all add: claims_once_def call_then_def)
qed

lemma claims_once_after:
  assumes "claims_once A m w" "\<And>a. silent (f a)"
  shows "claims_once A (call_then m f) w"
proof -
  have "iw_claims (snd (call_then m f w)) = iw_claims (snd (m w))"
    using assms(2) by (auto simp: call_then_def silent_def split: prod.splits sum.splits)
  with assms(1) show ?thesis by (simp add: claims_once_def)
qed

lemma claims_once_claim: "A (key, ct_url t, ct_code t) \<Longrightarrow> claims_once A (claim_invite ad key t) w"
  by (auto simp: claims_once_def claim_invite_def split: prod.splits)

text \<open>A claim at the claim URL of the relay \<open>relay\<close> is canonical for.\<close>

definition claim_at :: "'e admission \<Rightarrow> string \<Rightarrow> string \<Rightarrow> nat list \<times> string \<times> string \<Rightarrow> bool" where
  "claim_at ad relay invite = (\<lambda>(key, url, code). \<exists>r. normalize_relay_url (ad_web ad) relay = Inr r \<and>
     url = ''https://'' @ drop 6 (rn_url r) @ ''/api/invites/claim'' \<and>
     (is_link (trim invite) \<longrightarrow> (\<exists>u p. parse_url (ad_web ad) (trim invite) = Some u \<and>
        normalize_relay_url (ad_web ad) (href u) = Inr p \<and> rn_url p = rn_url r)))"

lemma claim_target_at:
  assumes "resolve_invite_claim_target ad relay invite = Inr t"
  shows "claim_at ad relay invite (key, ct_url t, ct_code t)"
proof -
  obtain code link r where parse: "parse_invite ad invite = Inr (code, link)"
    and r: "normalize_relay_url (ad_web ad) relay = Inr r" and t: "t = claim_target_of (rn_url r) code"
    and link: "\<And>u. link = Some u \<Longrightarrow>
      \<exists>p. normalize_relay_url (ad_web ad) (href u) = Inr p \<and> rn_url p = rn_url r"
    using assms by (auto simp: resolve_invite_claim_target_def split: sum.splits option.splits if_splits)
  have "is_link (trim invite) \<Longrightarrow> \<exists>u. link = Some u \<and> parse_url (ad_web ad) (trim invite) = Some u"
    using parse by (auto simp: parse_invite_def Let_def split: option.splits)
  with r t link show ?thesis
    unfolding claim_at_def split by (intro exI [of _ r]) (auto simp: claim_target_of_def eval_nat_numeral)
qed

lemma redeem_claims_once:
  "claims_once (claim_at ad relay invite) (redeem_invite_with_bridge_key ad key relay invite) w"
  unfolding redeem_invite_with_bridge_key_def
  by (rule claims_once_before [OF silent_io(3)], rule claims_once_claim, rule claim_target_at)
    (simp add: io_res_Inr)

lemma read_candidate_Inr:
  assumes "read_candidate ad url w = (Inr v, w')"
  shows "\<exists>k \<in> set (candidates (w_db w)). cand_state k = Verified_buzz \<and> cand_relay_url k = url \<and>
    vc_relay_url v = url \<and> vc_candidate v = cand_id k"
  using assms
  by (auto simp: read_candidate_def in_db_def pool_query_def io_query_def with_transaction_def Let_def
      find_verified_candidate_def split: prod.splits query_outcome.splits option.splits sum.splits
      dest!: find_Some_set)

lemma install_context_read:
  assumes "read_install_context ad hash w = (Inr (c, t), w')"
  shows "c \<in> set (connections (w_db w)) \<and> activatable t c \<and> t \<in> set (tokens (w_db w)) \<and>
    usable_token (db_time w) hash t"
  using assms
  by (auto simp: read_install_context_def in_db_def pool_query_def io_query_def with_transaction_def Let_def
      install_context_def tx_inversion assert_hex_Inr bind_eq_Some_conv db_time_def
      split: prod.splits query_outcome.splits option.splits sum.splits dest!: find_Some_set)

lemma begin_claims_once: "claims_once (\<lambda>c. \<exists>k \<in> set (candidates (w_db w)).
    cand_state k = Verified_buzz \<and> claim_at ad (cand_relay_url k) invite c)
    (begin_connection_from_invite ad invite) w"
proof -
  let ?A = "\<lambda>c. \<exists>k \<in> set (candidates (w_db w)). cand_state k = Verified_buzz \<and>
    claim_at ad (cand_relay_url k) invite c"
  show ?thesis
    unfolding begin_connection_from_invite_def
  proof (rule claims_once_before [OF silent_io(3)], rule claims_once_before [OF silent_reads(1)],
      rule claims_once_before [OF silent_reads(2)])
    fix url w1 v w2 existing w3
    assume "io_res (inviteRelayUrl ad invite) w = (Inr url, w1)" "read_candidate ad url w1 = (Inr v, w2)"
    then obtain k where k: "k \<in> set (candidates (w_db w))" "cand_state k = Verified_buzz"
      "vc_relay_url v = cand_relay_url k"
      by (auto simp: io_res_Inr dest!: read_candidate_Inr)
    have redeem: "claims_once ?A (redeem_invite_with_bridge_key ad key (vc_relay_url v) invite) w'" for key w'
      using redeem_claims_once [of ad "vc_relay_url v" invite key w'] k
      by (auto simp: claims_once_def list_all_iff)
    show "claims_once ?A (case existing of Some c \<Rightarrow> reenter ad invite v c | None \<Rightarrow> admit ad invite v) w3"
    proof (cases existing)
      case None
      then show ?thesis
        by (simp add: admit_def)
          (rule claims_once_before [OF silent_ask], rule claims_once_after [OF redeem],
            auto split: prod.splits intro!: silent_intros)
    next
      case (Some c)
      then show ?thesis
        by (simp add: reenter_def)
          (rule claims_once_before [OF silent_stored_key], rule claims_once_after [OF redeem],
            auto split: prod.splits intro!: silent_intros)
    qed
  qed
qed

lemma redeem_and_activate_claims_once: "claims_once (\<lambda>c. \<exists>x \<in> set (connections (w_db w)).
    conn_state x = Installing \<and> claim_at ad (conn_relay_url x) invite c)
    (redeem_invite_and_activate ad token invite) w"
proof -
  let ?B = "\<lambda>c. \<exists>x \<in> set (connections (w_db w)). conn_state x = Installing \<and>
    claim_at ad (conn_relay_url x) invite c"
  show ?thesis
    unfolding redeem_invite_and_activate_def
  proof (rule claims_once_before [OF silent_io(3)], rule claims_once_before [OF silent_reads(3)])
    fix hash w1 a w2
    assume "io_res (hash_install_token ad token) w = (Inr hash, w1)"
      "read_install_context ad hash w1 = (Inr a, w2)"
    then have x: "fst a \<in> set (connections (w_db w))" "conn_state (fst a) = Installing"
      using install_context_read [of ad hash w1 "fst a" "snd a" w2]
      by (auto simp: io_res_Inr activatable_def)
    have "claims_once ?B (call_then (io_res (resolve_invite_claim_target ad (conn_relay_url (fst a)) invite))
        (\<lambda>target. call_then (stored_key ad (fst a)) (\<lambda>key. call_then (claim_invite ad key target)
          (\<lambda>_. verify_and_activate_community_connection ad token)))) w2"
    proof (rule claims_once_before [OF silent_io(3)], rule claims_once_before [OF silent_stored_key],
        rule claims_once_after [OF claims_once_claim silent_verify])
      fix target w3 key w4
      assume "io_res (resolve_invite_claim_target ad (conn_relay_url (fst a)) invite) w2 = (Inr target, w3)"
      then have "claim_at ad (conn_relay_url (fst a)) invite (key, ct_url target, ct_code target)"
        by (intro claim_target_at) (simp add: io_res_Inr)
      with x show "?B (key, ct_url target, ct_code target)" by blast
    qed
    then show "claims_once ?B (case a of (c, t) \<Rightarrow>
        call_then (io_res (resolve_invite_claim_target ad (conn_relay_url c) invite))
        (\<lambda>target. call_then (stored_key ad c) (\<lambda>key. call_then (claim_invite ad key target)
          (\<lambda>_. verify_and_activate_community_connection ad token)))) w2"
      by (simp add: case_prod_unfold)
  qed
qed

section \<open>Properties\<close>

text \<open>
  C20. The bridge's signed invite claim goes only to the relay on record: whatever
  link is pasted, one call makes at most one claim; its URL is the claim URL of the
  canonical name of a verified candidate (or of the connection being installed),
  and a pasted link was for that very relay.
\<close>

theorem claims_go_to_the_recorded_relay:
  "(\<exists>new. iw_claims (snd (begin_connection_from_invite ad invite w)) = new @ iw_claims w \<and> length new \<le> 1 \<and>
      (\<forall>c \<in> set new. \<exists>k \<in> set (candidates (w_db w)). cand_state k = Verified_buzz \<and>
         claim_at ad (cand_relay_url k) invite c)) \<and>
   (\<exists>new. iw_claims (snd (redeem_invite_and_activate ad token invite w)) = new @ iw_claims w \<and> length new \<le> 1 \<and>
      (\<forall>c \<in> set new. \<exists>x \<in> set (connections (w_db w)). conn_state x = Installing \<and>
         claim_at ad (conn_relay_url x) invite c))"
  using begin_claims_once [of w ad invite] redeem_and_activate_claims_once [of w ad invite token]
  by (simp add: claims_once_def list_all_iff)

text \<open>
  Nothing happens without the relay's consent: when the relay rejects the claim,
  \<open>beginConnectionFromInvite\<close> throws, enrols no community, installs no connector and
  opens no session.
\<close>

lemma rejected_invite_changes_nothing:
  assumes "\<And>key t e. fst (ad_claim ad key t e) \<noteq> None"
    and "begin_connection_from_invite ad invite w = (r, w')"
  shows "w_db w' = w_db w \<and> iw_sessions w' = iw_sessions w \<and> w_log w' = w_log w \<and> (\<exists>e. r = Inl e)"
proof -
  let ?same = "\<lambda>v. w_db v = w_db w \<and> iw_sessions v = iw_sessions w \<and> w_log v = w_log w"
  have redeem: "leads ?same (redeem_invite_with_bridge_key ad key relay invite) ?same (\<lambda>_ _. False)" for key relay
  proof -
    have "leads ?same (claim_invite ad key t) ?same (\<lambda>_ _. False)" for t
      using assms(1) [of key t] by (auto simp: leads_def claim_invite_def split: prod.splits option.splits) (metis fst_conv option.distinct(1))
    then show ?thesis
      unfolding redeem_invite_with_bridge_key_def by (rule leads_then [OF leads_res, rotated 2]) auto
  qed
  have stop: "leads (\<lambda>_. False) m ?same (\<lambda>_ _. False)" for m :: "('a, 'b) install"
    by (simp add: leads_def)
  have key: "leads ?same (stored_key ad c) ?same (\<lambda>_. ?same)" for c
    unfolding stored_key_def by (rule leads_then [OF leads_res leads_res]) auto
  have reenter: "leads ?same (reenter ad invite v c) ?same (\<lambda>_ _. False)" for v c
    unfolding reenter_def by (rule leads_then [OF key leads_then [OF redeem stop]])
  have admit: "leads ?same (admit ad invite v) ?same (\<lambda>_ _. False)" for v
    unfolding admit_def by (rule leads_then [OF leads_ask leads_then [OF redeem stop]]) auto
  have candidate: "leads ?same (read_candidate ad url) ?same (\<lambda>_. ?same)" for url
    unfolding read_candidate_def by (rule leads_in_db) (auto split: sum.splits)
  have "leads ?same (existing_connection ad v) ?same (\<lambda>_. ?same)" for v
    unfolding existing_connection_def
    by (auto split: option.splits intro!: leads_return leads_in_db
        simp: owned_community_connection_def tx_inversion assert_hex_Inr)
  then have "leads ?same (begin_connection_from_invite ad invite) ?same (\<lambda>_ _. False)"
    unfolding begin_connection_from_invite_def
    by (intro leads_then [OF leads_res leads_then [OF candidate leads_then]])
      (auto split: option.split intro: reenter admit)
  from leadsD [OF this _ assms(2)] show ?thesis by (cases r) auto
qed

text \<open>
  Re-entry never replaces a connector: pasting an invite of a community whose
  connector is active leaves every row of the database as it was, whatever the
  environment answers, so no second bridge identity is installed; a call that
  returns reports the re-entry and has only added a session for that community's
  owner.
\<close>

lemma reentry_keeps_connector:
  assumes "inviteRelayUrl ad invite = Inr url"
    and "find_verified_candidate url (w_db w) = Inr v" "vc_community v = Some community"
    and "vc_owner v = Some owner" "community \<noteq> []" "owner \<noteq> []"
    and "c \<in> set (connections (w_db w))" "conn_community c = community" "conn_state c = Active"
    and run: "begin_connection_from_invite ad invite w = (r, w')"
  shows "w_db w' = w_db w \<and> w_log w' = w_log w \<and>
    (\<forall>a. r = Inr a \<longrightarrow> ar_reentered a \<and> ar_community a = community \<and>
       (\<exists>s. iw_sessions w' = iw_sessions w @ [s] \<and> os_community s = community \<and> os_owner s = owner))"
proof -
  let ?same = "\<lambda>u. w_db u = w_db w \<and> iw_sessions u = iw_sessions w \<and> w_log u = w_log w"
  let ?I = "\<lambda>u. w_db u = w_db w \<and> w_log u = w_log w"
  let ?added = "\<lambda>u. \<exists>s. iw_sessions u = iw_sessions w @ [s] \<and> os_community s = community \<and> os_owner s = owner"
  have ask: "leads ?same (ask f) ?I (\<lambda>_. ?same)" for f :: "'a \<Rightarrow> 'x \<times> 'a"
    by (rule leads_ask) auto
  have res: "leads ?same (io_res x) ?I (\<lambda>_. ?same)" for x :: "'x res"
    by (rule leads_res) auto
  have mint: "leads ?same (mint_owner_session ad community owner) ?I (\<lambda>_ u. ?I u \<and> ?added u)"
    unfolding mint_owner_session_def
    by (rule leads_then [OF ask leads_then [OF res leads_pool_query]])
      (auto simp: leads_def minted_session_def Let_def)
  have redeem: "leads ?same (redeem_invite_with_bridge_key ad key relay invite) ?I (\<lambda>_. ?same)" for key relay
  proof -
    have "leads ?same (claim_invite ad key t) ?I (\<lambda>_. ?same)" for t
      by (auto simp: leads_def claim_invite_def split: prod.splits option.splits)
    then show ?thesis
      unfolding redeem_invite_with_bridge_key_def by (rule leads_then [OF leads_res, rotated 2]) auto
  qed
  have key: "leads ?same (stored_key ad c) ?I (\<lambda>_. ?same)" for c
    unfolding stored_key_def by (rule leads_then [OF res res])
  have reenter: "leads ?same (reenter ad invite v c) ?I
      (\<lambda>a u. ?I u \<and> ar_reentered a \<and> ar_community a = community \<and> ?added u)" for c
    unfolding reenter_def assms(3,4) option.sel
    by (rule leads_then [OF key leads_then [OF redeem leads_then [OF mint]]])
      (auto simp: leads_def io_return_def)
  have candidate: "leads ?same (read_candidate ad url) ?I (\<lambda>a u. ?same u \<and> a = v)"
    unfolding read_candidate_def by (rule leads_in_db) (auto simp: assms(2))
  have existing: "leads ?same (existing_connection ad v) ?I (\<lambda>x u. ?same u \<and> x \<noteq> None)"
  proof -
    have "find (\<lambda>x. conn_community x = community \<and> conn_state x = Active) (connections (w_db w)) \<noteq> None"
      using assms(7-9) by (auto simp: find_None_iff)
    then show ?thesis
      using assms(3-6)
      by (auto simp: existing_connection_def owned_community_connection_def tx_inversion assert_hex_Inr
          intro!: leads_in_db)
  qed
  have "leads ?same (case x of Some c \<Rightarrow> reenter ad invite v c | None \<Rightarrow> admit ad invite v) ?I
      (\<lambda>a u. ?I u \<and> ar_reentered a \<and> ar_community a = community \<and> ?added u)" if "x \<noteq> None" for x
    using that reenter by auto
  then have "leads (\<lambda>u. ?same u \<and> x \<noteq> None)
      (case x of Some c \<Rightarrow> reenter ad invite v c | None \<Rightarrow> admit ad invite v) ?I
      (\<lambda>a u. ?I u \<and> ar_reentered a \<and> ar_community a = community \<and> ?added u)" for x
    by (cases "x = None") (auto simp: leads_def)
  note rest = leads_then [OF existing this]
  have "leads ?same (begin_connection_from_invite ad invite) ?I
      (\<lambda>a u. ?I u \<and> ar_reentered a \<and> ar_community a = community \<and> ?added u)"
    unfolding begin_connection_from_invite_def assms(1)
    by (rule leads_known [where v = url and R = ?same], rule leads_res, simp, simp,
        rule leads_known [OF candidate], rule rest)
  from leadsD [OF this _ run] show ?thesis by simp
qed

text \<open>
  An owner session opens what it was minted for and nothing else, for half an
  hour: however many sessions are minted later, the bearer token resolves to the
  community and owner of its own row until 30 minutes after it was minted, and to
  nothing from then on.
\<close>

lemma session_opens_its_community_for_half_an_hour:
  assumes mint: "mint_owner_session ad community owner w = (Inr (token, expires), w1)"
    and later: "iw_sessions v = iw_sessions w1 @ others" "distinct (map os_hash (iw_sessions v))"
    and db: "queries_ok (ad_out ad)"
  shows "expires = db_time w + seconds (30 * 60) \<and>
    fst (resolve_owner_session ad token v) =
      (if db_time v < expires then Inr (community, owner) else Inl (Api ''owner_session_invalid'' 401))"
proof -
  let ?hash = "ad_sha256 ad token" and ?s = "minted_session ad (db_time w) community owner token"
  have token: "token_syntax token" and expires: "expires = os_expires ?s"
    and row: "?s \<in> set (iw_sessions v)"
    using mint_owner_session_Inr [OF mint] later(1) by auto
  have unique: "x = ?s" if "x \<in> set (iw_sessions v)" "os_hash x = ?hash" for x
  proof -
    have "inj_on os_hash (set (iw_sessions v))" using later(2) by (simp add: distinct_map)
    moreover have "os_hash x = os_hash ?s" using that(2) by (simp add: minted_session_def)
    ultimately show ?thesis using that(1) row by (rule inj_onD)
  qed
  have "find (\<lambda>s. os_hash s = ?hash \<and> os_expires s > db_time v) (iw_sessions v) =
      (if db_time v < expires then Some ?s else None)"
  proof (cases "db_time v < expires")
    case True
    then have "os_hash ?s = ?hash \<and> os_expires ?s > db_time v" by (simp add: expires minted_session_def)
    then have "find (\<lambda>s. os_hash s = ?hash \<and> os_expires s > db_time v) (iw_sessions v) \<noteq> None"
      using row unfolding find_None_iff by blast
    then obtain y where y: "find (\<lambda>s. os_hash s = ?hash \<and> os_expires s > db_time v) (iw_sessions v) = Some y"
      by blast
    then have "y = ?s" using find_Some_set [OF y] unique by blast
    with y True show ?thesis by simp
  next
    case False
    then show ?thesis using unique by (auto simp: find_None_iff expires)
  qed
  moreover have "fst (out_query (ad_out ad) (w_env v)) = Query_ok" using db by (simp add: queries_ok_def)
  ultimately have "fst (resolve_owner_session ad token v) =
      (if db_time v < expires then Inr (community, owner) else Inl (Api ''owner_session_invalid'' 401))"
    using token
    by (auto simp: resolve_owner_session_def hash_session_token_def io_defs pool_query_def io_query_def
        Let_def db_time_def minted_session_def split: prod.splits)
  then show ?thesis by (simp add: expires minted_session_def session_seconds_def)
qed

section \<open>What an activation proves\<close>

definition key_of :: "'e admission \<Rightarrow> connection \<Rightarrow> nat list \<Rightarrow> bool" where
  "key_of ad c key \<longleftrightarrow> (\<exists>wrapping_key. ad_wrapping_keys ad (conn_key_version c) = Inr wrapping_key \<and>
     decrypt_connector_private_key (ad_cipher ad) (conn_key c) wrapping_key (conn_community c) = Inr key)"

text \<open>Since the log was \<open>old\<close>, the relay of \<open>c\<close> returned a profile event signed with its key.\<close>

definition seen_on_relay :: "'e admission \<Rightarrow> connection \<Rightarrow> relay_entry list \<Rightarrow> relay_entry list \<Rightarrow> bool" where
  "seen_on_relay ad c old log \<longleftrightarrow> (\<exists>new key at. log = new @ old \<and> key_of ad c key \<and>
     Confirmed (conn_relay_url c) (ad_sign ad key (bridge_profile_template at)) \<in> set new)"

definition grown :: "db \<Rightarrow> relay_entry list \<Rightarrow> 'e install_world \<Rightarrow> bool" where
  "grown d old u \<longleftrightarrow> w_db u = d \<and> (\<exists>new. w_log u = new @ old)"

definition activated_only :: "'e admission \<Rightarrow> db \<Rightarrow> relay_entry list \<Rightarrow> 'e install_world \<Rightarrow> bool" where
  "activated_only ad d old u \<longleftrightarrow> (\<forall>x \<in> set (connections (w_db u)). x \<in> set (connections d) \<or>
     (\<exists>c \<in> set (connections d). \<exists>now. x = activated now c \<and> conn_state c = Installing \<and>
        seen_on_relay ad c old (w_log u)))"

lemma grown_activated: "grown d old u \<Longrightarrow> activated_only ad d old u"
  by (simp add: grown_def activated_only_def)

lemma activate_tx_rows:
  assumes ok: "schema_ok d" and run: "activate_tx now hash receipt d = Inr (r, d')"
    and t: "t \<in> set (tokens d)" "tok_hash t = hash" and c: "c \<in> set (connections d)" "activatable t c"
    and x: "x \<in> set (connections d')"
  shows "x \<in> set (connections d) \<or> x = activated now c"
proof -
  obtain t' where t': "find (usable_token now hash) (tokens d) = Some t'"
    and d': "connections d' = update_where (activatable t') (activated now) (connections d)"
    using run by (auto simp: activate_tx_def tx_inversion assert_hex_Inr consume_token_def)
  have "t' = t"
    using t t' ok by (auto simp: schema_ok_def tokens_ok_def usable_token_def distinct_map
        dest!: find_Some_set dest: inj_onD)
  moreover have "y = c" if "y \<in> set (connections d)" "activatable t y" for y
  proof -
    have "inj_on conn_community (set (connections d))"
      using ok by (simp add: schema_ok_def connections_ok_def distinct_map)
    moreover have "conn_community y = conn_community c" using that c by (simp add: activatable_def)
    ultimately show ?thesis using that(1) c(1) by (auto dest: inj_onD)
  qed
  ultimately show ?thesis using x by (auto simp: d' set_update_where)
qed

lemma prove_and_activate_leads:
  assumes ok: "schema_ok d" and c: "c \<in> set (connections d)" "activatable t c"
    and t: "t \<in> set (tokens d)" "tok_hash t = hash" and key: "key_of ad c key"
  shows "leads (grown d old) (prove_and_activate ad hash c key) (activated_only ad d old) (\<lambda>_ _. True)"
proof -
  let ?G = "grown d old" and ?I = "activated_only ad d old"
  let ?seen = "\<lambda>u. ?G u \<and> seen_on_relay ad c old (w_log u)"
  have ask: "leads ?G (ask f) ?I (\<lambda>_. ?G)" for f :: "'a \<Rightarrow> 'x \<times> 'a"
    by (rule leads_ask) (auto intro: grown_activated simp: grown_def)
  have finish: "leads ?seen (in_db (ad_out ad) (\<lambda>now. activate_tx now hash receipt)) ?I (\<lambda>_ _. True)" for receipt
  proof (rule leads_in_db)
    fix u :: "'a install_world" and a d'
    assume u: "?seen u" and run: "activate_tx (db_time u) hash receipt (w_db u) = Inr (a, d')"
    then have "x \<in> set (connections d) \<or> x = activated (db_time u) c" if "x \<in> set (connections d')" for x
      using activate_tx_rows [OF ok _ t c that] by (auto simp: grown_def)
    moreover have "conn_state c = Installing" using c(2) by (simp add: activatable_def)
    ultimately show "?I (u\<lparr>w_db := d'\<rparr>) \<and> True"
      using u c(1) by (auto simp: activated_only_def)
  qed (auto simp: grown_def intro: grown_activated)
  have publish: "leads ?G (relay_publish (ad_out ad) url ev) ?I (\<lambda>_. ?G)" for url ev
    by (rule leads_publish) (auto intro!: grown_activated simp: grown_def)
  have has: "leads ?G (relay_has (ad_out ad) (conn_relay_url c) (ad_sign ad key (bridge_profile_template at)))
      ?I (\<lambda>found u. ?G u \<and> (found \<longrightarrow> seen_on_relay ad c old (w_log u)))" for at
  proof (rule leads_has)
    fix u :: "'a install_world" and e :: 'a and t
    let ?ev = "ad_sign ad key (bridge_profile_template at)"
    let ?v = "u\<lparr>w_env := e, w_clock := t, w_log := Confirmed (conn_relay_url c) ?ev # w_log u\<rparr>"
    assume u: "?G u"
    then obtain new where new: "w_log u = new @ old" by (auto simp: grown_def)
    have "seen_on_relay ad c old (w_log ?v)"
      unfolding seen_on_relay_def
      by (rule exI [of _ "Confirmed (conn_relay_url c) ?ev # new"], rule exI [of _ key], rule exI [of _ at])
        (simp add: new key)
    moreover have "?G ?v" using u by (auto simp: grown_def)
    ultimately show "?I ?v \<and> (?G ?v \<and> (True \<longrightarrow> seen_on_relay ad c old (w_log ?v)))"
      by (simp add: grown_activated)
  next
    fix u :: "'a install_world" and e :: 'a and t
    assume "?G u"
    then have "?G (u\<lparr>w_env := e, w_clock := t\<rparr>)" by (simp add: grown_def)
    then show "?I (u\<lparr>w_env := e, w_clock := t\<rparr>) \<and> (?G (u\<lparr>w_env := e, w_clock := t\<rparr>) \<and>
        (False \<longrightarrow> seen_on_relay ad c old (w_log (u\<lparr>w_env := e, w_clock := t\<rparr>))))"
      by (simp add: grown_activated)
  qed
  have proved: "leads (\<lambda>u. ?G u \<and> (found \<longrightarrow> seen_on_relay ad c old (w_log u)))
      (if \<not> found then io_throw (Api ''connector_round_trip_failed'' 502)
       else call_then (io_get w_clock) (\<lambda>ms. in_db (ad_out ad) (\<lambda>now. activate_tx now hash (receipt ms))))
      ?I (\<lambda>_ _. True)" for found receipt
  proof (cases found)
    case True
    have "leads ?seen (io_get w_clock) ?I (\<lambda>_. ?seen)" by (rule leads_get) (auto intro: grown_activated)
    from leads_then [OF this finish] True show ?thesis by simp
  next
    case False
    then show ?thesis by (auto intro!: leads_throw grown_activated)
  qed
  have dial: "leads ?G (case refused of Some e \<Rightarrow> io_throw e | None \<Rightarrow> io_return ()) ?I (\<lambda>_. ?G)" for refused
    by (cases refused) (auto intro!: leads_throw leads_return grown_activated)
  have clock: "leads ?G (io_get now_seconds) ?I (\<lambda>_. ?G)" by (rule leads_get) (auto intro: grown_activated)
  show ?thesis
    unfolding prove_and_activate_def Let_def
    by (rule leads_then [OF ask], rule leads_then [OF dial], rule leads_then [OF clock],
        rule leads_then [OF publish], rule leads_then [OF has], rule proved)
qed

text \<open>
  C21. A connector is activated only by a proof from the relay: after
  \<open>verifyAndActivateCommunityConnection\<close>, however it ended, every connection is as it
  was, or it was installing and is now active and the relay it belongs to has, during
  this very call, returned a profile event signed with the key stored for it.
\<close>

theorem activation_needs_relay_confirmation:
  assumes ok: "schema_ok (w_db w)"
    and run: "verify_and_activate_community_connection ad token w = (r, w')"
    and x: "x \<in> set (connections (w_db w'))"
  shows "x \<in> set (connections (w_db w)) \<or>
    (\<exists>c \<in> set (connections (w_db w)). \<exists>now. x = activated now c \<and> conn_state c = Installing \<and>
       seen_on_relay ad c (w_log w) (w_log w'))"
proof -
  let ?d = "w_db w" and ?old = "w_log w"
  let ?G = "grown ?d ?old" and ?I = "activated_only ad ?d ?old"
  let ?read = "\<lambda>hash p u. ?G u \<and> fst p \<in> set (connections ?d) \<and> activatable (snd p) (fst p) \<and>
    snd p \<in> set (tokens ?d) \<and> tok_hash (snd p) = hash"
  have read: "leads ?G (read_install_context ad hash) ?I (?read hash)" for hash
  proof (rule leadsI)
    fix u q u' assume G: "?G u" and run: "read_install_context ad hash u = (q, u')"
    have "leads ?G (read_install_context ad hash) ?G (\<lambda>_ _. True)"
      unfolding read_install_context_def
      by (rule leads_in_db) (auto simp: grown_def install_context_def tx_inversion assert_hex_Inr)
    from leadsD [OF this G run] have "?G u'" by blast
    with G run show "?I u' \<and> (\<forall>p. q = Inr p \<longrightarrow> ?read hash p u')"
      by (auto simp: grown_activated grown_def usable_token_def dest!: install_context_read)
  qed
  have prove: "leads (?read hash (c, t)) (call_then (stored_key ad c) (prove_and_activate ad hash c)) ?I (\<lambda>_ _. True)"
    for hash c t
  proof (cases "c \<in> set (connections ?d) \<and> activatable t c \<and> t \<in> set (tokens ?d) \<and> tok_hash t = hash")
    case True
    have "leads (?read hash (c, t)) (stored_key ad c) ?I (\<lambda>key u. ?G u \<and> key_of ad c key)"
      by (auto simp: leads_def stored_key_def key_of_def call_then_def io_res_def grown_activated
          split: sum.splits)
    moreover have "leads (\<lambda>u. ?G u \<and> key_of ad c key) (prove_and_activate ad hash c key) ?I (\<lambda>_ _. True)" for key
      using prove_and_activate_leads [OF ok, where c = c and t = t and hash = hash and ad = ad and key = key and old = ?old] True by (auto simp: leads_def)
    ultimately show ?thesis by (rule leads_then)
  next
    case False
    then show ?thesis by (auto simp: leads_def)
  qed
  have "leads ?G (verify_and_activate_community_connection ad token) ?I (\<lambda>_ _. True)"
    unfolding verify_and_activate_community_connection_def
  proof (rule leads_then [OF leads_res leads_then [OF read]])
    show "leads (?read hash p) (case p of (c, t) \<Rightarrow> call_then (stored_key ad c) (prove_and_activate ad hash c))
        ?I (\<lambda>_ _. True)" for hash p
      using prove [of "fst p" "snd p" hash] by (simp add: case_prod_unfold)
  qed (auto intro: grown_activated)
  from leadsD [OF this _ run] x show ?thesis by (auto simp: grown_def activated_only_def)
qed

end
