(* ===== verification/Installer_Witnesses.thy ===== *)
theory Installer_Witnesses
  imports Installer_Properties Connector_Samples
begin

text \<open>A concrete installation around the sample hub, and the installer's properties applied to it.\<close>

definition nest_link :: "string \<Rightarrow> string \<Rightarrow> url" where
  "nest_link protocol path = \<lparr>u_protocol = protocol, u_username = [], u_password = [],
     u_hostname = ''nest.x'', u_port = None, u_pathname = path, u_query = None, u_fragment = None\<rparr>"

definition link_web :: web where
  "link_web = \<lparr>
     parse_url = map_of [(''https://nest.x/invite/abc'', nest_link ''https:'' ''/invite/abc''),
       (''wss://nest.x'', nest_link ''wss:'' ''/'')],
     domain_to_ascii = (\<lambda>s. s), ip_version = (\<lambda>s. 0)\<rparr>"

definition sample_admission :: "nat admission" where
  "sample_admission = \<lparr>ad_out = sample_outside\<lparr>out_has := (\<lambda>_ _ n. ((True, 0), n))\<rparr>,
     ad_web = link_web, ad_claim = (\<lambda>key t n. (None, n)),
     ad_token = (\<lambda>n. (replicate 43 (CHR ''T''), n)), ad_hex = (\<lambda>n. (hex_c, n)),
     ad_key = (\<lambda>n. (replicate 32 9, n)), ad_nonce = (\<lambda>n. (replicate 12 2, n)),
     ad_sha256 = (\<lambda>s. hex_c), ad_public_key = (\<lambda>k. hex_b), ad_npub = (\<lambda>k. k),
     ad_sign = sample_sign, ad_cipher = sample_cipher, ad_wrapping_keys = sample_keys,
     ad_decode = Some, ad_number = (\<lambda>s. Some 1), ad_key_version = None, ad_package = None,
     ad_origin = Inr ''https://buzzrouter.com'', ad_receipt = (\<lambda>k u e t. e)\<rparr>"

definition sample_install :: "nat install_world" where
  "sample_install = \<lparr>w_env = 0, w_clock = 0, w_db = sample_hub, w_handoffs = [], w_log = [],
     iw_sessions = [], iw_claims = []\<rparr>"

definition refusing :: "nat admission" where
  "refusing = sample_admission\<lparr>ad_claim := (\<lambda>key t n. (Some (Api ''invite_claim_rejected'' 502), n))\<rparr>"

lemma link_relay: "inviteRelayUrl ad ''https://nest.x/invite/abc'' = Inr ''wss://nest.x''"
  if "ad_web ad = link_web" for ad :: "'e admission"
proof -
  have "trim ''https://nest.x/invite/abc'' = ''https://nest.x/invite/abc''"
    "is_link ''https://nest.x/invite/abc''" by code_simp+
  moreover have "normalize_host link_web ''nest.x'' = Inr ''nest.x''" by code_simp
  ultimately show ?thesis
    by (simp add: inviteRelayUrl_def that link_web_def nest_link_def url_host_def port_suffix_def
        normalize_relay_url_def accepted_protocols_def normalize_port_def relay_of_def canonical_url_def
        authority_host_def)
qed

lemma nest_candidate: "find_verified_candidate ''wss://nest.x'' sample_hub =
  Inr \<lparr>vc_candidate = ''k2'', vc_community = Some ''c2'', vc_display_name = ''nest'',
    vc_owner = Some hex_a, vc_relay_url = ''wss://nest.x''\<rparr>"
  by code_simp

lemma nest_connection: "sample_connection ''n2'' ''c2'' Active \<in> set (connections sample_hub)"
  by (simp add: sample_hub_def)

lemma reentry_returns:
  "case begin_connection_from_invite sample_admission ''https://nest.x/invite/abc'' sample_install of
    (Inr a, w) \<Rightarrow> iw_claims w = [(replicate 32 7, ''https://nest.x/api/invites/claim'', ''abc'')] | _ \<Rightarrow> False"
  by code_simp

lemma mint_returns: "case mint_owner_session sample_admission ''c2'' hex_a sample_install of
    (Inr (token, expires), w) \<Rightarrow> expires = seconds 1800 \<and> iw_sessions w \<noteq> [] \<and> db_time w = 0 \<and>
      distinct (map os_hash (iw_sessions w)) | _ \<Rightarrow> False"
  by code_simp

lemma activation_returns:
  "case verify_and_activate_community_connection sample_admission (replicate 43 (CHR ''T'')) sample_install
   of (Inr c, w) \<Rightarrow> conn_state c = Active \<and>
     activated 0 (sample_connection ''n3'' ''c3'' Installing) \<in> set (connections (w_db w)) | _ \<Rightarrow> False"
  by code_simp

theorem activation_needs_relay_confirmation_witness:
  "\<exists>c w. verify_and_activate_community_connection sample_admission (replicate 43 (CHR ''T'')) sample_install =
       (Inr c, w) \<and> conn_state c = Active \<and>
     seen_on_relay sample_admission (sample_connection ''n3'' ''c3'' Installing) [] (w_log w)"
proof -
  let ?x = "activated 0 (sample_connection ''n3'' ''c3'' Installing)"
  obtain c w where run: "verify_and_activate_community_connection sample_admission
      (replicate 43 (CHR ''T'')) sample_install = (Inr c, w)" and c: "conn_state c = Active"
    and x: "?x \<in> set (connections (w_db w))"
    using activation_returns by (auto split: prod.splits sum.splits)
  have start: "w_db sample_install = sample_hub" "w_log sample_install = []" by (simp_all add: sample_install_def)
  have "?x \<notin> set (connections sample_hub)" by code_simp
  then obtain y now where y: "y \<in> set (connections sample_hub)" "?x = activated now y" "conn_state y = Installing"
    "seen_on_relay sample_admission y [] (w_log w)"
    using activation_needs_relay_confirmation [OF _ run x] sample_hub_ok by (auto simp: start)
  have "y = sample_connection ''n3'' ''c3'' Installing"
    using y(1,3) by (auto simp: sample_hub_def sample_connection_def)
  with run c y(4) show ?thesis by blast
qed

lemma claim_sent: "iw_claims (snd (begin_connection_from_invite sample_admission
    ''https://nest.x/invite/abc'' sample_install)) =
  [(replicate 32 7, ''https://nest.x/api/invites/claim'', ''abc'')]"
  using reentry_returns by (auto split: prod.splits sum.splits)

theorem claims_go_to_the_recorded_relay_witness:
  "\<exists>k \<in> set (candidates sample_hub). cand_state k = Verified_buzz \<and>
     claim_at sample_admission (cand_relay_url k) ''https://nest.x/invite/abc''
       (replicate 32 7, ''https://nest.x/api/invites/claim'', ''abc'')"
proof -
  have "iw_claims sample_install = []" "w_db sample_install = sample_hub" by (simp_all add: sample_install_def)
  with claims_go_to_the_recorded_relay [of sample_admission "''https://nest.x/invite/abc''" sample_install "''t''"]
  show ?thesis unfolding claim_sent by auto
qed

end
