(* ===== verification/Join_Claim.thy ===== *)
theory Join_Claim
  imports Effects Bridge Relay_Info
begin

text \<open>
  src/presence/claim.ts and policy.ts: claiming a Buzz invite over HTTP and the
  join-policy handshake, over an HTTP environment that answers at will.  Signing,
  SHA-256, the text encodings of JSON and of a signed event, and random ids are
  parameters.
\<close>

section \<open>Requests and answers\<close>

record api_request =
  rq_method :: string
  rq_url :: string
  rq_body :: "json option"
  rq_authorization :: "string option"

text \<open>\<open>fetch\<close> throws with a message, or answers a status and a text (None: reading it throws).\<close>

datatype api_response = Unreachable string | Answered nat "string option"

record 'e http_client =
  hc_fetch :: "api_request \<Rightarrow> 'e \<Rightarrow> api_response \<times> 'e"
  hc_uuid :: "'e \<Rightarrow> string \<times> 'e"
  hc_key :: "'e \<Rightarrow> nat list \<times> 'e"
  hc_parse :: "string \<Rightarrow> json option"
  hc_stringify :: "json \<Rightarrow> string"
  hc_encode :: "nostr_event \<Rightarrow> string"
  hc_sha256 :: "string \<Rightarrow> string"
  hc_sign :: signer

text \<open>\<open>jw_requests\<close> and \<open>jw_joined\<close> are ghost logs: what was sent and who was told of a join.\<close>

record 'e join_world =
  jw_env :: 'e
  jw_requests :: "api_request list"
  jw_joined :: "(string \<times> string option) list"

type_synonym ('e, 'a) joining = "('e join_world, 'a) io"

definition ask_client :: "('e \<Rightarrow> 'a \<times> 'e) \<Rightarrow> ('e, 'a) joining" where
  "ask_client f = (\<lambda>w. case f (jw_env w) of (a, e') \<Rightarrow> (Inr a, w\<lparr>jw_env := e'\<rparr>))"

definition send_request :: "'e http_client \<Rightarrow> api_request \<Rightarrow> ('e, api_response) joining" where
  "send_request hc rq = (\<lambda>w. case hc_fetch hc rq (jw_env w) of (a, e') \<Rightarrow>
     (Inr a, w\<lparr>jw_env := e', jw_requests := rq # jw_requests w\<rparr>))"

section \<open>Hosts and endpoints\<close>

definition drop_scheme :: "string \<Rightarrow> string \<Rightarrow> string \<Rightarrow> string" where
  "drop_scheme long short s =
     (if to_lower (take (length long) s) = long then drop (length long) s
      else if to_lower (take (length short) s) = short then drop (length short) s else s)"

definition api_host :: "string \<Rightarrow> string res" where
  "api_host host =
     (let bare = without_slashes (drop_scheme ''https://'' ''http://''
          (drop_scheme ''wss://'' ''ws://'' (trim host)))
      in if bare = [] then Inl Raw else Inr bare)"

definition endpoint_url :: "string \<Rightarrow> string \<Rightarrow> string res" where
  "endpoint_url path host =
     (case api_host host of Inl e \<Rightarrow> Inl e | Inr h \<Rightarrow> Inr (''https://'' @ h @ path))"

definition claim_endpoint :: "string \<Rightarrow> string res" where
  "claim_endpoint = endpoint_url ''/api/invites/claim''"

definition join_policy_endpoint :: "string \<Rightarrow> string res" where
  "join_policy_endpoint = endpoint_url ''/api/join-policy''"

definition accept_policy_endpoint :: "string \<Rightarrow> string res" where
  "accept_policy_endpoint = endpoint_url ''/api/invites/accept-policy''"

section \<open>Authorization\<close>

definition nip98_kind :: nat where
  "nip98_kind = 27235"

definition nip98_tags :: "'e http_client \<Rightarrow> string \<Rightarrow> string \<Rightarrow> string \<Rightarrow> string \<Rightarrow> string list list" where
  "nip98_tags hc url verb body nonce =
     [[''u'', url], [''method'', verb], [''nonce'', nonce]] @
     (if body = [] then [] else [[''payload'', hc_sha256 hc body]])"

text \<open>The header of a POST at time \<open>now\<close> (in seconds).\<close>

definition build_nip98_header ::
  "'e http_client \<Rightarrow> int \<Rightarrow> nat list \<Rightarrow> string \<Rightarrow> string \<Rightarrow> ('e, string) joining" where
  "build_nip98_header hc now key url body =
     call_then (ask_client (hc_uuid hc)) (\<lambda>nonce.
     io_return (''Nostr '' @ hc_encode hc (hc_sign hc key
       \<lparr>tp_content = [], tp_created_at = now, tp_kind = nip98_kind,
        tp_tags = nip98_tags hc url ''POST'' body nonce\<rparr>)))"

definition signed_post ::
  "'e http_client \<Rightarrow> int \<Rightarrow> nat list \<Rightarrow> string \<Rightarrow> json \<Rightarrow> ('e, api_response) joining" where
  "signed_post hc now key url body =
     call_then (build_nip98_header hc now key url (hc_stringify hc body)) (\<lambda>authorization.
     send_request hc \<lparr>rq_method = ''POST'', rq_url = url, rq_body = Some body,
       rq_authorization = Some authorization\<rparr>)"

section \<open>Reading an answer\<close>

definition read_body :: "'e http_client \<Rightarrow> string option \<Rightarrow> json option" where
  "read_body hc text =
     (case text of
        None \<Rightarrow> None
      | Some t \<Rightarrow> if t = [] then None else (case hc_parse hc t of Some v \<Rightarrow> Some v | None \<Rightarrow> Some (JStr t)))"

text \<open>The first of the fields \<open>keys\<close> of an object that is a string.\<close>

fun first_text :: "(string \<times> json) list \<Rightarrow> string list \<Rightarrow> string" where
  "first_text fs [] = []"
| "first_text fs (k # ks) = (case json_field fs k of Some (JStr s) \<Rightarrow> s | _ \<Rightarrow> first_text fs ks)"

definition text_of :: "string list \<Rightarrow> json option \<Rightarrow> string" where
  "text_of keys body = (case body of
     Some (JStr s) \<Rightarrow> s | Some (JObj fs) \<Rightarrow> first_text fs keys | _ \<Rightarrow> [])"

definition reason_text :: "json option \<Rightarrow> string" where
  "reason_text = text_of [''reason'', ''error'', ''message'', ''detail'']"

definition error_text :: "json option \<Rightarrow> string" where
  "error_text = text_of [''error'', ''reason'', ''message'', ''detail'']"

fun contains :: "string \<Rightarrow> string \<Rightarrow> bool" where
  "contains p [] \<longleftrightarrow> p = []"
| "contains p (c # cs) \<longleftrightarrow> take (length p) (c # cs) = p \<or> contains p cs"

datatype claim_failure = Unauthorized | Forbidden | Not_found | Claim_expired | Claim_invalid
  | Rate_limited | Server_error | Network_error

datatype claim_result = Claim_ok nat "json option" | Claim_failed nat claim_failure "json option"

definition classify_claim_response :: "nat \<Rightarrow> json option \<Rightarrow> claim_result" where
  "classify_claim_response status body =
     (let message = to_lower (reason_text body);
          looks_expired = contains ''expir'' message \<or> contains ''no longer'' message;
          bad = (if looks_expired then Claim_expired else Claim_invalid) in
      if status = 200 \<or> status = 201 then Claim_ok status body
      else if status = 401 then Claim_failed status Unauthorized body
      else if status = 403 then Claim_failed status Forbidden body
      else if status = 404 then Claim_failed status Not_found body
      else if status = 410 then Claim_failed status Claim_expired body
      else if status = 429 then Claim_failed status Rate_limited body
      else if status = 400 \<or> status = 409 \<or> status = 422 then Claim_failed status bad body
      else if status \<ge> 500 then Claim_failed status Server_error body
      else Claim_failed status bad body)"

section \<open>Claiming\<close>

definition claim_body :: "string \<Rightarrow> string option \<Rightarrow> json" where
  "claim_body code receipt = JObj ((''code'', JStr code) #
     (case receipt of None \<Rightarrow> [] | Some r \<Rightarrow> if r = [] then [] else [(''policy_receipt'', JStr r)]))"

definition claim_invite_code ::
  "'e http_client \<Rightarrow> int \<Rightarrow> string \<Rightarrow> string \<Rightarrow> nat list \<Rightarrow> string option \<Rightarrow> ('e, claim_result) joining" where
  "claim_invite_code hc now host code key receipt =
     call_then (io_res (claim_endpoint host)) (\<lambda>url.
     call_then (signed_post hc now key url (claim_body code receipt)) (\<lambda>answer.
     io_return (case answer of
         Unreachable message \<Rightarrow> Claim_failed 0 Network_error (Some (JStr message))
       | Answered status text \<Rightarrow> classify_claim_response status (read_body hc text))))"

section \<open>The join policy\<close>

record join_policy =
  jp_version :: string
  jp_age_required :: bool
  jp_terms :: "string option"
  jp_privacy :: "string option"

definition string_field :: "(string \<times> json) list \<Rightarrow> string \<Rightarrow> string option" where
  "string_field fs k = (case json_field fs k of Some (JStr s) \<Rightarrow> Some s | _ \<Rightarrow> None)"

text \<open>\<open>!policy\<close>: the values that are false in a condition.\<close>

definition falsy :: "json option \<Rightarrow> bool" where
  "falsy v \<longleftrightarrow> v \<in> {None, Some JNull, Some (JBool False), Some (JInt 0), Some (JStr [])}"

definition policy_of :: "json \<Rightarrow> join_policy option res" where
  "policy_of parsed =
     (let policy = (case parsed of JObj fs \<Rightarrow> json_field fs ''policy'' | _ \<Rightarrow> None) in
      if parsed = JNull then Inl Raw
      else if falsy policy then Inr None
      else case policy of
        Some (JObj fs) \<Rightarrow>
          (case string_field fs ''version'' of
             None \<Rightarrow> Inl Raw
           | Some version \<Rightarrow> Inr (Some \<lparr>jp_version = version,
               jp_age_required = (json_field fs ''age_attestation_required'' = Some (JBool True)),
               jp_terms = string_field fs ''terms_markdown'', jp_privacy = string_field fs ''privacy_markdown''\<rparr>))
      | _ \<Rightarrow> Inl Raw)"

definition get_join_policy :: "'e http_client \<Rightarrow> string \<Rightarrow> ('e, join_policy option) joining" where
  "get_join_policy hc host =
     call_then (io_res (join_policy_endpoint host)) (\<lambda>url.
     call_then (send_request hc \<lparr>rq_method = ''GET'', rq_url = url, rq_body = None, rq_authorization = None\<rparr>)
       (\<lambda>answer. io_res (case answer of
           Answered status (Some text) \<Rightarrow>
             if 200 \<le> status \<and> status \<le> 299
             then (case hc_parse hc text of None \<Rightarrow> Inl Raw | Some v \<Rightarrow> policy_of v) else Inl Raw
         | _ \<Rightarrow> Inl Raw)))"

definition accept_body :: "bool \<Rightarrow> string \<Rightarrow> string \<Rightarrow> json" where
  "accept_body age code version = JObj [(''age_confirmed'', JBool age), (''code'', JStr code),
     (''policy_version'', JStr version)]"

text \<open>The receipt, or the status and the reason.\<close>

definition accept_join_policy ::
  "'e http_client \<Rightarrow> int \<Rightarrow> string \<Rightarrow> string \<Rightarrow> string \<Rightarrow> bool \<Rightarrow> nat list \<Rightarrow>
   ('e, (nat \<times> string) + string) joining" where
  "accept_join_policy hc now host code version age key =
     call_then (io_res (accept_policy_endpoint host)) (\<lambda>url.
     call_then (signed_post hc now key url (accept_body age code version)) (\<lambda>answer.
     io_return (case answer of
         Unreachable message \<Rightarrow> Inl (0, message)
       | Answered status text \<Rightarrow>
           (let parsed = read_body hc text in
            if 200 \<le> status \<and> status \<le> 299
            then (case parsed of
                Some (JObj fs) \<Rightarrow> (case string_field fs ''receipt'' of
                    Some r \<Rightarrow> if r \<noteq> [] then Inr r
                      else Inl (status, ''accept-policy succeeded but returned no receipt'')
                  | None \<Rightarrow> Inl (status, ''accept-policy succeeded but returned no receipt''))
              | _ \<Rightarrow> Inl (status, ''accept-policy succeeded but returned no receipt''))
            else Inl (status, if error_text parsed \<noteq> [] then error_text parsed
              else ''HTTP '' @ show_nat status)))))"

definition is_join_policy_required :: "json option \<Rightarrow> bool" where
  "is_join_policy_required body = (case body of
     Some (JObj fs) \<Rightarrow> json_field fs ''error'' = Some (JStr ''join_policy_required'') | _ \<Rightarrow> False)"

section \<open>joinCommunity\<close>

datatype join_result = Joined nat "json option" | Terms_required
  | Join_failed nat "claim_failure option" "json option"

definition community_id_from_body :: "json option \<Rightarrow> string option" where
  "community_id_from_body body = (case body of
     Some (JObj fs) \<Rightarrow> (case string_field fs ''community_id'' of
         Some i \<Rightarrow> if i = [] then None else Some i | None \<Rightarrow> None)
   | _ \<Rightarrow> None)"

text \<open>Errors of the callback are swallowed, so telling it is all there is.\<close>

definition notify_joined :: "string \<Rightarrow> json option \<Rightarrow> ('e, unit) joining" where
  "notify_joined host body =
     io_put (\<lambda>w. w\<lparr>jw_joined := (host, community_id_from_body body) # jw_joined w\<rparr>)"

definition finish_join :: "string \<Rightarrow> claim_result \<Rightarrow> ('e, join_result) joining" where
  "finish_join host c = (case c of
     Claim_ok status body \<Rightarrow> call_then (notify_joined host body) (\<lambda>_. io_return (Joined status body))
   | Claim_failed status reason body \<Rightarrow> io_return (Join_failed status (Some reason) body))"

text \<open>The reason None stands for \<open>policy_accept_failed\<close>.\<close>

definition accept_and_claim ::
  "'e http_client \<Rightarrow> int \<Rightarrow> string \<Rightarrow> string \<Rightarrow> nat list \<Rightarrow> string \<Rightarrow> ('e, join_result) joining" where
  "accept_and_claim hc now host code key version =
     call_then (accept_join_policy hc now host code version True key) (\<lambda>accepted.
     case accepted of
       Inl (status, reason) \<Rightarrow> io_return (Join_failed status None None)
     | Inr receipt \<Rightarrow>
         call_then (claim_invite_code hc now host code key (Some receipt)) (finish_join host))"

definition join_with_policy ::
  "'e http_client \<Rightarrow> int \<Rightarrow> string \<Rightarrow> string \<Rightarrow> nat list \<Rightarrow> ('e, join_result) joining" where
  "join_with_policy hc now host code key =
     call_then (get_join_policy hc host) (\<lambda>policy.
     case policy of
       None \<Rightarrow> io_return (Join_failed 0 None None)
     | Some p \<Rightarrow> accept_and_claim hc now host code key (jp_version p))"

definition join_community ::
  "'e http_client \<Rightarrow> int \<Rightarrow> string \<Rightarrow> string \<Rightarrow> nat list \<Rightarrow> bool \<Rightarrow> ('e, join_result) joining" where
  "join_community hc now host code key accept_terms =
     call_then (claim_invite_code hc now host code key None) (\<lambda>first.
     case first of
       Claim_ok status body \<Rightarrow> finish_join host first
     | Claim_failed status reason body \<Rightarrow>
         if \<not> (status = 403 \<and> is_join_policy_required body)
         then finish_join host first
         else if \<not> accept_terms then io_return Terms_required
         else join_with_policy hc now host code key)"

section \<open>probeJoinability\<close>

text \<open>src/directory/joinability.ts\<close>

datatype join_status = Open | Policy_gated | Restricted | Stale | Unknown

definition failure_name :: "claim_failure \<Rightarrow> string" where
  "failure_name f = (case f of Unauthorized \<Rightarrow> ''unauthorized'' | Forbidden \<Rightarrow> ''forbidden''
     | Not_found \<Rightarrow> ''not_found'' | Claim_expired \<Rightarrow> ''expired'' | Claim_invalid \<Rightarrow> ''invalid''
     | Rate_limited \<Rightarrow> ''rate_limited'' | Server_error \<Rightarrow> ''server_error'' | Network_error \<Rightarrow> ''network_error'')"

definition error_code :: "json option \<Rightarrow> string" where
  "error_code body = (case body of
     Some (JObj fs) \<Rightarrow> (case string_field fs ''error'' of Some s \<Rightarrow> s | None \<Rightarrow> []) | _ \<Rightarrow> [])"

definition verdict_of :: "claim_result \<Rightarrow> join_status \<times> string option" where
  "verdict_of c = (case c of
     Claim_ok status body \<Rightarrow> (Open, None)
   | Claim_failed status reason body \<Rightarrow>
       (let error = error_code body; detail = (if error \<noteq> [] then error else failure_name reason) in
        if error = ''join_policy_required'' then (Policy_gated, Some error)
        else if reason = Claim_expired \<or> error = ''invite_expired'' then (Stale, Some detail)
        else if reason = Claim_invalid \<or> reason = Not_found \<or> error = ''invite_invalid''
        then (Stale, Some detail)
        else if reason \<in> {Network_error, Server_error, Rate_limited, Unauthorized}
        then (Unknown, Some (failure_name reason))
        else (Restricted, Some detail)))"

definition probe_joinability ::
  "'e http_client \<Rightarrow> int \<Rightarrow> string \<Rightarrow> string \<Rightarrow> ('e, join_status \<times> string option) joining" where
  "probe_joinability hc now host code =
     call_then (io_attempt (get_join_policy hc host)) (\<lambda>policy.
     if (case policy of Inr (Some p) \<Rightarrow> jp_age_required p | _ \<Rightarrow> False)
     then io_return (Policy_gated, Some ''join_policy_required'')
     else
       call_then (ask_client (hc_key hc)) (\<lambda>key.
       call_then (claim_invite_code hc now host code key None) (\<lambda>c. io_return (verdict_of c))))"

end
