(* ===== verification/Join_Properties.thy ===== *)
theory Join_Properties
  imports Join_Claim
begin

text \<open>
  What joining and probing a community promise: nothing is accepted on the owner's
  behalf, no more is sent than the handshake needs, and a probe of a gated community
  spends no invite.
\<close>

section \<open>What each call sends\<close>

definition sent :: "api_request \<Rightarrow> string \<times> json option" where
  "sent q = (rq_url q, rq_body q)"

definition api_url :: "string \<Rightarrow> string \<Rightarrow> string" where
  "api_url h path = ''https://'' @ h @ path"

lemma endpoint_simps [simp]:
  "api_host host = Inr h \<Longrightarrow> claim_endpoint host = Inr (api_url h ''/api/invites/claim'')"
  "api_host host = Inr h \<Longrightarrow> join_policy_endpoint host = Inr (api_url h ''/api/join-policy'')"
  "api_host host = Inr h \<Longrightarrow> accept_policy_endpoint host = Inr (api_url h ''/api/invites/accept-policy'')"
  "api_host host = Inl e \<Longrightarrow> claim_endpoint host = Inl e"
  "api_host host = Inl e \<Longrightarrow> join_policy_endpoint host = Inl e"
  by (simp_all add: claim_endpoint_def join_policy_endpoint_def accept_policy_endpoint_def
      endpoint_url_def api_url_def)

text \<open>\<open>m\<close> sends exactly one request, described by \<open>x\<close>.\<close>

definition sends_one :: "('e, 'a) joining \<Rightarrow> string \<times> json option \<Rightarrow> bool" where
  "sends_one m x \<longleftrightarrow> (\<forall>w. \<exists>q. jw_requests (snd (m w)) = q # jw_requests w \<and> sent q = x)"

definition sends_none :: "('e, 'a) joining \<Rightarrow> bool" where
  "sends_none m \<longleftrightarrow> (\<forall>w. jw_requests (snd (m w)) = jw_requests w)"

lemma signed_post_sends: "sends_one (signed_post hc now key url body) (url, Some body)"
  by (auto simp: sends_one_def signed_post_def build_nip98_header_def io_defs ask_client_def
      send_request_def sent_def split: prod.splits)

lemma signed_post_returns: "\<exists>a. fst (signed_post hc now key url body w) = Inr a"
  by (auto simp: signed_post_def build_nip98_header_def io_defs ask_client_def
      send_request_def split: prod.splits)

lemma then_io_return: "call_then m (\<lambda>a. io_return (f a)) w =
  (case m w of (Inl e, w') \<Rightarrow> (Inl e, w') | (Inr a, w') \<Rightarrow> (Inr (f a), w'))"
  by (simp add: call_then_def io_return_def)

lemma claim_sends:
  assumes "api_host host = Inr h"
  shows "sends_one (claim_invite_code hc now host code key receipt)
      (api_url h ''/api/invites/claim'', Some (claim_body code receipt)) \<and>
    (\<forall>w. \<exists>c. fst (claim_invite_code hc now host code key receipt w) = Inr c)"
proof -
  let ?post = "signed_post hc now key (api_url h ''/api/invites/claim'') (claim_body code receipt)"
  have run: "\<exists>c. claim_invite_code hc now host code key receipt w = (Inr c, snd (?post w))" for w
    using signed_post_returns [of hc now key "api_url h ''/api/invites/claim''" "claim_body code receipt" w] assms
    by (cases "?post w") (auto simp: claim_invite_code_def call_then_def io_res_def io_return_def)
  show ?thesis
    using signed_post_sends [of hc now key "api_url h ''/api/invites/claim''" "claim_body code receipt"] run
    unfolding sends_one_def by (metis fst_conv snd_conv)
qed

lemma accept_sends:
  assumes "api_host host = Inr h"
  shows "sends_one (accept_join_policy hc now host code version age key)
      (api_url h ''/api/invites/accept-policy'', Some (accept_body age code version))"
proof -
  let ?post = "signed_post hc now key (api_url h ''/api/invites/accept-policy'') (accept_body age code version)"
  have "snd (accept_join_policy hc now host code version age key w) = snd (?post w)" for w
    using signed_post_returns [of hc now key "api_url h ''/api/invites/accept-policy''" "accept_body age code version" w]
      assms
    by (cases "?post w") (auto simp: accept_join_policy_def call_then_def io_res_def io_return_def)
  then show ?thesis
    using signed_post_sends [of hc now key "api_url h ''/api/invites/accept-policy''" "accept_body age code version"]
    by (simp add: sends_one_def)
qed

lemma policy_sends:
  assumes "api_host host = Inr h"
  shows "sends_one (get_join_policy hc host) (api_url h ''/api/join-policy'', None)"
  using assms by (auto simp: sends_one_def get_join_policy_def io_defs send_request_def sent_def split: prod.splits)

lemma finish_sends: "sends_none (finish_join host c)"
  by (cases c) (simp_all add: sends_none_def finish_join_def notify_joined_def io_defs)

section \<open>Sequences of requests\<close>

text \<open>What \<open>m\<close> sends, in order, is a beginning of \<open>xs\<close> at least one request long.\<close>

definition sends_start :: "('e, 'a) joining \<Rightarrow> (string \<times> json option) list \<Rightarrow> 'e join_world \<Rightarrow> bool" where
  "sends_start m xs w \<longleftrightarrow> (\<exists>new. jw_requests (snd (m w)) = new @ jw_requests w \<and>
     map sent (rev new) = take (length new) xs)"

lemma sends_start_none: "sends_none m \<Longrightarrow> sends_start m xs w"
  by (simp add: sends_none_def sends_start_def)

lemma sends_start_then:
  assumes one: "sends_one m x" and rest: "\<And>a w1. m w = (Inr a, w1) \<Longrightarrow> sends_start (f a) xs w1"
  shows "sends_start (call_then m f) (x # xs) w"
proof (cases "m w")
  case (Pair r w1)
  obtain q where q: "jw_requests w1 = q # jw_requests w" "sent q = x"
    using one Pair unfolding sends_one_def by (metis snd_conv)
  show ?thesis
  proof (cases r)
    case (Inl e)
    with Pair q show ?thesis
      by (auto simp: sends_start_def call_then_def intro!: exI [of _ "[q]"])
  next
    case (Inr a)
    obtain new where new: "jw_requests (snd (f a w1)) = new @ jw_requests w1"
      "map sent (rev new) = take (length new) xs"
      using rest Pair Inr unfolding sends_start_def by blast
    with Pair Inr q show ?thesis
      by (auto simp: sends_start_def call_then_def intro!: exI [of _ "new @ [q]"])
  qed
qed

lemmas claim_sends_one = claim_sends [THEN conjunct1] and claim_returns = claim_sends [THEN conjunct2, rule_format]

lemma sends_start_return: "sends_start (io_return a) xs w"
  by (rule sends_start_none) (simp add: sends_none_def io_return_def)

definition claim_step :: "string \<Rightarrow> string \<Rightarrow> string option \<Rightarrow> string \<times> json option" where
  "claim_step h code receipt = (api_url h ''/api/invites/claim'', Some (claim_body code receipt))"

definition accept_step :: "string \<Rightarrow> string \<Rightarrow> string \<Rightarrow> string \<times> json option" where
  "accept_step h code version =
     (api_url h ''/api/invites/accept-policy'', Some (accept_body True code version))"

definition policy_step :: "string \<Rightarrow> string \<times> json option" where
  "policy_step h = (api_url h ''/api/join-policy'', None)"

lemma receipt_claim_sends:
  assumes "api_host host = Inr h"
  shows "sends_start (call_then (claim_invite_code hc now host code key (Some receipt)) (finish_join host))
    [claim_step h code (Some receipt)] w"
  unfolding claim_step_def
  by (rule sends_start_then [OF claim_sends_one [OF assms] sends_start_none [OF finish_sends]])

lemma accept_and_claim_sends:
  assumes "api_host host = Inr h"
  shows "\<exists>receipt. sends_start (accept_and_claim hc now host code key version)
    [accept_step h code version, claim_step h code (Some receipt)] w"
proof -
  let ?m = "accept_join_policy hc now host code version True key"
  obtain receipt where receipt: "\<And>r w1. ?m w = (Inr (Inr r), w1) \<Longrightarrow> r = receipt"
    by (cases "?m w") (metis Pair_inject sum.inject(2))
  have "sends_start (case a of Inl (status, reason) \<Rightarrow> io_return (Join_failed status None None)
       | Inr r \<Rightarrow> call_then (claim_invite_code hc now host code key (Some r)) (finish_join host))
    [claim_step h code (Some receipt)] w1" if "?m w = (Inr a, w1)" for a w1
    using that receipt_claim_sends [OF assms] receipt
    by (cases a) (auto simp: sends_start_return)
  then show ?thesis
    unfolding accept_and_claim_def accept_step_def
    by (intro exI [of _ receipt] sends_start_then [OF accept_sends [OF assms]]) auto
qed

lemma join_with_policy_sends:
  assumes "api_host host = Inr h"
  shows "\<exists>version receipt. sends_start (join_with_policy hc now host code key)
    [policy_step h, accept_step h code version, claim_step h code (Some receipt)] w"
proof -
  let ?m = "get_join_policy hc host"
  obtain version where version: "\<And>p w1. ?m w = (Inr (Some p), w1) \<Longrightarrow> jp_version p = version"
    by (cases "?m w") (metis Pair_inject option.inject sum.inject(2))
  obtain receipt where receipt: "sends_start (accept_and_claim hc now host code key version)
      [accept_step h code version, claim_step h code (Some receipt)] (snd (?m w))"
    using accept_and_claim_sends [OF assms] by blast
  have "sends_start (case a of None \<Rightarrow> io_return (Join_failed 0 None None)
      | Some p \<Rightarrow> accept_and_claim hc now host code key (jp_version p))
    [accept_step h code version, claim_step h code (Some receipt)] w1" if "?m w = (Inr a, w1)" for a w1
    using that version receipt by (cases a) (auto simp: sends_start_return)
  then show ?thesis
    unfolding join_with_policy_def policy_step_def
    by (intro exI [of _ version] exI [of _ receipt] sends_start_then [OF policy_sends [OF assms]]) auto
qed

section \<open>Properties\<close>

text \<open>
  C25. Terms are accepted only on the caller's word: whatever the relay answers,
  \<open>joinCommunity\<close> without \<open>acceptTerms\<close> sends at most one request, the bare claim; with it,
  it sends at most the four requests of the handshake in their order: the bare claim,
  the reading of the policy, its acceptance, and one claim with a receipt.
\<close>

theorem terms_need_consent:
  assumes "api_host host = Inr h"
  shows "\<exists>new version receipt. jw_requests (snd (join_community hc now host code key accept_terms w)) =
      new @ jw_requests w \<and>
    map sent (rev new) = take (length new) (claim_step h code None # (if accept_terms
       then [policy_step h, accept_step h code version, claim_step h code (Some receipt)] else []))"
proof -
  let ?first = "claim_invite_code hc now host code key None"
  let ?tail = "\<lambda>version receipt. if accept_terms
     then [policy_step h, accept_step h code version, claim_step h code (Some receipt)] else []"
  obtain version receipt where tail: "sends_start (join_with_policy hc now host code key)
      [policy_step h, accept_step h code version, claim_step h code (Some receipt)] (snd (?first w))"
    using join_with_policy_sends [OF assms] by blast
  have "sends_start (case a of Claim_ok status body \<Rightarrow> finish_join host a
     | Claim_failed status reason body \<Rightarrow> if \<not> (status = 403 \<and> is_join_policy_required body)
       then finish_join host a else if \<not> accept_terms then io_return Terms_required
       else join_with_policy hc now host code key) (?tail version receipt) w1"
    if "?first w = (Inr a, w1)" for a w1
    using that tail sends_start_none [OF finish_sends]
    by (cases a) (auto simp: sends_start_return)
  then have "sends_start (join_community hc now host code key accept_terms)
      (claim_step h code None # ?tail version receipt) w"
    unfolding join_community_def claim_step_def
    by (intro sends_start_then [OF claim_sends_one [OF assms]]) auto
  then show ?thesis unfolding sends_start_def by blast
qed

text \<open>
  A probe of a gated community spends no invite: when the relay publishes a policy
  that requires an age attestation, the verdict is \<open>policy_gated\<close> and reading the policy
  is the only request made.  Otherwise one claim is made, and never a second.
\<close>

lemma gated_probe_spends_no_invite:
  assumes "api_host host = Inr h"
  shows "\<exists>new. jw_requests (snd (probe_joinability hc now host code w)) = new @ jw_requests w \<and>
    map sent (rev new) = take (length new) [policy_step h, claim_step h code None] \<and>
    (\<forall>p. fst (get_join_policy hc host w) = Inr (Some p) \<and> jp_age_required p \<longrightarrow> length new = 1 \<and>
       fst (probe_joinability hc now host code w) = Inr (Policy_gated, Some ''join_policy_required''))"
proof -
  let ?m = "get_join_policy hc host"
  obtain r w1 where m: "?m w = (r, w1)" by fastforce
  obtain q where q: "jw_requests w1 = q # jw_requests w" "sent q = policy_step h"
    using policy_sends [OF assms, of hc] m unfolding sends_one_def policy_step_def by (metis snd_conv)
  show ?thesis
  proof (cases "case r of Inr (Some p) \<Rightarrow> jp_age_required p | _ \<Rightarrow> False")
    case True
    with m q show ?thesis
      by (intro exI [of _ "[q]"]) (auto simp: probe_joinability_def io_attempt_def io_defs)
  next
    case False
    obtain key w2 where key: "ask_client (hc_key hc) w1 = (Inr key, w2)" "jw_requests w2 = jw_requests w1"
      by (cases "hc_key hc (jw_env w1)") (auto simp: ask_client_def)
    obtain c w3 where c: "claim_invite_code hc now host code key None w2 = (Inr c, w3)"
      using claim_sends [OF assms, of hc now code key None] by (metis prod.collapse)
    obtain q' where q': "jw_requests w3 = q' # jw_requests w2"
      "sent q' = claim_step h code None"
      using claim_sends_one [OF assms, of hc now code key None] c
      unfolding sends_one_def claim_step_def by (metis snd_conv)
    have "probe_joinability hc now host code w = (Inr (verdict_of c), w3)"
      using False m key c by (simp add: probe_joinability_def io_attempt_def io_defs)
    with False m q q' key show ?thesis
      by (intro exI [of _ "[q', q]"]) auto
  qed
qed

text \<open>
  A probe throws in one case only, a blank host; otherwise it returns a verdict
  whatever the environment does, and a relay that could not be reached, failed or
  rejected our signature is \<open>unknown\<close>, never closed.
\<close>

lemma probe_always_has_a_verdict:
  "((\<exists>v. fst (probe_joinability hc now host code w) = Inr v) \<longleftrightarrow> api_host host \<noteq> Inl Raw) \<and>
   fst (verdict_of (Claim_failed 0 Network_error (Some (JStr message)))) = Unknown \<and>
   (status = 401 \<or> status = 429 \<or> 500 \<le> status \<longrightarrow> error_code body = [] \<longrightarrow>
      fst (verdict_of (classify_claim_response status body)) = Unknown)"
proof (intro conjI impI)
  show "fst (verdict_of (Claim_failed 0 Network_error (Some (JStr message)))) = Unknown"
    by (simp add: verdict_of_def error_code_def)
  show "fst (verdict_of (classify_claim_response status body)) = Unknown"
    if "status = 401 \<or> status = 429 \<or> 500 \<le> status" "error_code body = []"
    using that by (auto simp: verdict_of_def classify_claim_response_def Let_def)
  show "(\<exists>v. fst (probe_joinability hc now host code w) = Inr v) \<longleftrightarrow> api_host host \<noteq> Inl Raw"
proof (cases "api_host host")
  case (Inl e)
  then have "e = Raw" by (auto simp: api_host_def Let_def split: if_splits)
  with Inl show ?thesis
    by (auto simp: probe_joinability_def get_join_policy_def io_attempt_def io_defs ask_client_def
        claim_invite_code_def split: prod.splits)
next
  case (Inr h)
  obtain r w1 where m: "get_join_policy hc host w = (r, w1)" by fastforce
  obtain key w2 where key: "ask_client (hc_key hc) w1 = (Inr key, w2)"
    by (cases "hc_key hc (jw_env w1)") (auto simp: ask_client_def)
  obtain c w3 where "claim_invite_code hc now host code key None w2 = (Inr c, w3)"
    using claim_sends [OF Inr, of hc now code key None] by (metis prod.collapse)
  with m key Inr show ?thesis by (auto simp: probe_joinability_def io_attempt_def io_defs)
qed
qed

section \<open>Witnesses\<close>

text \<open>A relay with an age-gated policy that refuses a bare claim.\<close>

definition gated_policy :: json where
  "gated_policy = JObj [(''policy'', JObj [(''version'', JStr ''v1''), (''age_attestation_required'', JBool True)])]"

definition gated_client :: "unit http_client" where
  "gated_client = \<lparr>
     hc_fetch = (\<lambda>q e. (if rq_url q = ''https://nest.x/api/join-policy'' then Answered 200 (Some ''policy'')
        else if rq_url q = ''https://nest.x/api/invites/accept-policy'' then Answered 200 (Some ''receipt'')
        else if rq_body q = Some (claim_body ''abc'' None) then Answered 403 (Some ''required'')
        else Answered 200 (Some ''joined''), e)),
     hc_uuid = (\<lambda>e. (''n1'', e)), hc_key = (\<lambda>e. ([7], e)),
     hc_parse = map_of [(''policy'', gated_policy), (''receipt'', JObj [(''receipt'', JStr ''r1'')]),
        (''required'', JObj [(''error'', JStr ''join_policy_required'')])],
     hc_stringify = (\<lambda>v. ''json''), hc_encode = ev_id, hc_sha256 = (\<lambda>s. s),
     hc_sign = (\<lambda>k t. \<lparr>ev_id = ''e'', ev_pubkey = ''p'', ev_created_at = tp_created_at t,
        ev_kind = tp_kind t, ev_tags = tp_tags t, ev_content = tp_content t\<rparr>)\<rparr>"

definition idle_join :: "unit join_world" where
  "idle_join = \<lparr>jw_env = (), jw_requests = [], jw_joined = []\<rparr>"

lemma nest_api_host: "api_host ''wss://nest.x/'' = Inr ''nest.x''"
  by code_simp

lemma idle_env: "w\<lparr>jw_env := ()\<rparr> = w" for w :: "unit join_world"
  by (cases w) simp

lemma gated_post: "signed_post gated_client now key url body w =
  (let q = \<lparr>rq_method = ''POST'', rq_url = url, rq_body = Some body, rq_authorization = Some ''Nostr e''\<rparr>
   in (Inr (fst (hc_fetch gated_client q ())), w\<lparr>jw_requests := q # jw_requests w\<rparr>))"
  by (simp add: signed_post_def build_nip98_header_def io_defs ask_client_def send_request_def gated_client_def
      Let_def idle_env)

lemma gated_claim: "claim_invite_code gated_client now ''wss://nest.x/'' ''abc'' key receipt w =
  (Inr (if receipt = None \<or> receipt = Some [] then Claim_failed 403 Forbidden (Some (JObj [(''error'', JStr ''join_policy_required'')]))
        else Claim_ok 200 (Some (JStr ''joined''))),
   w\<lparr>jw_requests := \<lparr>rq_method = ''POST'', rq_url = ''https://nest.x/api/invites/claim'',
     rq_body = Some (claim_body ''abc'' receipt), rq_authorization = Some ''Nostr e''\<rparr> # jw_requests w\<rparr>)"
  by (simp add: claim_invite_code_def io_defs nest_api_host api_url_def gated_post Let_def)
    (auto simp: gated_client_def claim_body_def classify_claim_response_def read_body_def split: option.splits)

lemma gated_policy_read: "get_join_policy gated_client ''wss://nest.x/'' w =
  (Inr (Some \<lparr>jp_version = ''v1'', jp_age_required = True, jp_terms = None, jp_privacy = None\<rparr>),
   w\<lparr>jw_requests := \<lparr>rq_method = ''GET'', rq_url = ''https://nest.x/api/join-policy'', rq_body = None,
     rq_authorization = None\<rparr> # jw_requests w\<rparr>)"
  by (simp add: get_join_policy_def io_defs nest_api_host api_url_def send_request_def gated_client_def idle_env
      policy_of_def gated_policy_def json_field_def falsy_def string_field_def)

lemma gated_accept: "accept_join_policy gated_client now ''wss://nest.x/'' ''abc'' version age key w =
  (Inr (Inr ''r1''), w\<lparr>jw_requests := \<lparr>rq_method = ''POST'', rq_url = ''https://nest.x/api/invites/accept-policy'',
     rq_body = Some (accept_body age ''abc'' version), rq_authorization = Some ''Nostr e''\<rparr> # jw_requests w\<rparr>)"
  by (simp add: accept_join_policy_def io_defs nest_api_host api_url_def gated_post Let_def)
    (simp add: gated_client_def read_body_def string_field_def json_field_def)

lemma gated_join: "fst (join_community gated_client 5 ''wss://nest.x/'' ''abc'' [1] False idle_join) = Inr Terms_required"
  "length (jw_requests (snd (join_community gated_client 5 ''wss://nest.x/'' ''abc'' [1] True idle_join))) = 4"
  by (simp_all add: join_community_def join_with_policy_def accept_and_claim_def call_then_def gated_claim
      gated_policy_read gated_accept io_return_def is_join_policy_required_def json_field_def finish_join_def
      notify_joined_def io_put_def idle_join_def)

theorem terms_need_consent_witness:
  "fst (join_community gated_client 5 ''wss://nest.x/'' ''abc'' [1] False idle_join) = Inr Terms_required \<and>
   length (jw_requests (snd (join_community gated_client 5 ''wss://nest.x/'' ''abc'' [1] False idle_join))) \<le> 1 \<and>
   length (jw_requests (snd (join_community gated_client 5 ''wss://nest.x/'' ''abc'' [1] True idle_join))) = 4"
proof -
  obtain new where new: "jw_requests (snd (join_community gated_client 5 ''wss://nest.x/'' ''abc'' [1] False idle_join)) =
      new @ jw_requests idle_join" "map sent (rev new) = take (length new) [claim_step ''nest.x'' ''abc'' None]"
    using terms_need_consent [OF nest_api_host, of gated_client 5 "''abc''" "[1]" False idle_join] by auto
  have "length new \<le> 1" using arg_cong [OF new(2), of length] by simp
  with new(1) gated_join show ?thesis by (simp add: idle_join_def)
qed

end
