(* ===== verification/Relay_Icons.thy ===== *)
theory Relay_Icons
  imports Relay_Info
begin

text \<open>
  src/discovery/nip11.ts (icons) and image-types.ts: the icon of a relay's information
  document, a data URI, and an uploaded logo.  Base64 decoding and SHA-256 are
  parameters.
\<close>

section \<open>Images\<close>

definition max_public_icon_bytes :: nat where
  "max_public_icon_bytes = 256 * 1024"

definition image_content_types :: "string list" where
  "image_content_types = [''image/gif'', ''image/jpeg'', ''image/png'', ''image/webp'']"

definition is_image_content_type :: "string \<Rightarrow> bool" where
  "is_image_content_type t \<longleftrightarrow> t \<in> set image_content_types"

record icon =
  ic_type :: string
  ic_bytes :: "nat list"
  ic_hash :: string

text \<open>\<open>toString("ascii")\<close> clears the top bit of each byte.\<close>

definition ascii_text :: "nat list \<Rightarrow> string" where
  "ascii_text bs = map (\<lambda>b. char_of (b mod 128)) bs"

definition has_expected_image_signature :: "string \<Rightarrow> nat list \<Rightarrow> bool" where
  "has_expected_image_signature t bs \<longleftrightarrow>
     (if t = ''image/gif'' then ascii_text (take 6 bs) \<in> {''GIF87a'', ''GIF89a''}
      else if t = ''image/jpeg'' then take 3 bs = [0xff, 0xd8, 0xff]
      else if t = ''image/png'' then take 8 bs = [0x89, 0x50, 0x4e, 0x47, 0x0d, 0x0a, 0x1a, 0x0a]
      else t = ''image/webp'' \<and> ascii_text (take 4 bs) = ''RIFF'' \<and>
        ascii_text (take 4 (drop 8 bs)) = ''WEBP'')"

definition checked_icon :: "(nat list \<Rightarrow> string) \<Rightarrow> string \<Rightarrow> nat list \<Rightarrow> icon option" where
  "checked_icon sha256 t bs =
     (if bs = [] \<or> length bs > max_public_icon_bytes \<or> \<not> has_expected_image_signature t bs then None
      else Some \<lparr>ic_type = t, ic_bytes = bs, ic_hash = sha256 bs\<rparr>)"

section \<open>Data URIs\<close>

definition base64_char :: "char \<Rightarrow> bool" where
  "base64_char c \<longleftrightarrow> is_upper c \<or> is_lower c \<or> is_digit c \<or> c = CHR ''+'' \<or> c = CHR ''/''"

definition data_prefix :: "string \<Rightarrow> string" where
  "data_prefix t = ''data:'' @ t @ '';base64,''"

text \<open>The type and the payload of a data URI: the match of the regular expression.\<close>

definition data_uri_match :: "string \<Rightarrow> (string \<times> string) option" where
  "data_uri_match s =
     (case find (\<lambda>t. to_lower (take (length (data_prefix t)) s) = data_prefix t) image_content_types of
        None \<Rightarrow> None
      | Some t \<Rightarrow>
          (let payload = drop (length (data_prefix t)) s in
           if takeWhile base64_char payload \<noteq> [] \<and>
              dropWhile base64_char payload \<in> {[], ''='', ''==''}
           then Some (t, payload) else None))"

definition parse_public_icon_data_uri ::
  "(string \<Rightarrow> nat list) \<Rightarrow> (nat list \<Rightarrow> string) \<Rightarrow> string option \<Rightarrow> icon option" where
  "parse_public_icon_data_uri decode sha256 icon =
     (case Option.bind icon data_uri_match of
        None \<Rightarrow> None
      | Some (t, payload) \<Rightarrow>
          if length payload mod 4 = 1 then None else checked_icon sha256 t (decode payload))"

definition parse_uploaded_icon ::
  "(nat list \<Rightarrow> string) \<Rightarrow> nat list \<Rightarrow> string \<Rightarrow> icon option" where
  "parse_uploaded_icon sha256 bs declared =
     (let t = trim (to_lower declared) in
      if \<not> is_image_content_type t then None else checked_icon sha256 t bs)"

section \<open>What is accepted\<close>

text \<open>The checks of the table community_icons but for the form of the hash.\<close>

definition icon_check :: "icon \<Rightarrow> bool" where
  "icon_check i \<longleftrightarrow> ic_type i \<in> set image_content_types \<and> 1 \<le> length (ic_bytes i) \<and>
     length (ic_bytes i) \<le> 262144"

lemma checked_icon_ok:
  assumes "checked_icon sha256 t bs = Some i" "is_image_content_type t"
  shows "icon_check i \<and> has_expected_image_signature (ic_type i) (ic_bytes i) \<and>
    ic_hash i = sha256 (ic_bytes i)"
  using assms
  by (cases bs) (auto simp: checked_icon_def icon_check_def is_image_content_type_def max_public_icon_bytes_def
      split: if_splits)

lemma data_uri_match_type: "data_uri_match s = Some (t, payload) \<Longrightarrow> is_image_content_type t"
  by (auto simp: data_uri_match_def is_image_content_type_def Let_def dest: find_Some_set
      split: option.splits if_splits)

lemma parsed_icon_ok:
  assumes "parse_public_icon_data_uri decode sha256 icon = Some i"
  shows "icon_check i \<and> has_expected_image_signature (ic_type i) (ic_bytes i) \<and>
    ic_hash i = sha256 (ic_bytes i)"
proof -
  obtain t payload where "Option.bind icon data_uri_match = Some (t, payload)"
    "checked_icon sha256 t (decode payload) = Some i"
    using assms by (auto simp: parse_public_icon_data_uri_def split: option.splits if_splits)
  then show ?thesis using checked_icon_ok data_uri_match_type by (cases icon) auto
qed

lemma uploaded_icon_ok:
  assumes "parse_uploaded_icon sha256 bs declared = Some i"
  shows "icon_check i \<and> has_expected_image_signature (ic_type i) (ic_bytes i) \<and>
    ic_hash i = sha256 (ic_bytes i)"
  using assms checked_icon_ok by (auto simp: parse_uploaded_icon_def Let_def split: if_splits)

end
