(* ===== verification/Nostr_Auth.thy ===== *)
theory Nostr_Auth
  imports Guards Relay_Icons
begin

text \<open>
  src/http/nostr-auth.ts: authenticating a request by a signed NIP-98 event that is
  used once.  Base64 and UTF-8 decoding, \<open>JSON.parse\<close>, SHA-256, \<open>verifyEvent\<close> of
  nostr-tools and the URL parser are parameters; the table nostr_auth_events is the
  state.
\<close>

section \<open>State and parameters\<close>

record auth_event =
  ae_id :: string
  ae_pubkey :: string
  ae_sig :: string
  ae_created :: int
  ae_kind :: int
  ae_content :: string
  ae_tags :: "string list list"

text \<open>\<open>ac_decode\<close> is \<open>Buffer.from(s, "base64").toString("utf8")\<close>; \<open>ac_utf8\<close> the fatal
  UTF-8 decoder; \<open>ac_verify\<close> is None when \<open>verifyEvent\<close> throws; \<open>ac_resolve path origin\<close> is
  \<open>new URL(path, origin).toString()\<close>.\<close>

record auth_config =
  ac_web :: web
  ac_origin :: "string option"
  ac_resolve :: "string \<Rightarrow> url \<Rightarrow> string option"
  ac_decode :: "string \<Rightarrow> string"
  ac_utf8 :: "nat list \<Rightarrow> string option"
  ac_parse :: "string \<Rightarrow> json option"
  ac_sha256 :: "string \<Rightarrow> string"
  ac_verify :: "auth_event \<Rightarrow> bool option"

record used_event =
  us_id :: string
  us_pubkey :: string
  us_url :: string
  us_method :: string
  us_created :: int
  us_used_at :: time

record identity =
  id_created :: int
  id_event :: string
  id_pubkey :: string

section \<open>The event in the header\<close>

definition invalid_authentication :: err where
  "invalid_authentication = Api ''authentication_invalid'' 401"

definition auth_event_bytes :: nat where
  "auth_event_bytes = 16 * 1024"

text \<open>\<open>/^[A-Za-z0-9+/]*={0,2}$/\<close>\<close>

definition base64_syntax :: "string \<Rightarrow> bool" where
  "base64_syntax s \<longleftrightarrow> dropWhile base64_char s \<in> {[], ''='', ''==''}"

definition json_string :: "json option \<Rightarrow> string option" where
  "json_string v = (case v of Some (JStr s) \<Rightarrow> Some s | _ \<Rightarrow> None)"

definition json_int :: "json option \<Rightarrow> int option" where
  "json_int v = (case v of Some (JInt n) \<Rightarrow> Some n | _ \<Rightarrow> None)"

definition tag_of_json :: "json \<Rightarrow> string list option" where
  "tag_of_json v = (case v of
     JArr es \<Rightarrow> if 2 \<le> length es \<and> length es \<le> 4 \<and> list_all (\<lambda>e. json_string (Some e) \<noteq> None) es
       then Some (map (\<lambda>e. the (json_string (Some e))) es) else None
   | _ \<Rightarrow> None)"

definition tags_of_json :: "json option \<Rightarrow> string list list option" where
  "tags_of_json v = (case v of
     Some (JArr ts) \<Rightarrow> if length ts \<le> 20 \<and> list_all (\<lambda>t. tag_of_json t \<noteq> None) ts
       then Some (map (the \<circ> tag_of_json) ts) else None
   | _ \<Rightarrow> None)"

text \<open>\<open>isEvent\<close>: the event when the value has the shape of one.\<close>

definition event_of_json :: "json \<Rightarrow> auth_event option" where
  "event_of_json v = (case v of
     JObj fs \<Rightarrow>
       (case (json_string (json_field fs ''id''), json_string (json_field fs ''pubkey''),
              json_string (json_field fs ''sig''), json_int (json_field fs ''created_at''),
              json_int (json_field fs ''kind''), json_string (json_field fs ''content''),
              tags_of_json (json_field fs ''tags'')) of
          (Some i, Some p, Some s, Some t, Some k, Some c, Some tags) \<Rightarrow>
            if is_hex_string 64 i \<and> is_hex_string 64 p \<and> is_hex_string 128 s
            then Some \<lparr>ae_id = i, ae_pubkey = p, ae_sig = s, ae_created = t, ae_kind = k,
              ae_content = c, ae_tags = tags\<rparr> else None
        | _ \<Rightarrow> None)
   | _ \<Rightarrow> None)"

definition parse_authorization_event :: "auth_config \<Rightarrow> string option \<Rightarrow> auth_event res" where
  "parse_authorization_event ac authorization = (case authorization of
     None \<Rightarrow> Inl (Api ''authentication_required'' 401)
   | Some a \<Rightarrow>
       if take 6 a \<noteq> ''Nostr '' then Inl (Api ''authentication_required'' 401)
       else let encoded = drop 6 a; decoded = ac_decode ac encoded in
         if encoded = [] \<or> length encoded > auth_event_bytes * 2 \<or> \<not> base64_syntax encoded
         then Inl invalid_authentication
         else if utf8_length decoded > auth_event_bytes then Inl invalid_authentication
         else case Option.bind (ac_parse ac decoded) event_of_json of
           None \<Rightarrow> Inl invalid_authentication | Some ev \<Rightarrow> Inr ev)"

section \<open>Verifying and using it\<close>

definition auth_tag :: "auth_event \<Rightarrow> string \<Rightarrow> string option" where
  "auth_tag ev name = (case filter (\<lambda>t. hd t = name) (ae_tags ev) of [t] \<Rightarrow> Some (t ! 1) | _ \<Rightarrow> None)"

definition auth_window :: int where
  "auth_window = 60"

text \<open>\<open>toUpperCase\<close> of an HTTP method, whose letters are ASCII.\<close>

definition to_upper :: "string \<Rightarrow> string" where
  "to_upper s = map (\<lambda>c. if is_lower c then char_of ((of_char c :: nat) - 32) else c) s"

definition verify_nip98_authorization ::
  "auth_config \<Rightarrow> string option \<Rightarrow> string \<Rightarrow> string \<Rightarrow> string \<Rightarrow> int \<Rightarrow> identity res" where
  "verify_nip98_authorization ac authorization url verb body now_s =
     (case parse_authorization_event ac authorization of
        Inl e \<Rightarrow> Inl e
      | Inr ev \<Rightarrow>
          if ae_kind ev \<noteq> 27235 \<or> ae_content ev \<noteq> [] \<or> \<bar>now_s - ae_created ev\<bar> > auth_window \<or>
             ac_verify ac ev \<noteq> Some True
          then Inl invalid_authentication
          else if auth_tag ev ''u'' \<noteq> Some url \<or> auth_tag ev ''method'' \<noteq> Some (to_upper verb)
          then Inl invalid_authentication
          else if body \<noteq> [] \<and> auth_tag ev ''payload'' \<noteq> Some (ac_sha256 ac body)
          then Inl invalid_authentication
          else Inr \<lparr>id_created = ae_created ev, id_event = ae_id ev, id_pubkey = ae_pubkey ev\<rparr>)"

text \<open>
  One statement: the row goes in unless its id is taken, and rows used more than 15
  minutes ago go.
\<close>

definition consume_nip98_event ::
  "time \<Rightarrow> identity \<Rightarrow> string \<Rightarrow> string \<Rightarrow> used_event list \<Rightarrow> unit res \<times> used_event list" where
  "consume_nip98_event now i url verb rows =
     (let fresh = filter (\<lambda>r. \<not> us_used_at r < now - seconds (15 * 60)) rows in
      if has_row (\<lambda>r. us_id r = id_event i) rows
      then (Inl (Api ''authentication_replayed'' 401), fresh)
      else (Inr (), fresh @ [\<lparr>us_id = id_event i, us_pubkey = id_pubkey i, us_url = url,
              us_method = to_upper verb, us_created = id_created i, us_used_at = now\<rparr>]))"

section \<open>Requests\<close>

definition loopback_http :: "url \<Rightarrow> bool" where
  "loopback_http u \<longleftrightarrow> u_protocol u = ''http:'' \<and>
     u_hostname u \<in> {''127.0.0.1'', ''localhost'', ''[::1]''}"

definition canonical_request_url :: "auth_config \<Rightarrow> string \<Rightarrow> string res" where
  "canonical_request_url ac path = (case ac_origin ac of
     None \<Rightarrow> Inl Raw
   | Some configured \<Rightarrow>
       if configured = [] then Inl Raw
       else (case parse_url (ac_web ac) configured of
         None \<Rightarrow> Inl Raw
       | Some u \<Rightarrow>
           if u_username u \<noteq> [] \<or> u_password u \<noteq> [] \<or> u_pathname u \<noteq> ''/'' \<or>
              \<not> absent (u_query u) \<or> \<not> absent (u_fragment u) \<or>
              u_protocol u \<noteq> ''https:'' \<and> \<not> loopback_http u
           then Inl Raw
           else case ac_resolve ac path u of None \<Rightarrow> Inl Raw | Some url \<Rightarrow> Inr url))"

text \<open>\<open>pathname + search\<close>, the method, the authorization header, the body's declared
  length and its chunks (None: no body).\<close>

record http_request =
  hr_path :: string
  hr_method :: string
  hr_authorization :: "string option"
  hr_length :: "string option"
  hr_body :: "nat list list option"

definition max_body :: nat where
  "max_body = 16 * 1024"

definition decimal :: "string \<Rightarrow> nat" where
  "decimal s = foldl (\<lambda>n c. 10 * n + (of_char c - 48)) 0 s"

fun read_chunks :: "nat list list \<Rightarrow> nat list \<Rightarrow> nat list option" where
  "read_chunks [] body = Some body"
| "read_chunks (c # cs) body =
     (if length body + length c > max_body then None else read_chunks cs (body @ c))"

definition read_bounded_body :: "auth_config \<Rightarrow> http_request \<Rightarrow> string res" where
  "read_bounded_body ac rq =
     (if (case hr_length rq of None \<Rightarrow> False | Some l \<Rightarrow>
            l \<noteq> [] \<and> (\<not> list_all is_digit l \<or> decimal l > max_body))
      then Inl (Api ''invalid_input'' 413)
      else case hr_body rq of
        None \<Rightarrow> Inl (Api ''invalid_input'' 400)
      | Some chunks \<Rightarrow> (case read_chunks chunks [] of
          None \<Rightarrow> Inl (Api ''invalid_input'' 413)
        | Some bytes \<Rightarrow> (case ac_utf8 ac bytes of
            None \<Rightarrow> Inl (Api ''invalid_input'' 400) | Some s \<Rightarrow> Inr s)))"

text \<open>Verifying and consuming, at the clock \<open>ms\<close> (milliseconds).\<close>

definition authorize :: "auth_config \<Rightarrow> int \<Rightarrow> http_request \<Rightarrow> string \<Rightarrow> used_event list \<Rightarrow>
    identity res \<times> used_event list" where
  "authorize ac ms rq body rows =
     (case canonical_request_url ac (hr_path rq) of
        Inl e \<Rightarrow> (Inl e, rows)
      | Inr url \<Rightarrow>
          (case verify_nip98_authorization ac (hr_authorization rq) url (hr_method rq) body (ms div 1000) of
             Inl e \<Rightarrow> (Inl e, rows)
           | Inr i \<Rightarrow> (case consume_nip98_event (1000 * ms) i url (hr_method rq) rows of
               (Inl e, rows') \<Rightarrow> (Inl e, rows') | (Inr _, rows') \<Rightarrow> (Inr i, rows'))))"

definition authenticate_request :: "auth_config \<Rightarrow> int \<Rightarrow> http_request \<Rightarrow> used_event list \<Rightarrow>
    identity res \<times> used_event list" where
  "authenticate_request ac ms rq rows = authorize ac ms rq [] rows"

definition authenticate_json_request :: "auth_config \<Rightarrow> int \<Rightarrow> http_request \<Rightarrow> used_event list \<Rightarrow>
    (string \<times> string \<times> json) res \<times> used_event list" where
  "authenticate_json_request ac ms rq rows =
     (case read_bounded_body ac rq of
        Inl e \<Rightarrow> (Inl e, rows)
      | Inr body \<Rightarrow>
          (case ac_parse ac body of
             None \<Rightarrow> (Inl (Api ''invalid_input'' 400), rows)
           | Some v \<Rightarrow> (case authorize ac ms rq body rows of
               (Inl e, rows') \<Rightarrow> (Inl e, rows')
             | (Inr i, rows') \<Rightarrow> (Inr (id_pubkey i, body, v), rows'))))"

section \<open>An event is used once\<close>

text \<open>The ids accepted over a sequence of requests, each with its time and body.\<close>

fun accepted_events :: "auth_config \<Rightarrow> (int \<times> http_request \<times> string) list \<Rightarrow> used_event list \<Rightarrow> string list" where
  "accepted_events ac [] rows = []"
| "accepted_events ac ((ms, rq, body) # rest) rows =
     (case authorize ac ms rq body rows of
        (Inl e, rows') \<Rightarrow> accepted_events ac rest rows'
      | (Inr i, rows') \<Rightarrow> id_event i # accepted_events ac rest rows')"

definition event_id_binds :: "auth_config \<Rightarrow> bool" where
  "event_id_binds ac \<longleftrightarrow> (\<forall>e f. ac_verify ac e = Some True \<longrightarrow> ac_verify ac f = Some True \<longrightarrow>
     ae_id e = ae_id f \<longrightarrow> ae_created e = ae_created f)"

text \<open>The event \<open>i\<close>, created at \<open>t\<close>, is remembered or out of its window for good.\<close>

definition spent :: "string \<Rightarrow> int \<Rightarrow> int \<Rightarrow> used_event list \<Rightarrow> bool" where
  "spent i t ms rows \<longleftrightarrow> ms div 1000 > t + auth_window \<or>
     (\<exists>r \<in> set rows. us_id r = i \<and> us_used_at r \<ge> seconds (t - auth_window))"

definition accepted_with :: "auth_config \<Rightarrow> int \<Rightarrow> http_request \<Rightarrow> string \<Rightarrow> identity \<Rightarrow> auth_event \<Rightarrow> string \<Rightarrow> bool" where
  "accepted_with ac ms rq body i ev url \<longleftrightarrow>
     parse_authorization_event ac (hr_authorization rq) = Inr ev \<and>
     canonical_request_url ac (hr_path rq) = Inr url \<and> ac_verify ac ev = Some True \<and>
     ae_id ev = id_event i \<and> ae_pubkey ev = id_pubkey i \<and> ae_created ev = id_created i \<and>
     ae_kind ev = 27235 \<and> \<bar>ms div 1000 - ae_created ev\<bar> \<le> auth_window \<and>
     auth_tag ev ''u'' = Some url \<and> auth_tag ev ''method'' = Some (to_upper (hr_method rq)) \<and>
     (body \<noteq> [] \<longrightarrow> auth_tag ev ''payload'' = Some (ac_sha256 ac body))"

lemma accepted_withD:
  assumes "accepted_with ac ms rq body i ev url"
  shows "ac_verify ac ev = Some True" "ae_id ev = id_event i"
    "\<bar>ms div 1000 - ae_created ev\<bar> \<le> auth_window"
  using assms unfolding accepted_with_def by - (elim conjE, assumption)+

lemma authorize_Inr:
  assumes "authorize ac ms rq body rows = (Inr i, rows')"
  shows "(\<exists>ev url. accepted_with ac ms rq body i ev url) \<and> \<not> has_row (\<lambda>r. us_id r = id_event i) rows \<and>
    (\<exists>r \<in> set rows'. us_id r = id_event i \<and> us_used_at r = 1000 * ms)"
proof -
  obtain url where url: "canonical_request_url ac (hr_path rq) = Inr url"
    and v: "verify_nip98_authorization ac (hr_authorization rq) url (hr_method rq) body (ms div 1000) = Inr i"
    and c: "consume_nip98_event (1000 * ms) i url (hr_method rq) rows = (Inr (), rows')"
    using assms by (auto simp: authorize_def split: sum.splits prod.splits)
  from v obtain ev where "parse_authorization_event ac (hr_authorization rq) = Inr ev"
    "ac_verify ac ev = Some True" "i = \<lparr>id_created = ae_created ev, id_event = ae_id ev, id_pubkey = ae_pubkey ev\<rparr>"
    "ae_kind ev = 27235" "\<bar>ms div 1000 - ae_created ev\<bar> \<le> auth_window"
    "auth_tag ev ''u'' = Some url" "auth_tag ev ''method'' = Some (to_upper (hr_method rq))"
    "body \<noteq> [] \<longrightarrow> auth_tag ev ''payload'' = Some (ac_sha256 ac body)"
    by (auto simp: verify_nip98_authorization_def split: sum.splits if_splits)
  moreover have "\<not> has_row (\<lambda>r. us_id r = id_event i) rows \<and>
      (\<exists>r \<in> set rows'. us_id r = id_event i \<and> us_used_at r = 1000 * ms)"
    using c by (auto simp: consume_nip98_event_def Let_def split: if_splits)
  ultimately show ?thesis using url by (auto simp: accepted_with_def)
qed

lemma spent_later:
  assumes "spent i t ms rows" "ms \<le> ms'" "authorize ac ms' rq body rows = (r, rows')"
  shows "spent i t ms' rows'"
proof (cases "ms' div 1000 > t + auth_window")
  case True
  then show ?thesis by (simp add: spent_def)
next
  case False
  have "ms div 1000 \<le> ms' div 1000" using assms(2) by (rule zdiv_mono1) simp
  with False assms(1) obtain x where x: "x \<in> set rows" "us_id x = i" "us_used_at x \<ge> seconds (t - auth_window)"
    by (auto simp: spent_def)
  have "1000 * ms' < seconds (t + auth_window + 1)"
    using False by (simp add: seconds_def)
  then have "\<not> us_used_at x < 1000 * ms' - seconds (15 * 60)"
    using x(3) by (simp add: seconds_def auth_window_def)
  with x have "x \<in> set rows'"
    using assms(3)
    by (auto simp: authorize_def consume_nip98_event_def Let_def split: sum.splits prod.splits if_splits)
  with x show ?thesis by (auto simp: spent_def)
qed

lemma spent_not_accepted:
  assumes bind: "event_id_binds ac" and spent: "spent (ae_id ev) (ae_created ev) ms rows" "ac_verify ac ev = Some True"
    and later: "sorted (ms # map fst rs)"
  shows "ae_id ev \<notin> set (accepted_events ac rs rows)"
  using spent(1) later
proof (induction rs arbitrary: ms rows)
  case (Cons q rs)
  obtain ms' rq body where q: "q = (ms', rq, body)" by (cases q) auto
  obtain r rows' where run: "authorize ac ms' rq body rows = (r, rows')" by fastforce
  have le: "ms \<le> ms'" "sorted (ms' # map fst rs)" using Cons.prems(2) q by auto
  have rest: "ae_id ev \<notin> set (accepted_events ac rs rows')"
    using Cons.IH [OF spent_later [OF Cons.prems(1) le(1) run] le(2)] .
  have "id_event i \<noteq> ae_id ev" if accepted: "r = Inr i" for i
  proof
    assume same: "id_event i = ae_id ev"
    have "authorize ac ms' rq body rows = (Inr i, rows')" using run accepted by simp
    from authorize_Inr [OF this] obtain f url where found: "accepted_with ac ms' rq body i f url"
      "\<not> has_row (\<lambda>r. us_id r = id_event i) rows" by blast
    note f = accepted_withD [OF found(1)]
    have "ae_created f = ae_created ev"
      using bind spent(2) f(1) f(2) same unfolding event_id_binds_def by metis
    moreover have "ms div 1000 \<le> ms' div 1000" using le(1) by (rule zdiv_mono1) simp
    ultimately have "\<not> ms div 1000 > ae_created ev + auth_window" using f(3) by linarith
    with Cons.prems(1) obtain x where "x \<in> set rows" "us_id x = ae_id ev" unfolding spent_def by blast
    with found(2) same show False by (auto simp: has_row_iff)
  qed
  with rest run q show ?case by (cases r) auto
qed simp

section \<open>Properties\<close>

text \<open>
  C26. An authorization event opens one request: over any sequence of requests, in the
  order of their times, no event is accepted twice.  The table forgets an event
  15 minutes after its use, when it has been outside the one-minute window for long.
\<close>

theorem authorization_is_used_once:
  assumes bind: "event_id_binds ac" and sorted: "sorted (map fst rs)"
  shows "distinct (accepted_events ac rs rows)"
  using sorted
proof (induction rs arbitrary: rows)
  case (Cons q rs)
  obtain ms rq body where q: "q = (ms, rq, body)" by (cases q) auto
  obtain r rows' where run: "authorize ac ms rq body rows = (r, rows')" by fastforce
  show ?case
  proof (cases r)
    case (Inl e)
    with Cons run q show ?thesis by simp
  next
    case (Inr i)
    have "authorize ac ms rq body rows = (Inr i, rows')" using run Inr by simp
    from authorize_Inr [OF this] obtain ev url x where found: "accepted_with ac ms rq body i ev url"
      and x: "x \<in> set rows'" "us_id x = id_event i" "us_used_at x = 1000 * ms" by blast
    then have ev: "ac_verify ac ev = Some True" "ae_id ev = id_event i"
      "\<bar>ms div 1000 - ae_created ev\<bar> \<le> auth_window"
      by (auto dest: accepted_withD)
    have "1000 * ms \<ge> seconds (ae_created ev - auth_window)"
      using ev(3) by (simp add: seconds_def)
    then have "spent (ae_id ev) (ae_created ev) ms rows'" using x ev(2) by (auto simp: spent_def)
    from spent_not_accepted [OF bind this ev(1)] Cons.prems q
    have "id_event i \<notin> set (accepted_events ac rs rows')" by (simp add: ev(2))
    with Cons run q Inr show ?thesis by simp
  qed
qed simp

text \<open>
  C27. What is accepted was signed for this request: the identity returned is the key
  of a verified event of the last or next minute that names exactly this URL of the
  configured origin and this method, and the digest of this body when there is one.
\<close>

theorem identity_signed_this_request:
  assumes "authenticate_json_request ac ms rq rows = (Inr (pubkey, body, v), rows')"
  shows "\<exists>ev url. parse_authorization_event ac (hr_authorization rq) = Inr ev \<and>
    ac_verify ac ev = Some True \<and> ae_pubkey ev = pubkey \<and> \<bar>ms div 1000 - ae_created ev\<bar> \<le> 60 \<and>
    canonical_request_url ac (hr_path rq) = Inr url \<and> auth_tag ev ''u'' = Some url \<and>
    auth_tag ev ''method'' = Some (to_upper (hr_method rq)) \<and>
    (body \<noteq> [] \<longrightarrow> auth_tag ev ''payload'' = Some (ac_sha256 ac body)) \<and> ac_parse ac body = Some v"
proof -
  obtain i where run: "authorize ac ms rq body rows = (Inr i, rows')" and i: "pubkey = id_pubkey i"
    and v: "ac_parse ac body = Some v"
    using assms by (auto simp: authenticate_json_request_def split: sum.splits option.splits prod.splits)
  from authorize_Inr [OF run] v i show ?thesis by (auto simp: accepted_with_def auth_window_def)
qed

section \<open>Witnesses\<close>

definition signed_event :: auth_event where
  "signed_event = \<lparr>ae_id = replicate 64 (CHR ''a''), ae_pubkey = replicate 64 (CHR ''b''),
     ae_sig = replicate 128 (CHR ''c''), ae_created = 1000, ae_kind = 27235, ae_content = [],
     ae_tags = [[''u'', ''https://b.com/x''], [''method'', ''POST''], [''payload'', ''data'']]\<rparr>"

definition signed_json :: json where
  "signed_json = JObj [(''id'', JStr (ae_id signed_event)), (''pubkey'', JStr (ae_pubkey signed_event)),
     (''sig'', JStr (ae_sig signed_event)), (''created_at'', JInt 1000), (''kind'', JInt 27235),
     (''content'', JStr []), (''tags'', JArr (map (\<lambda>t. JArr (map JStr t)) (ae_tags signed_event)))]"

definition sample_auth :: auth_config where
  "sample_auth = \<lparr>
     ac_web = \<lparr>parse_url = (\<lambda>s. Some \<lparr>u_protocol = ''https:'', u_username = [], u_password = [],
         u_hostname = ''b.com'', u_port = None, u_pathname = ''/'', u_query = None, u_fragment = None\<rparr>),
       domain_to_ascii = (\<lambda>s. s), ip_version = (\<lambda>s. 0)\<rparr>,
     ac_origin = Some ''https://b.com'', ac_resolve = (\<lambda>p u. Some (''https://b.com'' @ p)),
     ac_decode = (\<lambda>s. s), ac_utf8 = (\<lambda>b. Some ''data''),
     ac_parse = (\<lambda>s. Some (if s = ''event'' then signed_json else JNull)), ac_sha256 = (\<lambda>s. s),
     ac_verify = (\<lambda>e. Some (e = signed_event))\<rparr>"

definition signed_request :: http_request where
  "signed_request = \<lparr>hr_path = ''/x'', hr_method = ''post'', hr_authorization = Some ''Nostr event'',
     hr_length = Some ''4'', hr_body = Some [[100, 97], [116, 97]]\<rparr>"

lemma sample_binds: "event_id_binds sample_auth"
  by (simp add: event_id_binds_def sample_auth_def)

lemma signed_parse: "parse_authorization_event sample_auth (hr_authorization signed_request) = Inr signed_event"
proof -
  have hex: "is_hex_string 64 (ae_id signed_event)" "is_hex_string 64 (ae_pubkey signed_event)"
    "is_hex_string 128 (ae_sig signed_event)"
    unfolding signed_event_def auth_event.simps by code_simp+
  have tags: "tags_of_json (Some (JArr (map (\<lambda>t. JArr (map JStr t)) (ae_tags signed_event)))) =
      Some (ae_tags signed_event)"
    by (simp add: signed_event_def tags_of_json_def tag_of_json_def json_string_def)
  have "event_of_json signed_json = Some signed_event"
    unfolding event_of_json_def signed_json_def
    by (simp add: json_field_def json_string_def json_int_def tags hex)
      (simp add: signed_event_def)
  moreover have "base64_syntax ''event''" by code_simp
  ultimately show ?thesis
    by (simp add: parse_authorization_event_def signed_request_def sample_auth_def auth_event_bytes_def)
qed

lemma signed_authorize: "ms div 1000 = 1000 \<Longrightarrow> authorize sample_auth ms signed_request ''data'' rows =
  (let i = \<lparr>id_created = 1000, id_event = ae_id signed_event, id_pubkey = ae_pubkey signed_event\<rparr>
   in case consume_nip98_event (1000 * ms) i ''https://b.com/x'' ''post'' rows of
     (Inl e, rows') \<Rightarrow> (Inl e, rows') | (Inr _, rows') \<Rightarrow> (Inr i, rows'))"
proof -
  have url: "canonical_request_url sample_auth (hr_path signed_request) = Inr ''https://b.com/x''"
    by (simp add: canonical_request_url_def sample_auth_def signed_request_def absent_def)
  have "to_upper ''post'' = ''POST''" by code_simp
  moreover have "ac_verify sample_auth signed_event = Some True" "ac_sha256 sample_auth ''data'' = ''data''"
    by (simp_all add: sample_auth_def)
  moreover assume "ms div 1000 = 1000"
  ultimately have "verify_nip98_authorization sample_auth (hr_authorization signed_request) ''https://b.com/x''
      ''post'' ''data'' (ms div 1000) =
    Inr \<lparr>id_created = 1000, id_event = ae_id signed_event, id_pubkey = ae_pubkey signed_event\<rparr>"
    by (simp add: verify_nip98_authorization_def signed_parse auth_window_def)
      (simp add: signed_event_def auth_tag_def)
  moreover have "hr_method signed_request = ''post''" by (simp add: signed_request_def)
  ultimately show ?thesis by (simp add: authorize_def url Let_def)
qed

theorem authorization_is_used_once_witness:
  "distinct (accepted_events sample_auth
     [(1000000, signed_request, ''data''), (1000500, signed_request, ''data'')] []) \<and>
   accepted_events sample_auth
     [(1000000, signed_request, ''data''), (1000500, signed_request, ''data'')] [] = [ae_id signed_event]"
  using authorization_is_used_once [OF sample_binds,
      of "[(1000000, signed_request, ''data''), (1000500, signed_request, ''data'')]" "[]"]
  by (simp add: signed_authorize consume_nip98_event_def Let_def seconds_def)

theorem identity_signed_this_request_witness:
  "fst (authenticate_json_request sample_auth 1000000 signed_request []) =
     Inr (ae_pubkey signed_event, ''data'', JNull) \<and>
   auth_tag signed_event ''payload'' = Some (ac_sha256 sample_auth ''data'')"
proof -
  have "read_bounded_body sample_auth signed_request = Inr ''data''"
    by (simp add: read_bounded_body_def signed_request_def sample_auth_def max_body_def decimal_def is_digit_def
        less_eq_char_def)
  moreover have "ac_parse sample_auth ''data'' = Some JNull" by (simp add: sample_auth_def)
  ultimately obtain rows where run: "authenticate_json_request sample_auth 1000000 signed_request [] =
      (Inr (ae_pubkey signed_event, ''data'', JNull), rows)"
    by (simp add: authenticate_json_request_def signed_authorize consume_nip98_event_def Let_def seconds_def)
  then show ?thesis
    using identity_signed_this_request [OF run] signed_parse by auto
qed

end
