(* ===== verification/Peer_Channels.thy ===== *)
theory Peer_Channels
  imports Handoff Hub
begin

text \<open>
  jobs/provision-peer-channels.ts: every participant of the hub gets a channel of its
  own on the home relay, by the journaled handoff and then a dedicated endpoint.
\<close>

section \<open>The pass\<close>

definition dedicated_channel_name :: "uuid \<Rightarrow> string option \<Rightarrow> string" where
  "dedicated_channel_name peer slug =
     (case slug of
        None \<Rightarrow> ''channel-'' @ peer
      | Some s \<Rightarrow> if trim s = [] then ''channel-'' @ peer else ''connect-'' @ trim s)"

definition provision_key :: "uuid \<Rightarrow> string" where
  "provision_key peer = ''hub-dedicated:'' @ peer"

definition peer_channel_request :: "home_endpoint \<Rightarrow> uuid \<Rightarrow> string option \<Rightarrow> create_channel_input" where
  "peer_channel_request home peer slug =
     \<lparr>cc_community = home_community home, cc_owner = home_owner home,
      cc_name = dedicated_channel_name peer slug, cc_key = provision_key peer, cc_members = None\<rparr>"

definition attach_channel ::
  "'e outside \<Rightarrow> home_endpoint \<Rightarrow> uuid \<Rightarrow> uuid \<times> string \<Rightarrow> (('e, 'z) world_scheme, bool) io" where
  "attach_channel out home peer = (\<lambda>(channel, name).
     call_then (ask (out_uuid out)) (\<lambda>fresh.
     in_db out (\<lambda>now. attach_dedicated_peer_channel now fresh home channel name peer)))"

text \<open>True when an endpoint was written.\<close>

definition provision_peer ::
  "'e outside \<Rightarrow> signer \<Rightarrow> cipher \<Rightarrow> (int \<Rightarrow> nat list res) \<Rightarrow> home_endpoint \<Rightarrow> uuid \<Rightarrow>
   (('e, 'z) world_scheme, bool) io" where
  "provision_peer out sign c wrapping_keys home peer =
     call_then (in_db out (\<lambda>_. tx_read (get_community_slug peer))) (\<lambda>slug.
     call_then (create_dedicated_channel out sign c wrapping_keys (peer_channel_request home peer slug))
       (attach_channel out home peer))"

record provision_tally =
  pt_errors :: nat
  pt_provisioned :: nat

definition count_provision :: "bool res \<Rightarrow> provision_tally \<Rightarrow> provision_tally" where
  "count_provision r t = (case r of
     Inl _ \<Rightarrow> t\<lparr>pt_errors := Suc (pt_errors t)\<rparr>
   | Inr written \<Rightarrow> if written then t\<lparr>pt_provisioned := Suc (pt_provisioned t)\<rparr> else t)"

fun provision_each ::
  "'e outside \<Rightarrow> signer \<Rightarrow> cipher \<Rightarrow> (int \<Rightarrow> nat list res) \<Rightarrow> home_endpoint \<Rightarrow> uuid list \<Rightarrow> provision_tally \<Rightarrow>
   (('e, 'z) world_scheme, provision_tally) io" where
  "provision_each out sign c wrapping_keys home [] t = io_return t"
| "provision_each out sign c wrapping_keys home (p # ps) t =
     call_then (io_attempt (provision_peer out sign c wrapping_keys home p)) (\<lambda>r.
     provision_each out sign c wrapping_keys home ps (count_provision r t))"

definition nothing_provisioned :: provision_tally where
  "nothing_provisioned = \<lparr>pt_errors = 0, pt_provisioned = 0\<rparr>"

definition peer_channels_max_per_pass :: nat where
  "peer_channels_max_per_pass = 10"

definition provision_peer_channels ::
  "env \<Rightarrow> 'e outside \<Rightarrow> signer \<Rightarrow> cipher \<Rightarrow> (int \<Rightarrow> nat list res) \<Rightarrow> nat \<Rightarrow>
   (('e, 'z) world_scheme, provision_tally) io" where
  "provision_peer_channels v out sign c wrapping_keys limit =
     call_then (in_db out (\<lambda>_. tx_read (get_hub_home_endpoint v))) (\<lambda>home.
     case home of
       None \<Rightarrow> io_return nothing_provisioned
     | Some h \<Rightarrow>
         call_then (in_db out (\<lambda>_. tx_read (list_hub_peers_missing_channel h limit))) (\<lambda>peers.
         provision_each out sign c wrapping_keys h peers nothing_provisioned))"

section \<open>What a handoff leaves alone\<close>

text \<open>A property of the world that is not about the journal and survives relay traffic.\<close>

locale kept_by_handoffs = kept_by_relay +
  assumes journal: "P w \<Longrightarrow> P (w\<lparr>w_handoffs := hs\<rparr>)"
    and sent: "P w \<Longrightarrow> P (w\<lparr>w_log := Sent url ev # w_log w\<rparr>)"
begin

lemma sent_too: "P w \<Longrightarrow> P (w\<lparr>w_env := e, w_log := Sent url ev # w_log w\<rparr>)"
  using sent [OF env [of w e], of url ev] by simp

lemma publish_keeps: "leads P (publish_template out sign key url t) P (\<lambda>_. P)"
  by (rule leads_weaken [OF publish_template_leads]) (auto intro: sent_too)

lemma ask_keeps: "leads P (ask f) P (\<lambda>_. P)"
  by (rule leads_ask) (simp add: env)

lemma query_keeps: "leads P m P (\<lambda>_. P) \<Longrightarrow> leads P (pool_query out m) P (\<lambda>_. P)"
  by (rule leads_pool_query) (auto intro: env)

lemma write_keeps: "leads P (pool_query out (io_put (\<lambda>w. w\<lparr>w_handoffs := f w\<rparr>))) P (\<lambda>_. P)"
  by (rule query_keeps) (auto intro: leads_put journal)

lemma read_keeps: "leads P (pool_query out (io_get f)) P (\<lambda>_. P)"
  by (rule query_keeps) (auto intro: leads_get)

lemma pure_keeps: "leads P (io_return a) P (\<lambda>_. P)" "leads P (io_throw e) P (\<lambda>_. P)"
  "leads P (io_res r) P (\<lambda>_. P)"
  by (auto intro: leads_return leads_throw leads_res)

lemma step_keeps: "leads P m P (\<lambda>_. P) \<Longrightarrow> leads P (run_step out h code m) P (\<lambda>_. P)"
  unfolding run_step_def record_handoff_error_def
  by (intro leads_catch leads_then [OF write_keeps]) (auto intro: pure_keeps)

lemma handoff_keeps: "leads P (run_handoff out (publish_template out sign key url) bridge h members) P (\<lambda>_. P)"
proof -
  have advance: "leads P (advance_handoff out h a b) P (\<lambda>_. P)" for h a b
    unfolding advance_handoff_def by (intro leads_then [OF write_keeps] pure_keeps)
  have one: "leads P (create_step out (publish_template out sign key url) h) P (\<lambda>_. P)" for h
    unfolding create_step_def by (intro leads_if leads_then [OF step_keeps] publish_keeps advance pure_keeps)
  have two: "leads P (promote_step out (publish_template out sign key url) members h) P (\<lambda>_. P)" for h
    unfolding promote_step_def
    by (intro leads_if leads_then [OF step_keeps] leads_then [OF publish_keeps] leads_each publish_keeps advance pure_keeps)
  have three: "leads P (demote_step out (publish_template out sign key url) bridge h) P (\<lambda>_. P)" for h
    unfolding demote_step_def by (intro leads_if leads_then [OF step_keeps] publish_keeps advance pure_keeps)
  show ?thesis unfolding run_handoff_def
    by (intro leads_then [OF one] leads_then [OF two] leads_then [OF three] pure_keeps)
qed

lemma reserve_keeps: "leads P (reserve_handoff out conn name key requester) P (\<lambda>_. P)"
  unfolding reserve_handoff_def
  by (intro leads_then [OF ask_keeps] query_keeps leadsI)
    (auto simp: Let_def journal split: option.splits if_splits)

lemma resume_keeps: "leads P (resume_channel out sign c keys i name conn existing) P (\<lambda>_. P)"
proof -
  have owner: "leads P (resolve_channel_owner out url bridge) P (\<lambda>_. P)" for url bridge
    unfolding resolve_channel_owner_def
    by (intro leads_then [OF ask_keeps]) (auto intro!: pure_keeps leads_option simp: case_prod_beta)
  have row: "leads P (case existing of Some h \<Rightarrow> io_return h
      | None \<Rightarrow> call_then (resolve_channel_owner out (conn_relay_url conn) (conn_bridge_pubkey conn))
          (reserve_handoff out conn name (cc_key i))) P (\<lambda>_. P)"
    by (cases existing) (auto intro: pure_keeps leads_then [OF owner reserve_keeps])
  have connected: "leads P (case refused of Some e \<Rightarrow> io_throw e | None \<Rightarrow> io_return ()) P (\<lambda>_. P)"
    for refused :: "err option" by (cases refused) (auto intro: pure_keeps)
  show ?thesis
    unfolding resume_channel_def
    by (intro leads_then [OF pure_keeps(3)] leads_then [OF ask_keeps] leads_then [OF connected] leads_then [OF row]
        leads_then [OF handoff_keeps] pure_keeps)
qed

lemma create_keeps:
  assumes "\<And>w a d. P w \<Longrightarrow> owned_community_connection (cc_community i) (cc_owner i) (w_db w) = Inr (a, d) \<Longrightarrow>
    P (w\<lparr>w_db := d\<rparr>)"
  shows "leads P (create_dedicated_channel out sign c keys i) P (\<lambda>_. P)"
proof -
  have owned: "leads P (in_db out (\<lambda>_. owned_community_connection (cc_community i) (cc_owner i))) P (\<lambda>_. P)"
    by (rule leads_in_db) (auto intro: env assms)
  show ?thesis
    unfolding create_dedicated_channel_def find_handoff_by_key_def
    by (intro leads_then [OF pure_keeps(3)] leads_then [OF owned] leads_option leads_then [OF read_keeps]
        leads_if pure_keeps resume_keeps)
qed

end

section \<open>Endpoints of a pass\<close>

lemma leads_and:
  "leads P m I Q \<Longrightarrow> leads P' m I' Q' \<Longrightarrow>
   leads (\<lambda>w. P w \<and> P' w) m (\<lambda>w. I w \<and> I' w) (\<lambda>a w. Q a w \<and> Q' a w)"
  by (simp add: leads_def)

text \<open>Every endpoint is one of \<open>es\<close> or a direct channel whose owner the relay has confirmed.\<close>

definition owned_endpoint :: "relay_entry list \<Rightarrow> uuid \<Rightarrow> endpoint \<Rightarrow> bool" where
  "owned_endpoint log home e \<longleftrightarrow> ep_community e = home \<and>
     (\<exists>peer channel. ep_dedicated_to e = Some peer \<and> ep_local_channel e = Some channel \<and> owner_confirmed log channel)"

definition grown_endpoints :: "endpoint list \<Rightarrow> uuid \<Rightarrow> ('e, 'z) world_scheme \<Rightarrow> bool" where
  "grown_endpoints es home w \<longleftrightarrow> set es \<subseteq> set (endpoints (w_db w)) \<and>
     (\<forall>e \<in> set (endpoints (w_db w)). e \<in> set es \<or> owned_endpoint (w_log w) home e)"

lemma owned_endpoint_mono: "owned_endpoint log home e \<Longrightarrow> owned_endpoint (x # log) home e"
  by (auto simp: owned_endpoint_def intro: owner_confirmed_mono)

interpretation pass: kept_by_handoffs "grown_endpoints es home" for es home
  by unfold_locales (auto simp: grown_endpoints_def intro: owned_endpoint_mono)

lemma owned_connection_reads: "owned_community_connection c p d = Inr (a, d') \<Longrightarrow> d' = d"
  by (auto simp: owned_community_connection_def assert_hex_def tx_inversion)

lemma attach_row:
  assumes "attach_dedicated_peer_channel now fresh home channel name peer d = Inr (b, d')"
  shows "endpoints d' = endpoints d \<or> (\<exists>e. endpoints d' = endpoints d @ [e] \<and> ep_community e = home_community home \<and>
    ep_dedicated_to e = Some peer \<and> ep_local_channel e = Some channel)"
  using assms
  by (auto simp: attach_dedicated_peer_channel_def tx_inversion assert_text_def Let_def insert_endpoint_def
      participant_row_def dest!: find_Some_set split: option.splits if_splits)

abbreviation good_pass :: "endpoint list \<Rightarrow> uuid \<Rightarrow> ('e, 'z) world_scheme \<Rightarrow> bool" where
  "good_pass es home w \<equiv> handoff_inv w \<and> grown_endpoints es home w"

lemma created_leads:
  assumes "carries_template sign"
  shows "leads (good_pass es home) (create_dedicated_channel out sign c keys i) (good_pass es home)
    (\<lambda>r w. good_pass es home w \<and> owner_confirmed (w_log w) (fst r))"
proof -
  have "leads handoff_inv (create_dedicated_channel out sign c keys i) handoff_inv
      (\<lambda>r w. handoff_inv w \<and> owner_confirmed (w_log w) (fst r))"
  proof (rule leadsI)
    fix w r w' assume w: "handoff_inv w" and run: "create_dedicated_channel out sign c keys i w = (r, w')"
    from leadsD [OF create_channel_leads [OF assms, where d = "w_db w"] _ run] w
    have ended: "handoff_inv w'" and
      found: "r = Inr a \<Longrightarrow> \<exists>c. finished c (cc_key i) a w'" for a by simp_all blast
    have "owner_confirmed (w_log w') (fst a)" if ok: "r = Inr a" for a
    proof -
      obtain h where "working_inv h w'" "ho_state h = Completed" "a = (ho_channel h, ho_name h)"
        using found [OF ok] by (auto simp: finished_def row_for_def)
      then show ?thesis using working_owned [of h w'] by (simp add: owned_states_def)
    qed
    with ended show "handoff_inv w' \<and> (\<forall>a. r = Inr a \<longrightarrow> handoff_inv w' \<and> owner_confirmed (w_log w') (fst a))"
      by blast
  qed
  moreover have "leads (grown_endpoints es home) (create_dedicated_channel out sign c keys i) (grown_endpoints es home)
      (\<lambda>_. grown_endpoints es home)"
    by (rule pass.create_keeps) (auto dest: owned_connection_reads)
  ultimately show ?thesis
    by (rule leads_weaken [OF leads_and]) auto
qed

lemma attached_leads:
  "leads (\<lambda>w. good_pass es (home_community home) w \<and> owner_confirmed (w_log w) (fst channel))
     (attach_channel out home peer channel)
     (good_pass es (home_community home)) (\<lambda>_. good_pass es (home_community home))"
proof -
  let ?P = "\<lambda>w. good_pass es (home_community home) w \<and> owner_confirmed (w_log w) (fst channel)"
  have "leads ?P (in_db out (\<lambda>now. attach_dedicated_peer_channel now fresh home (fst channel) name peer))
      (good_pass es (home_community home)) (\<lambda>_. good_pass es (home_community home))" for fresh name
    by (rule leads_in_db)
      (auto simp: handoff_inv_def grown_endpoints_def owned_endpoint_def dest!: attach_row)
  moreover have "leads ?P (ask (out_uuid out)) (good_pass es (home_community home)) (\<lambda>_. ?P)"
    by (rule leads_ask) (auto simp: handoff_inv_def grown_endpoints_def)
  ultimately show ?thesis
    unfolding attach_channel_def by (cases channel) (auto intro: leads_then)
qed

lemma read_leads: "leads (good_pass es home) (in_db out (\<lambda>_. tx_read f)) (good_pass es home) (\<lambda>_. good_pass es home)"
  by (rule leads_in_db) (auto simp: handoff_inv_def grown_endpoints_def tx_read_def)

lemma provision_each_leads:
  assumes "carries_template sign"
  shows "leads (good_pass es (home_community home)) (provision_each out sign c keys home ps t)
    (good_pass es (home_community home)) (\<lambda>_. good_pass es (home_community home))"
proof (induction ps arbitrary: t)
  case Nil
  show ?case unfolding provision_each.simps by (rule leads_return) simp
next
  case (Cons p ps)
  have "leads (good_pass es (home_community home)) (provision_peer out sign c keys home p)
      (good_pass es (home_community home)) (\<lambda>_. good_pass es (home_community home))"
    unfolding provision_peer_def
    by (intro leads_then [OF read_leads] leads_then [OF created_leads [OF assms]] attached_leads)
  from leads_attempt [OF this] Cons.IH show ?case unfolding provision_each.simps by (rule leads_then)
qed

text \<open>
  C12. A direct channel always has an owner of its own: whatever the relay and the
  database answer and wherever a pass stops, it keeps every endpoint, and each one it
  adds is a direct channel of the home community on which the relay had confirmed the
  promotion of an owner.
\<close>

theorem provisioned_channels_have_an_owner:
  assumes "carries_template sign" "handoff_history out sign c keys w"
    and "provision_peer_channels v out sign c keys n w = (r, w')"
  shows "set (endpoints (w_db w)) \<subseteq> set (endpoints (w_db w')) \<and>
    (\<forall>e \<in> set (endpoints (w_db w')) - set (endpoints (w_db w)).
       \<exists>peer channel url ev owner. ep_dedicated_to e = Some peer \<and> ep_local_channel e = Some channel \<and>
         Confirmed url ev \<in> set (w_log w') \<and> puts ev channel owner ''owner'')"
proof -
  let ?es = "endpoints (w_db w)"
  let ?P = "\<lambda>x. x = w"
  let ?G = "\<lambda>x. handoff_inv x \<and> (\<exists>home. grown_endpoints ?es home x)"
  have start: "good_pass ?es home w" for home
    using history_inv [OF assms(1,2)] by (simp add: grown_endpoints_def)
  have "leads ?P (provision_peer_channels v out sign c keys n) ?G (\<lambda>_. ?G)"
    unfolding provision_peer_channels_def
  proof (rule leads_then [where R = "\<lambda>_ x. \<forall>home. good_pass ?es home x"])
    show "leads ?P (in_db out (\<lambda>_. tx_read (get_hub_home_endpoint v))) ?G (\<lambda>_ x. \<forall>home. good_pass ?es home x)"
    proof (rule leads_weaken)
      show "leads (\<lambda>x. \<forall>home. good_pass ?es home x) (in_db out (\<lambda>_. tx_read (get_hub_home_endpoint v)))
          (\<lambda>x. \<forall>home. good_pass ?es home x) (\<lambda>_ x. \<forall>home. good_pass ?es home x)"
        by (rule leads_in_db) (auto simp: handoff_inv_def grown_endpoints_def tx_read_def)
    qed (use start in auto)
    fix home
    show "leads (\<lambda>x. \<forall>home. good_pass ?es home x) (case home of
        None \<Rightarrow> io_return nothing_provisioned
      | Some h \<Rightarrow> call_then (in_db out (\<lambda>_. tx_read (list_hub_peers_missing_channel h n))) (\<lambda>peers.
          provision_each out sign c keys h peers nothing_provisioned)) ?G (\<lambda>_. ?G)"
    proof (cases home)
      case None
      then show ?thesis by (auto intro: leads_return)
    next
      case (Some h)
      from leads_then [OF read_leads provision_each_leads [OF assms(1)]]
      have "leads (good_pass ?es (home_community h)) (call_then (in_db out (\<lambda>_. tx_read (list_hub_peers_missing_channel h n)))
          (\<lambda>peers. provision_each out sign c keys h peers nothing_provisioned)) (good_pass ?es (home_community h))
          (\<lambda>_. good_pass ?es (home_community h))" .
      then show ?thesis unfolding Some by (auto intro: leads_weaken)
    qed
  qed
  from leadsD [OF this refl assms(3)] obtain home where "grown_endpoints ?es home w'" by blast
  then show ?thesis unfolding grown_endpoints_def owned_endpoint_def owner_confirmed_def by blast
qed

end
