(* ===== verification/Peer_Witnesses.thy ===== *)
theory Peer_Witnesses
  imports Connector_Witnesses Peer_Channels
begin

text \<open>
  The pass over the participants' channels, applied to the sample hub with a cooperative
  relay: it opens one channel and adds its endpoint.
\<close>

definition sample_home :: home_endpoint where
  "sample_home = \<lparr>home_community = ''c0'', home_owner = hex_a, home_shared_channel = ''hub''\<rparr>"

definition sample_pass :: "nat \<Rightarrow> (nat world, provision_tally) io" where
  "sample_pass limit = provision_peer_channels (dp_env sample_deployment) sample_outside sample_sign sample_cipher
     sample_keys limit"

definition sample_request :: create_channel_input where
  "sample_request = \<lparr>cc_community = ''c0'', cc_owner = hex_a, cc_name = ''connect-hive'',
     cc_key = ''hub-dedicated:c1'', cc_members = None\<rparr>"

lemma pass_reads:
  "get_hub_home_endpoint (dp_env sample_deployment) sample_hub = Some sample_home"
  "list_hub_peers_missing_channel sample_home 1 sample_hub = [''c1'']"
  "get_community_slug ''c1'' sample_hub = Some ''hive''"
  "peer_channel_request sample_home ''c1'' (Some ''hive'') = sample_request"
  "owned_community_connection ''c0'' hex_a sample_hub = Inr (Some (sample_connection ''n0'' ''c0'' Active), sample_hub)"
  "decrypt_connector_private_key sample_cipher sample_key (replicate 32 1) ''c0'' = Inr (replicate 32 7)"
  "normalize_channel_name ''connect-hive'' = Inr ''connect-hive''"
  "assert_idempotency_key ''hub-dedicated:c1'' = Inr ()" "normalize_members None hex_b = []"
  "show_nat 2 = ''2''" "home_community sample_home = ''c0''"
  by code_simp+

lemma sample_attached:
  "map_sum id (\<lambda>(b, d). (b, map ep_id (endpoints d)))
     (attach_dedicated_peer_channel 9000060000 ''u2'' sample_home ''u0'' ''connect-hive'' ''c1'' sample_hub) =
   Inr (True, [''e0'', ''e1'', ''e2'', ''e3'', ''u2''])"
  by code_simp

lemma pass_opened:
  "\<exists>hs past. create_dedicated_channel sample_outside sample_sign sample_cipher sample_keys sample_request sample_world =
     (Inr (''u0'', ''connect-hive''), sample_world\<lparr>w_env := 2, w_clock := 9000060, w_handoffs := hs, w_log := past\<rparr>)"
  by (simp add: sample_steps pass_reads sample_request_def sample_world_def sample_connection_def
      sample_keys_def now_seconds_def update_where_def del: One_nat_def)

lemma sample_provisioned:
  "map ep_id (endpoints (w_db (snd (sample_pass 1 sample_world)))) = [''e0'', ''e1'', ''e2'', ''e3'', ''u2'']"
proof -
  obtain hs past where opened: "create_dedicated_channel sample_outside sample_sign sample_cipher sample_keys
      sample_request sample_world = (Inr (''u0'', ''connect-hive''),
        sample_world\<lparr>w_env := 2, w_clock := 9000060, w_handoffs := hs, w_log := past\<rparr>)"
    using pass_opened by blast
  obtain d where attached: "attach_dedicated_peer_channel 9000060000 ''u2'' sample_home ''u0'' ''connect-hive'' ''c1'' sample_hub =
      Inr (True, d)" "map ep_id (endpoints d) = [''e0'', ''e1'', ''e2'', ''e3'', ''u2'']"
    using sample_attached by (cases "attach_dedicated_peer_channel 9000060000 ''u2'' sample_home ''u0'' ''connect-hive'' ''c1'' sample_hub") auto
  have db: "w_db sample_world = sample_hub" by (simp add: sample_world_def)
  show ?thesis
    unfolding sample_pass_def provision_peer_channels_def
    by (simp add: in_db_def with_transaction_def io_defs sample_pool db pass_reads tx_read_def provision_peer_def
        opened attach_channel_def sample_calls attached io_attempt_def db_time_def del: One_nat_def)
qed

theorem provisioned_channels_have_an_owner_witness:
  "\<exists>w' e. sample_pass 1 sample_world = (fst (sample_pass 1 sample_world), w') \<and> ep_id e = ''u2'' \<and>
     e \<in> set (endpoints (w_db w')) \<and>
     (\<exists>peer channel url ev owner. ep_dedicated_to e = Some peer \<and> ep_local_channel e = Some channel \<and>
         Confirmed url ev \<in> set (w_log w') \<and> puts ev channel owner ''owner'')"
proof -
  let ?w' = "snd (sample_pass 1 sample_world)"
  have run: "sample_pass 1 sample_world = (fst (sample_pass 1 sample_world), ?w')" by simp
  have "''u2'' \<in> ep_id ` set (endpoints (w_db ?w'))" using arg_cong [OF sample_provisioned, of set] by simp
  then obtain e where e: "''u2'' = ep_id e" "e \<in> set (endpoints (w_db ?w'))" by (rule imageE)
  have "map ep_id (endpoints (w_db sample_world)) = [''e0'', ''e1'', ''e2'', ''e3'']"
    by (simp add: sample_world_def sample_hub_def sample_endpoint_def participant_row_def)
  from arg_cong [OF this, of set] have "''u2'' \<notin> ep_id ` set (endpoints (w_db sample_world))" by simp
  then have "e \<notin> set (endpoints (w_db sample_world))" unfolding e(1) by (rule contrapos_nn) (rule imageI)
  with e(2) have added: "e \<in> set (endpoints (w_db ?w')) - set (endpoints (w_db sample_world))" by (rule DiffI)
  from bspec [OF conjunct2 [OF provisioned_channels_have_an_owner [OF sample_carries sample_start
      run [unfolded sample_pass_def]]] added [unfolded sample_pass_def]]
  have "\<exists>peer channel url ev owner. ep_dedicated_to e = Some peer \<and> ep_local_channel e = Some channel \<and>
      Confirmed url ev \<in> set (w_log ?w') \<and> puts ev channel owner ''owner''"
    unfolding sample_pass_def .
  with run e(2) e(1) [symmetric] show ?thesis by (intro exI [of _ ?w'] exI [of _ e] conjI)
qed

end
