(* ===== verification/Directory_Store.thy ===== *)
theory Directory_Store
  imports Guards Relay_Probe Relay_Icons Join_Claim "HOL-Library.Product_Lexorder"
begin

text \<open>
  The directory's tables and the queries on them: src/db/candidates.ts (candidates,
  their sources and probes), with discovery/source-locator.ts,
  directory/invite-code-format.ts, ranking/focus.ts and submissions/categories.ts.
  A candidate row is the row the hub's store reads, with the columns of discovery.
  An INSERT checks what the migrations check; text with a NUL character is refused by
  PostgreSQL (22021).
\<close>

section \<open>Rows\<close>

record dir_candidate = candidate +
  dc_first_seen :: time
  dc_last_seen :: time
  dc_next_probe :: time
  dc_version :: "nat option"
  dc_reason :: "string option"

record listing =
  ls_audience :: "string option"
  ls_categories :: "string list"
  ls_email :: "string option"
  ls_description :: "string option"
  ls_name :: "string option"
  ls_focus :: "string option"
  ls_invite :: "string option"
  ls_public_url :: "string option"

record source_row =
  so_candidate :: uuid
  so_type :: string
  so_locator :: "string option"
  so_actor :: "string option"
  so_observed :: time
  so_hash :: string
  so_first_seen :: time
  so_last_seen :: time
  so_listing :: listing

record snapshot =
  sn_candidate :: uuid
  sn_probed :: time
  sn_http_status :: "nat option"
  sn_open_ms :: "nat option"
  sn_tls :: bool
  sn_name :: "string option"
  sn_description :: "string option"
  sn_software :: "string option"
  sn_version :: "string option"
  sn_nips :: "nat list"
  sn_self :: "string option"
  sn_auth_required :: "bool option"
  sn_restricted_writes :: "bool option"
  sn_icon_hash :: "string option"
  sn_result :: string

record join_probe =
  jn_candidate :: uuid
  jn_code :: "string option"
  jn_status :: join_status
  jn_detail :: "string option"
  jn_probed :: time

record membership =
  mb_host :: string
  mb_url :: string
  mb_community :: "uuid option"
  mb_joined :: time

record harvested_invite =
  hv_host :: string
  hv_code :: string
  hv_source :: "string option"
  hv_seen :: time

datatype validation_status = Awaiting | Processing | Valid | Invalid | Failed_validation

record validation =
  vl_id :: uuid
  vl_host :: string
  vl_url :: string
  vl_code :: string
  vl_status :: validation_status
  vl_candidate :: "uuid option"
  vl_message :: "string option"
  vl_created :: time
  vl_resolved :: "time option"

record directory =
  dr_candidates :: "dir_candidate list"
  dr_sources :: "source_row list"
  dr_snapshots :: "snapshot list"
  dr_icons :: "(uuid \<times> icon) list"
  dr_join_probes :: "join_probe list"
  dr_members :: "membership list"
  dr_harvested :: "harvested_invite list"
  dr_validations :: "validation list"

section \<open>Text\<close>

text \<open>\<open>replace(/\s+/gu, " ")\<close>\<close>

fun collapse_spaces :: "string \<Rightarrow> string" where
  "collapse_spaces [] = []"
| "collapse_spaces (c # cs) =
     (if js_space c
      then (case cs of d # _ \<Rightarrow> if js_space d then collapse_spaces cs else CHR '' '' # collapse_spaces cs
            | [] \<Rightarrow> '' '')
      else c # collapse_spaces cs)"

text \<open>The callers' limits are positive constants.\<close>

definition normalize_public_relay_text :: "string option \<Rightarrow> nat \<Rightarrow> string option" where
  "normalize_public_relay_text v n =
     (case v of
        None \<Rightarrow> None
      | Some s \<Rightarrow> (let t = trim (collapse_spaces s) in if t = [] then None else Some (take n t)))"

definition url_char :: "char \<Rightarrow> bool" where
  "url_char c \<longleftrightarrow> is_upper c \<or> is_lower c \<or> is_digit c \<or> c \<in> set ''._~-''"

text \<open>\<open>/^(?:eyJ|v\d+[.])[A-Za-z0-9._~-]{8,}$/\<close>\<close>

definition is_buzz_invite_code :: "string \<Rightarrow> bool" where
  "is_buzz_invite_code s \<longleftrightarrow>
     (if take 3 s = ''eyJ'' then list_all url_char (drop 3 s) \<and> 8 \<le> length (drop 3 s)
      else (case s of
        v # r \<Rightarrow> v = CHR ''v'' \<and> takeWhile is_digit r \<noteq> [] \<and>
          (case dropWhile is_digit r of
             d # t \<Rightarrow> d = CHR ''.'' \<and> list_all url_char t \<and> 8 \<le> length t | [] \<Rightarrow> False)
      | [] \<Rightarrow> False))"

text \<open>\<open>/^[^@\s]+@[^@\s]+\.[^@\s]+$/u\<close>, for the blanks \<open>space\<close>.\<close>

definition email_shape :: "(char \<Rightarrow> bool) \<Rightarrow> string \<Rightarrow> bool" where
  "email_shape space s \<longleftrightarrow>
     (let ok = (\<lambda>c. c \<noteq> CHR ''@'' \<and> \<not> space c); local = takeWhile ok s in
      case dropWhile ok s of
        a # domain \<Rightarrow> a = CHR ''@'' \<and> local \<noteq> [] \<and> list_all ok domain \<and>
          CHR ''.'' \<in> set (butlast (tl domain))
      | [] \<Rightarrow> False)"

definition focus_slugs :: "string list" where
  "focus_slugs = [''building'', ''ai-agents'', ''bitcoin-money'', ''design-creative'',
     ''research-knowledge'', ''local-regional'', ''team-private'', ''privacy-security'', ''growth-gtm'']"

definition is_focus_slug :: "string \<Rightarrow> bool" where
  "is_focus_slug s \<longleftrightarrow> s \<in> set focus_slugs"

definition submission_category_slugs :: "string list" where
  "submission_category_slugs = [''bitcoin'', ''builders'', ''culture'', ''gtm'', ''labs'', ''privacy'']"

section \<open>Listings of a source\<close>

text \<open>A listing as a source gives it; the fields a source leaves out are None.\<close>

definition empty_listing :: listing where
  "empty_listing = \<lparr>ls_audience = None, ls_categories = [], ls_email = None, ls_description = None,
     ls_name = None, ls_focus = None, ls_invite = None, ls_public_url = None\<rparr>"

definition normalize_candidate_source_listing :: "listing option \<Rightarrow> listing" where
  "normalize_candidate_source_listing given =
     (let l = (case given of None \<Rightarrow> empty_listing | Some l \<Rightarrow> l);
          name = normalize_public_relay_text (ls_name l) 80 in
      \<lparr>ls_audience = normalize_public_relay_text (ls_audience l) 300,
       ls_categories = take 5 (js_set (filter (\<lambda>c. c \<in> set submission_category_slugs)
         (map (\<lambda>c. to_lower (trim c)) (ls_categories l)))),
       ls_email = (case ls_email l of
           None \<Rightarrow> None
         | Some e \<Rightarrow> if email_shape js_space (trim e) \<and> length (trim e) \<le> 254
             then Some (to_lower (trim e)) else None),
       ls_description = normalize_public_relay_text (ls_description l) 500,
       ls_name = (case name of None \<Rightarrow> None | Some n \<Rightarrow> if 2 \<le> length n then name else None),
       ls_focus = (case ls_focus l of None \<Rightarrow> None | Some f \<Rightarrow> if is_focus_slug f then Some f else None),
       ls_invite = (case ls_invite l of
           None \<Rightarrow> None
         | Some c \<Rightarrow> if is_buzz_invite_code (trim c) then Some (take 200 (trim c)) else None),
       ls_public_url = (case ls_public_url l of
           None \<Rightarrow> None
         | Some u \<Rightarrow> if to_lower (take 8 u) = ''https://'' then Some (take 500 u) else None)\<rparr>)"

text \<open>\<open>pathname.toLowerCase().indexOf("/invite/")\<close>, and what is in front of it.\<close>

fun before_invite :: "string \<Rightarrow> string" where
  "before_invite [] = []"
| "before_invite (c # cs) =
     (if to_lower (take 8 (c # cs)) = ''/invite/'' then [] else c # before_invite cs)"

definition sanitize_source_locator :: "web \<Rightarrow> string option \<Rightarrow> string option res" where
  "sanitize_source_locator W locator =
     (case locator of
        None \<Rightarrow> Inr None
      | Some s \<Rightarrow>
          if s = [] then Inr None
          else (case parse_url W s of
            None \<Rightarrow> Inl Raw
          | Some u \<Rightarrow>
              if u_protocol u \<noteq> ''https:'' \<or> u_username u \<noteq> [] \<or> u_password u \<noteq> [] then Inl Raw
              else Inr (Some (href (set_path (before_invite (u_pathname u))
                (u\<lparr>u_query := None, u_fragment := None\<rparr>))))))"

record candidate_source =
  cs_type :: string
  cs_locator :: "string option"
  cs_actor :: "string option"
  cs_evidence :: "string option"
  cs_observed :: "time option"
  cs_listing :: "listing option"

definition or_else :: "'a option \<Rightarrow> 'a option \<Rightarrow> 'a option" where
  "or_else a b = (case a of None \<Rightarrow> b | Some _ \<Rightarrow> a)"

definition create_evidence_hash ::
  "(string \<Rightarrow> string) \<Rightarrow> string \<Rightarrow> candidate_source \<Rightarrow> string option \<Rightarrow> string" where
  "create_evidence_hash sha256 url src locator =
     sha256 (cs_type src @ '':'' @
       the (or_else (cs_actor src) (or_else (cs_evidence src) (or_else locator (Some url)))))"

section \<open>The checks of the tables\<close>

definition text_ok :: "string option \<Rightarrow> bool" where
  "text_ok s \<longleftrightarrow> (case s of None \<Rightarrow> True | Some t \<Rightarrow> CHR 0x00 \<notin> set t)"

definition host_char :: "char \<Rightarrow> bool" where
  "host_char c \<longleftrightarrow> is_upper c \<or> is_lower c \<or> is_digit c \<or> c = CHR ''.'' \<or> c = CHR ''-''"

definition address_char :: "char \<Rightarrow> bool" where
  "address_char c \<longleftrightarrow> is_hex_i c \<or> c = CHR '':''"

text \<open>\<open>(:[0-9]{1,5})?$\<close>\<close>

definition port_part :: "string \<Rightarrow> bool" where
  "port_part s \<longleftrightarrow> (case s of [] \<Rightarrow> True
     | c # ds \<Rightarrow> c = CHR '':'' \<and> list_all is_digit ds \<and> 1 \<le> length ds \<and> length ds \<le> 5)"

text \<open>community_candidates_origin_only: a bracketed address or a host, then a port.\<close>

definition origin_only :: "string \<Rightarrow> bool" where
  "origin_only s \<longleftrightarrow> take 6 s = ''wss://'' \<and>
     (case drop 6 s of
        [] \<Rightarrow> False
      | c # r \<Rightarrow>
          if c = CHR ''['' then takeWhile address_char r \<noteq> [] \<and>
            (case dropWhile address_char r of b # p \<Rightarrow> b = CHR '']'' \<and> port_part p | [] \<Rightarrow> False)
          else takeWhile host_char (c # r) \<noteq> [] \<and> port_part (dropWhile host_char (c # r)))"

text \<open>community_sources_no_invites, over the lower-case locator.\<close>

definition locator_check :: "string option \<Rightarrow> bool" where
  "locator_check l \<longleftrightarrow> (case l of None \<Rightarrow> True
     | Some s \<Rightarrow> \<not> list_ex (\<lambda>p. contains p (to_lower s))
         [''/invite/'', ''?code='', ''&code='', ''?invite='', ''&invite=''])"

text \<open>\<open>[[:space:]]\<close> of PostgreSQL, on ASCII.\<close>

definition pg_space :: "char \<Rightarrow> bool" where
  "pg_space c \<longleftrightarrow> of_char c \<in> {9, 10, 11, 12, 13, 32 :: nat}"

definition opt_check :: "('a \<Rightarrow> bool) \<Rightarrow> 'a option \<Rightarrow> bool" where
  "opt_check P x \<longleftrightarrow> (case x of None \<Rightarrow> True | Some a \<Rightarrow> P a)"

definition listing_check :: "listing \<Rightarrow> bool" where
  "listing_check l \<longleftrightarrow>
     opt_check (\<lambda>n. 2 \<le> length n \<and> length n \<le> 80) (ls_name l) \<and>
     opt_check (\<lambda>d. length d \<le> 500) (ls_description l) \<and>
     length (ls_categories l) \<le> 5 \<and> set (ls_categories l) \<subseteq> set submission_category_slugs \<and>
     opt_check (\<lambda>u. to_lower (take 8 u) = ''https://'') (ls_public_url l) \<and>
     opt_check (\<lambda>c. 1 \<le> length c \<and> length c \<le> 200) (ls_invite l) \<and>
     opt_check (\<lambda>e. length e \<le> 254 \<and> email_shape pg_space e) (ls_email l) \<and>
     opt_check (\<lambda>a. length a \<le> 300) (ls_audience l) \<and>
     opt_check (\<lambda>f. f \<in> set focus_slugs) (ls_focus l)"

definition source_types :: "string list" where
  "source_types = [''reviewed_seed'', ''github'', ''nip65'', ''nip66'', ''provider'', ''manual'',
     ''buzzdir'', ''submission'', ''harvest'', ''x'']"

definition source_check :: "source_row \<Rightarrow> bool" where
  "source_check s \<longleftrightarrow> so_type s \<in> set source_types \<and> locator_check (so_locator s) \<and>
     listing_check (so_listing s)"

definition listing_texts :: "listing \<Rightarrow> string option list" where
  "listing_texts l = [ls_audience l, ls_email l, ls_description l, ls_name l, ls_invite l, ls_public_url l]"

definition source_texts :: "source_row \<Rightarrow> string option list" where
  "source_texts s = so_locator s # so_actor s # listing_texts (so_listing s)"

section \<open>Candidates\<close>

definition candidate_by_url :: "string \<Rightarrow> directory \<Rightarrow> dir_candidate option" where
  "candidate_by_url url d = find (\<lambda>c. cand_relay_url c = url) (dr_candidates d)"

definition candidate_by_id :: "uuid \<Rightarrow> directory \<Rightarrow> dir_candidate option" where
  "candidate_by_id i d = find (\<lambda>c. cand_id c = i) (dr_candidates d)"

definition update_candidates :: "(dir_candidate \<Rightarrow> bool) \<Rightarrow> (dir_candidate \<Rightarrow> dir_candidate) \<Rightarrow> directory \<Rightarrow> directory" where
  "update_candidates P f d = d\<lparr>dr_candidates := update_where P f (dr_candidates d)\<rparr>"

definition seen_again :: "string \<Rightarrow> time \<Rightarrow> dir_candidate \<Rightarrow> dir_candidate" where
  "seen_again source_type now c =
     c\<lparr>dc_last_seen := now,
       dc_next_probe := (if source_type = ''submission'' \<and> dc_last_seen c \<ge> now - seconds 3600
         then dc_next_probe c else min (dc_next_probe c) now)\<rparr>"

definition new_candidate :: "uuid \<Rightarrow> relay_name \<Rightarrow> time \<Rightarrow> dir_candidate" where
  "new_candidate fresh relay now =
     \<lparr>cand_id = fresh, cand_relay_url = rn_url relay, cand_host = rn_host relay, cand_state = Discovered,
      dc_first_seen = now, dc_last_seen = now, dc_next_probe = now, dc_version = None, dc_reason = None\<rparr>"

text \<open>\<open>INSERT ... ON CONFLICT (canonical_relay_url) DO UPDATE ... RETURNING\<close>\<close>

definition insert_candidate :: "uuid \<Rightarrow> relay_name \<Rightarrow> string \<Rightarrow> time \<Rightarrow> (directory, dir_candidate) tx" where
  "insert_candidate fresh relay source_type now = (\<lambda>d.
     if \<not> origin_only (rn_url relay) then Inl (Pg ''23514'')
     else case candidate_by_url (rn_url relay) d of
       Some c \<Rightarrow> Inr (seen_again source_type now c,
         update_candidates (\<lambda>r. cand_relay_url r = rn_url relay) (seen_again source_type now) d)
     | None \<Rightarrow>
         if candidate_by_id fresh d \<noteq> None then Inl (Pg ''23505'')
         else Inr (new_candidate fresh relay now,
           d\<lparr>dr_candidates := dr_candidates d @ [new_candidate fresh relay now]\<rparr>))"

definition same_source :: "source_row \<Rightarrow> source_row \<Rightarrow> bool" where
  "same_source a b \<longleftrightarrow> so_candidate a = so_candidate b \<and> so_type a = so_type b \<and> so_hash a = so_hash b"

definition source_again :: "source_row \<Rightarrow> source_row \<Rightarrow> source_row" where
  "source_again new s = s\<lparr>so_last_seen := so_last_seen new,
     so_observed := max (so_observed s) (so_observed new), so_listing := so_listing new\<rparr>"

definition insert_source :: "source_row \<Rightarrow> (directory, unit) tx" where
  "insert_source s = (\<lambda>d.
     if \<not> list_all text_ok (source_texts s) then Inl (Pg ''22021'')
     else if \<not> source_check s then Inl (Pg ''23514'')
     else if candidate_by_id (so_candidate s) d = None then Inl (Pg ''23503'')
     else Inr ((), d\<lparr>dr_sources :=
       (if has_row (same_source s) (dr_sources d)
        then update_where (same_source s) (source_again s) (dr_sources d)
        else dr_sources d @ [s])\<rparr>))"

text \<open>A clock reading of \<open>new Date()\<close>: milliseconds.\<close>

definition js_time :: "time \<Rightarrow> time" where
  "js_time now = now div 1000 * 1000"

definition source_of :: "uuid \<Rightarrow> candidate_source \<Rightarrow> string option \<Rightarrow> string \<Rightarrow> time \<Rightarrow> source_row" where
  "source_of candidate src locator hash now =
     \<lparr>so_candidate = candidate, so_type = cs_type src, so_locator = locator, so_actor = cs_actor src,
      so_observed = (case cs_observed src of None \<Rightarrow> js_time now | Some t \<Rightarrow> t),
      so_hash = hash, so_first_seen = now, so_last_seen = now,
      so_listing = normalize_candidate_source_listing (cs_listing src)\<rparr>"

text \<open>Id, canonical URL and state.\<close>

type_synonym candidate_record = "uuid \<times> string \<times> candidate_state"

definition candidate_record :: "dir_candidate \<Rightarrow> candidate_record" where
  "candidate_record c = (cand_id c, cand_relay_url c, cand_state c)"

definition upsert_candidate :: "web \<Rightarrow> (string \<Rightarrow> string) \<Rightarrow> uuid \<Rightarrow> relay_name \<Rightarrow> candidate_source \<Rightarrow> time \<Rightarrow>
    (directory, candidate_record) tx" where
  "upsert_candidate W sha256 fresh relay src now =
     (case sanitize_source_locator W (cs_locator src) of
        Inl e \<Rightarrow> tx_throw e
      | Inr locator \<Rightarrow>
          tx_bind (insert_candidate fresh relay (cs_type src) now) (\<lambda>c.
          tx_bind (insert_source (source_of (cand_id c) src locator
            (create_evidence_hash sha256 (rn_url relay) src locator) now)) (\<lambda>_.
          tx_return (candidate_record c))))"

definition not_suppressed :: "dir_candidate \<Rightarrow> bool" where
  "not_suppressed c \<longleftrightarrow> cand_state c \<noteq> Suppressed"

definition get_candidate :: "uuid \<Rightarrow> (directory, candidate_record option) tx" where
  "get_candidate i = tx_read (\<lambda>d. map_option candidate_record
     (find (\<lambda>c. cand_id c = i \<and> not_suppressed c) (dr_candidates d)))"

definition mark_candidate_probing :: "uuid \<Rightarrow> time \<Rightarrow> (directory, unit) tx" where
  "mark_candidate_probing i now = tx_write (update_candidates (\<lambda>c. cand_id c = i \<and> not_suppressed c)
     (\<lambda>c. c\<lparr>cand_state := (if cand_state c = Discovered then Probing else cand_state c),
            dc_last_seen := now\<rparr>))"

section \<open>Probes\<close>

definition insert_snapshot :: "snapshot \<Rightarrow> (directory, unit) tx" where
  "insert_snapshot s = (\<lambda>d.
     if \<not> list_all text_ok [sn_name s, sn_description s, sn_software s, sn_version s, sn_self s]
     then Inl (Pg ''22021'')
     else if candidate_by_id (sn_candidate s) d = None then Inl (Pg ''23503'')
     else Inr ((), d\<lparr>dr_snapshots := dr_snapshots d @ [s]\<rparr>))"

definition upsert_community_icon :: "uuid \<Rightarrow> icon \<Rightarrow> (directory, unit) tx" where
  "upsert_community_icon i logo = (\<lambda>d.
     if \<not> icon_check logo then Inl (Pg ''23514'')
     else if candidate_by_id i d = None then Inl (Pg ''23503'')
     else Inr ((), d\<lparr>dr_icons :=
       (if has_row (\<lambda>r. fst r = i) (dr_icons d)
        then update_where (\<lambda>r. fst r = i \<and> ic_hash (snd r) \<noteq> ic_hash logo) (\<lambda>r. (i, logo)) (dr_icons d)
        else dr_icons d @ [(i, logo)])\<rparr>))"

definition delete_community_icon :: "uuid \<Rightarrow> (directory, unit) tx" where
  "delete_community_icon i = tx_write (\<lambda>d. d\<lparr>dr_icons := filter (\<lambda>r. fst r \<noteq> i) (dr_icons d)\<rparr>)"

definition failed_snapshot :: "uuid \<Rightarrow> string \<Rightarrow> time \<Rightarrow> snapshot" where
  "failed_snapshot i code now =
     \<lparr>sn_candidate = i, sn_probed = now, sn_http_status = None, sn_open_ms = None, sn_tls = False,
      sn_name = None, sn_description = None, sn_software = None, sn_version = None, sn_nips = [],
      sn_self = None, sn_auth_required = None, sn_restricted_writes = None, sn_icon_hash = None,
      sn_result = code\<rparr>"

definition probe_snapshot :: "uuid \<Rightarrow> probe_success \<Rightarrow> time \<Rightarrow> snapshot" where
  "probe_snapshot i p now =
     \<lparr>sn_candidate = i, sn_probed = now, sn_http_status = Some (ps_http_status p),
      sn_open_ms = Some (ps_open_ms p), sn_tls = True,
      sn_name = normalize_public_relay_text (ni_name (ps_nip11 p)) 120,
      sn_description = normalize_public_relay_text (ni_description (ps_nip11 p)) 1000,
      sn_software = ni_software (ps_nip11 p), sn_version = ni_version (ps_nip11 p),
      sn_nips = ni_nips (ps_nip11 p), sn_self = ni_self (ps_nip11 p),
      sn_auth_required = ni_auth_required (ps_nip11 p),
      sn_restricted_writes = ni_restricted_writes (ps_nip11 p), sn_icon_hash = ps_icon_hash p,
      sn_result = cl_reason (ps_classification p)\<rparr>"

definition state_of :: "buzz_state \<Rightarrow> candidate_state" where
  "state_of s = (case s of Is_verified \<Rightarrow> Verified_buzz | Is_probable \<Rightarrow> Probable_buzz | Is_rejected \<Rightarrow> Rejected)"

definition one_day :: time where
  "one_day = seconds (24 * 3600)"

definition after_failure :: "string \<Rightarrow> time \<Rightarrow> dir_candidate \<Rightarrow> dir_candidate" where
  "after_failure code now c = c\<lparr>cand_state := (if dc_version c = None then Discovered else cand_state c),
     dc_reason := Some code, dc_next_probe := now + one_day\<rparr>"

definition after_probe :: "classification \<Rightarrow> time \<Rightarrow> dir_candidate \<Rightarrow> dir_candidate" where
  "after_probe k now c = c\<lparr>cand_state := state_of (cl_state k), dc_version := Some (cl_version k),
     dc_reason := Some (cl_reason k), dc_next_probe := now + one_day\<rparr>"

definition record_probe_result :: "(string \<Rightarrow> nat list) \<Rightarrow> (nat list \<Rightarrow> string) \<Rightarrow> uuid \<Rightarrow> probe_result \<Rightarrow> time \<Rightarrow>
    (directory, unit) tx" where
  "record_probe_result decode sha256 i result now = (case result of
     Probe_failed url code \<Rightarrow>
       tx_bind (insert_snapshot (failed_snapshot i code now)) (\<lambda>_.
       tx_write (update_candidates (\<lambda>c. cand_id c = i \<and> not_suppressed c) (after_failure code now)))
   | Probe_ok url p \<Rightarrow>
       tx_bind (insert_snapshot (probe_snapshot i p now)) (\<lambda>_.
       tx_bind (case parse_public_icon_data_uri decode sha256 (ni_icon (ps_nip11 p)) of
           Some logo \<Rightarrow> upsert_community_icon i logo | None \<Rightarrow> delete_community_icon i) (\<lambda>_.
       tx_write (update_candidates (\<lambda>c. cand_id c = i \<and> not_suppressed c)
         (after_probe (ps_classification p) now)))))"

section \<open>Due candidates\<close>

definition is_due :: "time \<Rightarrow> dir_candidate \<Rightarrow> bool" where
  "is_due now c \<longleftrightarrow> dc_next_probe c \<le> now \<and> not_suppressed c"

definition due_ids :: "uuid set \<Rightarrow> nat \<Rightarrow> time \<Rightarrow> directory \<Rightarrow> uuid list" where
  "due_ids locked n now d = take n (map cand_id (sort_key (\<lambda>c. (dc_next_probe c, cand_id c))
     (filter (\<lambda>c. is_due now c \<and> cand_id c \<notin> locked) (dr_candidates d))))"

text \<open>\<open>locked\<close>: the rows other transactions hold, which SKIP LOCKED passes over.\<close>

definition claim_due_candidate_ids :: "uuid set \<Rightarrow> nat \<Rightarrow> time \<Rightarrow> (directory, uuid list) tx" where
  "claim_due_candidate_ids locked n now = (\<lambda>d.
     if n < 1 \<or> n > 1000 then Inl Raw
     else let ids = due_ids locked n now d in
       Inr (ids, update_candidates (\<lambda>c. cand_id c \<in> set ids)
         (\<lambda>c. c\<lparr>dc_next_probe := now + seconds (15 * 60)\<rparr>) d))"

end
