(* ===== verification/Directory_Invites.thy ===== *)
theory Directory_Invites
  imports Directory_Store
begin

text \<open>
  The queries on invites, memberships and claimability: src/db/join-probes.ts,
  presence.ts, submission-validations.ts, and the parts of directory.ts that decide
  which communities are listed, with which code and which verdict.
\<close>

section \<open>The advertised code\<close>

text \<open>The newest code of the right shape among a candidate's sources.\<close>

definition advertised_code :: "directory \<Rightarrow> uuid \<Rightarrow> string option" where
  "advertised_code d i = map_option (\<lambda>s. the (ls_invite (so_listing s)))
     (first_by (\<lambda>s. - so_observed s)
       (filter (\<lambda>s. so_candidate s = i \<and>
          (case ls_invite (so_listing s) of None \<Rightarrow> False | Some c \<Rightarrow> is_buzz_invite_code c)) (dr_sources d)))"

record invite_target =
  iv_candidate :: uuid
  iv_host :: string
  iv_url :: string
  iv_code :: string

definition get_candidate_invite_target :: "uuid \<Rightarrow> (directory, invite_target option) tx" where
  "get_candidate_invite_target i = tx_read (\<lambda>d.
     case (candidate_by_id i d, advertised_code d i) of
       (Some c, Some code) \<Rightarrow> Some \<lparr>iv_candidate = i, iv_host = cand_host c, iv_url = cand_relay_url c, iv_code = code\<rparr>
     | _ \<Rightarrow> None)"

section \<open>Verdicts\<close>

definition join_probe_of :: "uuid \<Rightarrow> directory \<Rightarrow> join_probe option" where
  "join_probe_of i d = find (\<lambda>p. jn_candidate p = i) (dr_join_probes d)"

definition record_join_probe ::
  "uuid \<Rightarrow> string option \<Rightarrow> join_status \<Rightarrow> string option \<Rightarrow> time \<Rightarrow> (directory, unit) tx" where
  "record_join_probe i code status detail now = (\<lambda>d.
     let p = \<lparr>jn_candidate = i, jn_code = code, jn_status = status, jn_detail = detail, jn_probed = now\<rparr> in
     if \<not> text_ok code \<or> \<not> text_ok detail then Inl (Pg ''22021'')
     else if candidate_by_id i d = None then Inl (Pg ''23503'')
     else Inr ((), d\<lparr>dr_join_probes :=
       (if has_row (\<lambda>q. jn_candidate q = i) (dr_join_probes d)
        then update_where (\<lambda>q. jn_candidate q = i) (\<lambda>q. p) (dr_join_probes d)
        else dr_join_probes d @ [p])\<rparr>))"

definition needs_join_probe :: "time \<Rightarrow> directory \<Rightarrow> dir_candidate \<Rightarrow> bool" where
  "needs_join_probe stale d c \<longleftrightarrow> cand_state c = Verified_buzz \<and> advertised_code d (cand_id c) \<noteq> None \<and>
     (case join_probe_of (cand_id c) d of
        None \<Rightarrow> True
      | Some p \<Rightarrow> jn_probed p < stale \<or> jn_code p \<noteq> advertised_code d (cand_id c))"

text \<open>\<open>ORDER BY probe.probed_at ASC NULLS FIRST\<close>\<close>

definition probed_rank :: "directory \<Rightarrow> dir_candidate \<Rightarrow> nat \<times> time" where
  "probed_rank d c = (case join_probe_of (cand_id c) d of None \<Rightarrow> (0, 0) | Some p \<Rightarrow> (1, jn_probed p))"

definition list_candidates_for_join_probe :: "time \<Rightarrow> nat \<Rightarrow> (directory, (uuid \<times> string \<times> string) list) tx" where
  "list_candidates_for_join_probe stale n = tx_read (\<lambda>d.
     map (\<lambda>c. (cand_id c, cand_host c, the (advertised_code d (cand_id c))))
       (take n (sort_key (probed_rank d) (filter (needs_join_probe stale d) (dr_candidates d)))))"

section \<open>What the directory lists\<close>

text \<open>The newest snapshot of a verified probe over valid TLS.\<close>

definition latest_verified :: "directory \<Rightarrow> uuid \<Rightarrow> snapshot option" where
  "latest_verified d i = first_by (\<lambda>s. - sn_probed s)
     (filter (\<lambda>s. sn_candidate s = i \<and> sn_result s = ''exact_software_and_protocol'' \<and> sn_tls s)
       (dr_snapshots d))"

definition is_listed :: "time \<Rightarrow> directory \<Rightarrow> dir_candidate \<Rightarrow> bool" where
  "is_listed now d c \<longleftrightarrow> cand_state c = Verified_buzz \<and>
     (case latest_verified d (cand_id c) of
        None \<Rightarrow> False | Some s \<Rightarrow> sn_probed s \<ge> now - seconds (7 * 24 * 3600))"

definition directory_join_status :: "time \<Rightarrow> directory \<Rightarrow> uuid \<Rightarrow> join_status option" where
  "directory_join_status now d i =
     (case join_probe_of i d of
        None \<Rightarrow> None
      | Some p \<Rightarrow> if jn_probed p \<ge> now - seconds (12 * 3600) \<and> jn_code p = advertised_code d i
          then Some (jn_status p) else None)"

section \<open>Memberships\<close>

text \<open>\<open>uuid\<close> input: 32 digits, a hyphen allowed after every fourth but the last, in
  braces or not.\<close>

fun uuid_bytes :: "nat \<Rightarrow> string \<Rightarrow> bool" where
  "uuid_bytes 0 s \<longleftrightarrow> s = []"
| "uuid_bytes (Suc n) (a # b # s) \<longleftrightarrow> is_hex_i a \<and> is_hex_i b \<and>
     uuid_bytes n (if 0 < n \<and> even n \<and> s \<noteq> [] \<and> hd s = CHR ''-'' then tl s else s)"
| "uuid_bytes (Suc n) s \<longleftrightarrow> False"

definition uuid_input :: "string \<Rightarrow> bool" where
  "uuid_input s \<longleftrightarrow> uuid_bytes 16
     (if s \<noteq> [] \<and> hd s = CHR ''{'' \<and> last s = CHR ''}'' then butlast (tl s) else s)"

definition uuid_text :: "string \<Rightarrow> uuid" where
  "uuid_text s = (let h = to_lower (filter is_hex_i s) in
     take 8 h @ ''-'' @ take 4 (drop 8 h) @ ''-'' @ take 4 (drop 12 h) @ ''-'' @ take 4 (drop 16 h) @
     ''-'' @ drop 20 h)"

definition upsert_membership :: "string \<Rightarrow> string \<Rightarrow> string option \<Rightarrow> time \<Rightarrow> (directory, unit) tx" where
  "upsert_membership host url community now = (\<lambda>d.
     if \<not> opt_check uuid_input community then Inl (Pg ''22P02'')
     else if \<not> text_ok (Some host) \<or> \<not> text_ok (Some url) then Inl (Pg ''22021'')
     else let com = map_option uuid_text community in
       Inr ((), d\<lparr>dr_members :=
         (if has_row (\<lambda>m. mb_host m = host) (dr_members d)
          then update_where (\<lambda>m. mb_host m = host)
            (\<lambda>m. m\<lparr>mb_url := url, mb_community := or_else com (mb_community m)\<rparr>) (dr_members d)
          else dr_members d @ [\<lparr>mb_host = host, mb_url = url, mb_community = com, mb_joined = now\<rparr>])\<rparr>))"

text \<open>Host and URL, oldest join first.\<close>

definition list_joined_communities :: "(directory, (string \<times> string) list) tx" where
  "list_joined_communities = tx_read (\<lambda>d. map (\<lambda>m. (mb_host m, mb_url m)) (sort_key mb_joined (dr_members d)))"

section \<open>Fresh invites of communities joined\<close>

definition same_invite :: "string \<Rightarrow> string \<Rightarrow> harvested_invite \<Rightarrow> bool" where
  "same_invite host code h \<longleftrightarrow> hv_host h = host \<and> hv_code h = code"

definition record_invite_candidate ::
  "string \<Rightarrow> string \<Rightarrow> string option \<Rightarrow> time \<Rightarrow> (directory, unit) tx" where
  "record_invite_candidate host code source now = (\<lambda>d.
     if \<not> list_all text_ok [Some host, Some code, source] then Inl (Pg ''22021'')
     else Inr ((), d\<lparr>dr_harvested :=
       (if has_row (same_invite host code) (dr_harvested d)
        then update_where (same_invite host code)
          (\<lambda>h. h\<lparr>hv_seen := now, hv_source := or_else source (hv_source h)\<rparr>) (dr_harvested d)
        else dr_harvested d @ [\<lparr>hv_host = host, hv_code = code, hv_source = source, hv_seen = now\<rparr>])\<rparr>))"

text \<open>Candidate and code: the row seen last, whatever the shape of its code.\<close>

definition directory_invite_row :: "directory \<Rightarrow> string \<Rightarrow> source_row option" where
  "directory_invite_row d host =
     (case candidate_by_url (''wss://'' @ host) d of
        None \<Rightarrow> None
      | Some c \<Rightarrow> first_by (\<lambda>s. - so_last_seen s)
          (filter (\<lambda>s. so_candidate s = cand_id c \<and> ls_invite (so_listing s) \<noteq> None) (dr_sources d)))"

definition get_directory_invite :: "string \<Rightarrow> (directory, (uuid \<times> string) option) tx" where
  "get_directory_invite host = tx_read (\<lambda>d.
     map_option (\<lambda>s. (so_candidate s, the (ls_invite (so_listing s)))) (directory_invite_row d host))"

definition list_invite_candidates :: "string \<Rightarrow> (directory, string list) tx" where
  "list_invite_candidates host = tx_read (\<lambda>d.
     map hv_code (sort_key (\<lambda>h. - hv_seen h) (filter (\<lambda>h. hv_host h = host) (dr_harvested d))))"

definition with_code :: "string \<Rightarrow> time \<Rightarrow> source_row \<Rightarrow> source_row" where
  "with_code code now s = s\<lparr>so_listing := (so_listing s)\<lparr>ls_invite := Some code\<rparr>, so_last_seen := now\<rparr>"

definition replace_directory_invite :: "uuid \<Rightarrow> string \<Rightarrow> time \<Rightarrow> (directory, unit) tx" where
  "replace_directory_invite i code now = (\<lambda>d.
     if has_row (\<lambda>s. so_candidate s = i) (dr_sources d) \<and> \<not> (1 \<le> length code \<and> length code \<le> 200)
     then Inl (Pg ''23514'')
     else Inr ((), d\<lparr>dr_sources := update_where (\<lambda>s. so_candidate s = i) (with_code code now) (dr_sources d)\<rparr>))"

definition delete_invite_candidate :: "string \<Rightarrow> string \<Rightarrow> (directory, unit) tx" where
  "delete_invite_candidate host code =
     tx_write (\<lambda>d. d\<lparr>dr_harvested := filter (\<lambda>h. \<not> same_invite host code h) (dr_harvested d)\<rparr>)"

section \<open>Submissions to validate\<close>

definition create_submission_validation ::
  "uuid \<Rightarrow> string \<Rightarrow> string \<Rightarrow> string \<Rightarrow> time \<Rightarrow> (directory, uuid) tx" where
  "create_submission_validation fresh host url code now = (\<lambda>d.
     if \<not> list_all text_ok [Some host, Some url, Some code] then Inl (Pg ''22021'')
     else if has_row (\<lambda>v. vl_id v = fresh) (dr_validations d) then Inl (Pg ''23505'')
     else Inr (fresh, d\<lparr>dr_validations := dr_validations d @ [\<lparr>vl_id = fresh, vl_host = host, vl_url = url,
       vl_code = code, vl_status = Awaiting, vl_candidate = None, vl_message = None, vl_created = now,
       vl_resolved = None\<rparr>]\<rparr>))"

definition get_submission_validation ::
  "uuid \<Rightarrow> (directory, (validation_status \<times> uuid option \<times> string option) option) tx" where
  "get_submission_validation i = tx_read (\<lambda>d. map_option (\<lambda>v. (vl_status v, vl_candidate v, vl_message v))
     (find (\<lambda>v. vl_id v = i) (dr_validations d)))"

definition pending_validations :: "uuid set \<Rightarrow> nat \<Rightarrow> directory \<Rightarrow> validation list" where
  "pending_validations locked n d = take n (sort_key vl_created
     (filter (\<lambda>v. vl_status v = Awaiting \<and> vl_id v \<notin> locked) (dr_validations d)))"

definition claim_pending_validations :: "uuid set \<Rightarrow> nat \<Rightarrow> (directory, validation list) tx" where
  "claim_pending_validations locked n = (\<lambda>d.
     let vs = pending_validations locked n d in
     Inr (map (\<lambda>v. v\<lparr>vl_status := Processing\<rparr>) vs,
       d\<lparr>dr_validations := update_where (\<lambda>v. vl_id v \<in> vl_id ` set vs)
         (\<lambda>v. v\<lparr>vl_status := Processing\<rparr>) (dr_validations d)\<rparr>))"

definition resolve_submission_validation ::
  "uuid \<Rightarrow> validation_status \<Rightarrow> uuid option \<Rightarrow> string option \<Rightarrow> time \<Rightarrow> (directory, unit) tx" where
  "resolve_submission_validation i status candidate message now = (\<lambda>d.
     if \<not> text_ok message then Inl (Pg ''22021'')
     else Inr ((), d\<lparr>dr_validations := update_where (\<lambda>v. vl_id v = i)
       (\<lambda>v. v\<lparr>vl_status := status, vl_candidate := candidate, vl_message := message, vl_resolved := Some now\<rparr>)
       (dr_validations d)\<rparr>))"

end
