(* ===== verification/Directory_Jobs.thy ===== *)
theory Directory_Jobs
  imports Directory_Invites
begin

text \<open>
  Jobs on the directory: jobs/probe-candidate.ts, schedule-due-probes.ts and
  refresh-invites.ts, sources/ingest.ts, presence/probe-invite.ts and
  invite-expiry.ts, over an environment that answers queries and requests at will.
  Each query commits by itself; the clock advances by what the environment says
  before each query.
\<close>

section \<open>The world of a job\<close>

record 'e job_env =
  jd_client :: "'e http_client"
  jd_key :: "nat list"
  jd_web :: web
  jd_decode :: "string \<Rightarrow> string"
  jd_bytes :: "string \<Rightarrow> nat list"
  jd_bytes_hash :: "nat list \<Rightarrow> string"
  jd_uuid :: "'e \<Rightarrow> uuid \<times> 'e"
  jd_query :: "'e \<Rightarrow> query_outcome \<times> 'e"
  jd_tick :: "'e \<Rightarrow> nat \<times> 'e"
  jd_locked :: "'e \<Rightarrow> uuid set \<times> 'e"
  jd_send :: "uuid \<Rightarrow> 'e \<Rightarrow> bool option \<times> 'e"
  jd_message :: "err \<Rightarrow> string"
  jd_origin :: string

datatype invite_health = Invite_live | Invite_expired | Invite_invalid | Invite_exhausted | Invite_error

text \<open>\<open>jd_message\<close> is the message of a thrown value; \<open>jd_origin\<close> the configured origin.\<close>

text \<open>\<open>jb_health\<close> and \<open>jb_answers\<close> (host, code, answer) and \<open>jb_opened\<close> are ghost logs; \<open>jb_queue\<close> is the
  queue of probe jobs, newest first.\<close>

record 'e job_world =
  jb_dir :: directory
  jb_env :: 'e
  jb_clock :: time
  jb_requests :: "api_request list"
  jb_joined :: "(string \<times> string option) list"
  jb_opened :: "(string \<times> string) list"
  jb_health :: "(string \<times> string \<times> invite_health) list"
  jb_answers :: "(string \<times> string \<times> join_result) list"
  jb_queue :: "uuid list"

type_synonym ('e, 'a) job = "('e job_world, 'a) io"

definition ask_job :: "('e \<Rightarrow> 'a \<times> 'e) \<Rightarrow> ('e, 'a) job" where
  "ask_job f = (\<lambda>w. case f (jb_env w) of (a, e') \<Rightarrow> (Inr a, w\<lparr>jb_env := e'\<rparr>))"

definition run_query :: "(time \<Rightarrow> (directory, 'a) tx) \<Rightarrow> ('e, 'a) job" where
  "run_query f = (\<lambda>w. case f (jb_clock w) (jb_dir w) of
     Inl e \<Rightarrow> (Inl e, w) | Inr (a, d') \<Rightarrow> (Inr a, w\<lparr>jb_dir := d'\<rparr>))"

definition pass_time :: "'e job_env \<Rightarrow> ('e, unit) job" where
  "pass_time E = call_then (ask_job (jd_tick E)) (\<lambda>n. io_put (\<lambda>w. w\<lparr>jb_clock := jb_clock w + int n\<rparr>))"

definition dir_query :: "'e job_env \<Rightarrow> (time \<Rightarrow> (directory, 'a) tx) \<Rightarrow> ('e, 'a) job" where
  "dir_query E f = call_then (pass_time E) (\<lambda>_.
     io_query (jd_query E) jb_env (\<lambda>g w. w\<lparr>jb_env := g (jb_env w)\<rparr>) (run_query f))"

definition over_http :: "('e, 'a) joining \<Rightarrow> ('e, 'a) job" where
  "over_http m = (\<lambda>w.
     case m \<lparr>jw_env = jb_env w, jw_requests = jb_requests w, jw_joined = jb_joined w\<rparr> of
       (r, v) \<Rightarrow> (r, w\<lparr>jb_env := jw_env v, jb_requests := jw_requests v, jb_joined := jw_joined v\<rparr>))"

text \<open>An error of discovery is a thrown value like any other here.\<close>

definition over_network :: "('e, 'a) probe \<Rightarrow> ('e, 'a) job" where
  "over_network m = (\<lambda>w.
     case m \<lparr>pb_env = jb_env w, pb_opened = jb_opened w\<rparr> of
       (r, v) \<Rightarrow> (case r of Inl e \<Rightarrow> Inl Raw | Inr a \<Rightarrow> Inr a,
         w\<lparr>jb_env := pb_env v, jb_opened := pb_opened v\<rparr>))"

definition job_seconds :: "('e, int) job" where
  "job_seconds = io_get (\<lambda>w. epoch_seconds (jb_clock w))"

section \<open>Candidates: ingest, schedule, probe\<close>

text \<open>None: \<open>boss.send\<close> throws; False: a job of the candidate was sent within a minute, and
  none is added.\<close>

definition enqueue_candidate_probe :: "'e job_env \<Rightarrow> uuid \<Rightarrow> ('e, unit) job" where
  "enqueue_candidate_probe E i = call_then (ask_job (jd_send E i)) (\<lambda>sent.
     case sent of
       None \<Rightarrow> io_throw Raw
     | Some added \<Rightarrow> if added then io_put (\<lambda>w. w\<lparr>jb_queue := i # jb_queue w\<rparr>) else io_return ())"

definition inject_candidate :: "'e job_env \<Rightarrow> relay_name \<Rightarrow> candidate_source \<Rightarrow> ('e, candidate_record) job" where
  "inject_candidate E relay src =
     call_then (ask_job (jd_uuid E)) (\<lambda>fresh.
     dir_query E (upsert_candidate (jd_web E) (hc_sha256 (jd_client E)) fresh relay src))"

definition ingestion_rejections :: "string list" where
  "ingestion_rejections = [''invalid_url'', ''unsupported_scheme'', ''embedded_credentials'', ''invalid_host'']"

text \<open>The candidate accepted, or the reason of the rejection.\<close>

definition ingest_source_candidate ::
  "'e job_env \<Rightarrow> string \<Rightarrow> candidate_source \<Rightarrow> ('e, string + uuid) job" where
  "ingest_source_candidate E url src = (case normalize_relay_url (jd_web E) url of
     Inl (Discovery code) \<Rightarrow> if code \<in> set ingestion_rejections then io_return (Inl code) else io_throw Raw
   | Inl Runtime_error \<Rightarrow> io_throw Raw
   | Inr relay \<Rightarrow>
       call_then (inject_candidate E relay src) (\<lambda>(i, _, _).
       call_then (enqueue_candidate_probe E i) (\<lambda>_. io_return (Inr i))))"

definition schedule_due_probes :: "'e job_env \<Rightarrow> ('e, unit) job" where
  "schedule_due_probes E =
     call_then (ask_job (jd_locked E)) (\<lambda>locked.
     call_then (dir_query E (claim_due_candidate_ids locked 100)) (\<lambda>ids.
     io_each (enqueue_candidate_probe E) ids))"

definition process_probe_candidate_job :: "'e job_env \<Rightarrow> ('e, 'i) network \<Rightarrow> uuid \<Rightarrow> ('e, unit) job" where
  "process_probe_candidate_job E net i =
     call_then (dir_query E (\<lambda>now. get_candidate i)) (\<lambda>found.
     case found of
       None \<Rightarrow> io_return ()
     | Some (c, url, _) \<Rightarrow>
         call_then (dir_query E (mark_candidate_probing c)) (\<lambda>_.
         call_then (over_network (probe_relay net url)) (\<lambda>result.
         call_then (dir_query E (record_probe_result (jd_bytes E) (jd_bytes_hash E) c result)) (\<lambda>_.
         case result of Probe_ok _ _ \<Rightarrow> io_return () | Probe_failed _ _ \<Rightarrow> io_throw Raw))))"

section \<open>Probing an invite\<close>

definition claim_once ::
  "'e http_client \<Rightarrow> int \<Rightarrow> string \<Rightarrow> string \<Rightarrow> nat list \<Rightarrow> string option \<Rightarrow> ('e, nat \<times> json option) joining" where
  "claim_once hc now host code key receipt =
     call_then (io_res (claim_endpoint host)) (\<lambda>url.
     call_then (signed_post hc now key url (claim_body code receipt)) (\<lambda>answer.
     case answer of
       Unreachable message \<Rightarrow> io_throw Raw
     | Answered status text \<Rightarrow> io_return (status, read_body hc text)))"

definition classify_probe :: "nat \<Rightarrow> json option \<Rightarrow> invite_health" where
  "classify_probe status body =
     (if status = 200 \<or> status = 201 then Invite_live
      else if status = 403 \<and> error_code body = ''invite_expired'' then Invite_expired
      else if status = 403 \<and> error_code body = ''invite_invalid'' then Invite_invalid
      else if status = 403 \<and> error_code body = ''invite_exhausted'' then Invite_exhausted
      else Invite_error)"

definition claim_with_receipt ::
  "'e http_client \<Rightarrow> int \<Rightarrow> string \<Rightarrow> string \<Rightarrow> nat list \<Rightarrow> string \<Rightarrow> ('e, invite_health) joining" where
  "claim_with_receipt hc now host code key version =
     call_then (accept_join_policy hc now host code version True key) (\<lambda>accepted.
     case accepted of
       Inl _ \<Rightarrow> io_return Invite_error
     | Inr receipt \<Rightarrow>
         io_catch (call_then (claim_once hc now host code key (Some receipt))
             (\<lambda>(status, body). io_return (classify_probe status body)))
           (\<lambda>_. io_return Invite_error))"

definition probe_invite ::
  "'e http_client \<Rightarrow> int \<Rightarrow> string \<Rightarrow> string \<Rightarrow> nat list \<Rightarrow> ('e, invite_health) joining" where
  "probe_invite hc now host code key =
     call_then (io_attempt (claim_once hc now host code key None)) (\<lambda>first.
     case first of
       Inl _ \<Rightarrow> io_return Invite_error
     | Inr (status, body) \<Rightarrow>
         if \<not> (status = 403 \<and> is_join_policy_required body) then io_return (classify_probe status body)
         else call_then (io_attempt (get_join_policy hc host)) (\<lambda>policy.
           case policy of
             Inr (Some p) \<Rightarrow> claim_with_receipt hc now host code key (jp_version p)
           | _ \<Rightarrow> io_return Invite_error))"

text \<open>\<open>payload.replace(/-/g, "+").replace(/_/g, "/")\<close>, padded to a multiple of four.\<close>

definition standard_base64 :: "string \<Rightarrow> string" where
  "standard_base64 s =
     map (\<lambda>c. if c = CHR ''-'' then CHR ''+'' else if c = CHR ''_'' then CHR ''/'' else c) s @
     (if length s mod 4 = 0 then [] else replicate (4 - length s mod 4) (CHR ''=''))"

definition parse_invite_expiry :: "'e job_env \<Rightarrow> string \<Rightarrow> int option" where
  "parse_invite_expiry E code =
     (let payload = takeWhile (\<lambda>c. c \<noteq> CHR ''.'') code in
      if payload = [] then None
      else case hc_parse (jd_client E) (jd_decode E (standard_base64 payload)) of
        Some (JObj fs) \<Rightarrow> (case json_field fs ''e'' of
            Some (JInt n) \<Rightarrow> if n > 0 then Some n else None
          | Some (JReal n) \<Rightarrow> if n \<ge> 0 then Some n else None
          | _ \<Rightarrow> None)
      | _ \<Rightarrow> None)"

definition is_expiring_soon :: "'e job_env \<Rightarrow> string \<Rightarrow> int \<Rightarrow> int \<Rightarrow> bool" where
  "is_expiring_soon E code now within =
     (case parse_invite_expiry E code of None \<Rightarrow> False | Some e \<Rightarrow> e - now \<le> within)"

section \<open>Refreshing invites\<close>

definition expiry_refresh_window :: int where
  "expiry_refresh_window = 7 * 24 * 60 * 60"

record refresh_tally =
  rt_checked :: nat
  rt_live :: nat
  rt_replaced :: nat
  rt_still_stale :: nat
  rt_expiring :: nat
  rt_errors :: nat

datatype refresh_outcome = Kept_live | Swapped | Still_stale | Expiring_no_candidate | Refresh_error

definition count_outcome :: "refresh_outcome \<Rightarrow> refresh_tally \<Rightarrow> refresh_tally" where
  "count_outcome r t = (case r of
     Kept_live \<Rightarrow> t\<lparr>rt_live := Suc (rt_live t)\<rparr>
   | Swapped \<Rightarrow> t\<lparr>rt_replaced := Suc (rt_replaced t)\<rparr>
   | Still_stale \<Rightarrow> t\<lparr>rt_still_stale := Suc (rt_still_stale t)\<rparr>
   | Expiring_no_candidate \<Rightarrow> t\<lparr>rt_expiring := Suc (rt_expiring t)\<rparr>
   | Refresh_error \<Rightarrow> t\<lparr>rt_errors := Suc (rt_errors t)\<rparr>)"

text \<open>The probe of the agent, and its entry in the log.\<close>

definition check_invite :: "'e job_env \<Rightarrow> string \<Rightarrow> string \<Rightarrow> ('e, invite_health) job" where
  "check_invite E host code =
     call_then job_seconds (\<lambda>now.
     call_then (over_http (probe_invite (jd_client E) now host code (jd_key E))) (\<lambda>h.
     call_then (io_put (\<lambda>w. w\<lparr>jb_health := (host, code, h) # jb_health w\<rparr>)) (\<lambda>_. io_return h)))"

definition is_dead :: "invite_health \<Rightarrow> bool" where
  "is_dead h \<longleftrightarrow> h \<in> {Invite_expired, Invite_invalid, Invite_exhausted}"

definition lasts_longer :: "'e job_env \<Rightarrow> string \<Rightarrow> string \<Rightarrow> bool" where
  "lasts_longer E old code \<longleftrightarrow> (case parse_invite_expiry E code of
     None \<Rightarrow> False
   | Some e \<Rightarrow> (case parse_invite_expiry E old of None \<Rightarrow> True | Some e0 \<Rightarrow> e > e0))"

text \<open>True when one of the codes was swapped in.\<close>

fun try_candidates ::
  "'e job_env \<Rightarrow> string \<Rightarrow> uuid \<Rightarrow> string \<Rightarrow> bool \<Rightarrow> string list \<Rightarrow> ('e, bool) job" where
  "try_candidates E host i old dead [] = io_return False"
| "try_candidates E host i old dead (code # codes) =
     call_then (check_invite E host code) (\<lambda>h.
     if h \<noteq> Invite_live \<or> (\<not> dead \<and> \<not> lasts_longer E old code)
     then try_candidates E host i old dead codes
     else
       call_then (dir_query E (replace_directory_invite i code)) (\<lambda>_.
       call_then (dir_query E (\<lambda>now. delete_invite_candidate host code)) (\<lambda>_.
       io_return True)))"

definition refresh_invite :: "'e job_env \<Rightarrow> int \<Rightarrow> string \<Rightarrow> uuid \<Rightarrow> string \<Rightarrow> ('e, refresh_outcome) job" where
  "refresh_invite E now host i old =
     call_then (check_invite E host old) (\<lambda>h.
     if h = Invite_error then io_return Refresh_error
     else if h = Invite_live \<and> \<not> is_expiring_soon E old now expiry_refresh_window then io_return Kept_live
     else
       call_then (dir_query E (\<lambda>_. list_invite_candidates host)) (\<lambda>codes.
       call_then (try_candidates E host i old (is_dead h) codes) (\<lambda>swapped.
       io_return (if swapped then Swapped else if is_dead h then Still_stale else Expiring_no_candidate))))"

fun refresh_hosts :: "'e job_env \<Rightarrow> int \<Rightarrow> (string \<times> string) list \<Rightarrow> refresh_tally \<Rightarrow> ('e, refresh_tally) job" where
  "refresh_hosts E now [] t = io_return t"
| "refresh_hosts E now ((host, url) # rest) t =
     call_then (io_attempt (dir_query E (\<lambda>_. get_directory_invite host))) (\<lambda>found.
     case found of
       Inl _ \<Rightarrow> refresh_hosts E now rest (count_outcome Refresh_error t)
     | Inr None \<Rightarrow> refresh_hosts E now rest t
     | Inr (Some (i, old)) \<Rightarrow>
         call_then (io_attempt (refresh_invite E now host i old)) (\<lambda>r.
         refresh_hosts E now rest (count_outcome (case r of Inl _ \<Rightarrow> Refresh_error | Inr out \<Rightarrow> out)
           (t\<lparr>rt_checked := Suc (rt_checked t)\<rparr>))))"

definition no_refreshes :: refresh_tally where
  "no_refreshes = \<lparr>rt_checked = 0, rt_live = 0, rt_replaced = 0, rt_still_stale = 0, rt_expiring = 0,
     rt_errors = 0\<rparr>"

definition refresh_stale_invites :: "'e job_env \<Rightarrow> ('e, refresh_tally) job" where
  "refresh_stale_invites E =
     call_then job_seconds (\<lambda>now.
     call_then (dir_query E (\<lambda>_. list_joined_communities)) (\<lambda>communities.
     refresh_hosts E now communities no_refreshes))"

end
