(* ===== verification/Directory_Passes.thy ===== *)
theory Directory_Passes
  imports Directory_Jobs
begin

text \<open>
  The passes that claim invites as the agent: jobs/probe-joinability.ts,
  validate-submissions.ts and auto-join-communities.ts.
\<close>

section \<open>Joinability\<close>

definition stale_after :: time where
  "stale_after = seconds (12 * 60 * 60)"

definition joinability_max_per_pass :: nat where
  "joinability_max_per_pass = 50"

record joinability_tally =
  jt_checked :: nat
  jt_open :: nat
  jt_gated :: nat
  jt_restricted :: nat
  jt_stale :: nat
  jt_unknown :: nat
  jt_errors :: nat

definition tally :: "join_status \<Rightarrow> joinability_tally \<Rightarrow> joinability_tally" where
  "tally s t = (case s of
     Open \<Rightarrow> t\<lparr>jt_open := Suc (jt_open t)\<rparr>
   | Policy_gated \<Rightarrow> t\<lparr>jt_gated := Suc (jt_gated t)\<rparr>
   | Restricted \<Rightarrow> t\<lparr>jt_restricted := Suc (jt_restricted t)\<rparr>
   | Stale \<Rightarrow> t\<lparr>jt_stale := Suc (jt_stale t)\<rparr>
   | Unknown \<Rightarrow> t\<lparr>jt_unknown := Suc (jt_unknown t)\<rparr>)"

definition check_joinability :: "'e job_env \<Rightarrow> uuid \<times> string \<times> string \<Rightarrow> ('e, join_status) job" where
  "check_joinability E = (\<lambda>(i, host, code).
     call_then job_seconds (\<lambda>now.
     call_then (over_http (probe_joinability (jd_client E) now host code)) (\<lambda>(status, detail).
     call_then (dir_query E (record_join_probe i (Some code) status detail)) (\<lambda>_.
     io_return status))))"

fun check_targets :: "'e job_env \<Rightarrow> (uuid \<times> string \<times> string) list \<Rightarrow> joinability_tally \<Rightarrow>
    ('e, joinability_tally) job" where
  "check_targets E [] t = io_return t"
| "check_targets E (x # xs) t =
     call_then (io_attempt (check_joinability E x)) (\<lambda>r.
     check_targets E xs (case r of
         Inl _ \<Rightarrow> t\<lparr>jt_errors := Suc (jt_errors t)\<rparr>
       | Inr status \<Rightarrow> tally status (t\<lparr>jt_checked := Suc (jt_checked t)\<rparr>)))"

definition no_checks :: joinability_tally where
  "no_checks = \<lparr>jt_checked = 0, jt_open = 0, jt_gated = 0, jt_restricted = 0, jt_stale = 0,
     jt_unknown = 0, jt_errors = 0\<rparr>"

definition probe_community_joinability :: "'e job_env \<Rightarrow> nat \<Rightarrow> ('e, joinability_tally) job" where
  "probe_community_joinability E limit =
     call_then (io_get jb_clock) (\<lambda>now.
     call_then (dir_query E (\<lambda>_. list_candidates_for_join_probe (js_time now - stale_after) limit)) (\<lambda>targets.
     check_targets E targets no_checks))"

section \<open>Already a member\<close>

definition begins :: "string \<Rightarrow> string \<Rightarrow> bool" where
  "begins p s \<longleftrightarrow> take (length p) s = p"

text \<open>\<open>already\s+(a\s+)?(member|joined)\<close> or \<open>already\s+in\<close>, at the start of the text.\<close>

definition already_here :: "string \<Rightarrow> bool" where
  "already_here s \<longleftrightarrow> begins ''already'' s \<and>
     (let r = drop 7 s; t = dropWhile js_space r in
      r \<noteq> t \<and> (begins ''member'' t \<or> begins ''joined'' t \<or> begins ''in'' t \<or>
        begins ''a'' t \<and> (let q = drop 1 t; u = dropWhile js_space q in
          q \<noteq> u \<and> (begins ''member'' u \<or> begins ''joined'' u))))"

fun says_already :: "string \<Rightarrow> bool" where
  "says_already [] \<longleftrightarrow> False"
| "says_already (c # cs) \<longleftrightarrow> already_here (c # cs) \<or> says_already cs"

definition member_text :: "json option \<Rightarrow> string" where
  "member_text body = to_lower (error_text body)"

definition is_already_member :: "join_result \<Rightarrow> bool" where
  "is_already_member r = (case r of
     Joined _ _ \<Rightarrow> False | Terms_required \<Rightarrow> says_already (member_text None)
   | Join_failed _ _ body \<Rightarrow> says_already (member_text body))"

definition join_reason :: "join_result \<Rightarrow> string" where
  "join_reason r = (case r of
     Joined _ _ \<Rightarrow> [] | Terms_required \<Rightarrow> ''terms_required''
   | Join_failed _ (Some f) _ \<Rightarrow> failure_name f | Join_failed _ None _ \<Rightarrow> ''policy_accept_failed'')"

definition joined_id :: "join_result \<Rightarrow> string option" where
  "joined_id r = (case r of Joined _ body \<Rightarrow> community_id_from_body body | _ \<Rightarrow> None)"

definition is_joined :: "join_result \<Rightarrow> bool" where
  "is_joined r = (case r of Joined _ _ \<Rightarrow> True | _ \<Rightarrow> False)"

text \<open>Joining as the agent, with consent, and the entry in the log.\<close>

definition join_as_agent :: "'e job_env \<Rightarrow> string \<Rightarrow> string \<Rightarrow> ('e, join_result) job" where
  "join_as_agent E host code =
     call_then job_seconds (\<lambda>now.
     call_then (over_http (join_community (jd_client E) now host code (jd_key E) True)) (\<lambda>r.
     call_then (io_put (\<lambda>w. w\<lparr>jb_answers := (host, code, r) # jb_answers w\<rparr>)) (\<lambda>_. io_return r)))"

section \<open>Validating submissions\<close>

record validations_tally =
  vt_processed :: nat
  vt_valid :: nat
  vt_invalid :: nat
  vt_errors :: nat

definition submission_source :: "'e job_env \<Rightarrow> validation \<Rightarrow> candidate_source" where
  "submission_source E v = \<lparr>cs_type = ''submission'', cs_locator = Some (jd_origin E @ ''/submit''),
     cs_actor = None, cs_evidence = Some (vl_host v), cs_observed = None,
     cs_listing = Some (empty_listing\<lparr>ls_invite := Some (vl_code v)\<rparr>)\<rparr>"

definition as_thrown :: "'a discovery \<Rightarrow> 'a res" where
  "as_thrown r = (case r of Inl _ \<Rightarrow> Inl Raw | Inr a \<Rightarrow> Inr a)"

definition accept_submission :: "'e job_env \<Rightarrow> validation \<Rightarrow> join_result \<Rightarrow> ('e, unit) job" where
  "accept_submission E v r =
     call_then (io_res (as_thrown (normalize_relay_url (jd_web E) (vl_url v)))) (\<lambda>relay.
     call_then (inject_candidate E relay (submission_source E v)) (\<lambda>(i, _, _).
     call_then (dir_query E (upsert_membership (vl_host v) (vl_url v) (joined_id r))) (\<lambda>_.
     dir_query E (resolve_submission_validation (vl_id v) Valid (Some i) None))))"

text \<open>True when the invite was good.\<close>

definition settle :: "'e job_env \<Rightarrow> validation \<Rightarrow> ('e, bool) job" where
  "settle E v =
     call_then (join_as_agent E (vl_host v) (vl_code v)) (\<lambda>r.
     if is_joined r \<or> is_already_member r
     then call_then (accept_submission E v r) (\<lambda>_. io_return True)
     else call_then (dir_query E (resolve_submission_validation (vl_id v) Invalid None (Some (join_reason r))))
       (\<lambda>_. io_return False))"

definition count_settled :: "err + bool \<Rightarrow> validations_tally \<Rightarrow> validations_tally" where
  "count_settled r t = (case r of
     Inr True \<Rightarrow> t\<lparr>vt_valid := Suc (vt_valid t)\<rparr>
   | Inr False \<Rightarrow> t\<lparr>vt_invalid := Suc (vt_invalid t)\<rparr>
   | Inl _ \<Rightarrow> t\<lparr>vt_errors := Suc (vt_errors t)\<rparr>)"

definition settle_or_fail :: "'e job_env \<Rightarrow> validation \<Rightarrow> ('e, err + bool) job" where
  "settle_or_fail E v =
     call_then (io_attempt (settle E v)) (\<lambda>r.
     case r of
       Inl e \<Rightarrow> call_then (io_attempt (dir_query E
           (resolve_submission_validation (vl_id v) Failed_validation None (Some (jd_message E e)))))
         (\<lambda>_. io_return r)
     | Inr b \<Rightarrow> io_return r)"

fun settle_all :: "'e job_env \<Rightarrow> validation list \<Rightarrow> validations_tally \<Rightarrow> ('e, validations_tally) job" where
  "settle_all E [] t = io_return t"
| "settle_all E (v # vs) t =
     call_then (settle_or_fail E v) (\<lambda>r.
     settle_all E vs (count_settled r (t\<lparr>vt_processed := Suc (vt_processed t)\<rparr>)))"

definition process_pending_validations :: "'e job_env \<Rightarrow> nat \<Rightarrow> ('e, validations_tally) job" where
  "process_pending_validations E batch =
     call_then (ask_job (jd_locked E)) (\<lambda>locked.
     call_then (dir_query E (\<lambda>_. claim_pending_validations locked batch)) (\<lambda>rows.
     settle_all E rows \<lparr>vt_processed = 0, vt_valid = 0, vt_invalid = 0, vt_errors = 0\<rparr>))"

section \<open>Joining what the directory lists\<close>

record joinable =
  jc_host :: string
  jc_url :: string
  jc_code :: "string option"

definition joinable_of :: "json \<Rightarrow> joinable list" where
  "joinable_of entry = (case entry of
     JObj fs \<Rightarrow>
       (case (string_field fs ''host'', string_field fs ''relayUrl'') of
          (Some h, Some u) \<Rightarrow>
            if h = [] \<or> u = [] then []
            else [\<lparr>jc_host = h, jc_url = u,
              jc_code = (case string_field fs ''inviteCode'' of Some c \<Rightarrow> if c = [] then None else Some c
                | None \<Rightarrow> None)\<rparr>]
        | _ \<Rightarrow> [])
   | _ \<Rightarrow> [])"

definition joinable_list :: "json \<Rightarrow> joinable list res" where
  "joinable_list parsed =
     (case (case parsed of JArr es \<Rightarrow> Some (JArr es) | JObj fs \<Rightarrow> json_field fs ''communities'' | _ \<Rightarrow> None) of
        Some (JArr es) \<Rightarrow> Inr (concat (map joinable_of es))
      | _ \<Rightarrow> Inl Raw)"

definition joinable_communities_endpoint :: "string \<Rightarrow> string" where
  "joinable_communities_endpoint origin = without_slashes origin @ ''/api/communities?joinable=true''"

definition fetch_joinable_communities :: "'e http_client \<Rightarrow> string \<Rightarrow> ('e, joinable list) joining" where
  "fetch_joinable_communities hc origin =
     call_then (send_request hc \<lparr>rq_method = ''GET'', rq_url = joinable_communities_endpoint origin,
         rq_body = None, rq_authorization = None\<rparr>) (\<lambda>answer.
     io_res (case answer of
         Answered status (Some text) \<Rightarrow>
           if 200 \<le> status \<and> status \<le> 299
           then (case hc_parse hc text of None \<Rightarrow> Inl Raw | Some v \<Rightarrow> joinable_list v) else Inl Raw
       | _ \<Rightarrow> Inl Raw))"

record join_tally =
  at_attempted :: nat
  at_joined :: nat
  at_already :: nat
  at_skipped :: nat
  at_failed :: nat

datatype join_outcome = Newly_joined | Already_joined | Join_refused

definition count_join :: "err + join_outcome \<Rightarrow> join_tally \<Rightarrow> join_tally" where
  "count_join r t = (case r of
     Inr Newly_joined \<Rightarrow> t\<lparr>at_joined := Suc (at_joined t)\<rparr>
   | Inr Already_joined \<Rightarrow> t\<lparr>at_already := Suc (at_already t)\<rparr>
   | _ \<Rightarrow> t\<lparr>at_failed := Suc (at_failed t)\<rparr>)"

definition join_listed :: "'e job_env \<Rightarrow> joinable \<Rightarrow> string \<Rightarrow> ('e, join_outcome) job" where
  "join_listed E c code =
     call_then (join_as_agent E (jc_host c) code) (\<lambda>r.
     if is_joined r
     then call_then (dir_query E (upsert_membership (jc_host c) (jc_url c) (joined_id r)))
       (\<lambda>_. io_return Newly_joined)
     else if is_already_member r
     then call_then (dir_query E (upsert_membership (jc_host c) (jc_url c) None))
       (\<lambda>_. io_return Already_joined)
     else io_return Join_refused)"

fun join_each :: "'e job_env \<Rightarrow> string set \<Rightarrow> joinable list \<Rightarrow> join_tally \<Rightarrow> ('e, join_tally) job" where
  "join_each E joined [] t = io_return t"
| "join_each E joined (c # cs) t =
     (if jc_host c \<in> joined then join_each E joined cs (t\<lparr>at_already := Suc (at_already t)\<rparr>)
      else case jc_code c of
        None \<Rightarrow> join_each E joined cs (t\<lparr>at_skipped := Suc (at_skipped t)\<rparr>)
      | Some code \<Rightarrow>
          call_then (io_attempt (join_listed E c code)) (\<lambda>r.
          join_each E joined cs (count_join r (t\<lparr>at_attempted := Suc (at_attempted t)\<rparr>))))"

definition auto_join_communities :: "'e job_env \<Rightarrow> ('e, join_tally) job" where
  "auto_join_communities E =
     call_then (over_http (fetch_joinable_communities (jd_client E) (jd_origin E))) (\<lambda>communities.
     call_then (dir_query E (\<lambda>_. list_joined_communities)) (\<lambda>joined.
     join_each E (fst ` set joined) communities
       \<lparr>at_attempted = 0, at_joined = 0, at_already = 0, at_skipped = 0, at_failed = 0\<rparr>))"

end
