(* ===== verification/Directory_Invariants.thy ===== *)
theory Directory_Invariants
  imports Directory_Invites
begin

text \<open>
  The directory as a state machine: one step per query of src/db/candidates.ts,
  join-probes.ts, presence.ts and submission-validations.ts that writes, and what
  holds in every directory reached from the empty one: the constraints of the
  migrations, the rows behind a verified candidate, and the finality of a
  suppression.
\<close>

section \<open>Constraints\<close>

definition candidates_fine :: "dir_candidate list \<Rightarrow> bool" where
  "candidates_fine cs \<longleftrightarrow> distinct (map cand_id cs) \<and> distinct (map cand_relay_url cs) \<and>
     (\<forall>c \<in> set cs. origin_only (cand_relay_url c))"

definition source_key :: "source_row \<Rightarrow> uuid \<times> string \<times> string" where
  "source_key s = (so_candidate s, so_type s, so_hash s)"

definition sources_fine :: "uuid set \<Rightarrow> source_row list \<Rightarrow> bool" where
  "sources_fine ids ss \<longleftrightarrow> distinct (map source_key ss) \<and>
     (\<forall>s \<in> set ss. source_check s \<and> so_candidate s \<in> ids)"

definition icons_fine :: "uuid set \<Rightarrow> (uuid \<times> icon) list \<Rightarrow> bool" where
  "icons_fine ids is \<longleftrightarrow> distinct (map fst is) \<and> (\<forall>(i, p) \<in> set is. i \<in> ids \<and> icon_check p)"

definition probes_fine :: "uuid set \<Rightarrow> join_probe list \<Rightarrow> bool" where
  "probes_fine ids ps \<longleftrightarrow> distinct (map jn_candidate ps) \<and> (\<forall>p \<in> set ps. jn_candidate p \<in> ids)"

definition invite_key :: "harvested_invite \<Rightarrow> string \<times> string" where
  "invite_key h = (hv_host h, hv_code h)"

definition candidate_ids :: "directory \<Rightarrow> uuid set" where
  "candidate_ids d = cand_id ` set (dr_candidates d)"

definition directory_ok :: "directory \<Rightarrow> bool" where
  "directory_ok d \<longleftrightarrow> candidates_fine (dr_candidates d) \<and>
     sources_fine (candidate_ids d) (dr_sources d) \<and>
     (\<forall>s \<in> set (dr_snapshots d). sn_candidate s \<in> candidate_ids d) \<and>
     icons_fine (candidate_ids d) (dr_icons d) \<and> probes_fine (candidate_ids d) (dr_join_probes d) \<and>
     distinct (map mb_host (dr_members d)) \<and> distinct (map invite_key (dr_harvested d)) \<and>
     distinct (map vl_id (dr_validations d))"

definition empty_directory :: directory where
  "empty_directory = \<lparr>dr_candidates = [], dr_sources = [], dr_snapshots = [], dr_icons = [],
     dr_join_probes = [], dr_members = [], dr_harvested = [], dr_validations = []\<rparr>"

lemmas fine_defs = candidates_fine_def sources_fine_def icons_fine_def probes_fine_def

lemma empty_directory_ok: "directory_ok empty_directory"
  by (simp add: directory_ok_def empty_directory_def fine_defs)

section \<open>Keys under an insert-or-update\<close>

text \<open>
  The shape of \<open>INSERT ... ON CONFLICT (key) DO UPDATE\<close>: rows of the key are updated and
  keep it, or the new row is appended.
\<close>

definition upsert_row :: "('r \<Rightarrow> bool) \<Rightarrow> ('r \<Rightarrow> bool) \<Rightarrow> ('r \<Rightarrow> 'r) \<Rightarrow> 'r \<Rightarrow> 'r list \<Rightarrow> 'r list" where
  "upsert_row taken P f r rs = (if has_row taken rs then update_where P f rs else rs @ [r])"

lemma upsert_row_distinct:
  assumes "distinct (map k rs)" "\<And>x. x \<in> set rs \<Longrightarrow> taken x \<longleftrightarrow> k x = k r" "\<And>x. P x \<Longrightarrow> k (f x) = k x"
  shows "distinct (map k (upsert_row taken P f r rs))"
proof -
  have "map k (update_where P f rs) = map k rs"
    using assms(3) by (simp add: update_where_def)
  with assms show ?thesis
    by (auto simp: upsert_row_def has_row_iff)
qed

lemma upsert_row_all:
  "\<forall>x \<in> set rs. Q x \<Longrightarrow> (\<And>x. Q x \<Longrightarrow> P x \<Longrightarrow> Q (f x)) \<Longrightarrow> Q r \<Longrightarrow> \<forall>x \<in> set (upsert_row taken P f r rs). Q x"
  by (auto simp: upsert_row_def set_update_where)

section \<open>Every query keeps the constraints\<close>

lemma candidate_by_id_ids: "candidate_by_id i d \<noteq> None \<longleftrightarrow> i \<in> candidate_ids d"
  by (auto simp: candidate_by_id_def candidate_ids_def find_None_set)

lemma ids_update [simp]:
  assumes "\<And>c. cand_id (f c) = cand_id c"
  shows "candidate_ids (update_candidates P f d) = candidate_ids d"
proof -
  have "map cand_id (update_where P f (dr_candidates d)) = map cand_id (dr_candidates d)"
    using assms by simp
  then have "set (map cand_id (update_where P f (dr_candidates d))) = set (map cand_id (dr_candidates d))"
    by (rule arg_cong)
  then show ?thesis by (simp add: candidate_ids_def update_candidates_def)
qed

lemma ids_other [simp]:
  "candidate_ids (d\<lparr>dr_sources := a\<rparr>) = candidate_ids d" "candidate_ids (d\<lparr>dr_snapshots := b\<rparr>) = candidate_ids d"
  "candidate_ids (d\<lparr>dr_icons := e\<rparr>) = candidate_ids d" "candidate_ids (d\<lparr>dr_join_probes := p\<rparr>) = candidate_ids d"
  "candidate_ids (d\<lparr>dr_members := m\<rparr>) = candidate_ids d" "candidate_ids (d\<lparr>dr_harvested := h\<rparr>) = candidate_ids d"
  "candidate_ids (d\<lparr>dr_validations := v\<rparr>) = candidate_ids d"
  by (simp_all add: candidate_ids_def)

lemma update_candidates_ok:
  assumes "\<And>c. cand_id (f c) = cand_id c" "\<And>c. cand_relay_url (f c) = cand_relay_url c" "directory_ok d"
  shows "directory_ok (update_candidates P f d)"
  using assms(3) ids_update [of f P d] assms(1,2)
  by (auto simp: directory_ok_def candidates_fine_def update_candidates_def set_update_where)

lemma insert_candidate_ok [keeps_intros]: "keeps directory_ok (insert_candidate fresh relay t now)"
proof (rule keepsI)
  fix d c d' assume ok: "directory_ok d" and run: "insert_candidate fresh relay t now d = Inr (c, d')"
  then have url: "origin_only (rn_url relay)" by (auto simp: insert_candidate_def split: if_splits)
  show "directory_ok d'"
  proof (cases "candidate_by_url (rn_url relay) d")
    case None
    with run url have new: "fresh \<notin> candidate_ids d"
      "d' = d\<lparr>dr_candidates := dr_candidates d @ [new_candidate fresh relay now]\<rparr>"
      using candidate_by_id_ids [of fresh d] by (auto simp: insert_candidate_def split: if_splits)
    have "rn_url relay \<notin> cand_relay_url ` set (dr_candidates d)"
      using None by (auto simp: candidate_by_url_def find_None_set)
    with new url ok show ?thesis
      by (auto simp: directory_ok_def fine_defs candidate_ids_def new_candidate_def)
  next
    case (Some c')
    with run url have "d' = update_candidates (\<lambda>r. cand_relay_url r = rn_url relay) (seen_again t now) d"
      by (simp add: insert_candidate_def)
    then show ?thesis using ok by (simp add: update_candidates_ok seen_again_def)
  qed
qed

lemma source_again_key: "source_key (source_again new s) = source_key s"
  by (simp add: source_again_def source_key_def)

lemma insert_source_ok [keeps_intros]: "keeps directory_ok (insert_source s)"
proof (rule keepsI)
  fix d u d' assume ok: "directory_ok d" and run: "insert_source s d = Inr (u, d')"
  then have d': "d' = d\<lparr>dr_sources := upsert_row (same_source s) (same_source s) (source_again s) s (dr_sources d)\<rparr>"
    and good: "source_check s" "so_candidate s \<in> candidate_ids d"
    using candidate_by_id_ids [of "so_candidate s" d]
    by (auto simp: insert_source_def upsert_row_def split: if_splits)
  have "distinct (map source_key (upsert_row (same_source s) (same_source s) (source_again s) s (dr_sources d)))"
    using ok by (intro upsert_row_distinct)
      (auto simp: directory_ok_def sources_fine_def same_source_def source_key_def source_again_def)
  moreover have "\<forall>x \<in> set (upsert_row (same_source s) (same_source s) (source_again s) s (dr_sources d)).
      source_check x \<and> so_candidate x \<in> candidate_ids d"
    using ok good by (intro upsert_row_all)
      (auto simp: directory_ok_def sources_fine_def source_check_def source_again_def)
  ultimately show "directory_ok d'" using ok by (simp add: directory_ok_def sources_fine_def d')
qed

lemma upsert_candidate_ok [keeps_intros]: "keeps directory_ok (upsert_candidate W sha fresh relay src now)"
  unfolding upsert_candidate_def by (cases "sanitize_source_locator W (cs_locator src)") (simp_all add: keeps_intros)

lemma reads_ok [keeps_intros]:
  "keeps directory_ok (get_candidate i)" "keeps directory_ok (get_candidate_invite_target i)"
  "keeps directory_ok (list_candidates_for_join_probe t n)" "keeps directory_ok list_joined_communities"
  "keeps directory_ok (get_directory_invite h)" "keeps directory_ok (list_invite_candidates h)"
  "keeps directory_ok (get_submission_validation i)"
  by (simp_all add: keeps_read get_candidate_def get_candidate_invite_target_def
      list_candidates_for_join_probe_def list_joined_communities_def get_directory_invite_def
      list_invite_candidates_def get_submission_validation_def)

lemma mark_candidate_probing_ok [keeps_intros]: "keeps directory_ok (mark_candidate_probing i now)"
  unfolding mark_candidate_probing_def by (rule keeps_write) (rule update_candidates_ok, simp_all)

lemma insert_snapshot_ok [keeps_intros]: "keeps directory_ok (insert_snapshot s)"
proof (rule keepsI)
  fix d u d' assume ok: "directory_ok d" and run: "insert_snapshot s d = Inr (u, d')"
  then have "sn_candidate s \<in> candidate_ids d" "d' = d\<lparr>dr_snapshots := dr_snapshots d @ [s]\<rparr>"
    using candidate_by_id_ids [of "sn_candidate s" d] by (auto simp: insert_snapshot_def split: if_splits)
  with ok show "directory_ok d'" by (auto simp: directory_ok_def)
qed

lemma icon_queries_ok [keeps_intros]:
  "keeps directory_ok (upsert_community_icon i p)" "keeps directory_ok (delete_community_icon i)"
proof -
  show "keeps directory_ok (upsert_community_icon i p)"
  proof (rule keepsI)
    fix d u d' assume ok: "directory_ok d" and run: "upsert_community_icon i p d = Inr (u, d')"
    let ?rows = "upsert_row (\<lambda>r. fst r = i) (\<lambda>r. fst r = i \<and> ic_hash (snd r) \<noteq> ic_hash p) (\<lambda>r. (i, p))
      (i, p) (dr_icons d)"
    have d': "d' = d\<lparr>dr_icons := ?rows\<rparr>" and good: "icon_check p" "i \<in> candidate_ids d"
      using run candidate_by_id_ids [of i d]
      by (auto simp: upsert_community_icon_def upsert_row_def split: if_splits)
    have "distinct (map fst ?rows)"
      using ok by (intro upsert_row_distinct) (auto simp: directory_ok_def icons_fine_def)
    moreover have "\<forall>x \<in> set ?rows. fst x \<in> candidate_ids d \<and> icon_check (snd x)"
      using ok good by (intro upsert_row_all) (auto simp: directory_ok_def icons_fine_def)
    ultimately show "directory_ok d'" using ok by (auto simp: directory_ok_def icons_fine_def d')
  qed
  show "keeps directory_ok (delete_community_icon i)"
    unfolding delete_community_icon_def
    by (rule keeps_write) (auto simp: directory_ok_def icons_fine_def distinct_map_filter_key)
qed

lemma record_probe_result_ok [keeps_intros]: "keeps directory_ok (record_probe_result dec sha i result now)"
  unfolding record_probe_result_def
  by (cases result)
    (auto intro!: keeps_intros keeps_write update_candidates_ok simp: after_failure_def after_probe_def
      split: option.split)

lemma claim_due_ok [keeps_intros]: "keeps directory_ok (claim_due_candidate_ids locked n now)"
  by (rule keepsI) (auto simp: claim_due_candidate_ids_def Let_def split: if_splits intro!: update_candidates_ok)

lemma record_join_probe_ok [keeps_intros]: "keeps directory_ok (record_join_probe i code status detail now)"
proof (rule keepsI)
  fix d u d' assume ok: "directory_ok d" and run: "record_join_probe i code status detail now d = Inr (u, d')"
  let ?p = "\<lparr>jn_candidate = i, jn_code = code, jn_status = status, jn_detail = detail, jn_probed = now\<rparr>"
  let ?rows = "upsert_row (\<lambda>q. jn_candidate q = i) (\<lambda>q. jn_candidate q = i) (\<lambda>q. ?p) ?p (dr_join_probes d)"
  have d': "d' = d\<lparr>dr_join_probes := ?rows\<rparr>" and good: "i \<in> candidate_ids d"
    using run candidate_by_id_ids [of i d]
    by (auto simp: record_join_probe_def upsert_row_def Let_def split: if_splits)
  have "distinct (map jn_candidate ?rows)"
    using ok by (intro upsert_row_distinct) (auto simp: directory_ok_def probes_fine_def)
  moreover have "\<forall>x \<in> set ?rows. jn_candidate x \<in> candidate_ids d"
    using ok good by (intro upsert_row_all) (auto simp: directory_ok_def probes_fine_def)
  ultimately show "directory_ok d'" using ok by (auto simp: directory_ok_def probes_fine_def d')
qed

lemma upsert_membership_ok [keeps_intros]: "keeps directory_ok (upsert_membership h url c now)"
proof (rule keepsI)
  fix d u d' assume ok: "directory_ok d" and run: "upsert_membership h url c now d = Inr (u, d')"
  let ?com = "map_option uuid_text c"
  let ?rows = "upsert_row (\<lambda>m. mb_host m = h) (\<lambda>m. mb_host m = h)
    (\<lambda>m. m\<lparr>mb_url := url, mb_community := or_else ?com (mb_community m)\<rparr>)
    \<lparr>mb_host = h, mb_url = url, mb_community = ?com, mb_joined = now\<rparr> (dr_members d)"
  have d': "d' = d\<lparr>dr_members := ?rows\<rparr>"
    using run by (auto simp: upsert_membership_def upsert_row_def Let_def split: if_splits)
  have "distinct (map mb_host ?rows)"
    using ok by (intro upsert_row_distinct) (auto simp: directory_ok_def)
  then show "directory_ok d'" using ok by (auto simp: directory_ok_def d')
qed

lemma invite_queries_ok [keeps_intros]:
  "keeps directory_ok (record_invite_candidate h c src now)" "keeps directory_ok (delete_invite_candidate h c)"
proof -
  show "keeps directory_ok (record_invite_candidate h c src now)"
  proof (rule keepsI)
    fix d u d' assume ok: "directory_ok d" and run: "record_invite_candidate h c src now d = Inr (u, d')"
    let ?rows = "upsert_row (same_invite h c) (same_invite h c)
      (\<lambda>x. x\<lparr>hv_seen := now, hv_source := or_else src (hv_source x)\<rparr>)
      \<lparr>hv_host = h, hv_code = c, hv_source = src, hv_seen = now\<rparr> (dr_harvested d)"
    have d': "d' = d\<lparr>dr_harvested := ?rows\<rparr>"
      using run by (auto simp: record_invite_candidate_def upsert_row_def split: if_splits)
    have "distinct (map invite_key ?rows)"
      using ok by (intro upsert_row_distinct) (auto simp: directory_ok_def same_invite_def invite_key_def)
    then show "directory_ok d'" using ok by (auto simp: directory_ok_def d')
  qed
  show "keeps directory_ok (delete_invite_candidate h c)"
    unfolding delete_invite_candidate_def
    by (rule keeps_write) (auto simp: directory_ok_def distinct_map_filter_key)
qed

lemma with_code_candidate [simp]: "so_candidate (with_code code now s) = so_candidate s"
  by (simp add: with_code_def)

lemma replace_directory_invite_ok [keeps_intros]: "keeps directory_ok (replace_directory_invite i code now)"
proof (rule keepsI)
  fix d u d' assume ok: "directory_ok d" and run: "replace_directory_invite i code now d = Inr (u, d')"
  let ?rows = "update_where (\<lambda>s. so_candidate s = i) (with_code code now) (dr_sources d)"
  have d': "d' = d\<lparr>dr_sources := ?rows\<rparr>"
    and len: "has_row (\<lambda>s. so_candidate s = i) (dr_sources d) \<Longrightarrow> 1 \<le> length code \<and> length code \<le> 200"
    using run by (auto simp: replace_directory_invite_def split: if_splits)
  have "map source_key ?rows = map source_key (dr_sources d)" by (simp add: with_code_def source_key_def)
  moreover have "source_check (with_code code now s)" if "source_check s" "1 \<le> length code \<and> length code \<le> 200" for s
    using that by (simp add: source_check_def with_code_def listing_check_def opt_check_def)
  then have "\<forall>x \<in> set ?rows. source_check x \<and> so_candidate x \<in> candidate_ids d"
    using ok len by (auto simp: directory_ok_def sources_fine_def set_update_where has_row_iff with_code_candidate)
  ultimately show "directory_ok d'" using ok by (simp add: directory_ok_def sources_fine_def d')
qed

lemma validation_queries_ok [keeps_intros]:
  "keeps directory_ok (create_submission_validation fresh h u c now)"
  "keeps directory_ok (claim_pending_validations locked n)"
  "keeps directory_ok (resolve_submission_validation i st cand msg now)"
  by (rule keepsI, auto simp: directory_ok_def create_submission_validation_def claim_pending_validations_def
      resolve_submission_validation_def has_row_iff Let_def split: if_splits)+

section \<open>Steps\<close>

text \<open>What \<open>probeRelay\<close> returns, over the URL parser \<open>W\<close>: a success classifies its document.\<close>

definition probe_outcome :: "web \<Rightarrow> probe_result \<Rightarrow> bool" where
  "probe_outcome W result = (case result of Probe_failed _ _ \<Rightarrow> True
     | Probe_ok _ p \<Rightarrow> ps_classification p = classify_buzz_relay W (ps_nip11 p) True)"

lemma probe_relay_outcome:
  assumes "probe_relay net url w = (Inr result, w')"
  shows "probe_outcome (nw_web net) result"
  using assms
  by (auto simp: probe_relay_def probe_both_def probe_then_def probe_res_def probe_outcome_def
      split: prod.splits sum.splits)

text \<open>One writing query, whatever its arguments.\<close>

inductive directory_step :: "web \<Rightarrow> directory \<Rightarrow> directory \<Rightarrow> bool" for W :: web where
  step_upsert: "upsert_candidate W sha fresh relay src now d = Inr (r, d') \<Longrightarrow> directory_step W d d'"
| step_probing: "mark_candidate_probing i now d = Inr (u, d') \<Longrightarrow> directory_step W d d'"
| step_probed: "probe_outcome W result \<Longrightarrow>
    record_probe_result dec sha i result now d = Inr (u, d') \<Longrightarrow> directory_step W d d'"
| step_icon: "upsert_community_icon i p d = Inr (u, d') \<Longrightarrow> directory_step W d d'"
| step_due: "claim_due_candidate_ids locked n now d = Inr (ids, d') \<Longrightarrow> directory_step W d d'"
| step_join_probe: "record_join_probe i code status detail now d = Inr (u, d') \<Longrightarrow> directory_step W d d'"
| step_membership: "upsert_membership h url c now d = Inr (u, d') \<Longrightarrow> directory_step W d d'"
| step_harvest: "record_invite_candidate h code origin now d = Inr (u, d') \<Longrightarrow> directory_step W d d'"
| step_replace: "replace_directory_invite i code now d = Inr (u, d') \<Longrightarrow> directory_step W d d'"
| step_delete: "delete_invite_candidate h code d = Inr (u, d') \<Longrightarrow> directory_step W d d'"
| step_submit: "create_submission_validation fresh h url code now d = Inr (v, d') \<Longrightarrow> directory_step W d d'"
| step_claim: "claim_pending_validations locked n d = Inr (vs, d') \<Longrightarrow> directory_step W d d'"
| step_resolve: "resolve_submission_validation i status c message now d = Inr (u, d') \<Longrightarrow> directory_step W d d'"

definition directory_reachable :: "web \<Rightarrow> directory \<Rightarrow> bool" where
  "directory_reachable W = (directory_step W)\<^sup>*\<^sup>* empty_directory"

lemma directory_invariant:
  assumes "directory_reachable W d" "I empty_directory"
    "\<And>d d'. I d \<Longrightarrow> directory_step W d d' \<Longrightarrow> I d'"
  shows "I d"
  using assms(1) unfolding directory_reachable_def
  by (induction rule: rtranclp_induct) (use assms(2,3) in auto)

lemmas writing_queries_ok = keepsD [OF upsert_candidate_ok] keepsD [OF mark_candidate_probing_ok]
  keepsD [OF record_probe_result_ok] keepsD [OF icon_queries_ok(1)] keepsD [OF claim_due_ok]
  keepsD [OF record_join_probe_ok] keepsD [OF upsert_membership_ok] keepsD [OF invite_queries_ok(1)]
  keepsD [OF replace_directory_invite_ok] keepsD [OF invite_queries_ok(2)]
  keepsD [OF validation_queries_ok(1)] keepsD [OF validation_queries_ok(2)] keepsD [OF validation_queries_ok(3)]

lemma directory_step_ok: "directory_ok d \<Longrightarrow> directory_step W d d' \<Longrightarrow> directory_ok d'"
  by (erule directory_step.cases; hypsubst; erule (1) writing_queries_ok)

lemma reachable_ok: "directory_reachable W d \<Longrightarrow> directory_ok d"
  using directory_invariant [where I = directory_ok] empty_directory_ok directory_step_ok by blast

end
