(* ===== verification/Directory_Properties.thy ===== *)
theory Directory_Properties
  imports Directory_Invariants
begin

text \<open>
  What the candidates of the directory promise: a verified one was probed, a
  suppressed one stays so, a due one is handed out once, and what a source reports
  about a well-formed relay is always stored.
\<close>

section \<open>Queries that leave the candidates alone\<close>

definition same_candidates :: "directory \<Rightarrow> directory \<Rightarrow> bool" where
  "same_candidates d d' \<longleftrightarrow> dr_candidates d' = dr_candidates d \<and> dr_snapshots d' = dr_snapshots d"

lemma same_candidates_refl [simp]: "same_candidates d d"
  by (simp add: same_candidates_def)

lemma other_queries:
  "insert_source s d = Inr (u1, d') \<Longrightarrow> same_candidates d d'"
  "upsert_community_icon i p d = Inr (u2, d') \<Longrightarrow> same_candidates d d'"
  "delete_community_icon i d = Inr (u3, d') \<Longrightarrow> same_candidates d d'"
  "record_join_probe i code status detail now d = Inr (u4, d') \<Longrightarrow> same_candidates d d'"
  "upsert_membership h url com now d = Inr (u5, d') \<Longrightarrow> same_candidates d d'"
  "record_invite_candidate h cd origin now d = Inr (u6, d') \<Longrightarrow> same_candidates d d'"
  "replace_directory_invite i cd now d = Inr (u7, d') \<Longrightarrow> same_candidates d d'"
  "delete_invite_candidate h cd d = Inr (u8, d') \<Longrightarrow> same_candidates d d'"
  "create_submission_validation fresh h url cd now d = Inr (v, d') \<Longrightarrow> same_candidates d d'"
  "claim_pending_validations locked n d = Inr (vs, d') \<Longrightarrow> same_candidates d d'"
  "resolve_submission_validation i st c message now d = Inr (u9, d') \<Longrightarrow> same_candidates d d'"
  by (auto simp: same_candidates_def insert_source_def upsert_community_icon_def delete_community_icon_def
      tx_write_def record_join_probe_def upsert_membership_def record_invite_candidate_def
      replace_directory_invite_def delete_invite_candidate_def create_submission_validation_def
      claim_pending_validations_def resolve_submission_validation_def Let_def split: if_splits)

lemma in_updated_rows: "x \<in> set (update_where P f rs) \<longleftrightarrow> (\<exists>r \<in> set rs. x = (if P r then f r else r))"
  by (auto simp: set_update_where)

lemma updated_row: "r \<in> set rs \<Longrightarrow> P r \<Longrightarrow> f r \<in> set (update_where P f rs)"
  by (auto simp: set_update_where)

text \<open>What a step does to the candidates and their snapshots.\<close>

definition probes_recorded :: "web \<Rightarrow> directory \<Rightarrow> directory \<Rightarrow> bool" where
  "probes_recorded W d d' \<longleftrightarrow> (\<exists>i p now s. ps_classification p = classify_buzz_relay W (ps_nip11 p) True \<and>
     s = probe_snapshot i p now \<and> dr_snapshots d' = dr_snapshots d @ [s] \<and>
     dr_candidates d' = update_where (\<lambda>c. cand_id c = i \<and> not_suppressed c)
       (after_probe (ps_classification p) now) (dr_candidates d))"

definition row_only :: "(dir_candidate \<Rightarrow> dir_candidate) \<Rightarrow> bool" where
  "row_only f \<longleftrightarrow> (\<forall>c. cand_id (f c) = cand_id c \<and> cand_relay_url (f c) = cand_relay_url c \<and>
     cand_host (f c) = cand_host c \<and> dc_first_seen (f c) = dc_first_seen c \<and>
     (cand_state (f c) = cand_state c \<or> cand_state c \<noteq> Suppressed \<and> cand_state (f c) \<in> {Discovered, Probing}))"

lemma row_onlyD:
  assumes "row_only f"
  shows "cand_id (f c) = cand_id c" "cand_relay_url (f c) = cand_relay_url c" "cand_host (f c) = cand_host c"
    "dc_first_seen (f c) = dc_first_seen c" "cand_state c = Suppressed \<Longrightarrow> cand_state (f c) = Suppressed"
    "cand_state (f c) = Verified_buzz \<Longrightarrow> cand_state c = Verified_buzz"
  using assms by (simp_all add: row_only_def) (metis candidate_state.distinct insert_iff singletonD)+

text \<open>A row changed by \<open>f\<close>, or a new one, in a step that verifies nothing.\<close>

definition nothing_verified :: "directory \<Rightarrow> directory \<Rightarrow> bool" where
  "nothing_verified d d' \<longleftrightarrow> set (dr_snapshots d) \<subseteq> set (dr_snapshots d') \<and>
     ((\<exists>P f. row_only (\<lambda>c. if P c then f c else c) \<and> dr_candidates d' = update_where P f (dr_candidates d)) \<or>
      (\<exists>c. cand_state c = Discovered \<and> dr_candidates d' = dr_candidates d @ [c]))"

lemma same_nothing_verified: "same_candidates d d' \<Longrightarrow> nothing_verified d d'"
  unfolding nothing_verified_def same_candidates_def
  by (intro conjI disjI1 exI [of _ "\<lambda>_. False"] exI [of _ id]) (auto simp: row_only_def update_where_def)

lemma update_nothing_verified:
  assumes "dr_candidates d' = update_where P f (dr_candidates d)" "set (dr_snapshots d) \<subseteq> set (dr_snapshots d')"
    "row_only (\<lambda>c. if P c then f c else c)"
  shows "nothing_verified d d'"
  using assms unfolding nothing_verified_def by blast

lemma verified_before:
  assumes "nothing_verified d d'" "c \<in> set (dr_candidates d')" "cand_state c = Verified_buzz"
  shows "\<exists>c0 \<in> set (dr_candidates d). cand_state c0 = Verified_buzz \<and> cand_id c0 = cand_id c"
proof -
  from assms(1) consider P f where "row_only (\<lambda>c. if P c then f c else c)"
      "dr_candidates d' = update_where P f (dr_candidates d)"
    | n where "cand_state n = Discovered" "dr_candidates d' = dr_candidates d @ [n]"
    unfolding nothing_verified_def by blast
  then show ?thesis
  proof cases
    case 1
    with assms(2) obtain r where "r \<in> set (dr_candidates d)" "c = (if P r then f r else r)"
      by (auto simp: in_updated_rows)
    with row_onlyD [OF 1(1), of r] assms(3) show ?thesis by (intro bexI [of _ r]) simp_all
  qed (use assms(2,3) in auto)
qed

lemma insert_candidate_step:
  assumes "insert_candidate fresh relay t now d = Inr (c, d')"
  shows "nothing_verified d d'"
proof (cases "candidate_by_url (rn_url relay) d")
  case None
  with assms show ?thesis
    by (auto simp: insert_candidate_def nothing_verified_def new_candidate_def split: if_splits)
next
  case (Some c')
  with assms have "d' = update_candidates (\<lambda>r. cand_relay_url r = rn_url relay) (seen_again t now) d"
    by (auto simp: insert_candidate_def split: if_splits)
  then show ?thesis
    by (intro update_nothing_verified) (auto simp: update_candidates_def row_only_def seen_again_def)
qed

lemma upsert_candidate_step:
  assumes "upsert_candidate W sha fresh relay src now d = Inr (r, d')"
  shows "nothing_verified d d'"
proof -
  obtain c d1 where ins: "insert_candidate fresh relay (cs_type src) now d = Inr (c, d1)"
    and same: "same_candidates d1 d'"
    using assms other_queries(1)
    by (fastforce simp: upsert_candidate_def tx_inversion tx_throw_def split: sum.splits)
  then show ?thesis using insert_candidate_step [OF ins]
    by (simp add: nothing_verified_def same_candidates_def)
qed

lemma record_failed_probe:
  assumes "record_probe_result dec sha i (Probe_failed url code) now d = Inr (u, d')"
  shows "dr_candidates d' = update_where (\<lambda>c. cand_id c = i \<and> not_suppressed c) (after_failure code now)
      (dr_candidates d)" "dr_snapshots d' = dr_snapshots d @ [failed_snapshot i code now]"
  using assms
  by (auto simp: record_probe_result_def tx_inversion insert_snapshot_def update_candidates_def split: if_splits)

lemma record_ok_probe:
  assumes "record_probe_result dec sha i (Probe_ok url p) now d = Inr (u, d')"
  shows "dr_candidates d' = update_where (\<lambda>c. cand_id c = i \<and> not_suppressed c)
      (after_probe (ps_classification p) now) (dr_candidates d)"
    "dr_snapshots d' = dr_snapshots d @ [probe_snapshot i p now]"
proof -
  obtain d1 d2 where "d1 = d\<lparr>dr_snapshots := dr_snapshots d @ [probe_snapshot i p now]\<rparr>"
    "same_candidates d1 d2"
    "d' = update_candidates (\<lambda>c. cand_id c = i \<and> not_suppressed c) (after_probe (ps_classification p) now) d2"
    using assms other_queries(2,3)
    by (fastforce simp: record_probe_result_def tx_inversion insert_snapshot_def split: if_splits option.splits)
  then show "dr_candidates d' = update_where (\<lambda>c. cand_id c = i \<and> not_suppressed c)
      (after_probe (ps_classification p) now) (dr_candidates d)"
    "dr_snapshots d' = dr_snapshots d @ [probe_snapshot i p now]"
    by (simp_all add: same_candidates_def update_candidates_def)
qed

lemma record_probe_result_step:
  assumes "probe_outcome W result" "record_probe_result dec sha i result now d = Inr (u, d')"
  shows "nothing_verified d d' \<or> probes_recorded W d d'"
proof (cases result)
  case (Probe_failed url code)
  note rows = record_failed_probe [OF assms(2) [unfolded Probe_failed]]
  have "nothing_verified d d'"
    by (rule update_nothing_verified [OF rows(1)])
      (auto simp: rows(2) row_only_def after_failure_def not_suppressed_def)
  then show ?thesis ..
next
  case (Probe_ok url p)
  note rows = record_ok_probe [OF assms(2) [unfolded Probe_ok]]
  have "probes_recorded W d d'"
    unfolding probes_recorded_def
    by (intro exI [of _ i] exI [of _ p] exI [of _ now] exI [of _ "probe_snapshot i p now"])
      (use assms(1) Probe_ok in \<open>simp add: rows probe_outcome_def\<close>)
  then show ?thesis ..
qed

lemma directory_step_effect: "directory_step W d d' \<Longrightarrow> nothing_verified d d' \<or> probes_recorded W d d'"
proof (induction rule: directory_step.induct)
  case (step_probing i now d u d')
  then show ?case
    by (intro disjI1 update_nothing_verified)
      (auto simp: mark_candidate_probing_def tx_write_def update_candidates_def row_only_def not_suppressed_def
        split: if_splits)
next
  case (step_due locked n now d ids d')
  then show ?case
    by (intro disjI1 update_nothing_verified)
      (auto simp: claim_due_candidate_ids_def update_candidates_def row_only_def Let_def split: if_splits)
qed ((rule record_probe_result_step; assumption) | (rule disjI1, erule upsert_candidate_step) |
    (rule disjI1, rule same_nothing_verified, erule other_queries))+

section \<open>Verified candidates were probed\<close>

definition verified_by :: "web \<Rightarrow> uuid \<Rightarrow> snapshot \<Rightarrow> bool" where
  "verified_by W i s \<longleftrightarrow> sn_candidate s = i \<and> sn_result s = ''exact_software_and_protocol'' \<and> sn_tls s \<and>
     has_canonical_buzz_software W (sn_software s) \<and> {29, 42} \<subseteq> set (sn_nips s)"

lemma verified_probe_snapshot:
  assumes "ps_classification p = classify_buzz_relay W (ps_nip11 p) True"
    "cl_state (ps_classification p) = Is_verified"
  shows "verified_by W i (probe_snapshot i p now)"
  using assms
  by (auto simp: verified_by_def probe_snapshot_def classify_buzz_relay_def classification_of_def
      has_canonical_buzz_software_def has_buzz_nips_def Let_def split: if_splits)


section \<open>A suppression is final\<close>

definition kept_row :: "dir_candidate \<Rightarrow> dir_candidate \<Rightarrow> bool" where
  "kept_row c c' \<longleftrightarrow> cand_id c' = cand_id c \<and> cand_relay_url c' = cand_relay_url c \<and>
     cand_host c' = cand_host c \<and> dc_first_seen c' = dc_first_seen c \<and>
     (cand_state c = Suppressed \<longrightarrow> cand_state c' = Suppressed)"

lemma kept_row_refl: "kept_row c c"
  by (simp add: kept_row_def)

lemma kept_row_trans: "kept_row a b \<Longrightarrow> kept_row b c \<Longrightarrow> kept_row a c"
  by (simp add: kept_row_def)

lemma row_only_kept: "row_only f \<Longrightarrow> kept_row c (f c)"
  using row_onlyD [of f c] by (simp add: kept_row_def)

lemma step_keeps_rows:
  assumes "directory_step W d d'" "c \<in> set (dr_candidates d)"
  shows "\<exists>c' \<in> set (dr_candidates d'). kept_row c c'"
  using directory_step_effect [OF assms(1)]
proof
  assume "nothing_verified d d'"
  then consider P f where "row_only (\<lambda>c. if P c then f c else c)"
      "dr_candidates d' = update_where P f (dr_candidates d)"
    | n where "dr_candidates d' = dr_candidates d @ [n]"
    unfolding nothing_verified_def by blast
  then show ?thesis
  proof cases
    case 1
    then show ?thesis using assms(2) row_only_kept [OF 1(1), of c]
      by (intro bexI [of _ "if P c then f c else c"]) (auto simp: in_updated_rows)
  next
    case 2
    then show ?thesis using assms(2) kept_row_refl by auto
  qed
next
  assume "probes_recorded W d d'"
  then obtain i k now where d': "dr_candidates d' =
      update_where (\<lambda>c. cand_id c = i \<and> not_suppressed c) (after_probe k now) (dr_candidates d)"
    by (auto simp: probes_recorded_def)
  have "kept_row c (if cand_id c = i \<and> not_suppressed c then after_probe k now c else c)"
    by (simp add: kept_row_def after_probe_def not_suppressed_def)
  moreover have "(if cand_id c = i \<and> not_suppressed c then after_probe k now c else c) \<in> set (dr_candidates d')"
    unfolding d' in_updated_rows using assms(2) by (rule bexI [rotated]) simp
  ultimately show ?thesis by (rule bexI)
qed

text \<open>
  No query undoes an operator's suppression: whatever is ingested, probed or
  scheduled, a candidate that is suppressed stays suppressed, and no candidate
  disappears or changes its URL, host or first sighting.
\<close>

lemma suppression_is_final:
  assumes "(directory_step W)\<^sup>*\<^sup>* d d'" "c \<in> set (dr_candidates d)"
  shows "\<exists>c' \<in> set (dr_candidates d'). cand_id c' = cand_id c \<and> cand_relay_url c' = cand_relay_url c \<and>
    cand_host c' = cand_host c \<and> dc_first_seen c' = dc_first_seen c \<and>
    (cand_state c = Suppressed \<longrightarrow> cand_state c' = Suppressed)"
proof -
  from assms(1) have "\<exists>c' \<in> set (dr_candidates d'). kept_row c c'"
  proof (induction rule: rtranclp_induct)
    case base
    show ?case using assms(2) kept_row_refl by blast
  next
    case (step d1 d2)
    then show ?case using step_keeps_rows kept_row_trans by blast
  qed
  then show ?thesis by (simp add: kept_row_def)
qed

end
