(* ===== verification/Directory_Intake.thy ===== *)
theory Directory_Intake
  imports Directory_Properties
begin

text \<open>
  What a source reports is stored: the canonical URL of a relay and a normalised
  listing pass every check of the tables, so an upsert of a well-formed relay
  succeeds.  Scheduling hands out each due candidate once.
\<close>

section \<open>Text without NUL\<close>

lemma text_ok_Some [simp]: "text_ok (Some s) \<longleftrightarrow> CHR 0x00 \<notin> set s"
  by (simp add: text_ok_def)

lemma text_ok_None [simp]: "text_ok None"
  by (simp add: text_ok_def)

lemma set_trim_subset: "set (trim s) \<subseteq> set s"
  unfolding trim_def trim_end_def trim_start_def
  by (metis set_dropWhileD set_rev subsetI)

lemma set_collapse: "set (collapse_spaces s) \<subseteq> insert (CHR '' '') (set s)"
proof (induction s)
  case (Cons c cs)
  then show ?case by (cases cs) (auto split: if_splits)
qed simp

lemma js_lower_code: "of_char (js_lower_char c) = (let n = of_char c :: nat in
  if (65 \<le> n \<and> n \<le> 90) \<or> (192 \<le> n \<and> n \<le> 222 \<and> n \<noteq> 215) then n + 32 else n)"
  by (auto simp: js_lower_char_def Let_def)

lemma js_lower_nul [simp]: "js_lower_char c = CHR 0x00 \<longleftrightarrow> c = CHR 0x00"
proof
  assume "js_lower_char c = CHR 0x00"
  then have "of_char (js_lower_char c) = (0 :: nat)" by simp
  then have "of_char c = (of_char (CHR 0x00) :: nat)"
    unfolding js_lower_code Let_def by (simp split: if_splits)
  then show "c = CHR 0x00" by (simp only: of_char_eq_iff)
qed (simp add: js_lower_char_def)

lemma nul_to_lower [simp]: "CHR 0x00 \<in> set (to_lower s) \<longleftrightarrow> CHR 0x00 \<in> set s"
  by (auto simp: to_lower_def image_iff) (metis js_lower_nul)+

lemma nul_trim: "CHR 0x00 \<notin> set s \<Longrightarrow> CHR 0x00 \<notin> set (trim s)"
  using set_trim_subset by blast

lemma nul_take: "CHR 0x00 \<notin> set s \<Longrightarrow> CHR 0x00 \<notin> set (take n s)"
  by (meson in_set_takeD)

lemma normalized_text:
  assumes "normalize_public_relay_text v n = Some t"
  shows "length t \<le> n" "text_ok v \<Longrightarrow> CHR 0x00 \<notin> set t"
proof -
  obtain s where s: "v = Some s" "t = take n (trim (collapse_spaces s))"
    using assms by (auto simp: normalize_public_relay_text_def Let_def split: option.splits if_splits)
  then show "length t \<le> n" by simp
  assume "text_ok v"
  with s have "CHR 0x00 \<notin> set (collapse_spaces s)" using set_collapse [of s] by auto
  with s(2) show "CHR 0x00 \<notin> set t" by (simp add: nul_take nul_trim)
qed

section \<open>A normalised listing passes the checks\<close>

lemma email_shape_iff: "email_shape space s \<longleftrightarrow> (\<exists>a b. s = a @ CHR ''@'' # b \<and> a \<noteq> [] \<and>
    (\<forall>c \<in> set (a @ b). c \<noteq> CHR ''@'' \<and> \<not> space c) \<and> CHR ''.'' \<in> set (butlast (tl b)))"
proof
  assume "email_shape space s"
  moreover define ok where "ok = (\<lambda>c. c \<noteq> CHR ''@'' \<and> \<not> space c)"
  ultimately obtain b where b: "dropWhile ok s = CHR ''@'' # b" "takeWhile ok s \<noteq> []" "list_all ok b"
    "CHR ''.'' \<in> set (butlast (tl b))"
    by (auto simp: email_shape_def Let_def split: list.splits)
  then have "s = takeWhile ok s @ CHR ''@'' # b" by (metis takeWhile_dropWhile_id)
  moreover have "\<forall>c \<in> set (takeWhile ok s @ b). ok c" using b(3) by (auto simp: list_all_iff dest: set_takeWhileD)
  ultimately show "\<exists>a b. s = a @ CHR ''@'' # b \<and> a \<noteq> [] \<and>
      (\<forall>c \<in> set (a @ b). c \<noteq> CHR ''@'' \<and> \<not> space c) \<and> CHR ''.'' \<in> set (butlast (tl b))"
    using b(2,4) unfolding ok_def by blast
next
  assume "\<exists>a b. s = a @ CHR ''@'' # b \<and> a \<noteq> [] \<and>
      (\<forall>c \<in> set (a @ b). c \<noteq> CHR ''@'' \<and> \<not> space c) \<and> CHR ''.'' \<in> set (butlast (tl b))"
  then obtain a b where s: "s = a @ CHR ''@'' # b" "a \<noteq> []" "CHR ''.'' \<in> set (butlast (tl b))"
    and ok: "\<forall>c \<in> set (a @ b). c \<noteq> CHR ''@'' \<and> \<not> space c" by blast
  have "takeWhile (\<lambda>c. c \<noteq> CHR ''@'' \<and> \<not> space c) s = a"
    "dropWhile (\<lambda>c. c \<noteq> CHR ''@'' \<and> \<not> space c) s = CHR ''@'' # b"
    unfolding s(1) using ok by (subst takeWhile_append2 dropWhile_append2; simp)+
  then show "email_shape space s" using s(2,3) ok by (simp add: email_shape_def list_all_iff)
qed

lemma js_lower_keeps: "js_lower_char c = CHR ''@'' \<longleftrightarrow> c = CHR ''@''" "js_lower_char (CHR ''.'') = CHR ''.''"
proof -
  have "c = CHR ''@''" if low: "js_lower_char c = CHR ''@''"
  proof -
    have "of_char (js_lower_char c) = (64 :: nat)" using low by simp
    then have "of_char c = (of_char (CHR ''@'') :: nat)"
      unfolding js_lower_code Let_def by (simp split: if_splits)
    then show ?thesis by (simp only: of_char_eq_iff)
  qed
  then show "js_lower_char c = CHR ''@'' \<longleftrightarrow> c = CHR ''@''" by (auto simp: js_lower_char_def)
  show "js_lower_char (CHR ''.'') = CHR ''.''" by (simp add: js_lower_char_def)
qed

lemma pg_space_js: "pg_space (js_lower_char c) \<Longrightarrow> js_space c"
proof -
  assume "pg_space (js_lower_char c)"
  then have "js_space (js_lower_char c)" by (auto simp: pg_space_def js_space_def)
  then show ?thesis by (simp only: js_lower_char_space)
qed

lemma email_lower:
  assumes "email_shape js_space s"
  shows "email_shape pg_space (to_lower s)"
proof -
  obtain a b where s: "s = a @ CHR ''@'' # b" "a \<noteq> []" "CHR ''.'' \<in> set (butlast (tl b))"
    and ok: "\<forall>c \<in> set (a @ b). c \<noteq> CHR ''@'' \<and> \<not> js_space c"
    using assms unfolding email_shape_iff by (elim exE conjE) (rule that)
  have "CHR ''.'' \<in> js_lower_char ` set (butlast (tl b))"
    using s(3) js_lower_keeps(2) by (metis image_eqI)
  then have "CHR ''.'' \<in> set (butlast (tl (to_lower b)))"
    by (simp add: to_lower_def map_tl [symmetric] map_butlast [symmetric])
  moreover have "to_lower s = to_lower a @ CHR ''@'' # to_lower b"
    using js_lower_keeps(1) [of "CHR ''@''"] by (simp add: s(1) to_lower_def)
  moreover have "\<forall>c \<in> set (to_lower a @ to_lower b). c \<noteq> CHR ''@'' \<and> \<not> pg_space c"
  proof
    fix c assume "c \<in> set (to_lower a @ to_lower b)"
    then obtain x where x: "x \<in> set (a @ b)" "c = js_lower_char x" by (auto simp: to_lower_def)
    from ok x(1) have "x \<noteq> CHR ''@'' \<and> \<not> js_space x" by (rule bspec)
    then show "c \<noteq> CHR ''@'' \<and> \<not> pg_space c"
      unfolding x(2) js_lower_keeps(1) using pg_space_js [of x] by (elim conjE) (intro conjI notI, simp_all)
  qed
  moreover have "to_lower a \<noteq> []" using s(2) by (simp add: to_lower_def)
  ultimately show ?thesis unfolding email_shape_iff by (intro exI conjI)
qed

lemma invite_code_nonempty: "is_buzz_invite_code c \<Longrightarrow> c \<noteq> []"
  by (auto simp: is_buzz_invite_code_def)

lemma take_min_prefix: "m \<le> n \<Longrightarrow> take m (take n s) = take m s"
  by (simp add: min_def)

lemma normalized_listing_check: "listing_check (normalize_candidate_source_listing l)"
proof -
  define given where "given = (case l of None \<Rightarrow> empty_listing | Some l \<Rightarrow> l)"
  let ?n = "normalize_candidate_source_listing l"
  have "opt_check (\<lambda>n. 2 \<le> length n \<and> length n \<le> 80) (ls_name ?n)"
    using normalized_text(1) [of "ls_name given" 80]
    by (auto simp: normalize_candidate_source_listing_def Let_def opt_check_def given_def split: option.split)
  moreover have "opt_check (\<lambda>d. length d \<le> 500) (ls_description ?n)"
    using normalized_text(1) [of "ls_description given" 500]
    by (auto simp: normalize_candidate_source_listing_def Let_def opt_check_def given_def split: option.split)
  moreover have "opt_check (\<lambda>d. length d \<le> 300) (ls_audience ?n)"
    using normalized_text(1) [of "ls_audience given" 300]
    by (auto simp: normalize_candidate_source_listing_def Let_def opt_check_def given_def split: option.split)
  moreover have "length (ls_categories ?n) \<le> 5" "set (ls_categories ?n) \<subseteq> set submission_category_slugs"
    by (auto simp: normalize_candidate_source_listing_def Let_def dest!: in_set_takeD)
  moreover have "opt_check (\<lambda>u. to_lower (take 8 u) = ''https://'') (ls_public_url ?n)"
    by (auto simp: normalize_candidate_source_listing_def Let_def opt_check_def take_min_prefix split: option.split)
  moreover have "opt_check (\<lambda>c. 1 \<le> length c \<and> length c \<le> 200) (ls_invite ?n)"
    using invite_code_nonempty
    by (fastforce simp: normalize_candidate_source_listing_def Let_def opt_check_def Suc_le_eq split: option.split)
  moreover have "opt_check (\<lambda>e. length e \<le> 254 \<and> email_shape pg_space e) (ls_email ?n)"
    by (auto simp: normalize_candidate_source_listing_def Let_def opt_check_def email_lower split: option.split)
  moreover have "opt_check (\<lambda>f. f \<in> set focus_slugs) (ls_focus ?n)"
    by (auto simp: normalize_candidate_source_listing_def Let_def opt_check_def is_focus_slug_def split: option.split)
  ultimately show ?thesis by (simp add: listing_check_def)
qed

section \<open>A canonical URL passes the check\<close>

lemma show_nat_digits: "list_all is_digit (show_nat n) \<and> show_nat n \<noteq> []"
proof (induction n rule: show_nat.induct)
  case (1 n)
  have digit: "is_digit (char_of (48 + k))" if "k < 10" for k :: nat
  proof -
    from that have "k \<in> {0, 1, 2, 3, 4, 5, 6, 7, 8, 9}" by auto
    then show ?thesis by (auto simp: is_digit_def less_eq_char_def)
  qed
  with 1 show ?case by (subst (1 2) show_nat.simps) (auto simp del: One_nat_def)
qed

lemma show_nat_length: "n < 10 ^ Suc k \<Longrightarrow> length (show_nat n) \<le> Suc k"
proof (induction k arbitrary: n)
  case 0
  then show ?case by (subst show_nat.simps) simp
next
  case (Suc k)
  then have "n div 10 < 10 ^ Suc k" by (simp add: less_mult_imp_div_less)
  with Suc.IH show ?case by (subst show_nat.simps) auto
qed

lemma port_part_suffix: "(\<And>n. p = Some n \<Longrightarrow> n \<le> 65535) \<Longrightarrow> port_part (port_suffix p)"
proof (cases p)
  case (Some n)
  assume "\<And>n. p = Some n \<Longrightarrow> n \<le> 65535"
  with Some have "n < 10 ^ Suc 4" by fastforce
  then have "length (show_nat n) \<le> 5" using show_nat_length [of n 4] by simp
  with show_nat_digits [of n] Some show ?thesis
    by (cases "show_nat n") (auto simp: port_part_def port_suffix_def)
qed (simp add: port_part_def port_suffix_def)

lemma span_append:
  "list_all P h \<Longrightarrow> \<not> P c \<Longrightarrow> takeWhile P (h @ c # r) = h \<and> dropWhile P (h @ c # r) = c # r"
  by (simp add: list_all_iff)

lemma span_all: "list_all P h \<Longrightarrow> takeWhile P h = h \<and> dropWhile P h = []"
  by (auto simp: list_all_iff takeWhile_eq_all_conv)

text \<open>A host in a URL has no zone index and, in brackets, no dots.\<close>

definition plain_addresses :: "web \<Rightarrow> bool" where
  "plain_addresses W \<longleftrightarrow> (\<forall>s u h. parse_url W s = Some u \<longrightarrow> normalize_host W (u_hostname u) = Inr h \<longrightarrow>
     (ip_version W h = 6 \<longrightarrow> h \<noteq> [] \<and> list_all address_char h) \<and>
     (ip_version W h \<noteq> 6 \<and> ip_version W h \<noteq> 0 \<longrightarrow> h \<noteq> [] \<and> list_all host_char h))"

lemma normalize_host_cases:
  assumes "normalize_host W x = Inr h"
  shows "ip_version W h \<noteq> 0 \<or> h \<noteq> [] \<and> list_all host_char h"
proof (cases "ip_version W (without_dot (to_lower (unwrap_ipv6 x))) = 0")
  case True
  with assms have h: "h \<noteq> []" "list_all label_ok (split_dots h)"
    by (auto simp: normalize_host_def Let_def split: if_splits)
  have "host_char c" if "c \<in> set h" for c
    using split_dots_set [OF that] h(2) by (auto simp: list_all_iff label_ok_def label_char_def host_char_def)
  with h(1) show ?thesis by (simp add: list_all_iff)
next
  case False
  with assms show ?thesis by (auto simp: normalize_host_def Let_def split: if_splits)
qed

lemma origin_only_canonical:
  assumes "plain_addresses W" "normalize_relay_url W s = Inr r"
  shows "origin_only (rn_url r)"
proof -
  obtain u h p where u: "parse_url W s = Some u" "normalize_host W (u_hostname u) = Inr h"
    "normalize_port u = Inr p" and r: "r = relay_of W h p"
    using assms(2) unfolding normalize_relay_url_Inr by blast
  have port: "port_part (port_suffix p)" using normalize_port_cases [OF u(3)] by (intro port_part_suffix) auto
  have colon: "\<not> host_char (CHR '':'')" "\<not> address_char (CHR '']'')" "\<not> host_char (CHR ''['')"
    by (auto simp: host_char_def address_char_def is_hex_i_def is_hex_def is_digit_def is_lower_def is_upper_def
        less_eq_char_def)
  show ?thesis
  proof (cases "ip_version W h = 6")
    case True
    then have h: "h \<noteq> []" "list_all address_char h" using assms(1) u by (auto simp: plain_addresses_def)
    with True port span_append [OF h(2) colon(2)] show ?thesis
      by (simp add: r relay_of_def canonical_url_def authority_host_def origin_only_def)
  next
    case False
    then have h: "h \<noteq> []" "list_all host_char h"
      using assms(1) u normalize_host_cases [OF u(2)] by (auto simp: plain_addresses_def)
    then have first: "hd h \<noteq> CHR ''[''" using colon(3) by (cases h) auto
    have span: "takeWhile host_char (h @ port_suffix p) = h \<and> dropWhile host_char (h @ port_suffix p) = port_suffix p"
      using span_all [OF h(2)] span_append [OF h(2) colon(1)] by (cases p) (simp_all add: port_suffix_def)
    with False port h(1) first show ?thesis
      by (cases h) (simp_all add: r relay_of_def canonical_url_def authority_host_def origin_only_def)
  qed
qed

section \<open>A report is stored\<close>

definition reported_texts :: "candidate_source \<Rightarrow> string option list" where
  "reported_texts src = cs_actor src # (case cs_listing src of None \<Rightarrow> [] | Some l \<Rightarrow> listing_texts l)"

lemma normalized_texts:
  assumes "list_all text_ok (reported_texts src)"
  shows "list_all text_ok (listing_texts (normalize_candidate_source_listing (cs_listing src)))"
proof -
  define l where "l = (case cs_listing src of None \<Rightarrow> empty_listing | Some l \<Rightarrow> l)"
  have ok: "list_all text_ok (listing_texts l)"
    using assms by (simp add: l_def reported_texts_def listing_texts_def empty_listing_def split: option.splits)
  have texts: "text_ok (normalize_public_relay_text v n)" if "text_ok v" for v n
    using normalized_text(2) [OF _ that] by (cases "normalize_public_relay_text v n") auto
  show ?thesis
    using ok texts [of "ls_audience l" 300] texts [of "ls_description l" 500] texts [of "ls_name l" 80]
    by (auto simp: listing_texts_def normalize_candidate_source_listing_def l_def [symmetric] Let_def
        nul_trim nul_take split: option.split)
qed

lemma upsert_stores:
  assumes "plain_addresses W" "normalize_relay_url W s = Inr relay"
    and "cs_type src \<in> set source_types" "list_all text_ok (reported_texts src)"
    and "sanitize_source_locator W (cs_locator src) = Inr locator" "locator_check locator" "text_ok locator"
    and "directory_ok d" "fresh \<notin> cand_id ` set (dr_candidates d)"
  shows "\<exists>i state d'. upsert_candidate W sha fresh relay src now d = Inr ((i, rn_url relay, state), d') \<and>
    (\<exists>c \<in> set (dr_candidates d'). cand_id c = i \<and> cand_relay_url c = rn_url relay \<and> cand_state c = state) \<and>
    (\<exists>x \<in> set (dr_sources d'). so_candidate x = i \<and> so_type x = cs_type src \<and> so_last_seen x = now \<and>
      so_listing x = normalize_candidate_source_listing (cs_listing src))"
proof -
  have url: "origin_only (rn_url relay)" using origin_only_canonical assms(1,2) by blast
  have "\<exists>c d1. insert_candidate fresh relay (cs_type src) now d = Inr (c, d1) \<and> c \<in> set (dr_candidates d1) \<and>
      cand_relay_url c = rn_url relay"
  proof (cases "candidate_by_url (rn_url relay) d")
    case None
    have "candidate_by_id fresh d = None"
      using assms(9) candidate_by_id_ids [of fresh d] by (auto simp: candidate_ids_def)
    with None url show ?thesis by (simp add: insert_candidate_def new_candidate_def)
  next
    case (Some c)
    then have "c \<in> set (dr_candidates d)" "cand_relay_url c = rn_url relay"
      by (auto simp: candidate_by_url_def dest: find_Some_set)
    with Some url show ?thesis
      by (auto simp: insert_candidate_def update_candidates_def in_updated_rows seen_again_def intro!: bexI [of _ c])
  qed
  then obtain c d1 where ins: "insert_candidate fresh relay (cs_type src) now d = Inr (c, d1)"
    and c: "c \<in> set (dr_candidates d1)" "cand_relay_url c = rn_url relay" by blast
  define x where "x = source_of (cand_id c) src locator (create_evidence_hash sha (rn_url relay) src locator) now"
  have "source_check x"
    using assms(3,6) normalized_listing_check by (simp add: source_check_def x_def source_of_def)
  moreover have "list_all text_ok (source_texts x)"
    using assms(4,7) normalized_texts [OF assms(4)] by (simp add: source_texts_def x_def source_of_def reported_texts_def)
  moreover have "candidate_by_id (cand_id c) d1 \<noteq> None"
    using c(1) candidate_by_id_ids [of "cand_id c" d1] by (simp add: candidate_ids_def)
  moreover have "so_candidate x = cand_id c" by (simp add: x_def source_of_def)
  ultimately obtain d2 where src: "insert_source x d1 = Inr ((), d2)"
    and rows: "dr_sources d2 = (if has_row (same_source x) (dr_sources d1)
      then update_where (same_source x) (source_again x) (dr_sources d1) else dr_sources d1 @ [x])"
    by (simp add: insert_source_def)
  have "\<exists>y \<in> set (dr_sources d2). same_source x y \<and> so_last_seen y = now \<and> so_listing y = so_listing x"
  proof (cases "has_row (same_source x) (dr_sources d1)")
    case True
    then obtain y where y: "y \<in> set (dr_sources d1)" "same_source x y" by (auto simp: has_row_iff)
    then have "source_again x y \<in> set (dr_sources d2)" using True rows by (simp add: updated_row)
    then show ?thesis
      by (rule bexI [rotated]) (use y(2) in \<open>simp add: same_source_def source_again_def x_def source_of_def\<close>)
  qed (auto simp: rows same_source_def x_def source_of_def)
  moreover have "upsert_candidate W sha fresh relay src now d = Inr (candidate_record c, d2)"
    using ins src by (simp add: upsert_candidate_def assms(5) tx_bind_def tx_return_def x_def)
  moreover have "dr_candidates d2 = dr_candidates d1" using other_queries(1) [OF src] by (simp add: same_candidates_def)
  ultimately show ?thesis using c
    by (auto simp: candidate_record_def same_source_def x_def source_of_def)
qed

text \<open>
  What a source says about a well-formed relay is never refused by the tables: the
  canonical URL and the normalised listing (whatever text the source sent, however
  long, with or without an invite, an address or a focus) pass every check, so the
  upsert returns the one candidate of that URL and leaves the source's row behind.
  Only a locator that the no-invites check rejects and NUL characters are refused.
\<close>

lemma report_is_stored:
  assumes "plain_addresses W" "normalize_relay_url W s = Inr relay"
    and "cs_type src \<in> set source_types" "list_all text_ok (reported_texts src)"
    and "sanitize_source_locator W (cs_locator src) = Inr locator" "locator_check locator" "text_ok locator"
    and "directory_ok d" "fresh \<notin> cand_id ` set (dr_candidates d)"
  shows "\<exists>i state d'. upsert_candidate W sha fresh relay src now d = Inr ((i, rn_url relay, state), d') \<and>
    (\<exists>c \<in> set (dr_candidates d'). cand_id c = i \<and> cand_relay_url c = rn_url relay \<and> cand_state c = state) \<and>
    (\<exists>x \<in> set (dr_sources d'). so_candidate x = i \<and> so_type x = cs_type src \<and> so_last_seen x = now \<and>
      so_listing x = normalize_candidate_source_listing (cs_listing src))"
  using upsert_stores [OF assms] .

section \<open>A due candidate is handed out once\<close>

text \<open>What the scheduler and the probe jobs do to the candidates, in the order of the
  statements.\<close>

datatype due_event = Claimed "uuid set" nat | Marked uuid | Probed uuid probe_result

definition due_query :: "(string \<Rightarrow> nat list) \<Rightarrow> (nat list \<Rightarrow> string) \<Rightarrow> time \<Rightarrow> due_event \<Rightarrow> (directory, uuid list) tx" where
  "due_query dec sha t e = (case e of
     Claimed locked n \<Rightarrow> claim_due_candidate_ids locked n t
   | Marked i \<Rightarrow> tx_bind (mark_candidate_probing i t) (\<lambda>_. tx_return [])
   | Probed i result \<Rightarrow> tx_bind (record_probe_result dec sha i result t) (\<lambda>_. tx_return []))"

text \<open>The ids handed out; a query that fails leaves the directory.\<close>

fun handed_out :: "(string \<Rightarrow> nat list) \<Rightarrow> (nat list \<Rightarrow> string) \<Rightarrow> (time \<times> due_event) list \<Rightarrow> directory \<Rightarrow> uuid list" where
  "handed_out dec sha [] d = []"
| "handed_out dec sha ((t, e) # es) d =
     (case due_query dec sha t e d of
        Inl _ \<Rightarrow> handed_out dec sha es d | Inr (ids, d') \<Rightarrow> ids @ handed_out dec sha es d')"

definition leased :: "uuid set \<Rightarrow> time \<Rightarrow> directory \<Rightarrow> bool" where
  "leased L t d \<longleftrightarrow> (\<forall>c \<in> set (dr_candidates d). cand_id c \<in> L \<longrightarrow> t \<le> dc_next_probe c)"

text \<open>An update that keeps the ids and the suppressed, and brings no probe before \<open>t\<close>.\<close>

definition postpones :: "time \<Rightarrow> (dir_candidate \<Rightarrow> dir_candidate) \<Rightarrow> bool" where
  "postpones t f \<longleftrightarrow> (\<forall>c. cand_id (f c) = cand_id c \<and> (t \<le> dc_next_probe c \<longrightarrow> t \<le> dc_next_probe (f c)) \<and>
     (cand_state c = Suppressed \<longrightarrow> cand_state (f c) = Suppressed))"

definition open_ids :: "directory \<Rightarrow> uuid set" where
  "open_ids d = cand_id ` {c \<in> set (dr_candidates d). not_suppressed c}"

lemma postponed:
  assumes "dr_candidates d' = update_where P f (dr_candidates d)" "postpones t (\<lambda>c. if P c then f c else c)"
  shows "leased L t d \<Longrightarrow> leased L t d'" "open_ids d' \<subseteq> open_ids d"
    "map cand_id (dr_candidates d') = map cand_id (dr_candidates d)"
proof -
  let ?g = "\<lambda>c. if P c then f c else c"
  have g: "cand_id (?g c) = cand_id c" "t \<le> dc_next_probe c \<Longrightarrow> t \<le> dc_next_probe (?g c)"
    "cand_state c = Suppressed \<Longrightarrow> cand_state (?g c) = Suppressed" for c
    using assms(2) [unfolded postpones_def, rule_format, of c] by simp_all
  have rows: "dr_candidates d' = map ?g (dr_candidates d)" by (simp add: assms(1) update_where_def)
  show "leased L t d'" if "leased L t d"
    unfolding leased_def rows
  proof (intro ballI impI)
    fix x assume "x \<in> set (map ?g (dr_candidates d))" and L: "cand_id x \<in> L"
    then obtain c where "c \<in> set (dr_candidates d)" "x = ?g c" by auto
    with L g(1) [of c] g(2) [of c] that show "t \<le> dc_next_probe x" by (simp only: leased_def)
  qed
  show "open_ids d' \<subseteq> open_ids d"
  proof
    fix i assume "i \<in> open_ids d'"
    then obtain c where "c \<in> set (dr_candidates d)" "i = cand_id (?g c)" "not_suppressed (?g c)"
      unfolding open_ids_def rows by auto
    with g(1) [of c] g(3) [of c] show "i \<in> open_ids d"
      unfolding open_ids_def not_suppressed_def by (metis (mono_tags, lifting) image_eqI mem_Collect_eq)
  qed
  show "map cand_id (dr_candidates d') = map cand_id (dr_candidates d)" unfolding rows using g(1) by simp
qed

lemma due_ids_due:
  assumes "i \<in> set (due_ids locked n now d)"
  shows "\<exists>c \<in> set (dr_candidates d). cand_id c = i \<and> dc_next_probe c \<le> now \<and> not_suppressed c"
  using assms by (auto simp: due_ids_def is_due_def dest!: in_set_takeD)

lemma due_ids_distinct: "distinct (map cand_id (dr_candidates d)) \<Longrightarrow> distinct (due_ids locked n now d)"
  by (simp add: due_ids_def distinct_map inj_on_def)

lemma claim_due_effect:
  assumes "claim_due_candidate_ids locked n now d = Inr (ids, d')" "t \<le> now + seconds (15 * 60)"
  shows "ids = due_ids locked n now d" "\<exists>P f. dr_candidates d' = update_where P f (dr_candidates d) \<and>
      postpones t (\<lambda>c. if P c then f c else c)" "leased (set ids) t d'"
proof -
  let ?f = "\<lambda>c :: dir_candidate. c\<lparr>dc_next_probe := now + seconds (15 * 60)\<rparr>"
  have run: "ids = due_ids locked n now d" "d' = update_candidates (\<lambda>c. cand_id c \<in> set ids) ?f d"
    using assms(1) by (auto simp: claim_due_candidate_ids_def Let_def split: if_splits)
  then show "ids = due_ids locked n now d" by simp
  show "\<exists>P f. dr_candidates d' = update_where P f (dr_candidates d) \<and> postpones t (\<lambda>c. if P c then f c else c)"
    by (rule exI [of _ "\<lambda>c. cand_id c \<in> set ids"], rule exI [of _ ?f])
      (use assms(2) in \<open>simp add: run(2) update_candidates_def postpones_def\<close>)
  show "leased (set ids) t d'"
    using assms(2) by (auto simp: run(2) update_candidates_def leased_def in_updated_rows)
qed

lemma other_due_effect:
  assumes "due_query dec sha now e d = Inr (ids, d')" "\<nexists>locked n. e = Claimed locked n" "t \<le> now + seconds (15 * 60)"
  shows "ids = []" "\<exists>P f. dr_candidates d' = update_where P f (dr_candidates d) \<and>
      postpones t (\<lambda>c. if P c then f c else c)"
proof -
  show "ids = []" using assms(1,2) by (auto simp: due_query_def tx_inversion split: due_event.splits)
  have late: "t \<le> now + one_day" using assms(3) by (simp add: one_day_def seconds_def)
  show "\<exists>P f. dr_candidates d' = update_where P f (dr_candidates d) \<and> postpones t (\<lambda>c. if P c then f c else c)"
  proof (cases e)
    case (Marked i)
    with assms(1) have "dr_candidates d' = update_where (\<lambda>c. cand_id c = i \<and> not_suppressed c)
        (\<lambda>c. c\<lparr>cand_state := (if cand_state c = Discovered then Probing else cand_state c), dc_last_seen := now\<rparr>)
        (dr_candidates d)"
      by (auto simp: due_query_def tx_inversion mark_candidate_probing_def update_candidates_def)
    then show ?thesis
      by (rule_tac exI, rule_tac exI, erule_tac conjI) (simp add: postpones_def not_suppressed_def)
  next
    case (Probed i result)
    then have run: "record_probe_result dec sha i result now d = Inr ((), d')"
      using assms(1) by (auto simp: due_query_def tx_inversion)
    show ?thesis
    proof (cases result)
      case (Probe_failed url code)
      note record_failed_probe(1) [OF run [unfolded Probe_failed]]
      then show ?thesis
        by (rule_tac exI, rule_tac exI, erule_tac conjI)
          (use late in \<open>simp add: postpones_def not_suppressed_def after_failure_def\<close>)
    next
      case (Probe_ok url p)
      note record_ok_probe(1) [OF run [unfolded Probe_ok]]
      then show ?thesis
        by (rule_tac exI, rule_tac exI, erule_tac conjI)
          (use late in \<open>simp add: postpones_def not_suppressed_def after_probe_def\<close>)
    qed
  qed (use assms(2) in blast)
qed

lemma handed_out_leased:
  assumes "list_all (\<lambda>(t, e). t0 \<le> t \<and> t < t0 + seconds (15 * 60)) es"
    "leased L (t0 + seconds (15 * 60)) d" "distinct (map cand_id (dr_candidates d))"
  shows "distinct (handed_out dec sha es d) \<and> set (handed_out dec sha es d) \<inter> L = {} \<and>
    set (handed_out dec sha es d) \<subseteq> open_ids d"
  using assms
proof (induction es arbitrary: d L)
  case (Cons x es)
  obtain t e where x: "x = (t, e)" by (cases x)
  have t: "t0 + seconds (15 * 60) \<le> t + seconds (15 * 60)" "t < t0 + seconds (15 * 60)"
    and rest: "list_all (\<lambda>(t, e). t0 \<le> t \<and> t < t0 + seconds (15 * 60)) es"
    using Cons.prems(1) x by auto
  show ?case
  proof (cases "due_query dec sha t e d")
    case (Inl err)
    then show ?thesis using Cons.IH [OF rest Cons.prems(2,3)] x by simp
  next
    case (Inr r)
    then obtain ids d' where run: "due_query dec sha t e d = Inr (ids, d')" by (cases r) auto
    have eff: "\<exists>P f. dr_candidates d' = update_where P f (dr_candidates d) \<and>
        postpones (t0 + seconds (15 * 60)) (\<lambda>c. if P c then f c else c)"
      and new: "leased (set ids) (t0 + seconds (15 * 60)) d'" "distinct ids" "set ids \<inter> L = {}" "set ids \<subseteq> open_ids d"
    proof -
      show "\<exists>P f. dr_candidates d' = update_where P f (dr_candidates d) \<and>
          postpones (t0 + seconds (15 * 60)) (\<lambda>c. if P c then f c else c)"
        using run other_due_effect(2) [OF run _ t(1)] claim_due_effect(2) [OF _ t(1)]
        by (cases e) (auto simp: due_query_def)
      have "leased (set ids) (t0 + seconds (15 * 60)) d' \<and> distinct ids \<and>
          (\<forall>i \<in> set ids. \<exists>c \<in> set (dr_candidates d). cand_id c = i \<and> dc_next_probe c \<le> t \<and> not_suppressed c)"
      proof (cases "\<exists>locked n. e = Claimed locked n")
        case True
        then obtain locked n where "claim_due_candidate_ids locked n t d = Inr (ids, d')"
          using run by (auto simp: due_query_def)
        note eff = claim_due_effect [OF this t(1)]
        then show ?thesis using due_ids_distinct [OF Cons.prems(3)] due_ids_due by auto
      qed (use other_due_effect(1) [OF run _ t(1)] in \<open>auto simp: leased_def\<close>)
      then show "leased (set ids) (t0 + seconds (15 * 60)) d'" "distinct ids" "set ids \<inter> L = {}" "set ids \<subseteq> open_ids d"
        using Cons.prems(2) t(2) by (fastforce simp: leased_def open_ids_def)+
    qed
    obtain P f where Pf: "dr_candidates d' = update_where P f (dr_candidates d)"
      "postpones (t0 + seconds (15 * 60)) (\<lambda>c. if P c then f c else c)" using eff by blast
    have "leased (L \<union> set ids) (t0 + seconds (15 * 60)) d'"
      using postponed(1) [OF Pf Cons.prems(2)] new(1) by (auto simp: leased_def)
    moreover have "distinct (map cand_id (dr_candidates d'))" using postponed(3) [OF Pf] Cons.prems(3) by simp
    ultimately show ?thesis
      using Cons.IH [OF rest, of "L \<union> set ids" d'] new(2-4) postponed(2) [OF Pf] run x by auto
  qed
qed simp

text \<open>
  A due candidate is handed out once: over any sequence of scheduling passes, of
  any number of workers and whatever rows are locked, with probe jobs running in
  between, no candidate is claimed twice within 15 minutes, and a suppressed one is not
  claimed at all.  (A source that reports the relay again makes it due again.)
\<close>

lemma due_candidate_is_handed_out_once:
  assumes "directory_ok d" "\<forall>(t, e) \<in> set es. t0 \<le> t \<and> t < t0 + 900 * 1000000"
  shows "distinct (handed_out dec sha es d) \<and>
    (\<forall>i \<in> set (handed_out dec sha es d). \<exists>c \<in> set (dr_candidates d). cand_id c = i \<and> cand_state c \<noteq> Suppressed)"
proof -
  have "list_all (\<lambda>(t, e). t0 \<le> t \<and> t < t0 + seconds (15 * 60)) es"
    using assms(2) by (auto simp: list_all_iff seconds_def)
  moreover have "leased {} (t0 + seconds (15 * 60)) d" by (simp add: leased_def)
  moreover have "distinct (map cand_id (dr_candidates d))"
    using assms(1) by (simp add: directory_ok_def candidates_fine_def)
  ultimately show ?thesis
    using handed_out_leased [of t0 es "{}" d dec sha] by (auto simp: open_ids_def not_suppressed_def)
qed

end
