(* ===== verification/Directory_Job_Rules.thy ===== *)
theory Directory_Job_Rules
  imports Directory_Passes Directory_Intake
begin

text \<open>
  Rules for the jobs: what a query, a request and a log entry do to an assertion
  about the directory and the two logs of what relays answered.
\<close>

section \<open>Assertions about the directory\<close>

type_synonym job_view = "directory \<times> (string \<times> string \<times> invite_health) list \<times> (string \<times> string \<times> join_result) list"

definition view :: "'e job_world \<Rightarrow> job_view" where
  "view w = (jb_dir w, jb_health w, jb_answers w)"

definition holds :: "(job_view \<Rightarrow> bool) \<Rightarrow> 'e job_world \<Rightarrow> bool" where
  "holds p w = p (view w)"

named_theorems job_rules \<open>rules that a job keeps an assertion\<close>

lemma view_pass_time: "view (snd (pass_time E w)) = view w \<and> fst (pass_time E w) = Inr ()"
  by (auto simp: pass_time_def call_then_def ask_job_def io_put_def view_def split: prod.split)

lemma leads_dir_query:
  assumes "\<And>now d h r a d'. p (d, h, r) \<Longrightarrow> f now d = Inr (a, d') \<Longrightarrow> i (d', h, r) \<and> q a (d', h, r)"
    "\<And>v. p v \<Longrightarrow> i v"
  shows "leads (holds p) (dir_query E f) (holds i) (\<lambda>a. holds (q a))"
  unfolding dir_query_def
proof (rule leads_then [where R = "\<lambda>_. holds p"])
  show "leads (holds p) (pass_time E) (holds i) (\<lambda>_. holds p)"
    using assms(2) view_pass_time [of E] by (simp add: leads_def holds_def)
  have "leads (holds p) (run_query f) (holds i) (\<lambda>a. holds (q a))"
    using assms by (auto simp: leads_def holds_def view_def run_query_def split: sum.splits)
  then show "leads (holds p) (io_query (jd_query E) jb_env (\<lambda>g w. w\<lparr>jb_env := g (jb_env w)\<rparr>) (run_query f))
      (holds i) (\<lambda>a. holds (q a))" for u
    using assms(2) by (intro leads_query) (auto simp: holds_def view_def)
qed

text \<open>A query that only reads.\<close>

lemma leads_dir_read [job_rules]:
  assumes "\<And>now. reads_only (f now)"
  shows "leads (holds p) (dir_query E f) (holds p) (\<lambda>_. holds p)"
  by (rule leads_dir_query) (use assms in \<open>auto simp: reads_only_def\<close>)

text \<open>A query whose answer is a function \<open>g\<close> of the directory.\<close>

lemma leads_dir_get:
  "leads (holds p) (dir_query E (\<lambda>now. tx_read g)) (holds p) (\<lambda>a. holds (\<lambda>v. p v \<and> a = g (fst v)))"
  by (rule leads_dir_query) (auto simp: tx_read_def)

lemma leads_over_http [job_rules]: "leads (holds p) (over_http m) (holds p) (\<lambda>_. holds p)"
  by (auto simp: leads_def holds_def view_def over_http_def split: prod.splits)

lemma leads_job_seconds [job_rules]: "leads (holds p) job_seconds (holds p) (\<lambda>_. holds p)"
  by (auto simp: leads_def job_seconds_def io_get_def)

lemma leads_ask_job [job_rules]: "leads (holds p) (ask_job f) (holds p) (\<lambda>_. holds p)"
  by (auto simp: leads_def holds_def view_def ask_job_def split: prod.splits)

lemma leads_get_clock [job_rules]: "leads (holds p) (io_get f) (holds p) (\<lambda>_. holds p)"
  by (auto simp: leads_def io_get_def)

lemma holds_mono: "(\<And>v. p v \<Longrightarrow> q v) \<Longrightarrow> holds p w \<Longrightarrow> holds q w"
  by (simp add: holds_def)

lemma leads_holds_return: "(\<And>v. p v \<Longrightarrow> i v \<and> q a v) \<Longrightarrow> leads (holds p) (io_return a) (holds i) (\<lambda>a. holds (q a))"
  by (rule leads_return) (simp add: holds_def)

lemma leads_attempted:
  assumes "leads (holds p) m (holds i) (\<lambda>a. holds (q a))" "\<And>v. p v \<Longrightarrow> i v"
  shows "leads (holds p) (io_attempt m) (holds i)
    (\<lambda>r. holds (\<lambda>v. case r of Inl _ \<Rightarrow> i v | Inr a \<Rightarrow> i v \<and> q a v))"
  using assms by (fastforce simp: leads_def holds_def io_attempt_def split: prod.splits sum.splits)

text \<open>The probe of an invite and a join leave their answer in the log.\<close>

lemma leads_check_invite:
  assumes "\<And>d l r h. p (d, l, r) \<Longrightarrow> i (d, (host, code, h) # l, r) \<and> q h (d, (host, code, h) # l, r)"
    "\<And>v. p v \<Longrightarrow> i v"
  shows "leads (holds p) (check_invite E host code) (holds i) (\<lambda>h. holds (q h))"
proof -
  have keep: "leads (holds p) m (holds i) (\<lambda>_. holds p)" if "leads (holds p) m (holds p) (\<lambda>_. holds p)"
    for m :: "('e, 'b) job" using that assms(2) by (auto simp: leads_def holds_def)
  show ?thesis
    unfolding check_invite_def
    by (intro leads_then [OF keep [OF leads_job_seconds]] leads_then [OF keep [OF leads_over_http]])
      (use assms in \<open>auto simp: leads_def call_then_def io_put_def io_return_def holds_def view_def\<close>)
qed

lemma leads_join_as_agent:
  assumes "\<And>d l r a. p (d, l, r) \<Longrightarrow> i (d, l, (host, code, a) # r) \<and> q a (d, l, (host, code, a) # r)"
    "\<And>v. p v \<Longrightarrow> i v"
  shows "leads (holds p) (join_as_agent E host code) (holds i) (\<lambda>a. holds (q a))"
proof -
  have keep: "leads (holds p) m (holds i) (\<lambda>_. holds p)" if "leads (holds p) m (holds p) (\<lambda>_. holds p)"
    for m :: "('e, 'b) job" using that assms(2) by (auto simp: leads_def holds_def)
  show ?thesis
    unfolding join_as_agent_def
    by (intro leads_then [OF keep [OF leads_job_seconds]] leads_then [OF keep [OF leads_over_http]])
      (use assms in \<open>auto simp: leads_def call_then_def io_put_def io_return_def holds_def view_def\<close>)
qed

end
