(* ===== verification/Refresh_Properties.thy ===== *)
theory Refresh_Properties
  imports Directory_Job_Rules
begin

text \<open>
  What jobs/refresh-invites.ts promises about the invites the directory serves,
  whatever the relays answer and however the queries of the pass fail.
\<close>

section \<open>A justified swap\<close>

text \<open>
  The code of the source \<open>s\<close> was harvested for the host of its candidate and found live
  in this pass, after the code it replaces was found dead, or about to expire before it.
\<close>

definition swapped_in :: "'e job_env \<Rightarrow> int \<Rightarrow> directory \<Rightarrow> (string \<times> string \<times> invite_health) list \<Rightarrow> source_row \<Rightarrow> bool" where
  "swapped_in E now d0 log s \<longleftrightarrow> (\<exists>host code old h. ls_invite (so_listing s) = Some code \<and>
     (\<exists>c \<in> set (dr_candidates d0). cand_id c = so_candidate s \<and> cand_relay_url c = ''wss://'' @ host) \<and>
     (\<exists>x \<in> set (dr_harvested d0). hv_host x = host \<and> hv_code x = code) \<and>
     (host, code, Invite_live) \<in> set log \<and> (host, old, h) \<in> set log \<and>
     (is_dead h \<or> h = Invite_live \<and> is_expiring_soon E old now expiry_refresh_window \<and> lasts_longer E old code))"

lemma swapped_in_mono: "swapped_in E now d0 log s \<Longrightarrow> set log \<subseteq> set log' \<Longrightarrow> swapped_in E now d0 log' s"
  unfolding swapped_in_def by blast

definition invites_justified :: "'e job_env \<Rightarrow> int \<Rightarrow> directory \<Rightarrow> job_view \<Rightarrow> bool" where
  "invites_justified E now d0 = (\<lambda>(d, log, _). dr_candidates d = dr_candidates d0 \<and>
     set (dr_harvested d) \<subseteq> set (dr_harvested d0) \<and>
     (\<forall>s \<in> set (dr_sources d). s \<in> set (dr_sources d0) \<or> swapped_in E now d0 log s))"

lemma justified_log:
  "invites_justified E now d0 (d, log, r) \<Longrightarrow> invites_justified E now d0 (d, x # log, r)"
  unfolding invites_justified_def using swapped_in_mono [of E now d0 log _ "x # log"] by fastforce

lemma reads_invites: "reads_only (get_directory_invite h)" "reads_only (list_invite_candidates h)"
  "reads_only list_joined_communities"
  by (auto simp: reads_only_def get_directory_invite_def list_invite_candidates_def list_joined_communities_def
      tx_read_Inr)

lemma replace_justified:
  assumes "invites_justified E now d0 (d, log, r)" "replace_directory_invite i code t d = Inr (u, d')"
    and "\<exists>c \<in> set (dr_candidates d0). cand_id c = i \<and> cand_relay_url c = ''wss://'' @ host"
    and "\<exists>x \<in> set (dr_harvested d0). hv_host x = host \<and> hv_code x = code"
    and "(host, code, Invite_live) \<in> set log" "(host, old, h) \<in> set log"
    and "is_dead h \<or> h = Invite_live \<and> is_expiring_soon E old now expiry_refresh_window \<and> lasts_longer E old code"
  shows "invites_justified E now d0 (d', log, r)"
proof -
  have d': "d' = d\<lparr>dr_sources := update_where (\<lambda>s. so_candidate s = i) (with_code code t) (dr_sources d)\<rparr>"
    using assms(2) by (auto simp: replace_directory_invite_def split: if_splits)
  have "swapped_in E now d0 log (with_code code t s)" if "so_candidate s = i" for s
    unfolding swapped_in_def using assms(3-7) that
    by (intro exI [of _ host] exI [of _ code] exI [of _ old] exI [of _ h]) (simp add: with_code_def)
  moreover have "\<forall>s \<in> set (dr_sources d). s \<in> set (dr_sources d0) \<or> swapped_in E now d0 log s"
    using assms(1) by (simp add: invites_justified_def)
  ultimately have "\<forall>s \<in> set (dr_sources d'). s \<in> set (dr_sources d0) \<or> swapped_in E now d0 log s"
    unfolding d' by (simp add: set_update_where ball_Un)
  then show ?thesis using assms(1) by (simp add: invites_justified_def d')
qed

lemma delete_justified:
  "invites_justified E now d0 (d, log, r) \<Longrightarrow> delete_invite_candidate h c d = Inr (u, d') \<Longrightarrow>
   invites_justified E now d0 (d', log, r)"
  by (auto simp: invites_justified_def delete_invite_candidate_def tx_write_Inr)

section \<open>The pass\<close>

text \<open>What the checks of one host have established so far.\<close>

definition may_swap :: "'e job_env \<Rightarrow> int \<Rightarrow> directory \<Rightarrow> string \<Rightarrow> uuid \<Rightarrow> string \<Rightarrow> bool \<Rightarrow> string list \<Rightarrow> job_view \<Rightarrow> bool" where
  "may_swap E now d0 host i old dead codes = (\<lambda>v. invites_justified E now d0 v \<and>
     (\<exists>c \<in> set (dr_candidates d0). cand_id c = i \<and> cand_relay_url c = ''wss://'' @ host) \<and>
     (\<forall>code \<in> set codes. \<exists>x \<in> set (dr_harvested d0). hv_host x = host \<and> hv_code x = code) \<and>
     (\<exists>h. (host, old, h) \<in> set (fst (snd v)) \<and> dead = is_dead h \<and>
        (is_dead h \<or> h = Invite_live \<and> is_expiring_soon E old now expiry_refresh_window)))"

lemma try_candidates_justified:
  "leads (holds (may_swap E now d0 host i old dead codes)) (try_candidates E host i old dead codes)
     (holds (invites_justified E now d0)) (\<lambda>_. holds (invites_justified E now d0))"
proof (induction codes)
  case Nil
  show ?case unfolding try_candidates.simps by (rule leads_holds_return) (simp add: may_swap_def)
next
  case (Cons code codes)
  let ?J = "invites_justified E now d0"
  let ?R = "\<lambda>h v. may_swap E now d0 host i old dead (code # codes) v \<and> (host, code, h) \<in> set (fst (snd v))"
  have swap: "leads (holds (?R h)) (dir_query E (replace_directory_invite i code)) (holds ?J) (\<lambda>_. holds ?J)"
    if "h = Invite_live" "dead \<or> lasts_longer E old code" for h
  proof (rule leads_dir_query)
    fix t d log r a d'
    assume R: "?R h (d, log, r)" and run: "replace_directory_invite i code t d = Inr (a, d')"
    then obtain k where "(host, old, k) \<in> set log" "dead = is_dead k"
      "is_dead k \<or> k = Invite_live \<and> is_expiring_soon E old now expiry_refresh_window"
      by (auto simp: may_swap_def)
    with R that replace_justified [OF _ run, of E now d0 log r host old k]
    show "?J (d', log, r) \<and> ?J (d', log, r)" by (auto simp: may_swap_def)
  qed (simp add: may_swap_def)
  have delete: "leads (holds ?J) (dir_query E (\<lambda>now. delete_invite_candidate host code)) (holds ?J) (\<lambda>_. holds ?J)"
    by (rule leads_dir_query) (auto intro: delete_justified)
  have rest: "leads (holds (?R h)) (try_candidates E host i old dead codes) (holds ?J) (\<lambda>_. holds ?J)" for h
    using Cons.IH by (rule leads_weaken) (auto simp: holds_def may_swap_def)
  show ?case
    unfolding try_candidates.simps
  proof (rule leads_then [where R = "\<lambda>h. holds (?R h)"])
    show "leads (holds (may_swap E now d0 host i old dead (code # codes))) (check_invite E host code) (holds ?J)
        (\<lambda>h. holds (?R h))"
      by (rule leads_check_invite) (auto simp: may_swap_def justified_log)
    show "leads (holds (?R h)) (if h \<noteq> Invite_live \<or> \<not> dead \<and> \<not> lasts_longer E old code
          then try_candidates E host i old dead codes
          else call_then (dir_query E (replace_directory_invite i code)) (\<lambda>_.
            call_then (dir_query E (\<lambda>now. delete_invite_candidate host code)) (\<lambda>_. io_return True)))
        (holds ?J) (\<lambda>_. holds ?J)" for h
      by (intro leads_if rest leads_then [OF swap] leads_then [OF delete] leads_holds_return) auto
  qed
qed

lemma refresh_invite_justified:
  assumes "\<exists>c \<in> set (dr_candidates d0). cand_id c = i \<and> cand_relay_url c = ''wss://'' @ host"
  shows "leads (holds (invites_justified E now d0)) (refresh_invite E now host i old)
    (holds (invites_justified E now d0)) (\<lambda>_. holds (invites_justified E now d0))"
proof -
  let ?J = "invites_justified E now d0"
  let ?R = "\<lambda>h v. ?J v \<and> (host, old, h) \<in> set (fst (snd v))"
  have listing: "leads (holds (?R h)) (dir_query E (\<lambda>_. list_invite_candidates host)) (holds ?J)
      (\<lambda>codes. holds (may_swap E now d0 host i old (is_dead h) codes))"
    if "h \<noteq> Invite_error" "\<not> (h = Invite_live \<and> \<not> is_expiring_soon E old now expiry_refresh_window)" for h
  proof (rule leads_dir_query)
    fix t d log r a d'
    assume R: "?R h (d, log, r)" and run: "list_invite_candidates host d = Inr (a, d')"
    then have "d' = d" "\<forall>code \<in> set a. \<exists>x \<in> set (dr_harvested d). hv_host x = host \<and> hv_code x = code"
      by (auto simp: list_invite_candidates_def tx_read_Inr)
    moreover have "set (dr_harvested d) \<subseteq> set (dr_harvested d0)" using R by (simp add: invites_justified_def)
    ultimately have "d' = d" "\<forall>code \<in> set a. \<exists>x \<in> set (dr_harvested d0). hv_host x = host \<and> hv_code x = code"
      by blast+
    moreover have "is_dead h \<or> h = Invite_live \<and> is_expiring_soon E old now expiry_refresh_window"
      using that by (cases h) (auto simp: is_dead_def)
    ultimately show "?J (d', log, r) \<and> may_swap E now d0 host i old (is_dead h) a (d', log, r)"
      using R assms unfolding may_swap_def by auto
  qed simp
  show ?thesis
    unfolding refresh_invite_def
  proof (rule leads_then [where R = "\<lambda>h. holds (?R h)"])
    show "leads (holds ?J) (check_invite E host old) (holds ?J) (\<lambda>h. holds (?R h))"
      by (rule leads_check_invite) (auto simp: justified_log)
    fix h
    show "leads (holds (?R h)) (if h = Invite_error then io_return Refresh_error
        else if h = Invite_live \<and> \<not> is_expiring_soon E old now expiry_refresh_window then io_return Kept_live
        else call_then (dir_query E (\<lambda>_. list_invite_candidates host)) (\<lambda>codes.
          call_then (try_candidates E host i old (is_dead h) codes) (\<lambda>swapped.
          io_return (if swapped then Swapped else if is_dead h then Still_stale else Expiring_no_candidate))))
      (holds ?J) (\<lambda>_. holds ?J)"
      by (intro leads_if leads_then [OF listing] leads_then [OF try_candidates_justified] leads_holds_return) auto
  qed
qed

lemma refresh_hosts_justified:
  "leads (holds (invites_justified E now d0)) (refresh_hosts E now hosts t)
     (holds (invites_justified E now d0)) (\<lambda>_. holds (invites_justified E now d0))"
proof (induction hosts arbitrary: t)
  case Nil
  show ?case unfolding refresh_hosts.simps by (rule leads_holds_return) simp
next
  case (Cons x hosts)
  let ?J = "invites_justified E now d0"
  let ?known = "\<lambda>host found (v :: job_view). ?J v \<and> (\<forall>i old. found = Some (i, old) \<longrightarrow>
    (\<exists>c \<in> set (dr_candidates d0). cand_id c = i \<and> cand_relay_url c = ''wss://'' @ host))"
  obtain host url where x: "x = (host, url)" by (cases x)
  have found: "leads (holds ?J) (dir_query E (\<lambda>_. get_directory_invite host)) (holds ?J)
      (\<lambda>found. holds (?known host found))"
  proof (rule leads_dir_query)
    fix t d log r a d'
    assume J: "?J (d, log, r)" and run: "get_directory_invite host d = Inr (a, d')"
    have "\<exists>c \<in> set (dr_candidates d). cand_id c = i \<and> cand_relay_url c = ''wss://'' @ host"
      if "a = Some (i, old)" for i old
    proof -
      from run that obtain s where "directory_invite_row d host = Some s" "i = so_candidate s"
        by (cases "directory_invite_row d host") (auto simp: get_directory_invite_def tx_read_Inr)
      then obtain c where "candidate_by_url (''wss://'' @ host) d = Some c" "i = cand_id c"
        by (auto simp: directory_invite_row_def dest!: first_by_Some split: option.splits)
      then show ?thesis by (auto simp: candidate_by_url_def dest!: find_Some_set)
    qed
    then show "?J (d', log, r) \<and> ?known host a (d', log, r)"
      using J run by (auto simp: get_directory_invite_def tx_read_Inr invites_justified_def)
  qed simp
  have refresh: "leads (holds (?known host (Some (i, old)))) (io_attempt (refresh_invite E now host i old))
      (holds ?J) (\<lambda>_. holds ?J)" for i old
  proof (cases "\<exists>c \<in> set (dr_candidates d0). cand_id c = i \<and> cand_relay_url c = ''wss://'' @ host")
    case True
    from leads_attempted [OF refresh_invite_justified [OF this]] show ?thesis
      by (rule leads_weaken) (auto simp: holds_def split: sum.splits)
  qed (auto simp: leads_def holds_def)
  show ?case
    unfolding x refresh_hosts.simps
  proof (rule leads_then [OF leads_attempted [OF found]])
    fix r :: "err + (uuid \<times> string) option"
    show "leads (holds (\<lambda>v. case r of Inl _ \<Rightarrow> ?J v | Inr a \<Rightarrow> ?J v \<and> ?known host a v))
      (case r of
         Inl _ \<Rightarrow> refresh_hosts E now hosts (count_outcome Refresh_error t)
       | Inr None \<Rightarrow> refresh_hosts E now hosts t
       | Inr (Some (i, old)) \<Rightarrow>
           call_then (io_attempt (refresh_invite E now host i old)) (\<lambda>r.
           refresh_hosts E now hosts (count_outcome (case r of Inl _ \<Rightarrow> Refresh_error | Inr out \<Rightarrow> out)
             (t\<lparr>rt_checked := Suc (rt_checked t)\<rparr>))))
      (holds ?J) (\<lambda>_. holds ?J)"
    proof (cases r)
      case (Inl e)
      then show ?thesis using Cons.IH by simp
    next
      case (Inr found)
      show ?thesis
      proof (cases found)
        case None
        with Inr show ?thesis using Cons.IH by simp
      next
        case (Some p)
        obtain i old where "p = (i, old)" by (cases p)
        with Inr Some show ?thesis
          using leads_then [OF refresh [of i old] Cons.IH] by simp
      qed
    qed
  qed simp
qed


end
