(* ===== verification/Submission_Properties.thy ===== *)
theory Submission_Properties
  imports Directory_Job_Rules
begin

text \<open>
  What jobs/validate-submissions.ts and jobs/probe-joinability.ts promise.
\<close>

section \<open>A valid submission is a community joined\<close>

definition vouched :: "(string \<times> string \<times> join_result) list \<Rightarrow> validation \<Rightarrow> bool" where
  "vouched log v \<longleftrightarrow> (\<exists>r. (vl_host v, vl_code v, r) \<in> set log \<and> (is_joined r \<or> is_already_member r))"

text \<open>A candidate with this URL and identifier has a source of type submission.\<close>

definition entered :: "directory \<Rightarrow> string \<Rightarrow> uuid \<Rightarrow> bool" where
  "entered d url i \<longleftrightarrow> (\<exists>c \<in> set (dr_candidates d). cand_id c = i \<and> cand_relay_url c = url) \<and>
     (\<exists>s \<in> set (dr_sources d). so_candidate s = i \<and> so_type s = ''submission'')"

text \<open>A relay took the invite as the agent's, the community is a candidate under the
  submitted URL with a source of type submission, and its membership is recorded.\<close>

definition admitted :: "'e job_env \<Rightarrow> directory \<Rightarrow> (string \<times> string \<times> join_result) list \<Rightarrow> validation \<Rightarrow> bool" where
  "admitted E d log v \<longleftrightarrow> vouched log v \<and> vl_host v \<in> mb_host ` set (dr_members d) \<and>
     (\<exists>relay i. normalize_relay_url (jd_web E) (vl_url v) = Inr relay \<and> vl_candidate v = Some i \<and>
        entered d (rn_url relay) i)"

definition request_of :: "validation \<Rightarrow> uuid \<times> string \<times> string \<times> string" where
  "request_of v = (vl_id v, vl_host v, vl_url v, vl_code v)"

definition submissions_ok :: "'e job_env \<Rightarrow> directory \<Rightarrow> job_view \<Rightarrow> bool" where
  "submissions_ok E d0 = (\<lambda>(d, _, log). map request_of (dr_validations d) = map request_of (dr_validations d0) \<and>
     (\<forall>v \<in> set (dr_validations d). vl_status v = Valid \<longrightarrow> v \<in> set (dr_validations d0) \<or> admitted E d log v))"

section \<open>What later queries leave of it\<close>

text \<open>Every row of \<open>xs\<close> is still there, as far as \<open>k\<close> can tell.\<close>

definition covers :: "('r \<Rightarrow> 'k) \<Rightarrow> 'r list \<Rightarrow> 'r list \<Rightarrow> bool" where
  "covers k xs ys \<longleftrightarrow> (\<forall>x \<in> set xs. \<exists>y \<in> set ys. k y = k x)"

lemma covers_refl [simp]: "covers k xs xs"
  by (auto simp: covers_def)

lemma covers_append [simp]: "covers k xs (xs @ ys)"
  by (auto simp: covers_def)

lemma covers_update [simp]: "(\<And>r. k (f r) = k r) \<Longrightarrow> covers k xs (update_where P f xs)"
proof -
  assume key: "\<And>r. k (f r) = k r"
  show ?thesis
    unfolding covers_def
  proof
    fix x assume x: "x \<in> set xs"
    show "\<exists>y \<in> set (update_where P f xs). k y = k x"
      by (rule bexI [of _ "if P x then f x else x"]) (use x key in \<open>auto simp: set_update_where\<close>)
  qed
qed

lemma coversD: "covers k xs ys \<Longrightarrow> x \<in> set xs \<Longrightarrow> \<exists>y \<in> set ys. k y = k x"
  by (simp add: covers_def)

lemma covers_image: "covers k xs ys \<Longrightarrow> v \<in> k ` set xs \<Longrightarrow> v \<in> k ` set ys"
  unfolding covers_def by (erule imageE) (metis imageI)

definition grows :: "directory \<Rightarrow> directory \<Rightarrow> bool" where
  "grows d d' \<longleftrightarrow> covers mb_host (dr_members d) (dr_members d') \<and>
     covers (\<lambda>c. (cand_id c, cand_relay_url c)) (dr_candidates d) (dr_candidates d') \<and>
     covers (\<lambda>s. (so_candidate s, so_type s)) (dr_sources d) (dr_sources d')"

lemma grows_refl [simp]: "grows d d"
  by (simp add: grows_def)

lemma entered_grows:
  assumes "entered d url i" "grows d d'"
  shows "entered d' url i"
proof -
  obtain c s where a: "c \<in> set (dr_candidates d)" "(cand_id c, cand_relay_url c) = (i, url)"
    "s \<in> set (dr_sources d)" "(so_candidate s, so_type s) = (i, ''submission'')"
    using assms(1) unfolding entered_def by auto
  obtain c' where "c' \<in> set (dr_candidates d')" "(cand_id c', cand_relay_url c') = (i, url)"
    using coversD [of "\<lambda>c. (cand_id c, cand_relay_url c)", OF _ a(1)] a(2) assms(2) by (auto simp: grows_def)
  moreover obtain s' where "s' \<in> set (dr_sources d')" "(so_candidate s', so_type s') = (i, ''submission'')"
    using coversD [of "\<lambda>s. (so_candidate s, so_type s)", OF _ a(3)] a(4) assms(2) by (auto simp: grows_def)
  ultimately show ?thesis by (auto simp: entered_def)
qed

lemma vouched_mono: "vouched log v \<Longrightarrow> set log \<subseteq> set log' \<Longrightarrow> vouched log' v"
  by (auto simp: vouched_def)

lemma admitted_grows:
  assumes "admitted E d log v" "grows d d'" "set log \<subseteq> set log'"
  shows "admitted E d' log' v"
proof -
  obtain relay i where a: "vouched log v" "vl_host v \<in> mb_host ` set (dr_members d)"
    "normalize_relay_url (jd_web E) (vl_url v) = Inr relay" "vl_candidate v = Some i" "entered d (rn_url relay) i"
    using assms(1) unfolding admitted_def by blast
  have "vl_host v \<in> mb_host ` set (dr_members d')"
    using covers_image [OF _ a(2)] assms(2) by (simp add: grows_def)
  with a(3,4) vouched_mono [OF a(1) assms(3)] entered_grows [OF a(5) assms(2)] show ?thesis
    by (simp add: admitted_def)
qed

lemma upserted_candidate:
  assumes ins: "insert_candidate fresh relay type now d = Inr (c, d1)"
  shows "c \<in> set (dr_candidates d1) \<and> cand_relay_url c = rn_url relay \<and>
      covers (\<lambda>c. (cand_id c, cand_relay_url c)) (dr_candidates d) (dr_candidates d1)"
proof (cases "candidate_by_url (rn_url relay) d")
  case None
  with ins show ?thesis by (auto simp: insert_candidate_def new_candidate_def split: if_splits)
next
  case (Some c')
  then have c': "c' \<in> set (dr_candidates d)" "cand_relay_url c' = rn_url relay"
    by (auto simp: candidate_by_url_def dest: find_Some_set)
  let ?again = "seen_again type now"
  have keep: "cand_id (?again r) = cand_id r" "cand_relay_url (?again r) = cand_relay_url r" for r
    by (simp_all add: seen_again_def)
  have c: "c = ?again c'" and rows: "dr_candidates d1 =
      update_where (\<lambda>r. cand_relay_url r = rn_url relay) ?again (dr_candidates d)"
    using ins Some by (auto simp: insert_candidate_def update_candidates_def split: if_splits)
  have "?again c' \<in> set (dr_candidates d1)" unfolding rows using c' by (rule updated_row)
  then show ?thesis using c'(2) by (simp add: c keep rows)
qed

lemma upsert_candidate_grows:
  assumes "upsert_candidate W sha fresh relay src now d = Inr ((i, url, st), d')"
  shows "grows d d' \<and> dr_validations d' = dr_validations d \<and>
    (cs_type src = ''submission'' \<longrightarrow> entered d' (rn_url relay) i)"
proof -
  obtain c d1 x where ins: "insert_candidate fresh relay (cs_type src) now d = Inr (c, d1)"
    and src: "insert_source x d1 = Inr ((), d')" "so_candidate x = cand_id c" "so_type x = cs_type src"
    and i: "cand_id c = i"
    using assms by (fastforce simp: upsert_candidate_def tx_inversion tx_throw_def source_of_def
        candidate_record_def split: sum.splits)
  have d1: "dr_sources d1 = dr_sources d" "dr_members d1 = dr_members d" "dr_validations d1 = dr_validations d"
    using ins by (auto simp: insert_candidate_def update_candidates_def split: if_splits option.splits)
  note c = upserted_candidate [OF ins]
  have d': "dr_candidates d' = dr_candidates d1" "dr_members d' = dr_members d1" "dr_validations d' = dr_validations d1"
    "dr_sources d' = upsert_row (same_source x) (same_source x) (source_again x) x (dr_sources d1)"
    using src(1) by (auto simp: insert_source_def upsert_row_def split: if_splits)
  have "covers (\<lambda>s. (so_candidate s, so_type s)) (dr_sources d1) (dr_sources d')"
    by (simp add: d' upsert_row_def source_again_def)
  moreover have "\<exists>s \<in> set (dr_sources d'). so_candidate s = i \<and> so_type s = cs_type src"
  proof (cases "has_row (same_source x) (dr_sources d1)")
    case True
    then obtain y where y: "y \<in> set (dr_sources d1)" "same_source x y" by (auto simp: has_row_iff)
    then have "source_again x y \<in> set (dr_sources d')" using True by (simp add: d' upsert_row_def updated_row)
    then show ?thesis
      by (rule bexI [rotated]) (use y(2) src(2,3) i in \<open>simp add: same_source_def source_again_def\<close>)
  qed (use src(2,3) i in \<open>auto simp: d' upsert_row_def\<close>)
  ultimately show ?thesis using c i d1 d'(1-3) by (auto simp: grows_def entered_def)
qed

lemma upsert_membership_grows:
  assumes "upsert_membership h url com now d = Inr (u, d')"
  shows "grows d d' \<and> dr_validations d' = dr_validations d \<and> h \<in> mb_host ` set (dr_members d')"
proof -
  obtain com' where d': "d' = d\<lparr>dr_members :=
      (if has_row (\<lambda>m. mb_host m = h) (dr_members d)
       then update_where (\<lambda>m. mb_host m = h) (\<lambda>m. m\<lparr>mb_url := url, mb_community := or_else com' (mb_community m)\<rparr>)
         (dr_members d)
       else dr_members d @ [\<lparr>mb_host = h, mb_url = url, mb_community = com', mb_joined = now\<rparr>])\<rparr>"
    using assms by (auto simp: upsert_membership_def Let_def split: if_splits)
  have "h \<in> mb_host ` set (dr_members d')"
  proof (cases "has_row (\<lambda>m. mb_host m = h) (dr_members d)")
    case True
    then obtain m where "m \<in> set (dr_members d)" "mb_host m = h" by (auto simp: has_row_iff)
    then have "h \<in> mb_host ` set (dr_members d)" by auto
    then show ?thesis by (rule covers_image [rotated]) (simp add: d')
  qed (simp add: d')
  then show ?thesis by (simp add: d' grows_def)
qed

section \<open>The pass\<close>

abbreviation same_requests :: "directory \<Rightarrow> directory \<Rightarrow> bool" where
  "same_requests d d' \<equiv> map request_of (dr_validations d') = map request_of (dr_validations d)"

lemma submissions_grow:
  assumes "submissions_ok E d0 (d, h, log)" "grows d d'" "dr_validations d' = dr_validations d"
  shows "submissions_ok E d0 (d', h, log)"
  using assms admitted_grows [OF _ assms(2), of E log _ log] by (auto simp: submissions_ok_def)

lemma submissions_log:
  "submissions_ok E d0 (d, h, log) \<Longrightarrow> submissions_ok E d0 (d, h, x # log)"
  using admitted_grows [of E d log _ d "x # log"] by (auto simp: submissions_ok_def)

text \<open>A row resolved is the row claimed, so its request is \<open>v\<close>'s.\<close>

lemma resolve_submissions:
  assumes ok: "submissions_ok E d0 (d, h, log)" and run: "resolve_submission_validation (vl_id v) s c m now d = Inr (u, d')"
    and row: "request_of v \<in> request_of ` set (dr_validations d0)" "distinct (map vl_id (dr_validations d0))"
    and good: "s = Valid \<Longrightarrow> \<exists>relay i. vouched log v \<and> vl_host v \<in> mb_host ` set (dr_members d) \<and>
      normalize_relay_url (jd_web E) (vl_url v) = Inr relay \<and> c = Some i \<and> entered d (rn_url relay) i"
  shows "submissions_ok E d0 (d', h, log)"
proof -
  let ?f = "\<lambda>v. v\<lparr>vl_status := s, vl_candidate := c, vl_message := m, vl_resolved := Some now\<rparr>"
  have d': "d' = d\<lparr>dr_validations := update_where (\<lambda>x. vl_id x = vl_id v) ?f (dr_validations d)\<rparr>"
    using run by (auto simp: resolve_submission_validation_def split: if_splits)
  have same: "same_requests d0 d" using ok by (simp add: submissions_ok_def)
  have ids: "map vl_id vs = map fst (map request_of vs)" for vs by (simp add: request_of_def)
  have "distinct (map vl_id (dr_validations d))" using row(2) unfolding ids same .
  moreover have "request_of v \<in> request_of ` set (dr_validations d)"
    using row(1) arg_cong [OF same, of set] by simp
  ultimately have own: "request_of x = request_of v" if "x \<in> set (dr_validations d)" "vl_id x = vl_id v" for x
    using that by (auto simp: distinct_map request_of_def dest: inj_onD)
  have "admitted E d' log (?f x)" if "x \<in> set (dr_validations d)" "vl_id x = vl_id v" "s = Valid" for x
    using good [OF that(3)] own [OF that(1,2)]
    by (auto simp: admitted_def vouched_def entered_def request_of_def d')
  moreover have "admitted E d' log x = admitted E d log x" for x
    by (simp add: admitted_def entered_def d')
  ultimately have "\<forall>x \<in> set (dr_validations d'). vl_status x = Valid \<longrightarrow>
      x \<in> set (dr_validations d0) \<or> admitted E d' log x"
    using ok by (auto simp: submissions_ok_def set_update_where d')
  moreover have "map request_of (dr_validations d') = map request_of (dr_validations d)"
    by (simp add: d' map_update_where request_of_def)
  ultimately show ?thesis using same by (simp add: submissions_ok_def)
qed

lemma claim_submissions:
  assumes "submissions_ok E d0 (d, h, log)" "claim_pending_validations locked n d = Inr (vs, d')"
  shows "submissions_ok E d0 (d', h, log) \<and> (\<forall>v \<in> set vs. request_of v \<in> request_of ` set (dr_validations d0))"
proof -
  let ?f = "\<lambda>v. v\<lparr>vl_status := Processing\<rparr>"
  obtain P where d': "d' = d\<lparr>dr_validations := update_where P ?f (dr_validations d)\<rparr>"
    and vs: "vs = map ?f (pending_validations locked n d)"
    using assms(2) by (auto simp: claim_pending_validations_def Let_def)
  have same: "same_requests d0 d" using assms(1) by (simp add: submissions_ok_def)
  have f: "request_of (?f v) = request_of v" for v by (simp add: request_of_def)
  have "set (pending_validations locked n d) \<subseteq> set (dr_validations d)"
    by (auto simp: pending_validations_def dest!: in_set_takeD)
  then have "request_of ` set vs \<subseteq> request_of ` set (dr_validations d)" by (auto simp: vs f)
  also have "\<dots> = request_of ` set (dr_validations d0)" using arg_cong [OF same, of set] by simp
  finally have "\<forall>v \<in> set vs. request_of v \<in> request_of ` set (dr_validations d0)" by blast
  moreover have "map request_of (dr_validations d') = map request_of (dr_validations d)"
    by (simp add: d' f)
  moreover have "admitted E d' log x = admitted E d log x" for x
    by (simp add: admitted_def entered_def d')
  ultimately show ?thesis
    using assms(1) same by (auto simp: submissions_ok_def set_update_where d')
qed

text \<open>The assertions between the steps of one row.\<close>

definition during :: "'e job_env \<Rightarrow> directory \<Rightarrow> validation \<Rightarrow> (directory \<Rightarrow> bool) \<Rightarrow> job_view \<Rightarrow> bool" where
  "during E d0 v p = (\<lambda>x. submissions_ok E d0 x \<and> vouched (snd (snd x)) v \<and> p (fst x))"

lemma during_submissions: "during E d0 v p x \<Longrightarrow> submissions_ok E d0 x"
  by (simp add: during_def)

lemma accept_submission_justified:
  assumes "request_of v \<in> request_of ` set (dr_validations d0)" "distinct (map vl_id (dr_validations d0))"
  shows "leads (holds (during E d0 v (\<lambda>_. True))) (accept_submission E v r)
    (holds (submissions_ok E d0)) (\<lambda>_. holds (submissions_ok E d0))"
  unfolding accept_submission_def
proof (rule leads_then)
  let ?I = "holds (submissions_ok E d0)"
  let ?N = "\<lambda>relay. normalize_relay_url (jd_web E) (vl_url v) = Inr relay"
  show "leads (holds (during E d0 v (\<lambda>_. True))) (io_res (as_thrown (normalize_relay_url (jd_web E) (vl_url v))))
      ?I (\<lambda>relay. holds (during E d0 v (\<lambda>_. ?N relay)))"
    by (rule leads_res) (auto simp: holds_def during_def as_thrown_def split: sum.splits)
  fix relay
  show "leads (holds (during E d0 v (\<lambda>_. ?N relay)))
      (call_then (inject_candidate E relay (submission_source E v)) (\<lambda>(i, _, _).
       call_then (dir_query E (upsert_membership (vl_host v) (vl_url v) (joined_id r))) (\<lambda>_.
       dir_query E (resolve_submission_validation (vl_id v) Valid (Some i) None)))) ?I (\<lambda>_. ?I)"
  proof (rule leads_then)
    let ?in = "\<lambda>i d. ?N relay \<and> entered d (rn_url relay) i"
    show "leads (holds (during E d0 v (\<lambda>_. ?N relay))) (inject_candidate E relay (submission_source E v)) ?I
        (\<lambda>c. holds (during E d0 v (?in (fst c))))"
      unfolding inject_candidate_def
    proof (rule leads_then)
      show "leads (holds (during E d0 v (\<lambda>_. ?N relay))) (ask_job (jd_uuid E)) ?I
          (\<lambda>_. holds (during E d0 v (\<lambda>_. ?N relay)))"
        using leads_ask_job by (rule leads_weaken) (auto simp: holds_def during_def)
      fix fresh
      show "leads (holds (during E d0 v (\<lambda>_. ?N relay)))
          (dir_query E (upsert_candidate (jd_web E) (hc_sha256 (jd_client E)) fresh relay (submission_source E v))) ?I
          (\<lambda>c. holds (during E d0 v (?in (fst c))))"
      proof (rule leads_dir_query)
        fix now d h log a d'
        assume p: "during E d0 v (\<lambda>_. ?N relay) (d, h, log)"
          and run: "upsert_candidate (jd_web E) (hc_sha256 (jd_client E)) fresh relay (submission_source E v) now d
            = Inr (a, d')"
        obtain i url st where a: "a = (i, url, st)" by (cases a) auto
        from upsert_candidate_grows [OF run [unfolded a]] p show "submissions_ok E d0 (d', h, log) \<and>
            during E d0 v (?in (fst a)) (d', h, log)"
          by (auto simp: during_def a submission_source_def intro: submissions_grow)
      qed (rule during_submissions)
    qed
    fix c
    have enter: "leads (holds (during E d0 v (?in i)))
        (dir_query E (upsert_membership (vl_host v) (vl_url v) (joined_id r))) ?I
        (\<lambda>_. holds (during E d0 v (\<lambda>d. ?in i d \<and> vl_host v \<in> mb_host ` set (dr_members d))))" for i
      by (rule leads_dir_query) (auto simp: during_def dest!: upsert_membership_grows
          intro: submissions_grow entered_grows)
    have settled: "leads (holds (during E d0 v (\<lambda>d. ?in i d \<and> vl_host v \<in> mb_host ` set (dr_members d))))
        (dir_query E (resolve_submission_validation (vl_id v) Valid (Some i) None)) ?I (\<lambda>_. ?I)" for i
      by (rule leads_dir_query) (auto simp: during_def intro: resolve_submissions [OF _ _ assms])
    show "leads (holds (during E d0 v (?in (fst c)))) (case c of (i, _, _) \<Rightarrow>
        call_then (dir_query E (upsert_membership (vl_host v) (vl_url v) (joined_id r))) (\<lambda>_.
        dir_query E (resolve_submission_validation (vl_id v) Valid (Some i) None))) ?I (\<lambda>_. ?I)"
      by (cases c) (auto intro: leads_then [OF enter settled])
  qed
qed

lemma settle_justified:
  assumes "request_of v \<in> request_of ` set (dr_validations d0)" "distinct (map vl_id (dr_validations d0))"
  shows "leads (holds (submissions_ok E d0)) (settle E v) (holds (submissions_ok E d0)) (\<lambda>_. holds (submissions_ok E d0))"
  unfolding settle_def
proof (rule leads_then)
  let ?J = "submissions_ok E d0"
  let ?R = "\<lambda>r x. ?J x \<and> (vl_host v, vl_code v, r) \<in> set (snd (snd x))"
  show "leads (holds ?J) (join_as_agent E (vl_host v) (vl_code v)) (holds ?J) (\<lambda>r. holds (?R r))"
    by (rule leads_join_as_agent) (auto intro: submissions_log)
  fix r
  have accept: "leads (holds (?R r)) (accept_submission E v r) (holds ?J) (\<lambda>_. holds ?J)"
    if "is_joined r \<or> is_already_member r"
    by (rule leads_weaken [OF accept_submission_justified [OF assms]])
      (use that in \<open>auto simp: holds_def during_def vouched_def\<close>)
  have refuse: "leads (holds (?R r)) (dir_query E (resolve_submission_validation (vl_id v) Invalid None m)) (holds ?J)
      (\<lambda>_. holds ?J)" for m
    by (rule leads_dir_query) (auto intro: resolve_submissions [OF _ _ assms])
  show "leads (holds (?R r)) (if is_joined r \<or> is_already_member r
      then call_then (accept_submission E v r) (\<lambda>_. io_return True)
      else call_then (dir_query E (resolve_submission_validation (vl_id v) Invalid None (Some (join_reason r))))
       (\<lambda>_. io_return False)) (holds ?J) (\<lambda>_. holds ?J)"
    by (intro leads_if leads_then [OF accept] leads_then [OF refuse] leads_holds_return) auto
qed

lemma settle_or_fail_justified:
  assumes "request_of v \<in> request_of ` set (dr_validations d0)" "distinct (map vl_id (dr_validations d0))"
  shows "leads (holds (submissions_ok E d0)) (settle_or_fail E v) (holds (submissions_ok E d0))
    (\<lambda>_. holds (submissions_ok E d0))"
  unfolding settle_or_fail_def
proof (rule leads_then [OF leads_attempt [OF settle_justified [OF assms]]])
  let ?J = "submissions_ok E d0"
  have failed: "leads (holds ?J) (dir_query E (resolve_submission_validation (vl_id v) Failed_validation None m)) (holds ?J)
      (\<lambda>_. holds ?J)" for m
    by (rule leads_dir_query) (auto intro: resolve_submissions [OF _ _ assms])
  show "leads (holds ?J) (case r of
       Inl e \<Rightarrow> call_then (io_attempt (dir_query E
           (resolve_submission_validation (vl_id v) Failed_validation None (Some (jd_message E e)))))
         (\<lambda>_. io_return r)
     | Inr b \<Rightarrow> io_return r) (holds ?J) (\<lambda>_. holds ?J)" for r
    by (cases r) (auto intro: leads_then [OF leads_attempt [OF failed]] leads_holds_return)
qed

lemma settle_all_justified:
  assumes "\<forall>v \<in> set vs. request_of v \<in> request_of ` set (dr_validations d0)" "distinct (map vl_id (dr_validations d0))"
  shows "leads (holds (submissions_ok E d0)) (settle_all E vs t) (holds (submissions_ok E d0))
    (\<lambda>_. holds (submissions_ok E d0))"
  using assms(1)
proof (induction vs arbitrary: t)
  case Nil
  show ?case unfolding settle_all.simps by (rule leads_holds_return) simp
next
  case (Cons v vs)
  then have v: "request_of v \<in> request_of ` set (dr_validations d0)" by simp
  show ?case unfolding settle_all.simps
    by (rule leads_then [OF settle_or_fail_justified [OF v assms(2)]]) (use Cons in simp)
qed

lemma process_pending_justified:
  assumes "distinct (map vl_id (dr_validations d0))"
  shows "leads (holds (submissions_ok E d0)) (process_pending_validations E n) (holds (submissions_ok E d0))
    (\<lambda>_. holds (submissions_ok E d0))"
  unfolding process_pending_validations_def
proof (intro leads_then [OF leads_ask_job])
  fix locked
  have claim: "leads (holds (submissions_ok E d0)) (dir_query E (\<lambda>_. claim_pending_validations locked n)) (holds (submissions_ok E d0))
      (\<lambda>vs. holds (\<lambda>x. submissions_ok E d0 x \<and> (\<forall>v \<in> set vs. request_of v \<in> request_of ` set (dr_validations d0))))"
  proof (rule leads_dir_query)
    fix d h log vs d'
    assume "submissions_ok E d0 (d, h, log)" "claim_pending_validations locked n d = Inr (vs, d')"
    from claim_submissions [OF this] show "submissions_ok E d0 (d', h, log) \<and>
        submissions_ok E d0 (d', h, log) \<and> (\<forall>v \<in> set vs. request_of v \<in> request_of ` set (dr_validations d0))" by blast
  qed
  have all: "leads (holds (\<lambda>x. submissions_ok E d0 x \<and> (\<forall>v \<in> set vs. request_of v \<in> request_of ` set (dr_validations d0))))
      (settle_all E vs t) (holds (submissions_ok E d0)) (\<lambda>_. holds (submissions_ok E d0))" for vs t
  proof (cases "\<forall>v \<in> set vs. request_of v \<in> request_of ` set (dr_validations d0)")
    case True
    from settle_all_justified [OF this assms] show ?thesis by (rule leads_weaken) (auto simp: holds_def)
  qed (auto simp: leads_def holds_def)
  show "leads (holds (submissions_ok E d0)) (call_then (dir_query E (\<lambda>_. claim_pending_validations locked n)) (\<lambda>rows.
      settle_all E rows \<lparr>vt_processed = 0, vt_valid = 0, vt_invalid = 0, vt_errors = 0\<rparr>)) (holds (submissions_ok E d0)) (\<lambda>_. holds (submissions_ok E d0))"
    by (rule leads_then [OF claim all])
qed

text \<open>
  No submission is called valid on the submitter's word: after a pass, whatever
  the relays and the database answer and wherever it stops, every row that became
  valid carries a code with which the agent joined the community (or was told that it
  is a member), its URL normalises to a candidate recorded with a source of type
  submission, the row names that candidate, and the agent's membership is stored.
\<close>

lemma valid_submissions_were_joined:
  assumes "directory_ok (jb_dir w)" "jb_answers w = []" "process_pending_validations E n w = (r, w')"
    and "v \<in> set (dr_validations (jb_dir w'))" "vl_status v = Valid" "v \<notin> set (dr_validations (jb_dir w))"
  shows "(\<exists>a. (vl_host v, vl_code v, a) \<in> set (jb_answers w') \<and> (is_joined a \<or> is_already_member a)) \<and>
    vl_host v \<in> mb_host ` set (dr_members (jb_dir w')) \<and>
    (\<exists>relay c. normalize_relay_url (jd_web E) (vl_url v) = Inr relay \<and> c \<in> set (dr_candidates (jb_dir w')) \<and>
       vl_candidate v = Some (cand_id c) \<and> cand_relay_url c = rn_url relay \<and>
       (\<exists>s \<in> set (dr_sources (jb_dir w')). so_candidate s = cand_id c \<and> so_type s = ''submission''))"
proof -
  let ?d0 = "jb_dir w" and ?J = "submissions_ok E (jb_dir w)"
  have keys: "distinct (map vl_id (dr_validations ?d0))" using assms(1) by (simp add: directory_ok_def)
  note run = process_pending_justified [OF keys, of E n]
  have "holds ?J w" by (simp add: holds_def view_def submissions_ok_def)
  from leadsD [OF run this assms(3)] have "holds ?J w'" ..
  then have "vl_status v = Valid \<longrightarrow> v \<in> set (dr_validations ?d0) \<or> admitted E (jb_dir w') (jb_answers w') v"
    unfolding holds_def view_def submissions_ok_def prod.case using assms(4) by (elim conjE) (rule bspec)
  then have "admitted E (jb_dir w') (jb_answers w') v" using assms(5,6) by (elim impE disjE) simp_all
  then obtain relay i where "vouched (jb_answers w') v" "vl_host v \<in> mb_host ` set (dr_members (jb_dir w'))"
    "normalize_relay_url (jd_web E) (vl_url v) = Inr relay" "vl_candidate v = Some i"
    "entered (jb_dir w') (rn_url relay) i"
    unfolding admitted_def by blast
  then show ?thesis unfolding vouched_def entered_def by blast
qed

section \<open>An unreachable relay\<close>

lemma dir_query_answered:
  assumes "\<And>e. fst (jd_query E e) = Query_ok" "f (jb_clock w + int (fst (jd_tick E (jb_env w)))) (jb_dir w) = Inr (a, d')"
  shows "\<exists>e. dir_query E f w = (Inr a, w\<lparr>jb_clock := jb_clock w + int (fst (jd_tick E (jb_env w))), jb_env := e, jb_dir := d'\<rparr>)"
proof -
  obtain n e where tick: "jd_tick E (jb_env w) = (n, e)" by (cases "jd_tick E (jb_env w)")
  obtain e' where "jd_query E e = (Query_ok, e')" using assms(1) [of e] by (cases "jd_query E e") auto
  then show ?thesis using assms(2)
    by (intro exI [of _ e']) (simp add: tick dir_query_def pass_time_def ask_job_def io_put_def call_then_def io_query_def run_query_def)
qed

lemma unreachable_claim:
  assumes "\<And>rq e. fst (hc_fetch hc rq e) = Unreachable m" "api_host host = Inr h"
  shows "\<exists>e rq. join_community hc now host code key c w =
    (Inr (Join_failed 0 (Some Network_error) (Some (JStr m))), w\<lparr>jw_env := e, jw_requests := rq\<rparr>)"
proof -
  obtain nonce e where uuid: "hc_uuid hc (jw_env w) = (nonce, e)" by (cases "hc_uuid hc (jw_env w)")
  have fetch: "hc_fetch hc rq e = (Unreachable m, snd (hc_fetch hc rq e))" for rq e
    using assms(1) [of rq e] by (cases "hc_fetch hc rq e") auto
  have "\<exists>e rq. claim_invite_code hc now host code key None w =
      (Inr (Claim_failed 0 Network_error (Some (JStr m))), w\<lparr>jw_env := e, jw_requests := rq\<rparr>)"
    unfolding claim_invite_code_def claim_endpoint_def endpoint_url_def signed_post_def build_nip98_header_def
      send_request_def ask_client_def io_res_def io_return_def call_then_def
    by (simp add: assms(2) uuid) (subst (1) fetch, simp, blast)
  then obtain e rq where "claim_invite_code hc now host code key None w =
      (Inr (Claim_failed 0 Network_error (Some (JStr m))), w\<lparr>jw_env := e, jw_requests := rq\<rparr>)" by blast
  then show ?thesis
    by (intro exI [of _ e] exI [of _ rq])
      (simp add: join_community_def call_then_def finish_join_def io_return_def is_join_policy_required_def)
qed

text \<open>
  An outage is held against the invite: when the relay cannot be reached and the
  database answers, the submission is settled as invalid with the message
  network_error, although an error was meant for failures of transport.
\<close>

lemma unreachable_relay_settles_invalid:
  assumes "\<And>rq e. fst (hc_fetch (jd_client E) rq e) = Unreachable m" "\<And>e. fst (jd_query E e) = Query_ok"
    and "api_host (vl_host v) = Inr h" "\<not> says_already (to_lower m)"
  shows "\<exists>w'. settle_or_fail E v w = (Inr (Inr False), w') \<and>
    dr_validations (jb_dir w') = update_where (\<lambda>x. vl_id x = vl_id v)
      (\<lambda>x. x\<lparr>vl_status := Invalid, vl_candidate := None, vl_message := Some ''network_error'',
         vl_resolved := Some (jb_clock w')\<rparr>) (dr_validations (jb_dir w))"
proof -
  let ?r = "Join_failed 0 (Some Network_error) (Some (JStr m))"
  have join: "\<exists>w1. join_as_agent E (vl_host v) (vl_code v) w = (Inr ?r, w1) \<and> jb_dir w1 = jb_dir w"
  proof -
    obtain e rq where "join_community (jd_client E) (epoch_seconds (jb_clock w)) (vl_host v) (vl_code v) (jd_key E) True
        \<lparr>jw_env = jb_env w, jw_requests = jb_requests w, jw_joined = jb_joined w\<rparr> =
      (Inr ?r, \<lparr>jw_env = jb_env w, jw_requests = jb_requests w, jw_joined = jb_joined w\<rparr>\<lparr>jw_env := e, jw_requests := rq\<rparr>)"
      using unreachable_claim [OF assms(1,3)] by blast
    then show ?thesis
      by (simp add: join_as_agent_def job_seconds_def io_get_def over_http_def io_put_def io_return_def call_then_def)
  qed
  then obtain w1 where w1: "join_as_agent E (vl_host v) (vl_code v) w = (Inr ?r, w1)" "jb_dir w1 = jb_dir w" by blast
  have refused: "\<not> is_joined ?r" "\<not> is_already_member ?r" "join_reason ?r = ''network_error''"
    using assms(4) by (simp_all add: is_joined_def is_already_member_def member_text_def error_text_def text_of_def
        join_reason_def failure_name_def)
  have ok: "text_ok (Some ''network_error'')" by simp
  let ?t = "jb_clock w1 + int (fst (jd_tick E (jb_env w1)))"
  let ?d = "jb_dir w1\<lparr>dr_validations := update_where (\<lambda>x. vl_id x = vl_id v)
      (\<lambda>x. x\<lparr>vl_status := Invalid, vl_candidate := None, vl_message := Some ''network_error'',
         vl_resolved := Some ?t\<rparr>) (dr_validations (jb_dir w1))\<rparr>"
  have "resolve_submission_validation (vl_id v) Invalid None (Some ''network_error'') ?t (jb_dir w1) = Inr ((), ?d)"
    using ok by (simp add: resolve_submission_validation_def)
  from dir_query_answered [OF assms(2), of "resolve_submission_validation (vl_id v) Invalid None (Some ''network_error'')", OF this]
  obtain e where "dir_query E (resolve_submission_validation (vl_id v) Invalid None (Some ''network_error'')) w1 =
      (Inr (), w1\<lparr>jb_clock := ?t, jb_env := e, jb_dir := ?d\<rparr>)" by blast
  then have "settle_or_fail E v w = (Inr (Inr False), w1\<lparr>jb_clock := ?t, jb_env := e, jb_dir := ?d\<rparr>)"
    by (simp add: settle_or_fail_def settle_def io_attempt_def io_return_def call_then_def w1(1) refused)
  then show ?thesis by (simp add: w1(2))
qed

end
