(* ===== verification/Joinability_Properties.thy ===== *)
theory Joinability_Properties
  imports Directory_Job_Rules
begin

text \<open>What jobs/probe-joinability.ts promises about the verdicts the directory shows.\<close>

section \<open>A joinability pass\<close>

lemma dir_query_returned:
  assumes "dir_query E f w = (Inr a, w')"
  shows "f (jb_clock w') (jb_dir w) = Inr (a, jb_dir w') \<and> jb_clock w \<le> jb_clock w'"
proof -
  obtain n e where tick: "jd_tick E (jb_env w) = (n, e)" by (cases "jd_tick E (jb_env w)")
  obtain q e' where "jd_query E e = (q, e')" by (cases "jd_query E e")
  with assms show ?thesis
    by (cases q) (auto simp: tick dir_query_def pass_time_def ask_job_def io_put_def call_then_def io_query_def
        run_query_def Let_def split: sum.splits)
qed

lemma over_http_keeps: "over_http m w = (r, w') \<Longrightarrow> jb_dir w' = jb_dir w \<and> jb_clock w' = jb_clock w"
  by (auto simp: over_http_def split: prod.splits)

lemma join_probe_recorded:
  assumes "record_join_probe i code s detail now d = Inr (u, d')"
  shows "join_probe_of j d' = (if j = i then Some \<lparr>jn_candidate = i, jn_code = code, jn_status = s, jn_detail = detail,
      jn_probed = now\<rparr> else join_probe_of j d)"
    "dr_candidates d' = dr_candidates d" "dr_sources d' = dr_sources d"
proof -
  let ?p = "\<lparr>jn_candidate = i, jn_code = code, jn_status = s, jn_detail = detail, jn_probed = now\<rparr>"
  have d': "d' = d\<lparr>dr_join_probes := upsert_row (\<lambda>q. jn_candidate q = i) (\<lambda>q. jn_candidate q = i) (\<lambda>q. ?p) ?p
      (dr_join_probes d)\<rparr>"
    using assms by (auto simp: record_join_probe_def upsert_row_def Let_def split: if_splits)
  have upd: "find (\<lambda>q. jn_candidate q = j) (update_where (\<lambda>q. jn_candidate q = i) (\<lambda>q. ?p) ps) =
      (if j = i then if has_row (\<lambda>q. jn_candidate q = i) ps then Some ?p else None
       else find (\<lambda>q. jn_candidate q = j) ps)" for ps
    by (induction ps) (auto simp: has_row_def)
  have app: "find P (ps @ [p]) = (case find P ps of None \<Rightarrow> if P p then Some p else None | Some x \<Rightarrow> Some x)"
    for P and ps :: "join_probe list" and p
    by (induction ps) auto
  have none: "\<not> has_row (\<lambda>q. jn_candidate q = i) ps \<Longrightarrow> find (\<lambda>q. jn_candidate q = i) ps = None" for ps
    by (auto simp: has_row_iff find_None_iff)
  show "join_probe_of j d' = (if j = i then Some ?p else join_probe_of j d)"
    using none [of "dr_join_probes d"]
    by (cases "has_row (\<lambda>q. jn_candidate q = i) (dr_join_probes d)")
      (simp_all add: d' join_probe_of_def upsert_row_def upd app split: option.split)
  show "dr_candidates d' = dr_candidates d" "dr_sources d' = dr_sources d" by (simp_all add: d')
qed

text \<open>The verdict on \<open>i\<close> is of the code advertised, and not older than \<open>t\<close>.\<close>

definition has_verdict :: "time \<Rightarrow> directory \<Rightarrow> uuid \<Rightarrow> bool" where
  "has_verdict t d i \<longleftrightarrow> (\<exists>p. join_probe_of i d = Some p \<and> t \<le> jn_probed p \<and> jn_code p = advertised_code d i)"

lemma check_joinability_records:
  assumes "check_joinability E (i, host, code) w = (Inr s, w')"
  shows "dr_candidates (jb_dir w') = dr_candidates (jb_dir w)" "dr_sources (jb_dir w') = dr_sources (jb_dir w)"
    "jb_clock w \<le> jb_clock w'"
    "has_verdict t (jb_dir w) j \<Longrightarrow> t \<le> jb_clock w \<Longrightarrow> advertised_code (jb_dir w) i = Some code \<Longrightarrow>
      has_verdict t (jb_dir w') j"
    "t \<le> jb_clock w \<Longrightarrow> advertised_code (jb_dir w) i = Some code \<Longrightarrow> has_verdict t (jb_dir w') i"
proof -
  obtain status detail w1 where w1: "jb_dir w1 = jb_dir w" "jb_clock w1 = jb_clock w"
    and run: "dir_query E (record_join_probe i (Some code) status detail) w1 = (Inr (), w')"
    using assms by (auto simp: check_joinability_def io_inversion job_seconds_def dest!: over_http_keeps)
  note rec = dir_query_returned [OF run] and rows = join_probe_recorded [OF conjunct1 [OF dir_query_returned [OF run]]]
  show "dr_candidates (jb_dir w') = dr_candidates (jb_dir w)" "dr_sources (jb_dir w') = dr_sources (jb_dir w)"
    "jb_clock w \<le> jb_clock w'" using rows(2,3) rec w1 by simp_all
  have adv: "advertised_code (jb_dir w') k = advertised_code (jb_dir w) k" for k
    using rows(3) w1(1) by (simp add: advertised_code_def)
  show "has_verdict t (jb_dir w') i" if "t \<le> jb_clock w" "advertised_code (jb_dir w) i = Some code"
    using rows(1) that rec w1 by (simp add: has_verdict_def adv)
  show "has_verdict t (jb_dir w') j" if "has_verdict t (jb_dir w) j" "t \<le> jb_clock w"
    "advertised_code (jb_dir w) i = Some code"
    using rows(1) that rec w1 by (auto simp: has_verdict_def adv)
qed

lemma tally_counts [simp]: "jt_errors (tally s t) = jt_errors t" "jt_checked (tally s t) = jt_checked t"
  by (simp_all add: tally_def split: join_status.split)

lemma check_targets_counts:
  "check_targets E xs t w = (r, w') \<Longrightarrow> \<exists>t'. r = Inr t' \<and> jt_errors t \<le> jt_errors t' \<and>
    jt_checked t' + jt_errors t' = jt_checked t + jt_errors t + length xs"
proof (induction xs arbitrary: t w)
  case (Cons x xs)
  obtain res w1 where one: "check_joinability E x w = (res, w1)" by fastforce
  let ?t = "case res of Inl _ \<Rightarrow> t\<lparr>jt_errors := Suc (jt_errors t)\<rparr>
     | Inr status \<Rightarrow> tally status (t\<lparr>jt_checked := Suc (jt_checked t)\<rparr>)"
  from Cons.prems have "check_targets E xs ?t w1 = (r, w')"
    by (simp add: call_then_def io_attempt_def one)
  from Cons.IH [OF this] show ?case by (cases res) auto
qed (auto simp: io_return_def)

lemma check_targets_complete:
  assumes "check_targets E xs t w = (Inr t', w')" "jt_errors t' = 0" "s \<le> jb_clock w"
    and "\<forall>(i, h, code) \<in> set xs. advertised_code (jb_dir w) i = Some code"
  shows "dr_candidates (jb_dir w') = dr_candidates (jb_dir w) \<and> dr_sources (jb_dir w') = dr_sources (jb_dir w) \<and>
    (\<forall>j. has_verdict s (jb_dir w) j \<or> j \<in> fst ` set xs \<longrightarrow> has_verdict s (jb_dir w') j)"
  using assms
proof (induction xs arbitrary: t w)
  case (Cons x xs)
  obtain i h code where x: "x = (i, h, code)" by (cases x) auto
  obtain res w1 where one: "check_joinability E x w = (res, w1)" by fastforce
  let ?t = "case res of Inl _ \<Rightarrow> t\<lparr>jt_errors := Suc (jt_errors t)\<rparr>
     | Inr status \<Rightarrow> tally status (t\<lparr>jt_checked := Suc (jt_checked t)\<rparr>)"
  from Cons.prems have rest: "check_targets E xs ?t w1 = (Inr t', w')"
    by (simp add: call_then_def io_attempt_def one)
  from check_targets_counts [OF this] Cons.prems(2) obtain b where res: "res = Inr b" by (cases res) auto
  have code: "advertised_code (jb_dir w) i = Some code" using Cons.prems(4) x by simp
  note step = check_joinability_records [OF one [unfolded x res]]
  have adv: "advertised_code (jb_dir w1) k = advertised_code (jb_dir w) k" for k
    using step(2) by (simp add: advertised_code_def)
  have "s \<le> jb_clock w1" using Cons.prems(3) step(3) by simp
  moreover have "\<forall>(i, h, code) \<in> set xs. advertised_code (jb_dir w1) i = Some code"
    using Cons.prems(4) by (auto simp: adv)
  ultimately have IH: "dr_candidates (jb_dir w') = dr_candidates (jb_dir w1) \<and> dr_sources (jb_dir w') = dr_sources (jb_dir w1) \<and>
      (\<forall>j. has_verdict s (jb_dir w1) j \<or> j \<in> fst ` set xs \<longrightarrow> has_verdict s (jb_dir w') j)"
    by (rule Cons.IH [OF rest Cons.prems(2)])
  then show ?case using step(1,2) step(4) [OF _ Cons.prems(3) code] step(5) [OF Cons.prems(3) code] by (auto simp: x)
qed (simp add: io_return_def)

lemma js_time_le: "js_time t \<le> t"
  by (simp add: js_time_def)


end
