(* ===== verification/Directory_Witnesses.thy ===== *)
theory Directory_Witnesses
  imports Discovery_Witnesses Join_Properties Refresh_Properties Submission_Properties Joinability_Properties
begin

text \<open>
  One relay that is reported, probed, submitted and refreshed, and the properties of
  the directory applied to it.
\<close>

section \<open>A directory of one relay\<close>

definition nest_relay :: relay_name where
  "nest_relay = relay_of sample_web ''nest.buzz'' None"

definition old_code :: string where "old_code = ''eyJolderone''"
definition new_code :: string where "new_code = ''eyJnewerone''"

definition nest_report :: candidate_source where
  "nest_report = \<lparr>cs_type = ''manual'', cs_locator = None, cs_actor = Some ''ann'', cs_evidence = None,
     cs_observed = Some 3, cs_listing = Some (empty_listing\<lparr>ls_name := Some '' The  Nest '',
       ls_invite := Some old_code\<rparr>)\<rparr>"

definition plain_hash :: "string \<Rightarrow> string" where
  "plain_hash s = s"

definition no_bytes :: "string \<Rightarrow> nat list" where
  "no_bytes s = []"

definition bytes_hash :: "nat list \<Rightarrow> string" where
  "bytes_hash b = []"

definition after_query :: "(directory, 'a) tx \<Rightarrow> directory \<Rightarrow> directory" where
  "after_query f d = (case f d of Inl _ \<Rightarrow> d | Inr (_, d') \<Rightarrow> d')"

definition reported :: directory where
  "reported = after_query (upsert_candidate sample_web plain_hash ''k1'' nest_relay nest_report 5) empty_directory"

definition nest_probe :: probe_success where
  "nest_probe = \<lparr>ps_http_status = 200, ps_open_ms = 40, ps_nip11 = nest_info, ps_icon_hash = None,
     ps_classification = classify_buzz_relay sample_web nest_info True\<rparr>"

definition verified :: directory where
  "verified = after_query (record_probe_result no_bytes bytes_hash ''k1'' (Probe_ok ''wss://nest.buzz'' nest_probe) 9)
     reported"

lemma reported_query: "upsert_candidate sample_web plain_hash ''k1'' nest_relay nest_report 5 empty_directory =
    Inr ((''k1'', ''wss://nest.buzz'', Discovered), reported)"
  by code_simp

lemma verified_query:
  "record_probe_result no_bytes bytes_hash ''k1'' (Probe_ok ''wss://nest.buzz'' nest_probe) 9 reported = Inr ((), verified)"
  by code_simp

lemma verified_row: "map (\<lambda>c. (cand_id c, cand_state c)) (dr_candidates verified) = [(''k1'', Verified_buzz)]"
  by code_simp

lemma verified_reachable: "directory_reachable sample_web verified"
proof -
  have "probe_outcome sample_web (Probe_ok ''wss://nest.buzz'' nest_probe)"
    by (simp add: probe_outcome_def nest_probe_def)
  from step_probed [OF this verified_query] step_upsert [OF reported_query] show ?thesis
    unfolding directory_reachable_def by (rule rtranclp.rtrancl_into_rtrancl [OF r_into_rtranclp, rotated])
qed


definition hidden :: directory where
  "hidden = update_candidates (\<lambda>c. True) (\<lambda>c. c\<lparr>cand_state := Suppressed\<rparr>) verified"

text \<open>A suppressed relay is reported again and probed with success.\<close>

definition reported_again :: directory where
  "reported_again = after_query (upsert_candidate sample_web plain_hash ''k2'' nest_relay nest_report 8) hidden"

definition probed_again :: directory where
  "probed_again = after_query (record_probe_result no_bytes bytes_hash ''k1''
     (Probe_ok ''wss://nest.buzz'' nest_probe) 9) reported_again"

lemma hidden_row: "map (\<lambda>c. (cand_id c, cand_state c)) (dr_candidates hidden) = [(''k1'', Suppressed)]"
  by code_simp

lemma again_queries:
  "upsert_candidate sample_web plain_hash ''k2'' nest_relay nest_report 8 hidden =
    Inr ((''k1'', ''wss://nest.buzz'', Suppressed), reported_again)"
  "record_probe_result no_bytes bytes_hash ''k1'' (Probe_ok ''wss://nest.buzz'' nest_probe) 9 reported_again =
    Inr ((), probed_again)"
  by code_simp+

lemma sample_plain_addresses: "plain_addresses sample_web"
  by (simp add: plain_addresses_def sample_web_def)

definition two_passes :: "(time \<times> due_event) list" where
  "two_passes = [(20, Claimed {} 5), (30, Marked ''k1''), (40, Claimed {} 5)]"

section \<open>Jobs\<close>

definition refusal :: json where
  "refusal = JObj [(''error'', JStr ''invite_invalid'')]"

text \<open>The relay refuses the old code and takes any other; \<open>up = False\<close>: it cannot be reached.\<close>

definition nest_client :: "bool \<Rightarrow> unit http_client" where
  "nest_client up = \<lparr>hc_fetch = (\<lambda>rq e.
       (if \<not> up then Unreachable ''fetch failed''
        else if rq_body rq = Some (claim_body old_code None) then Answered 403 (Some ''refused'')
        else Answered 200 None, e)),
     hc_uuid = (\<lambda>e. (''n1'', e)), hc_key = (\<lambda>e. ([7], e)),
     hc_parse = (\<lambda>s. if s = ''refused'' then Some refusal else None), hc_stringify = (\<lambda>v. ''json''),
     hc_encode = ev_id, hc_sha256 = plain_hash,
     hc_sign = (\<lambda>k t. \<lparr>ev_id = ''e'', ev_pubkey = ''p'', ev_created_at = tp_created_at t,
        ev_kind = tp_kind t, ev_tags = tp_tags t, ev_content = tp_content t\<rparr>)\<rparr>"

definition nest_web :: web where
  "nest_web = sample_web\<lparr>parse_url := (parse_url sample_web)
     (''https://nest.buzz/submit'' \<mapsto> (nest_url ''https:'' None)\<lparr>u_pathname := ''/submit''\<rparr>,
      ''https://nest.buzz/invite/eyJnewerone'' \<mapsto>
        (nest_url ''https:'' None)\<lparr>u_pathname := ''/invite/eyJnewerone''\<rparr>)\<rparr>"

definition nest_env :: "bool \<Rightarrow> unit job_env" where
  "nest_env up = \<lparr>jd_client = nest_client up, jd_key = [1], jd_web = nest_web, jd_decode = (\<lambda>s. s),
     jd_bytes = no_bytes, jd_bytes_hash = bytes_hash, jd_uuid = (\<lambda>e. (''k2'', e)),
     jd_query = (\<lambda>e. (Query_ok, e)), jd_tick = (\<lambda>e. (1, e)), jd_locked = (\<lambda>e. ({}, e)),
     jd_send = (\<lambda>i e. (Some True, e)), jd_message = (\<lambda>e. ''failed''), jd_origin = ''https://nest.buzz''\<rparr>"

definition job_start :: "directory \<Rightarrow> unit job_world" where
  "job_start d = \<lparr>jb_dir = d, jb_env = (), jb_clock = 10, jb_requests = [], jb_joined = [], jb_opened = [],
     jb_health = [], jb_answers = [], jb_queue = []\<rparr>"

text \<open>The agent is a member, and a fresh code was harvested.\<close>

definition harvested :: directory where
  "harvested = after_query (record_invite_candidate ''nest.buzz'' new_code None 9)
     (after_query (upsert_membership ''nest.buzz'' ''wss://nest.buzz'' None 9) verified)"

definition refreshed :: "unit job_world" where
  "refreshed = snd (refresh_stale_invites (nest_env True) (job_start harvested))"

text \<open>How the relay and the database answer.\<close>

lemma nest_query: "dir_query (nest_env up) f w =
  (case f (jb_clock w + 1) (jb_dir w) of
     Inl e \<Rightarrow> (Inl e, w\<lparr>jb_clock := jb_clock w + 1\<rparr>)
   | Inr (a, d') \<Rightarrow> (Inr a, w\<lparr>jb_clock := jb_clock w + 1, jb_dir := d'\<rparr>))"
  by (simp add: dir_query_def pass_time_def ask_job_def call_then_def io_put_def io_query_def run_query_def nest_env_def
      Let_def split: sum.split prod.split)

definition nest_request :: "string \<Rightarrow> string option \<Rightarrow> api_request" where
  "nest_request code receipt = \<lparr>rq_method = ''POST'', rq_url = ''https://nest.buzz/api/invites/claim'',
     rq_body = Some (claim_body code receipt), rq_authorization = Some ''Nostr e''\<rparr>"

lemma nest_host: "api_host ''nest.buzz'' = Inr ''nest.buzz''"
  by code_simp

lemma claim_body_inject: "claim_body c None = claim_body c' None \<longleftrightarrow> c = c'"
  by (simp add: claim_body_def)

lemma nest_post: "signed_post (nest_client True) now key ''https://nest.buzz/api/invites/claim'' (claim_body code None) w =
  (Inr (if code = old_code then Answered 403 (Some ''refused'') else Answered 200 None),
   w\<lparr>jw_requests := nest_request code None # jw_requests w\<rparr>)"
  by (simp add: signed_post_def build_nip98_header_def io_defs ask_client_def send_request_def nest_client_def
      Let_def idle_env nest_request_def claim_body_inject)

lemma nest_claim: "claim_invite_code (nest_client True) now ''nest.buzz'' code key None w =
  (Inr (if code = old_code then Claim_failed 403 Forbidden (Some refusal) else Claim_ok 200 None),
   w\<lparr>jw_requests := nest_request code None # jw_requests w\<rparr>)"
  by (simp add: claim_invite_code_def io_defs nest_host api_url_def nest_post)
    (simp add: nest_client_def read_body_def classify_claim_response_def)

lemma nest_once: "claim_once (nest_client True) now ''nest.buzz'' code key None w =
  (Inr (if code = old_code then (403, Some refusal) else (200, None)),
   w\<lparr>jw_requests := nest_request code None # jw_requests w\<rparr>)"
  by (simp add: claim_once_def io_defs nest_host api_url_def nest_post)
    (simp add: nest_client_def read_body_def)

lemma refusal_codes: "\<not> is_join_policy_required (Some refusal)" "error_code (Some refusal) = ''invite_invalid''"
  by code_simp+

lemma nest_check: "check_invite (nest_env True) ''nest.buzz'' code w =
  (let h = (if code = old_code then Invite_invalid else Invite_live) in
   (Inr h, w\<lparr>jb_requests := nest_request code None # jb_requests w,
     jb_health := (''nest.buzz'', code, h) # jb_health w\<rparr>))"
proof -
  have "jd_client (nest_env True) = nest_client True" by (simp add: nest_env_def)
  then show ?thesis
    by (simp add: check_invite_def call_then_def job_seconds_def io_get_def over_http_def probe_invite_def
        io_attempt_def nest_once io_return_def io_put_def classify_probe_def refusal_codes)
qed


definition nest_submission :: validation where
  "nest_submission = \<lparr>vl_id = ''v1'', vl_host = ''nest.buzz'', vl_url = ''https://Nest.buzz'', vl_code = new_code,
     vl_status = Awaiting, vl_candidate = None, vl_message = None, vl_created = 9, vl_resolved = None\<rparr>"

definition submitted :: directory where
  "submitted = after_query (create_submission_validation ''v1'' ''nest.buzz'' ''https://Nest.buzz'' new_code 9) reported"

definition validated :: "unit job_world" where
  "validated = snd (process_pending_validations (nest_env True) 5 (job_start submitted))"

lemma nest_join: "join_as_agent (nest_env True) ''nest.buzz'' new_code w =
  (Inr (Joined 200 None), w\<lparr>jb_requests := nest_request new_code None # jb_requests w,
     jb_joined := (''nest.buzz'', None) # jb_joined w,
     jb_answers := (''nest.buzz'', new_code, Joined 200 None) # jb_answers w\<rparr>)"
proof -
  have "jd_client (nest_env True) = nest_client True" "old_code \<noteq> new_code"
    by (simp_all add: nest_env_def old_code_def new_code_def)
  then show ?thesis
    by (simp add: join_as_agent_def call_then_def job_seconds_def io_get_def over_http_def join_community_def
        nest_claim finish_join_def notify_joined_def io_put_def io_return_def community_id_from_body_def)
qed

definition checked :: "(err + joinability_tally) \<times> unit job_world" where
  "checked = probe_community_joinability (nest_env True) 50 (job_start verified)"

lemma nest_probe_joinability: "probe_joinability (nest_client True) now ''nest.buzz'' old_code v =
  (Inr (Stale, Some ''invite_invalid''), v\<lparr>jw_requests := nest_request old_code None #
     \<lparr>rq_method = ''GET'', rq_url = ''https://nest.buzz/api/join-policy'', rq_body = None, rq_authorization = None\<rparr> #
     jw_requests v\<rparr>)"
proof -
  have policy: "get_join_policy (nest_client True) ''nest.buzz'' v = (Inl Raw, v\<lparr>jw_requests :=
     \<lparr>rq_method = ''GET'', rq_url = ''https://nest.buzz/api/join-policy'', rq_body = None, rq_authorization = None\<rparr> #
     jw_requests v\<rparr>)" for v
    by (simp add: get_join_policy_def io_defs nest_host send_request_def api_url_def)
      (simp add: nest_client_def claim_body_def idle_env)
  have verdict: "verdict_of (Claim_failed 403 Forbidden (Some refusal)) = (Stale, Some ''invite_invalid'')"
    by (simp add: verdict_of_def refusal_codes)
  have key: "hc_key (nest_client True) e = ([7], e)" for e by (simp add: nest_client_def)
  show ?thesis
    by (simp add: probe_joinability_def call_then_def io_attempt_def policy ask_client_def key nest_claim
        io_return_def verdict idle_env)
qed


end
