(* ===== verification/Submission_Intake.thy ===== *)
theory Submission_Intake
  imports Submission_Properties Rate_Limit Nostr_Auth
begin

text \<open>
  app/api/submissions/route.ts and src/submissions/validation.ts: the public form.  A
  request is limited, read and checked; a community without invite becomes a candidate
  with its listing, an invite becomes a row for the worker, whose verdict the request
  polls.  What other processes do while it sleeps is the job \<open>meanwhile\<close>.
\<close>

section \<open>Requests and answers\<close>

datatype submission_status = St_failed | St_invalid | St_invite_invalid | St_queued | St_rate_limited
  | St_verified | St_verifying

datatype form_value = Text_field string | File_field string "nat list"

type_synonym parsed_submission = "(string \<times> form_value) list"

text \<open>The body's chunks, and how its stream fails after them.\<close>

datatype rejection = Not_accepted string | Type_error | Other_error

record submission_request =
  sr_origin :: "string option"
  sr_url_origin :: string
  sr_connecting_ip :: "string option"
  sr_forwarded :: "string option"
  sr_content_type :: "string option"
  sr_content_length :: "string option"
  sr_body :: "(nat list list \<times> rejection option) option"

text \<open>
  The platform: UTF-8 decoding with \<open>URLSearchParams\<close> and the multipart parser (None: they
  throw a \<open>TypeError\<close>), \<open>decodeURIComponent\<close> (None: it throws a \<open>URIError\<close>).
\<close>

record intake_env =
  in_public_origin :: "string option"
  in_fields :: "nat list \<Rightarrow> (string \<times> string) list option"
  in_multipart :: "string \<Rightarrow> nat list \<Rightarrow> parsed_submission option"
  in_uri_decode :: "string \<Rightarrow> string option"

record submission_reply =
  rp_origin :: string
  rp_status :: submission_status
  rp_host :: "string option"
  rp_candidate :: "uuid option"

definition redirect_to_submission ::
  "string \<Rightarrow> submission_status \<Rightarrow> string option \<Rightarrow> uuid option \<Rightarrow> submission_reply" where
  "redirect_to_submission origin status host candidate =
     \<lparr>rp_origin = origin, rp_status = status, rp_host = host, rp_candidate = candidate\<rparr>"

section \<open>Reading the form\<close>

definition form_get :: "parsed_submission \<Rightarrow> string \<Rightarrow> string option" where
  "form_get form name = (case find (\<lambda>f. fst f = name) form of
     Some (_, Text_field s) \<Rightarrow> Some s | _ \<Rightarrow> None)"

definition form_file :: "parsed_submission \<Rightarrow> string \<Rightarrow> (string \<times> nat list) option" where
  "form_file form name = (case find (\<lambda>f. fst f = name) form of
     Some (_, File_field type bytes) \<Rightarrow> Some (type, bytes) | _ \<Rightarrow> None)"

definition form_get_all :: "parsed_submission \<Rightarrow> string \<Rightarrow> string list" where
  "form_get_all form name = concat (map (\<lambda>(n, v). case v of
     Text_field s \<Rightarrow> if n = name then [s] else [] | File_field _ _ \<Rightarrow> []) form)"

definition text_of_field :: "parsed_submission \<Rightarrow> string \<Rightarrow> string" where
  "text_of_field form name = (case form_get form name of None \<Rightarrow> [] | Some s \<Rightarrow> s)"

definition client_ip :: "submission_request \<Rightarrow> string" where
  "client_ip rq =
     (let forwarded = (case sr_forwarded rq of
            Some f \<Rightarrow>
              (let first = trim (takeWhile (\<lambda>c. c \<noteq> CHR '','') f) in
               if f = [] \<or> first = [] then ''unknown'' else first)
          | None \<Rightarrow> ''unknown'')
      in case sr_connecting_ip rq of
           Some cf \<Rightarrow> if cf = [] then forwarded else trim cf
         | None \<Rightarrow> forwarded)"

definition invite_char :: "char \<Rightarrow> bool" where
  "invite_char c \<longleftrightarrow> c \<noteq> CHR ''/'' \<and> c \<noteq> CHR ''?'' \<and> c \<noteq> CHR ''#'' \<and> \<not> js_space c"

definition invite_mark :: string where
  "invite_mark = ''/invite/''"

text \<open>What \<open>/\/invite\/([^/?#\s]+)/u\<close> captures.\<close>

fun form_invite_match :: "string \<Rightarrow> string option" where
  "form_invite_match [] = None"
| "form_invite_match (c # cs) =
     (if take 8 (c # cs) = invite_mark \<and> takeWhile invite_char (drop 8 (c # cs)) \<noteq> []
      then Some (takeWhile invite_char (drop 8 (c # cs)))
      else form_invite_match cs)"

definition extract_invite_code :: "intake_env \<Rightarrow> string option \<Rightarrow> rejection + string option" where
  "extract_invite_code I value = (case value of
     None \<Rightarrow> Inr None
   | Some s \<Rightarrow> (case form_invite_match s of
       None \<Rightarrow> Inr None
     | Some raw \<Rightarrow> (case in_uri_decode I raw of
         None \<Rightarrow> Inl Other_error
       | Some code \<Rightarrow> Inr (Some (take 200 code)))))"

section \<open>Checks of single fields\<close>

definition parse_relay_submission :: "web \<Rightarrow> string option \<Rightarrow> rejection + relay_name" where
  "parse_relay_submission W value = (case value of
     None \<Rightarrow> Inl (Not_accepted ''Relay URL is required.'')
   | Some s \<Rightarrow>
       if length s > 2048 \<or> trim s = [] then Inl (Not_accepted ''Relay URL is required.'')
       else case normalize_relay_url W (trim s) of
         Inl _ \<Rightarrow> Inl (Not_accepted ''Relay URL is invalid.'')
       | Inr relay \<Rightarrow>
           if ip_version W (rn_host relay) \<noteq> 0 then Inl (Not_accepted ''Relay must use a public hostname.'')
           else Inr relay)"

definition parse_contact_email :: "string option \<Rightarrow> rejection + string" where
  "parse_contact_email value =
     (let trimmed = (case value of None \<Rightarrow> [] | Some s \<Rightarrow> trim s) in
      if trimmed = [] \<or> length trimmed > 254 \<or> \<not> email_shape js_space trimmed
      then Inl (Not_accepted ''A valid contact email is required.'') else Inr (to_lower trimmed))"

definition parse_listing_text :: "string option \<Rightarrow> nat \<Rightarrow> string option" where
  "parse_listing_text value max_length =
     (let trimmed = (case value of None \<Rightarrow> [] | Some s \<Rightarrow> trim s) in
      if trimmed = [] then None else Some (take max_length trimmed))"

definition parse_focus :: "string option \<Rightarrow> rejection + string option" where
  "parse_focus value = (case value of
     None \<Rightarrow> Inr None
   | Some s \<Rightarrow>
       if trim s = [] then Inr None
       else if \<not> is_focus_slug (trim s) then Inl (Not_accepted ''Focus is not recognized.'')
       else Inr (Some (trim s)))"

definition parse_categories :: "string list \<Rightarrow> string list" where
  "parse_categories values = filter (\<lambda>c. c \<noteq> []) (map (\<lambda>c. to_lower (trim c)) values)"

definition extract_logo_upload :: "(nat list \<Rightarrow> string) \<Rightarrow> parsed_submission \<Rightarrow> rejection + icon option" where
  "extract_logo_upload sha256 form = (case form_file form ''logo'' of
     None \<Rightarrow> Inr None
   | Some (type, bytes) \<Rightarrow>
       if bytes = [] then Inr None
       else if length bytes > max_public_icon_bytes
       then Inl (Not_accepted ''Logo image is too large (max 256KB).'')
       else case parse_uploaded_icon sha256 bytes type of
         None \<Rightarrow> Inl (Not_accepted ''Logo must be a PNG, JPEG, GIF, or WEBP image.'')
       | Some logo \<Rightarrow> Inr (Some logo))"

section \<open>The body\<close>

definition max_text_body_bytes :: nat where
  "max_text_body_bytes = 4 * 1024"

definition max_multipart_body_bytes :: nat where
  "max_multipart_body_bytes = max_public_icon_bytes + 8 * 1024"

text \<open>The reading loop: past the limit it drains the stream and keeps nothing more.\<close>

fun read_chunks_bounded :: "nat \<Rightarrow> nat list list \<Rightarrow> nat \<Rightarrow> bool \<Rightarrow> nat list list \<Rightarrow> bool \<times> nat list list" where
  "read_chunks_bounded limit [] n exceeded kept = (exceeded, kept)"
| "read_chunks_bounded limit (c # cs) n exceeded kept =
     (if n + length c > limit then read_chunks_bounded limit cs (n + length c) True kept
      else read_chunks_bounded limit cs (n + length c) exceeded (kept @ [c]))"

definition read_submission_body :: "submission_request \<Rightarrow> nat \<Rightarrow> rejection + nat list" where
  "read_submission_body rq limit = (case sr_body rq of
     None \<Rightarrow> Inl (Not_accepted ''Submission body is required.'')
   | Some (chunks, Some broken) \<Rightarrow> Inl broken
   | Some (chunks, None) \<Rightarrow> (case read_chunks_bounded limit chunks 0 False [] of
       (exceeded, kept) \<Rightarrow>
         if exceeded then Inl (Not_accepted ''Submission body is too large.'') else Inr (concat kept)))"

definition content_type_of :: "submission_request \<Rightarrow> string" where
  "content_type_of rq = (case sr_content_type rq of
     None \<Rightarrow> [] | Some t \<Rightarrow> takeWhile (\<lambda>c. c \<noteq> CHR '';'') t)"

definition is_multipart :: "submission_request \<Rightarrow> bool" where
  "is_multipart rq \<longleftrightarrow> content_type_of rq = ''multipart/form-data''"

definition submission_body_limit :: "submission_request \<Rightarrow> nat" where
  "submission_body_limit rq = (if is_multipart rq then max_multipart_body_bytes else max_text_body_bytes)"

text \<open>The checks of the headers after the rate limit.\<close>

definition headers_ok :: "submission_request \<Rightarrow> bool" where
  "headers_ok rq \<longleftrightarrow>
     (is_multipart rq \<or> content_type_of rq = ''application/x-www-form-urlencoded'') \<and>
     (case sr_content_length rq of
        None \<Rightarrow> True
      | Some l \<Rightarrow> l = [] \<or> (list_all is_digit l \<and> decimal l \<le> submission_body_limit rq))"

definition read_form :: "intake_env \<Rightarrow> submission_request \<Rightarrow> rejection + parsed_submission" where
  "read_form I rq = (case read_submission_body rq (submission_body_limit rq) of
     Inl e \<Rightarrow> Inl e
   | Inr bytes \<Rightarrow>
       if is_multipart rq
       then (case in_multipart I (case sr_content_type rq of None \<Rightarrow> [] | Some t \<Rightarrow> t) bytes of
         None \<Rightarrow> Inl Type_error | Some form \<Rightarrow> Inr form)
       else (case in_fields I bytes of
         None \<Rightarrow> Inl Type_error | Some pairs \<Rightarrow> Inr (map (\<lambda>(n, v). (n, Text_field v)) pairs)))"

section \<open>What a form asks for\<close>

datatype submission_plan =
    Ignore_bot
  | Wrong_community
  | Check_invite relay_name string
  | List_community relay_name listing "icon option"

definition public_origin :: "intake_env \<Rightarrow> submission_request \<Rightarrow> string" where
  "public_origin I rq = (case in_public_origin I of None \<Rightarrow> sr_url_origin rq | Some origin \<Rightarrow> origin)"

text \<open>The fields of the full form, in the order of their checks.\<close>

definition plan_listing ::
  "(nat list \<Rightarrow> string) \<Rightarrow> relay_name \<Rightarrow> string option \<Rightarrow> parsed_submission \<Rightarrow> rejection + submission_plan" where
  "plan_listing sha256 relay invite form = (case parse_contact_email (form_get form ''contactEmail'') of
     Inl e \<Rightarrow> Inl e
   | Inr email \<Rightarrow> (case parse_focus (form_get form ''focus'') of
       Inl e \<Rightarrow> Inl e
     | Inr focus \<Rightarrow> (case extract_logo_upload sha256 form of
         Inl e \<Rightarrow> Inl e
       | Inr logo \<Rightarrow> Inr (List_community relay
           \<lparr>ls_audience = parse_listing_text (form_get form ''audience'') 300,
            ls_categories = parse_categories (form_get_all form ''categories''),
            ls_email = Some email,
            ls_description = parse_listing_text (form_get form ''description'') 500,
            ls_name = parse_listing_text (form_get form ''communityName'') 80,
            ls_focus = focus, ls_invite = invite, ls_public_url = None\<rparr> logo))))"

definition plan_submission ::
  "intake_env \<Rightarrow> web \<Rightarrow> (nat list \<Rightarrow> string) \<Rightarrow> parsed_submission \<Rightarrow> rejection + submission_plan" where
  "plan_submission I W sha256 form =
     (if trim (text_of_field form ''website'') \<noteq> [] then Inr Ignore_bot
      else case parse_relay_submission W (form_get form ''relayUrl'') of
        Inl e \<Rightarrow> Inl e
      | Inr relay \<Rightarrow> (case extract_invite_code I (form_get form ''relayUrl'') of
          Inl e \<Rightarrow> Inl e
        | Inr invite \<Rightarrow>
            let expected = to_lower (trim (text_of_field form ''expectHost'')) in
            if expected \<noteq> [] \<and> to_lower (rn_host relay) \<noteq> expected then Inr Wrong_community
            else case invite of
              Some (c # code) \<Rightarrow> Inr (Check_invite relay (c # code))
            | _ \<Rightarrow> plan_listing sha256 relay invite form))"

section \<open>Waiting for the worker\<close>

definition validation_wait_ms :: int where
  "validation_wait_ms = 8000"

definition validation_poll_ms :: int where
  "validation_poll_ms = 500"

definition now_ms :: "'e job_world \<Rightarrow> int" where
  "now_ms w = jb_clock w div 1000"

text \<open>Other processes run while the request sleeps, for at least the poll interval.\<close>

definition poll_sleep :: "('e, unit) job \<Rightarrow> 'e job_world \<Rightarrow> 'e job_world" where
  "poll_sleep meanwhile w =
     (let w' = snd (meanwhile w)
      in w'\<lparr>jb_clock := max (jb_clock w') (jb_clock w + 1000 * validation_poll_ms)\<rparr>)"

definition settled_answer ::
  "(validation_status \<times> uuid option \<times> string option) option \<Rightarrow> submission_status option" where
  "settled_answer row = (case row of
     None \<Rightarrow> None
   | Some (status, _, _) \<Rightarrow>
       if status = Valid then Some St_verified
       else if status = Invalid \<or> status = Failed_validation then Some St_invite_invalid
       else None)"

lemma dir_query_clock: "jb_clock w \<le> jb_clock (snd (dir_query E (\<lambda>_. get_submission_validation i) w))"
  by (auto simp: dir_query_def pass_time_def ask_job_def io_put_def call_then_def io_query_def run_query_def
      Let_def split: prod.splits sum.splits query_outcome.splits)

lemma poll_progress:
  assumes "dir_query E (\<lambda>_. get_submission_validation i) w = (r, w1)"
  shows "jb_clock w < jb_clock (poll_sleep meanwhile w1)"
  using dir_query_clock [of w E i] by (simp add: assms poll_sleep_def Let_def validation_poll_ms_def)

function poll_validation ::
  "'e job_env \<Rightarrow> ('e, unit) job \<Rightarrow> uuid \<Rightarrow> int \<Rightarrow> ('e, submission_status) job" where
  "poll_validation E meanwhile i deadline w =
     (if now_ms w < deadline then
        (case dir_query E (\<lambda>_. get_submission_validation i) w of
           (Inl e, w1) \<Rightarrow> (Inl e, w1)
         | (Inr row, w1) \<Rightarrow> (case settled_answer row of
             Some answer \<Rightarrow> (Inr answer, w1)
           | None \<Rightarrow> poll_validation E meanwhile i deadline (poll_sleep meanwhile w1)))
      else (Inr St_verifying, w))"
  by pat_completeness auto

termination
  by (relation "measure (\<lambda>(E, meanwhile, i, deadline, w). nat (1000 * deadline - jb_clock w))")
    (auto simp: now_ms_def dest: poll_progress dest!: sym [of "(_, _)"])

declare poll_validation.simps [simp del]

definition wait_for_validation :: "'e job_env \<Rightarrow> ('e, unit) job \<Rightarrow> uuid \<Rightarrow> ('e, submission_status) job" where
  "wait_for_validation E meanwhile i w = poll_validation E meanwhile i (now_ms w + validation_wait_ms) w"

section \<open>The request\<close>

definition submission_candidate :: "string \<Rightarrow> relay_name \<Rightarrow> listing \<Rightarrow> candidate_source" where
  "submission_candidate origin relay l = \<lparr>cs_type = ''submission'', cs_locator = Some (origin @ ''/submit''),
     cs_actor = None, cs_evidence = Some (rn_url relay), cs_observed = None, cs_listing = Some l\<rparr>"

definition check_invite_job ::
  "'e job_env \<Rightarrow> ('e, unit) job \<Rightarrow> relay_name \<Rightarrow> string \<Rightarrow> ('e, submission_status) job" where
  "check_invite_job E meanwhile relay code =
     call_then (ask_job (jd_uuid E)) (\<lambda>fresh.
     call_then (dir_query E (create_submission_validation fresh (rn_host relay) (rn_url relay) code)) (\<lambda>i.
     wait_for_validation E meanwhile i))"

definition list_community_job ::
  "'e job_env \<Rightarrow> string \<Rightarrow> relay_name \<Rightarrow> listing \<Rightarrow> icon option \<Rightarrow> ('e, uuid) job" where
  "list_community_job E origin relay l logo =
     call_then (inject_candidate E relay (submission_candidate origin relay l)) (\<lambda>(i, _, _).
     call_then (case logo of None \<Rightarrow> io_return () | Some p \<Rightarrow> dir_query E (\<lambda>_. upsert_community_icon i p)) (\<lambda>_.
     io_return i))"

definition carry_out ::
  "'e job_env \<Rightarrow> ('e, unit) job \<Rightarrow> string \<Rightarrow> submission_plan \<Rightarrow> ('e, submission_reply) job" where
  "carry_out E meanwhile origin plan = (case plan of
     Ignore_bot \<Rightarrow> io_return (redirect_to_submission origin St_queued None None)
   | Wrong_community \<Rightarrow> io_return (redirect_to_submission origin St_invalid None None)
   | Check_invite relay code \<Rightarrow>
       call_then (check_invite_job E meanwhile relay code) (\<lambda>outcome.
       io_return (redirect_to_submission origin outcome (Some (rn_host relay)) None))
   | List_community relay l logo \<Rightarrow>
       call_then (list_community_job E origin relay l logo) (\<lambda>i.
       io_return (redirect_to_submission origin St_queued (Some (rn_host relay)) (Some i))))"

definition rejected_with :: "rejection \<Rightarrow> submission_status" where
  "rejected_with e = (case e of Other_error \<Rightarrow> St_failed | _ \<Rightarrow> St_invalid)"

definition plan_of_request :: "'e job_env \<Rightarrow> intake_env \<Rightarrow> submission_request \<Rightarrow> rejection + submission_plan" where
  "plan_of_request E I rq = (case read_form I rq of
     Inl e \<Rightarrow> Inl e | Inr form \<Rightarrow> plan_submission I (jd_web E) (jd_bytes_hash E) form)"

text \<open>The \<open>try\<close> block and its handler; what the database throws is neither a refused
  submission nor a \<open>TypeError\<close>.\<close>

definition process_submission ::
  "'e job_env \<Rightarrow> intake_env \<Rightarrow> ('e, unit) job \<Rightarrow> submission_request \<Rightarrow> 'e job_world \<Rightarrow>
   submission_reply \<times> 'e job_world" where
  "process_submission E I meanwhile rq w =
     (let origin = public_origin I rq
      in case plan_of_request E I rq of
           Inl e \<Rightarrow> (redirect_to_submission origin (rejected_with e) None None, w)
         | Inr p \<Rightarrow> (case carry_out E meanwhile origin p w of
             (Inl _, w') \<Rightarrow> (redirect_to_submission origin St_failed None None, w')
           | (Inr reply, w') \<Rightarrow> (reply, w')))"

definition post_submission ::
  "'e job_env \<Rightarrow> intake_env \<Rightarrow> ('e, unit) job \<Rightarrow> submission_request \<Rightarrow> limiter \<Rightarrow> 'e job_world \<Rightarrow>
   submission_reply \<times> limiter \<times> 'e job_world" where
  "post_submission E I meanwhile rq lim w =
     (let origin = public_origin I rq in
      if sr_origin rq \<noteq> Some origin then (redirect_to_submission origin St_invalid None None, lim, w)
      else case check_submission (client_ip rq) (now_ms w) lim of (v, lim') \<Rightarrow>
        if \<not> vd_allowed v then (redirect_to_submission origin St_rate_limited None None, lim', w)
        else if \<not> headers_ok rq then (redirect_to_submission origin St_invalid None None, lim', w)
        else case process_submission E I meanwhile rq w of (reply, w') \<Rightarrow> (reply, lim', w'))"

end
