(* ===== verification/Intake_Properties.thy ===== *)
theory Intake_Properties
  imports Submission_Intake
begin

text \<open>
  What app/api/submissions/route.ts promises: memory bounded by the limit of the body,
  answers that are the worker's verdict, and refused requests without effect.
\<close>

section \<open>The body\<close>

lemma read_chunks_exceeded:
  "read_chunks_bounded limit cs n e kept = (exceeded, all) \<Longrightarrow> limit < n \<Longrightarrow> all = kept \<and> exceeded = (e \<or> cs \<noteq> [])"
  by (induction limit cs n e kept rule: read_chunks_bounded.induct) auto

lemma read_chunks_all:
  "read_chunks_bounded limit cs n False kept = (exceeded, all) \<Longrightarrow> length (concat kept) = n \<Longrightarrow> n \<le> limit \<Longrightarrow>
     length (concat all) \<le> limit \<and>
     (exceeded \<longleftrightarrow> limit < n + length (concat cs)) \<and> (\<not> exceeded \<longrightarrow> concat all = concat kept @ concat cs)"
proof (induction cs arbitrary: n kept)
  case (Cons c cs)
  show ?case
  proof (cases "n + length c > limit")
    case True
    then have "read_chunks_bounded limit cs (n + length c) True kept = (exceeded, all)" using Cons.prems(1) by simp
    from read_chunks_exceeded [OF this True] True Cons.prems(2,3) show ?thesis by simp
  next
    case False
    with Cons.prems(1) have "read_chunks_bounded limit cs (n + length c) False (kept @ [c]) = (exceeded, all)" by simp
    from Cons.IH [OF this] Cons.prems(2) False show ?thesis by (simp add: add.assoc)
  qed
qed simp

text \<open>Whatever the stream sends, no more than \<open>limit\<close> bytes are kept, and a longer body is refused.\<close>

lemma body_is_bounded:
  "read_chunks_bounded limit cs 0 False [] = (exceeded, kept) \<Longrightarrow>
     length (concat kept) \<le> limit \<and> (exceeded \<longleftrightarrow> limit < length (concat cs)) \<and>
     (\<not> exceeded \<longrightarrow> concat kept = concat cs)"
  using read_chunks_all [of limit cs 0 "[]" exceeded kept] by simp

section \<open>The poll\<close>

text \<open>The row a verdict was read from.\<close>

definition row_settled :: "directory \<Rightarrow> uuid \<Rightarrow> validation_status set \<Rightarrow> bool" where
  "row_settled d i s \<longleftrightarrow> (\<exists>v \<in> set (dr_validations d). vl_id v = i \<and> vl_status v \<in> s)"

definition verdict_read :: "uuid \<Rightarrow> int \<Rightarrow> submission_status \<Rightarrow> 'e job_world \<Rightarrow> bool" where
  "verdict_read i deadline answer w \<longleftrightarrow>
     answer = St_verified \<and> row_settled (jb_dir w) i {Valid} \<or>
     answer = St_invite_invalid \<and> row_settled (jb_dir w) i {Invalid, Failed_validation} \<or>
     answer = St_verifying \<and> deadline \<le> now_ms w"

lemma validation_read:
  assumes "dir_query E (\<lambda>_. get_submission_validation i) w = (Inr row, w')"
  shows "row = map_option (\<lambda>v. (vl_status v, vl_candidate v, vl_message v)) (find (\<lambda>v. vl_id v = i) (dr_validations (jb_dir w')))
    \<and> view w' = view w"
  using assms
  by (auto simp: dir_query_def pass_time_def ask_job_def io_put_def call_then_def io_query_def run_query_def
      get_submission_validation_def tx_read_def Let_def view_def split: prod.splits sum.splits query_outcome.splits)

lemma settled_row:
  assumes "settled_answer (map_option (\<lambda>v. (vl_status v, vl_candidate v, vl_message v))
      (find (\<lambda>v. vl_id v = i) (dr_validations (jb_dir w)))) = Some answer"
  shows "verdict_read i deadline answer w"
  using assms
  by (auto simp: settled_answer_def verdict_read_def row_settled_def dest!: find_Some_set
      split: option.splits if_splits)

lemma failed_read:
  assumes "dir_query E (\<lambda>_. get_submission_validation i) w = (r, w')"
  shows "view w' = view w"
  using assms
  by (auto simp: dir_query_def pass_time_def ask_job_def io_put_def call_then_def io_query_def run_query_def
      get_submission_validation_def tx_read_def Let_def view_def split: prod.splits sum.splits query_outcome.splits)

lemma view_sleep: "view (poll_sleep meanwhile w) = view (snd (meanwhile w))"
  by (simp add: poll_sleep_def Let_def view_def)

lemma poll_reads_verdict:
  assumes "leads (holds p) meanwhile (holds p) (\<lambda>_. holds p)" "holds p w"
    and "poll_validation E meanwhile i deadline w = (r, w')"
  shows "holds p w' \<and> (\<forall>answer. r = Inr answer \<longrightarrow> verdict_read i deadline answer w')"
  using assms
proof (induction E meanwhile i deadline w arbitrary: r w' rule: poll_validation.induct)
  case (1 E meanwhile i deadline w)
  show ?case
  proof (cases "now_ms w < deadline")
    case False
    with "1.prems" show ?thesis by (auto simp: poll_validation.simps [of E] verdict_read_def)
  next
    case True
    obtain a w1 where read: "dir_query E (\<lambda>_. get_submission_validation i) w = (a, w1)" by fastforce
    have w1: "holds p w1" using "1.prems"(2) failed_read [OF read] by (simp add: holds_def)
    show ?thesis
    proof (cases a)
      case (Inl e)
      with "1.prems"(3) True read w1 show ?thesis by (auto simp: poll_validation.simps [of E])
    next
      case (Inr row)
      show ?thesis
      proof (cases "settled_answer row")
        case (Some answer)
        with "1.prems"(3) True read Inr have "r = Inr answer" "w' = w1" by (auto simp: poll_validation.simps [of E])
        moreover have "verdict_read i deadline answer w1"
          using Some conjunct1 [OF validation_read [OF read [unfolded Inr]]] by (intro settled_row) simp
        ultimately show ?thesis using w1 by simp
      next
        case None
        have slept: "holds p (poll_sleep meanwhile w1)"
          using "1.prems"(1) w1 unfolding leads_def holds_def view_sleep
          by (cases "meanwhile w1") fastforce
        have "poll_validation E meanwhile i deadline (poll_sleep meanwhile w1) = (r, w')"
          using "1.prems"(3) True read Inr None by (simp add: poll_validation.simps [of E _ _ _ w])
        from "1.IH" [OF True read [symmetric] Inr None "1.prems"(1) slept this] show ?thesis .
      qed
    qed
  qed
qed

section \<open>Refused requests\<close>

lemma check_invite_answers:
  assumes "check_invite_job E meanwhile relay code w = (Inr answer, w')"
  shows "answer \<in> {St_verified, St_invite_invalid, St_verifying}"
proof -
  obtain i w1 where "wait_for_validation E meanwhile i w1 = (Inr answer, w')"
    using assms by (auto simp: check_invite_job_def call_then_def split: prod.splits sum.splits)
  from poll_reads_verdict [OF _ _ this [unfolded wait_for_validation_def], of "\<lambda>_. True"]
  show ?thesis by (auto simp: leads_def holds_def verdict_read_def)
qed

lemma processed_without_effect:
  assumes "process_submission E I meanwhile rq w = (reply, w')"
    and "rp_status reply = St_invalid \<or> rp_status reply = St_rate_limited \<or>
      rp_status reply = St_queued \<and> rp_candidate reply = None"
  shows "w' = w"
proof (cases "plan_of_request E I rq")
  case (Inl e)
  with assms(1) show ?thesis by (simp add: process_submission_def)
next
  case (Inr plan)
  show ?thesis
  proof (cases plan)
    case (Check_invite relay code)
    obtain r w1 where run: "check_invite_job E meanwhile relay code w = (r, w1)" by fastforce
    from assms Inr Check_invite run check_invite_answers [of E meanwhile relay code w] show ?thesis
      by (cases r) (auto simp: process_submission_def carry_out_def call_then_def io_return_def redirect_to_submission_def)
  next
    case (List_community relay l logo)
    obtain r w1 where "list_community_job E (public_origin I rq) relay l logo w = (r, w1)" by fastforce
    with assms Inr List_community show ?thesis
      by (cases r) (auto simp: process_submission_def carry_out_def call_then_def io_return_def redirect_to_submission_def)
  qed (use assms Inr in \<open>simp_all add: process_submission_def carry_out_def io_return_def\<close>)
qed

text \<open>
  C40. A request that is refused has no effect on the directory: an answer that the
  submission is invalid or limited, and the pretended success shown to a bot that
  filled the hidden field, leave the world (database, queue, relays, clock) as it was.
\<close>

theorem refused_submissions_have_no_effect:
  assumes "post_submission E I meanwhile rq lim w = (reply, lim', w')"
    and "rp_status reply = St_invalid \<or> rp_status reply = St_rate_limited \<or>
      rp_status reply = St_queued \<and> rp_candidate reply = None"
  shows "w' = w"
  using assms processed_without_effect [of E I meanwhile rq w reply w']
  by (auto simp: post_submission_def Let_def redirect_to_submission_def split: prod.splits if_splits)

section \<open>Verified invites\<close>

text \<open>The worker of src/jobs/validate-submissions.ts, as the request sees it: one pass per sleep.\<close>

definition validation_worker :: "'e job_env \<Rightarrow> nat \<Rightarrow> ('e, unit) job" where
  "validation_worker E n = call_then (io_attempt (process_pending_validations E n)) (\<lambda>_. io_return ())"

lemma worker_justified:
  "distinct (map vl_id (dr_validations d0)) \<Longrightarrow>
     leads (holds (submissions_ok E d0)) (validation_worker E n) (holds (submissions_ok E d0))
       (\<lambda>_. holds (submissions_ok E d0))"
  unfolding validation_worker_def
  by (intro leads_then [OF leads_attempt [OF process_pending_justified]] leads_holds_return conjI)

lemma created_row:
  assumes "create_submission_validation fresh host url code now d = Inr (i, d')"
  shows "\<exists>v. dr_validations d' = dr_validations d @ [v] \<and> i \<notin> vl_id ` set (dr_validations d) \<and>
    request_of v = (i, host, url, code) \<and> vl_status v = Awaiting"
  using assms by (auto simp: create_submission_validation_def request_of_def has_row_iff split: if_splits)

lemma own_row:
  assumes "submissions_ok E d0 (d, h, log)" "dr_validations d0 = vs @ [v]" "i \<notin> vl_id ` set vs"
    and "request_of v = (i, host, url, code)" "vl_status v = Awaiting" "row_settled d i {Valid}"
  shows "\<exists>x. request_of x = (i, host, url, code) \<and> Submission_Properties.admitted E d log x"
proof -
  obtain x where x: "x \<in> set (dr_validations d)" "vl_id x = i" "vl_status x = Valid"
    using assms(6) by (auto simp: row_settled_def)
  have "map request_of (dr_validations d) = map request_of (dr_validations d0)"
    using assms(1) by (simp add: submissions_ok_def)
  from arg_cong [OF this, of set] x(1) have "request_of x \<in> request_of ` set (dr_validations d0)" by auto
  then have own: "request_of x = (i, host, url, code)"
    using assms(2-4) x(2) by (auto simp: request_of_def)
  have "x \<notin> set (dr_validations d0)" using assms(2,3,5) x(2,3) by auto
  then have "Submission_Properties.admitted E d log x" using assms(1) x(1,3) by (auto simp: submissions_ok_def)
  with own show ?thesis by blast
qed

lemma check_invite_verified:
  assumes "directory_ok (jb_dir w)"
    and "check_invite_job E (validation_worker E' n) relay code w = (Inr St_verified, w')"
  shows "\<exists>i x. request_of x = (i, rn_host relay, rn_url relay, code) \<and> Submission_Properties.admitted E' (jb_dir w') (jb_answers w') x"
proof -
  obtain fresh e where uuid: "jd_uuid E (jb_env w) = (fresh, e)" by fastforce
  let ?create = "dir_query E (create_submission_validation fresh (rn_host relay) (rn_url relay) code)"
  let ?w = "w\<lparr>jb_env := e\<rparr>"
  obtain i w1 where create: "?create ?w = (Inr i, w1)"
    and wait: "wait_for_validation E (validation_worker E' n) i w1 = (Inr St_verified, w')"
    using assms(2) uuid by (auto simp: check_invite_job_def call_then_def ask_job_def split: prod.splits sum.splits)
  have "leads (holds (\<lambda>v. v = view w)) ?create (holds (\<lambda>_. True)) (\<lambda>i. holds (\<lambda>v. \<exists>now.
      create_submission_validation fresh (rn_host relay) (rn_url relay) code now (jb_dir w) = Inr (i, fst v)))"
    by (rule leads_dir_query) (auto simp: view_def)
  from leadsD [OF this _ create] obtain now where
    row: "create_submission_validation fresh (rn_host relay) (rn_url relay) code now (jb_dir w) = Inr (i, jb_dir w1)"
    by (auto simp: holds_def view_def)
  from created_row [OF row] obtain v where v: "dr_validations (jb_dir w1) = dr_validations (jb_dir w) @ [v]"
    "i \<notin> vl_id ` set (dr_validations (jb_dir w))" "request_of v = (i, rn_host relay, rn_url relay, code)"
    "vl_status v = Awaiting" by blast
  have "directory_ok (jb_dir w1)" using keepsD [OF validation_queries_ok(1) assms(1) row] .
  then have keys: "distinct (map vl_id (dr_validations (jb_dir w1)))" by (simp add: directory_ok_def)
  have "holds (submissions_ok E' (jb_dir w1)) w1" by (simp add: holds_def view_def submissions_ok_def)
  from poll_reads_verdict [OF worker_justified [OF keys] this wait [unfolded wait_for_validation_def]]
  have ok: "submissions_ok E' (jb_dir w1) (jb_dir w', jb_health w', jb_answers w')" and "row_settled (jb_dir w') i {Valid}"
    by (auto simp: holds_def view_def verdict_read_def)
  from own_row [OF ok v this(2)] show ?thesis by blast
qed

lemma verified_reply:
  assumes "post_submission E I meanwhile rq lim w = (reply, lim', w')" "rp_status reply = St_verified"
  shows "\<exists>relay code. plan_of_request E I rq = Inr (Check_invite relay code) \<and> rp_host reply = Some (rn_host relay) \<and>
    check_invite_job E meanwhile relay code w = (Inr St_verified, w')"
proof -
  have run: "process_submission E I meanwhile rq w = (reply, w')"
    using assms by (auto simp: post_submission_def Let_def redirect_to_submission_def split: prod.splits if_splits)
  show ?thesis
  proof (cases "plan_of_request E I rq")
    case (Inl e)
    with run assms(2) show ?thesis
      by (auto simp: process_submission_def redirect_to_submission_def rejected_with_def split: rejection.splits)
  next
    case (Inr plan)
    show ?thesis
    proof (cases plan)
      case (Check_invite relay code)
      obtain r w1 where job: "check_invite_job E meanwhile relay code w = (r, w1)" by fastforce
      with run Inr Check_invite assms(2) show ?thesis
        by (cases r) (auto simp: process_submission_def carry_out_def call_then_def io_return_def redirect_to_submission_def)
    next
      case (List_community relay l logo)
      obtain r w1 where "list_community_job E (public_origin I rq) relay l logo w = (r, w1)" by fastforce
      with run Inr List_community assms(2) show ?thesis
        by (cases r) (auto simp: process_submission_def carry_out_def call_then_def io_return_def redirect_to_submission_def)
    qed (use run Inr assms(2) in \<open>auto simp: process_submission_def carry_out_def io_return_def redirect_to_submission_def\<close>)
  qed
qed


section \<open>A complete form\<close>

lemma planned_relay:
  assumes "plan_of_request E I rq = Inr (List_community relay l logo)"
  shows "\<exists>s. normalize_relay_url (jd_web E) s = Inr relay" (is ?named)
    and "\<forall>p. logo = Some p \<longrightarrow> icon_check p" (is ?icon)
proof -
  obtain form invite where form: "parse_relay_submission (jd_web E) (form_get form ''relayUrl'') = Inr relay"
    "plan_listing (jd_bytes_hash E) relay invite form = Inr (List_community relay l logo)"
    using assms
    by (auto simp: plan_of_request_def plan_submission_def plan_listing_def Let_def split: sum.splits if_splits option.splits list.splits)
  from form(1) show ?named
    by (auto simp: parse_relay_submission_def split: option.splits if_splits sum.splits)
  from form(2) have "extract_logo_upload (jd_bytes_hash E) form = Inr logo"
    by (auto simp: plan_listing_def split: sum.splits)
  then show ?icon
    by (auto simp: extract_logo_upload_def dest!: uploaded_icon_ok split: option.splits if_splits prod.splits)
qed

lemma icon_stored:
  assumes "icon_check p" "candidate_by_id i d \<noteq> None"
  shows "\<exists>d'. upsert_community_icon i p d = Inr ((), d') \<and> dr_candidates d' = dr_candidates d \<and>
    dr_sources d' = dr_sources d \<and> (\<exists>q. (i, q) \<in> set (dr_icons d') \<and> ic_hash q = ic_hash p)"
proof -
  let ?stale = "\<lambda>r. fst r = i \<and> ic_hash (snd r) \<noteq> ic_hash p"
  have "\<exists>q. (i, q) \<in> set (update_where ?stale (\<lambda>r. (i, p)) (dr_icons d)) \<and> ic_hash q = ic_hash p"
    if "(i, q) \<in> set (dr_icons d)" for q
  proof (cases "?stale (i, q)")
    case True
    from updated_row [of "(i, q)" "dr_icons d" ?stale "\<lambda>r. (i, p)"] True that show ?thesis by auto
  next
    case False
    with that show ?thesis by (auto simp: set_update_where)
  qed
  then have "\<exists>q. (i, q) \<in> set (if has_row (\<lambda>r. fst r = i) (dr_icons d)
      then update_where ?stale (\<lambda>r. (i, p)) (dr_icons d) else dr_icons d @ [(i, p)]) \<and> ic_hash q = ic_hash p"
    by (auto simp: has_row_iff)
  with assms show ?thesis by (simp add: upsert_community_icon_def)
qed

text \<open>What the tables hold of a listing after it was accepted.\<close>

definition listed_as :: "directory \<Rightarrow> uuid \<Rightarrow> relay_name \<Rightarrow> listing \<Rightarrow> icon option \<Rightarrow> bool" where
  "listed_as d i relay l logo \<longleftrightarrow>
     (\<exists>c \<in> set (dr_candidates d). cand_id c = i \<and> cand_relay_url c = rn_url relay) \<and>
     (\<exists>x \<in> set (dr_sources d). so_candidate x = i \<and> so_type x = ''submission'' \<and>
        so_listing x = normalize_candidate_source_listing (Some l)) \<and>
     (\<forall>p. logo = Some p \<longrightarrow> (\<exists>q. (i, q) \<in> set (dr_icons d) \<and> ic_hash q = ic_hash p))"

lemma listing_job_stores:
  assumes db: "\<And>e. fst (jd_query E e) = Query_ok" "\<And>e. fst (jd_uuid E e) \<notin> cand_id ` set (dr_candidates (jb_dir w))"
    and ok: "directory_ok (jb_dir w)" "plain_addresses (jd_web E)" "normalize_relay_url (jd_web E) s = Inr relay"
    and texts: "list_all text_ok (listing_texts l)" "\<And>p. logo = Some p \<Longrightarrow> icon_check p"
    and place: "sanitize_source_locator (jd_web E) (Some (origin @ ''/submit'')) = Inr locator"
      "locator_check locator" "text_ok locator"
  shows "\<exists>i w'. list_community_job E origin relay l logo w = (Inr i, w') \<and> listed_as (jb_dir w') i relay l logo"
proof -
  let ?src = "submission_candidate origin relay l"
  obtain fresh e where uuid: "jd_uuid E (jb_env w) = (fresh, e)" by fastforce
  let ?w = "w\<lparr>jb_env := e\<rparr>"
  let ?now = "jb_clock ?w + int (fst (jd_tick E (jb_env ?w)))"
  let ?upsert = "upsert_candidate (jd_web E) (hc_sha256 (jd_client E)) fresh relay ?src"
  have fresh: "fresh \<notin> cand_id ` set (dr_candidates (jb_dir w))" using db(2) [of "jb_env w"] by (simp add: uuid)
  have src: "cs_type ?src \<in> set source_types" "list_all text_ok (reported_texts ?src)"
    "sanitize_source_locator (jd_web E) (cs_locator ?src) = Inr locator"
    using texts(1) place(1) by (simp_all add: submission_candidate_def reported_texts_def source_types_def)
  obtain i state d1 where added: "?upsert ?now (jb_dir ?w) = Inr ((i, rn_url relay, state), d1)"
    and c: "\<exists>c \<in> set (dr_candidates d1). cand_id c = i \<and> cand_relay_url c = rn_url relay \<and> cand_state c = state"
    and x: "\<exists>x \<in> set (dr_sources d1). so_candidate x = i \<and> so_type x = cs_type ?src \<and> so_last_seen x = ?now \<and>
      so_listing x = normalize_candidate_source_listing (cs_listing ?src)"
    using upsert_stores [OF ok(2,3) src place(2,3) ok(1) fresh, of "hc_sha256 (jd_client E)" ?now] by auto
  from dir_query_answered [OF db(1), of ?upsert, OF added] obtain e1 where
    one: "dir_query E ?upsert ?w = (Inr (i, rn_url relay, state), ?w\<lparr>jb_clock := ?now, jb_env := e1, jb_dir := d1\<rparr>)"
    by blast
  let ?w1 = "?w\<lparr>jb_clock := ?now, jb_env := e1, jb_dir := d1\<rparr>"
  have inject: "inject_candidate E relay ?src w = (Inr (i, rn_url relay, state), ?w1)"
    using one by (simp add: inject_candidate_def call_then_def ask_job_def uuid)
  show ?thesis
  proof (cases logo)
    case None
    have "list_community_job E origin relay l logo w = (Inr i, ?w1)"
      using inject by (simp add: list_community_job_def call_then_def None io_return_def)
    moreover have "listed_as (jb_dir ?w1) i relay l logo"
      using c x by (auto simp: listed_as_def None submission_candidate_def)
    ultimately show ?thesis by blast
  next
    case (Some p)
    have "candidate_by_id i d1 \<noteq> None" using c candidate_by_id_ids [of i d1] by (auto simp: candidate_ids_def)
    from icon_stored [OF texts(2) [OF Some] this] obtain d2 where
      d2: "upsert_community_icon i p d1 = Inr ((), d2)" "dr_candidates d2 = dr_candidates d1"
        "dr_sources d2 = dr_sources d1" "\<exists>q. (i, q) \<in> set (dr_icons d2) \<and> ic_hash q = ic_hash p" by blast
    have "upsert_community_icon i p (jb_dir ?w1) = Inr ((), d2)" using d2(1) by simp
    from dir_query_answered [OF db(1), of "\<lambda>_. upsert_community_icon i p", OF this] obtain e2 where
      "dir_query E (\<lambda>_. upsert_community_icon i p) ?w1 =
        (Inr (), ?w1\<lparr>jb_clock := jb_clock ?w1 + int (fst (jd_tick E (jb_env ?w1))), jb_env := e2, jb_dir := d2\<rparr>)"
      by blast
    then have "list_community_job E origin relay l logo w =
        (Inr i, ?w1\<lparr>jb_clock := jb_clock ?w1 + int (fst (jd_tick E (jb_env ?w1))), jb_env := e2, jb_dir := d2\<rparr>)"
      using inject by (simp add: list_community_job_def call_then_def Some io_return_def)
    moreover have "listed_as d2 i relay l logo"
      using c x d2(2-4) by (auto simp: listed_as_def Some submission_candidate_def)
    ultimately show ?thesis by auto
  qed
qed

text \<open>
  C39. A complete form is not lost: when its request comes from the site, is within the
  limits and parses as a listing, and the database answers, the reply is queued and
  names a candidate under the submitted URL, with a source of type submission that
  holds the normalised listing and, when a logo was sent, an icon with its digest.
  Only NUL characters and an origin that is no public HTTPS address are excluded.
\<close>

theorem complete_form_is_stored:
  assumes db: "\<And>e. fst (jd_query E e) = Query_ok" "\<And>e. fst (jd_uuid E e) \<notin> cand_id ` set (dr_candidates (jb_dir w))"
    and ok: "directory_ok (jb_dir w)" "plain_addresses (jd_web E)"
    and rq: "sr_origin rq = Some (public_origin I rq)" "vd_allowed (fst (check_submission (client_ip rq) (now_ms w) lim))"
      "headers_ok rq" "plan_of_request E I rq = Inr (List_community relay l logo)" "list_all text_ok (listing_texts l)"
    and place: "sanitize_source_locator (jd_web E) (Some (public_origin I rq @ ''/submit'')) = Inr locator"
      "locator_check locator" "text_ok locator"
  shows "\<exists>i lim' w'. post_submission E I meanwhile rq lim w =
      (redirect_to_submission (public_origin I rq) St_queued (Some (rn_host relay)) (Some i), lim', w') \<and>
    listed_as (jb_dir w') i relay l logo"
proof -
  obtain s where s: "normalize_relay_url (jd_web E) s = Inr relay" using planned_relay(1) [OF rq(4)] by blast
  have icon: "\<And>p. logo = Some p \<Longrightarrow> icon_check p" using planned_relay(2) [OF rq(4)] by blast
  obtain i w' where job: "list_community_job E (public_origin I rq) relay l logo w = (Inr i, w')"
    and stored: "listed_as (jb_dir w') i relay l logo"
    using listing_job_stores [OF db ok s rq(5) icon place] by blast
  obtain v lim' where v: "check_submission (client_ip rq) (now_ms w) lim = (v, lim')" by fastforce
  have "process_submission E I meanwhile rq w =
      (redirect_to_submission (public_origin I rq) St_queued (Some (rn_host relay)) (Some i), w')"
    using job by (simp add: process_submission_def rq(4) carry_out_def call_then_def io_return_def)
  then have "post_submission E I meanwhile rq lim w =
      (redirect_to_submission (public_origin I rq) St_queued (Some (rn_host relay)) (Some i), lim', w')"
    using rq(1,2,3) by (simp add: post_submission_def v)
  with stored show ?thesis by blast
qed

end
