(* ===== verification/Intake_Witnesses.thy ===== *)
theory Intake_Witnesses
  imports Directory_Witnesses Intake_Properties
begin

text \<open>
  The public form applied: an invite that the worker validates between two polls, a
  complete listing, and a form pasted for another community.
\<close>

definition invite_fields :: "(string \<times> string) list" where
  "invite_fields = [(''relayUrl'', ''https://nest.buzz/invite/eyJnewerone'')]"

definition listing_fields :: "(string \<times> string) list" where
  "listing_fields = [(''relayUrl'', '' https://Nest.buzz ''), (''contactEmail'', ''Ann@nest.buzz ''),
     (''communityName'', ''The Nest''), (''categories'', '' Gaming'')]"

definition foreign_fields :: "(string \<times> string) list" where
  "foreign_fields = (''expectHost'', ''hive.buzz'') # invite_fields"

definition sample_intake :: intake_env where
  "sample_intake = \<lparr>in_public_origin = Some ''https://nest.buzz'',
     in_fields = (\<lambda>bytes. if bytes = [1] then Some invite_fields else if bytes = [2] then Some listing_fields
       else if bytes = [3] then Some foreign_fields else None),
     in_multipart = (\<lambda>_ _. None), in_uri_decode = Some\<rparr>"

definition form_post :: "nat \<Rightarrow> submission_request" where
  "form_post body = \<lparr>sr_origin = Some ''https://nest.buzz'', sr_url_origin = ''http://web:3000'',
     sr_connecting_ip = Some ''192.0.2.1'', sr_forwarded = None,
     sr_content_type = Some ''application/x-www-form-urlencoded;charset=UTF-8'', sr_content_length = Some ''1'',
     sr_body = Some ([[body]], None)\<rparr>"

lemma invite_plan:
  "plan_of_request (nest_env True) sample_intake (form_post 1) = Inr (Check_invite nest_relay new_code)"
  by code_simp

lemma foreign_plan:
  "plan_of_request (nest_env True) sample_intake (form_post 3) = Inr Wrong_community"
  by code_simp

lemma gates_open: "headers_ok (form_post b)" "sr_origin (form_post b) = Some (public_origin sample_intake (form_post b))"
proof -
  have "decimal ''1'' = 1" "takeWhile (\<lambda>c. c \<noteq> CHR '';'') ''application/x-www-form-urlencoded;charset=UTF-8'' =
      ''application/x-www-form-urlencoded''" "list_all is_digit ''1''" by code_simp+
  then show "headers_ok (form_post b)"
    by (simp add: headers_ok_def content_type_of_def form_post_def submission_body_limit_def max_text_body_bytes_def
        max_multipart_body_bytes_def)
  show "sr_origin (form_post b) = Some (public_origin sample_intake (form_post b))"
    by (simp add: form_post_def public_origin_def sample_intake_def)
qed

lemma admitted_request: "vd_allowed (fst (check_submission ip now reset_limiter))"
  by (simp add: check_submission_def reset_limiter_def of_ip_def prune_before_def Let_def)

definition sample_posted :: "nat \<Rightarrow> submission_reply \<times> limiter \<times> unit job_world" where
  "sample_posted body = post_submission (nest_env True) sample_intake (validation_worker (nest_env True) 5)
     (form_post body) reset_limiter (job_start reported)"

lemma posted_processed:
  "\<exists>lim. sample_posted b = (case process_submission (nest_env True) sample_intake
     (validation_worker (nest_env True) 5) (form_post b) (job_start reported) of (reply, w) \<Rightarrow> (reply, lim, w))"
proof -
  obtain v lim where v: "check_submission (client_ip (form_post b)) (now_ms (job_start reported)) reset_limiter = (v, lim)"
    by fastforce
  then have "vd_allowed v" using admitted_request [of "client_ip (form_post b)" "now_ms (job_start reported)"] by simp
  then show ?thesis
    using v gates_open [of b] by (auto simp: sample_posted_def post_submission_def Let_def split: prod.split)
qed

theorem refused_submissions_have_no_effect_witness:
  "rp_status (fst (sample_posted 3)) = St_invalid \<and> snd (snd (sample_posted 3)) = job_start reported"
proof -
  have invalid: "rp_status (fst (sample_posted 3)) = St_invalid"
    using posted_processed [of 3]
    by (auto simp: process_submission_def Let_def foreign_plan carry_out_def io_return_def redirect_to_submission_def)
  obtain reply lim w where run: "sample_posted 3 = (reply, lim, w)" by (metis prod_cases3)
  from refused_submissions_have_no_effect [OF run [unfolded sample_posted_def]] invalid run show ?thesis by simp
qed

section \<open>An invite validated while the request waits\<close>

definition asked_row :: validation where
  "asked_row = \<lparr>vl_id = ''k2'', vl_host = ''nest.buzz'', vl_url = ''wss://nest.buzz'', vl_code = new_code,
     vl_status = Awaiting, vl_candidate = None, vl_message = None, vl_created = 11, vl_resolved = None\<rparr>"

definition asked :: directory where
  "asked = after_query (create_submission_validation ''k2'' ''nest.buzz'' ''wss://nest.buzz'' new_code 11) reported"

abbreviation taken_row :: validation where
  "taken_row \<equiv> asked_row\<lparr>vl_status := Processing\<rparr>"

definition taken :: directory where
  "taken = after_query (claim_pending_validations {} 5) asked"

definition entered_again :: directory where
  "entered_again = after_query (upsert_candidate nest_web plain_hash ''k2'' nest_relay
     (submission_source (nest_env True) taken_row) 14) taken"

definition now_member :: directory where
  "now_member = after_query (upsert_membership ''nest.buzz'' ''wss://nest.buzz'' None 15) entered_again"

definition answered :: directory where
  "answered = after_query (resolve_submission_validation ''k2'' Valid (Some ''k1'') None 16) now_member"

lemma asked_steps:
  "rn_host nest_relay = ''nest.buzz''" "rn_url nest_relay = ''wss://nest.buzz''"
  "create_submission_validation ''k2'' ''nest.buzz'' ''wss://nest.buzz'' new_code 11 reported = Inr (''k2'', asked)"
  "get_submission_validation ''k2'' asked = Inr (Some (Awaiting, None, None), asked)"
  "claim_pending_validations {} 5 asked = Inr ([taken_row], taken)"
  "normalize_relay_url nest_web ''wss://nest.buzz'' = Inr nest_relay"
  "upsert_candidate nest_web plain_hash ''k2'' nest_relay (submission_source (nest_env True) taken_row) 14 taken =
     Inr ((''k1'', ''wss://nest.buzz'', Discovered), entered_again)"
  "upsert_membership ''nest.buzz'' ''wss://nest.buzz'' None 15 entered_again = Inr ((), now_member)"
  "resolve_submission_validation ''k2'' Valid (Some ''k1'') None 16 now_member = Inr ((), answered)"
  "get_submission_validation ''k2'' answered = Inr (Some (Valid, Some ''k1'', None), answered)"
  by code_simp+

lemma nest_gives: "jd_locked (nest_env True) e = ({}, e)" "jd_uuid (nest_env True) e = (''k2'', e)"
  "jd_web (nest_env True) = nest_web" "hc_sha256 (jd_client (nest_env True)) = plain_hash"
  by (simp_all add: nest_env_def nest_client_def)

lemma asked_row_fields: "vl_host asked_row = ''nest.buzz''" "vl_url asked_row = ''wss://nest.buzz''"
  "vl_code asked_row = new_code" "vl_id asked_row = ''k2''"
  by (simp_all add: asked_row_def)

lemma worker_pass:
  assumes "jb_dir w = asked" "jb_clock w = 12"
  shows "jb_dir (snd (validation_worker (nest_env True) 5 w)) = answered \<and>
    jb_clock (snd (validation_worker (nest_env True) 5 w)) = 16"
  using asked_steps(5-9) assms
  by (simp add: validation_worker_def process_pending_validations_def call_then_def ask_job_def nest_gives nest_query
      settle_or_fail_def settle_def io_attempt_def asked_row_fields nest_join is_joined_def accept_submission_def
      io_res_def as_thrown_def inject_candidate_def joined_id_def community_id_from_body_def io_return_def)

lemma asked_answer:
  "fst (check_invite_job (nest_env True) (validation_worker (nest_env True) 5) nest_relay new_code (job_start reported)) =
     Inr St_verified"
proof -
  let ?E = "nest_env True" and ?m = "validation_worker (nest_env True) 5"
  let ?w1 = "job_start reported\<lparr>jb_clock := 11, jb_dir := asked\<rparr>"
  let ?w2 = "?w1\<lparr>jb_clock := 12\<rparr>"
  have create: "dir_query ?E (create_submission_validation ''k2'' ''nest.buzz'' ''wss://nest.buzz'' new_code)
      (job_start reported) = (Inr ''k2'', ?w1)"
    using asked_steps(3) by (simp add: nest_query job_start_def)
  have first: "dir_query ?E (\<lambda>_. get_submission_validation ''k2'') ?w1 = (Inr (Some (Awaiting, None, None)), ?w2)"
    using asked_steps(4) by (simp add: nest_query job_start_def)
  define w3 where "w3 = poll_sleep ?m ?w2"
  have "jb_dir ?w2 = asked" "jb_clock ?w2 = 12" by simp_all
  note pass = worker_pass [OF this]
  have later: "jb_dir w3 = answered" using pass by (simp add: w3_def poll_sleep_def Let_def)
  have clock: "now_ms w3 < 8000" using pass by (simp add: w3_def poll_sleep_def Let_def now_ms_def validation_poll_ms_def)
  have second: "fst (dir_query ?E (\<lambda>_. get_submission_validation ''k2'') w3) = Inr (Some (Valid, Some ''k1'', None))"
    using asked_steps(10) by (simp add: nest_query later)
  have poll: "fst (poll_validation ?E ?m ''k2'' 8000 w3) = Inr St_verified"
    using clock second
    by (subst poll_validation.simps) (auto simp: settled_answer_def split: prod.splits)
  have "now_ms ?w1 = 0" by (simp add: now_ms_def)
  then have "wait_for_validation ?E ?m ''k2'' ?w1 = poll_validation ?E ?m ''k2'' 8000 w3"
    unfolding wait_for_validation_def
    by (subst poll_validation.simps) (simp add: first settled_answer_def validation_wait_ms_def w3_def)
  with poll create show ?thesis
    by (simp add: check_invite_job_def call_then_def ask_job_def nest_gives asked_steps(1,2) job_start_def)
qed


section \<open>A listing\<close>

definition nest_listing :: listing where
  "nest_listing = \<lparr>ls_audience = None, ls_categories = [''gaming''], ls_email = Some ''ann@nest.buzz'',
     ls_description = None, ls_name = Some ''The Nest'', ls_focus = None, ls_invite = None, ls_public_url = None\<rparr>"

lemma listing_plan:
  "plan_of_request (nest_env True) sample_intake (form_post 2) = Inr (List_community nest_relay nest_listing None)"
  by code_simp

theorem complete_form_is_stored_witness:
  "\<exists>i lim' w'. sample_posted 2 = (redirect_to_submission ''https://nest.buzz'' St_queued (Some ''nest.buzz'') (Some i),
     lim', w') \<and> listed_as (jb_dir w') i nest_relay nest_listing None"
proof -
  have origin: "public_origin sample_intake (form_post 2) = ''https://nest.buzz''"
    by (simp add: public_origin_def sample_intake_def)
  have db: "fst (jd_query (nest_env True) e) = Query_ok" for e by (simp add: nest_env_def)
  have ids: "map cand_id (dr_candidates reported) = [''k1'']" by code_simp
  have fresh: "fst (jd_uuid (nest_env True) e) \<notin> cand_id ` set (dr_candidates (jb_dir (job_start reported)))" for e
    using arg_cong [OF ids, of set] by (simp add: nest_env_def job_start_def)
  have ok: "directory_ok (jb_dir (job_start reported))"
    using keepsD [OF upsert_candidate_ok empty_directory_ok reported_query] by (simp add: job_start_def)
  have plain: "plain_addresses (jd_web (nest_env True))"
    by (simp add: plain_addresses_def nest_env_def nest_web_def sample_web_def)
  have place: "sanitize_source_locator (jd_web (nest_env True)) (Some (public_origin sample_intake (form_post 2) @ ''/submit''))
      = Inr (Some ''https://nest.buzz/submit'')" "locator_check (Some ''https://nest.buzz/submit'')"
    "text_ok (Some ''https://nest.buzz/submit'')" "list_all text_ok (listing_texts nest_listing)"
    by code_simp+
  show ?thesis
    using complete_form_is_stored [OF db fresh ok plain gates_open(2) admitted_request gates_open(1) listing_plan
        place(4) place(1-3)]
    unfolding sample_posted_def origin asked_steps(1) .
qed

end
