(* ===== verification/Ranking.thy ===== *)
theory Ranking
  imports Complex_Main Directory_Invites
begin

text \<open>
  ranking/reliability.ts and ranking/explain.ts: the score of a relay, once as the
  TypeScript functions over given inputs and once as the statement that computes and
  stores it for every listed candidate, and the sentences that explain it.  Numbers
  (doubles there, \<open>numeric\<close> in the database) are exact reals here.
\<close>

section \<open>Scores\<close>

definition adoption_enabled :: bool where
  "adoption_enabled = False"

definition uptime_weight :: real where "uptime_weight = 55 / 100"
definition tending_weight :: real where "tending_weight = 25 / 100"
definition corroboration_weight :: real where "corroboration_weight = 20 / 100"
definition adoption_weight :: real where "adoption_weight = (if adoption_enabled then 1 / 2 else 0)"

definition reliability_window_days :: int where
  "reliability_window_days = 30"

definition adoption_saturation :: real where
  "adoption_saturation = 250"

definition corroboration_saturation :: real where
  "corroboration_saturation = 6"

definition probes_floor :: int where
  "probes_floor = 5"

record reliability_inputs =
  ri_adoption_pubkeys :: int
  ri_adoption_repos :: int
  ri_corroboration_sources :: int
  ri_metadata_changed_at :: "int option"
  ri_probes_successful :: int
  ri_probes_total :: int

record reliability_scores =
  rs_adoption :: real
  rs_corroboration :: real
  rs_evidence_sufficient :: bool
  rs_reliability :: real
  rs_tending :: real
  rs_uptime :: real

definition clamp_score :: "real \<Rightarrow> real" where
  "clamp_score v = min 100 (max 0 v)"

text \<open>\<open>Math.round(value * 100) / 100\<close>: halves are rounded up.\<close>

definition round_score :: "real \<Rightarrow> real" where
  "round_score v = of_int \<lfloor>v * 100 + 1 / 2\<rfloor> / 100"

definition score_adoption :: "int \<Rightarrow> int \<Rightarrow> real" where
  "score_adoption pubkeys repos =
     (let weighted = of_int (max 0 pubkeys) + of_int (max 0 repos) * (1 / 2) in
      if weighted \<le> 0 then 0
      else round_score (clamp_score (ln (1 + weighted) / ln (1 + adoption_saturation) * 100)))"

definition score_uptime :: "int \<Rightarrow> int \<Rightarrow> real" where
  "score_uptime successful tried =
     (if tried \<le> 0 then 0
      else round_score (clamp_score (of_int (min successful tried) / of_int tried * 100)))"

text \<open>Times are milliseconds.\<close>

definition score_tending :: "int option \<Rightarrow> int \<Rightarrow> real" where
  "score_tending changed now = (case changed of
     None \<Rightarrow> 0
   | Some time \<Rightarrow>
       (let age = now - time; window = reliability_window_days * 24 * 60 * 60 * 1000 in
        if age < 0 then 0
        else if window \<le> age then 0
        else round_score (clamp_score ((1 - of_int age / of_int window) * 100))))"

definition score_corroboration :: "int \<Rightarrow> real" where
  "score_corroboration distinct_sources =
     (let sources = max 0 distinct_sources in
      if sources \<le> 0 then 0
      else round_score (clamp_score (ln (1 + of_int sources) / ln (1 + corroboration_saturation) * 100)))"

definition score_reliability :: "reliability_inputs \<Rightarrow> int \<Rightarrow> reliability_scores" where
  "score_reliability i now =
     (let adoption = score_adoption (ri_adoption_pubkeys i) (ri_adoption_repos i);
          uptime = score_uptime (ri_probes_successful i) (ri_probes_total i);
          tending = score_tending (ri_metadata_changed_at i) now;
          corroboration = score_corroboration (ri_corroboration_sources i)
      in \<lparr>rs_adoption = adoption, rs_corroboration = corroboration,
          rs_evidence_sufficient = (probes_floor \<le> ri_probes_total i),
          rs_reliability = round_score (clamp_score (uptime * uptime_weight + tending * tending_weight +
            corroboration * corroboration_weight + adoption * adoption_weight)),
          rs_tending = tending, rs_uptime = uptime\<rparr>)"

section \<open>The roll-up\<close>

text \<open>\<open>round(x, 2)\<close> of a \<open>numeric\<close>: halves are rounded away from zero.\<close>

definition pg_round :: "real \<Rightarrow> real" where
  "pg_round x = (if 0 \<le> x then of_int \<lfloor>x * 100 + 1 / 2\<rfloor> / 100 else - (of_int \<lfloor>- x * 100 + 1 / 2\<rfloor> / 100))"

definition window_start :: "time \<Rightarrow> time" where
  "window_start now = now - reliability_window_days * (24 * 60 * 60 * 1000000)"

definition count_distinct :: "'a list \<Rightarrow> int" where
  "count_distinct xs = int (length (remdups xs))"

definition adoption_pubkeys :: "time \<Rightarrow> directory \<Rightarrow> uuid \<Rightarrow> int" where
  "adoption_pubkeys now d i = count_distinct (map so_actor
     (filter (\<lambda>s. so_candidate s = i \<and> window_start now \<le> so_observed s \<and> so_type s = ''nip65'' \<and>
        so_actor s \<noteq> None) (dr_sources d)))"

definition adoption_repos :: "time \<Rightarrow> directory \<Rightarrow> uuid \<Rightarrow> int" where
  "adoption_repos now d i = count_distinct (map so_hash
     (filter (\<lambda>s. so_candidate s = i \<and> window_start now \<le> so_observed s \<and> so_type s = ''github'')
       (dr_sources d)))"

definition window_probes :: "time \<Rightarrow> directory \<Rightarrow> uuid \<Rightarrow> snapshot list" where
  "window_probes now d i =
     filter (\<lambda>p. sn_candidate p = i \<and> window_start now \<le> sn_probed p) (dr_snapshots d)"

definition exact_probe :: "snapshot \<Rightarrow> bool" where
  "exact_probe p \<longleftrightarrow> sn_result p = ''exact_software_and_protocol''"

definition probes_successful :: "time \<Rightarrow> directory \<Rightarrow> uuid \<Rightarrow> int" where
  "probes_successful now d i = int (length (filter (\<lambda>p. exact_probe p \<and> sn_tls p) (window_probes now d i)))"

definition probes_total :: "time \<Rightarrow> directory \<Rightarrow> uuid \<Rightarrow> int" where
  "probes_total now d i = int (length (window_probes now d i))"

text \<open>The probes of the history whose published metadata differs from the probe before.\<close>

fun changed_probes :: "snapshot list \<Rightarrow> snapshot list" where
  "changed_probes (p # q # ps) =
     (if sn_description p \<noteq> None \<and> (sn_description q \<noteq> sn_description p \<or> sn_version q \<noteq> sn_version p)
      then q # changed_probes (q # ps) else changed_probes (q # ps))"
| "changed_probes ps = []"

definition metadata_changed_at :: "time \<Rightarrow> directory \<Rightarrow> uuid \<Rightarrow> time option" where
  "metadata_changed_at now d i =
     (let changed = changed_probes (sort_key sn_probed (filter exact_probe (window_probes now d i))) in
      if changed = [] then None else Some (Max (sn_probed ` set changed)))"

definition corroboration_sources :: "directory \<Rightarrow> uuid \<Rightarrow> int" where
  "corroboration_sources d i = count_distinct (map so_type (filter (\<lambda>s. so_candidate s = i) (dr_sources d)))"

record metrics =
  mt_candidate :: uuid
  mt_computed_at :: time
  mt_window_days :: int
  mt_adoption_pubkeys :: int
  mt_adoption_repos :: int
  mt_adoption_score :: real
  mt_probes_total :: int
  mt_probes_successful :: int
  mt_uptime_score :: real
  mt_metadata_changed_at :: "time option"
  mt_tending_score :: real
  mt_corroboration_sources :: int
  mt_corroboration_score :: real
  mt_reliability_score :: real
  mt_evidence_sufficient :: bool

definition is_score :: "real \<Rightarrow> bool" where
  "is_score s \<longleftrightarrow> 0 \<le> s \<and> s \<le> 100"

text \<open>The constraints of the table.\<close>

definition metrics_check :: "metrics \<Rightarrow> bool" where
  "metrics_check m \<longleftrightarrow> 0 < mt_window_days m \<and> mt_window_days m \<le> 365 \<and>
     0 \<le> mt_adoption_pubkeys m \<and> 0 \<le> mt_adoption_repos m \<and> 0 \<le> mt_probes_total m \<and>
     0 \<le> mt_probes_successful m \<and> mt_probes_successful m \<le> mt_probes_total m \<and>
     0 \<le> mt_corroboration_sources m \<and>
     is_score (mt_adoption_score m) \<and> is_score (mt_uptime_score m) \<and> is_score (mt_tending_score m) \<and>
     is_score (mt_corroboration_score m) \<and> is_score (mt_reliability_score m)"

definition sql_adoption_score :: "int \<Rightarrow> int \<Rightarrow> real" where
  "sql_adoption_score pubkeys repos = min 100 (pg_round
     (ln (1 + of_int pubkeys + of_int repos * (1 / 2)) / ln (1 + adoption_saturation) * 100))"

definition sql_uptime_score :: "int \<Rightarrow> int \<Rightarrow> real" where
  "sql_uptime_score successful tried =
     (if tried = 0 then 0 else pg_round (of_int successful / of_int tried * 100))"

definition sql_tending_score :: "time option \<Rightarrow> time \<Rightarrow> real" where
  "sql_tending_score changed now = (case changed of
     None \<Rightarrow> 0
   | Some time \<Rightarrow> max 0 (pg_round
       ((1 - of_int (now - time) / 1000000 / (of_int reliability_window_days * 24 * 60 * 60)) * 100)))"

definition sql_corroboration_score :: "int \<Rightarrow> real" where
  "sql_corroboration_score sources =
     (if sources \<le> 0 then 0
      else min 100 (pg_round (ln (1 + of_int sources) / ln (1 + corroboration_saturation) * 100)))"

definition metrics_of :: "time \<Rightarrow> directory \<Rightarrow> uuid \<Rightarrow> metrics" where
  "metrics_of now d i =
     (let pubkeys = adoption_pubkeys now d i; repos = adoption_repos now d i;
          tried = probes_total now d i; successful = probes_successful now d i;
          changed = metadata_changed_at now d i; sources = corroboration_sources d i;
          adoption = sql_adoption_score pubkeys repos; uptime = sql_uptime_score successful tried;
          tending = sql_tending_score changed now; corroboration = sql_corroboration_score sources
      in \<lparr>mt_candidate = i, mt_computed_at = now, mt_window_days = reliability_window_days,
          mt_adoption_pubkeys = pubkeys, mt_adoption_repos = repos, mt_adoption_score = adoption,
          mt_probes_total = tried, mt_probes_successful = successful, mt_uptime_score = uptime,
          mt_metadata_changed_at = changed, mt_tending_score = tending,
          mt_corroboration_sources = sources, mt_corroboration_score = corroboration,
          mt_reliability_score = min 100 (max 0 (pg_round (uptime * uptime_weight +
            tending * tending_weight + corroboration * corroboration_weight + adoption * adoption_weight))),
          mt_evidence_sufficient = (probes_floor \<le> tried)\<rparr>)"

definition is_ranked :: "dir_candidate \<Rightarrow> bool" where
  "is_ranked c \<longleftrightarrow> cand_state c \<in> {Verified_buzz, Probable_buzz}"

text \<open>\<open>INSERT ... ON CONFLICT (candidate_id) DO UPDATE\<close> of one row.\<close>

definition put_metrics :: "metrics list \<Rightarrow> metrics \<Rightarrow> metrics list" where
  "put_metrics ms m =
     (if has_row (\<lambda>x. mt_candidate x = mt_candidate m) ms
      then update_where (\<lambda>x. mt_candidate x = mt_candidate m) (\<lambda>_. m) ms else ms @ [m])"

text \<open>One statement: a row that breaks a constraint refuses all of them.\<close>

definition roll_up_reliability_metrics :: "time \<Rightarrow> directory \<Rightarrow> (metrics list, nat) tx" where
  "roll_up_reliability_metrics now d = (\<lambda>ms.
     let rows = map (\<lambda>c. metrics_of now d (cand_id c)) (filter is_ranked (dr_candidates d)) in
     if \<not> list_all metrics_check rows then Inl (Pg ''23514'')
     else Inr (length rows, foldl put_metrics ms rows))"

section \<open>Explanations\<close>

datatype reliability_label = Label_live | Label_intermittent | Label_stale | Label_new

text \<open>Times are milliseconds; None also stands for text that is no date.\<close>

record reliability_facts =
  rf_adoption_pubkeys :: nat
  rf_adoption_repos :: nat
  rf_evidence_sufficient :: bool
  rf_last_verified_at :: "int option"
  rf_metadata_changed_at :: "int option"
  rf_monitor_count :: nat
  rf_probes_successful :: nat
  rf_probes_total :: nat
  rf_reliability_score :: real

definition stale_after_ms :: int where
  "stale_after_ms = 48 * 60 * 60 * 1000"

definition label_of :: "reliability_facts \<Rightarrow> int \<Rightarrow> reliability_label" where
  "label_of f now =
     (if \<not> rf_evidence_sufficient f then Label_new
      else case rf_last_verified_at f of
        None \<Rightarrow> Label_stale
      | Some verified \<Rightarrow>
          if now - verified > stale_after_ms then Label_stale
          else if (if 0 < rf_probes_total f then real (rf_probes_successful f) / real (rf_probes_total f) else 0) \<ge> 9 / 10
          then Label_live else Label_intermittent)"

definition plural :: "nat \<Rightarrow> string \<Rightarrow> string \<Rightarrow> string" where
  "plural count singular plural_form = show_nat count @ '' '' @ (if count = 1 then singular else plural_form)"

definition relative_days :: "int option \<Rightarrow> int \<Rightarrow> string option" where
  "relative_days since now = map_option (\<lambda>time.
     let days = (now - time) div (24 * 60 * 60 * 1000) in
     if days \<le> 0 then ''today''
     else if days = 1 then ''yesterday''
     else if days < 7 then show_nat (nat days) @ '' days ago''
     else if days < 14 then ''last week''
     else show_nat (nat (days div 7)) @ '' weeks ago'') since"

definition explain_checks :: "reliability_facts \<Rightarrow> int \<Rightarrow> string list" where
  "explain_checks f now =
     (let uptime = \<lfloor>real (rf_probes_successful f) / real (rf_probes_total f) * 100 + 1 / 2\<rfloor>;
          reasons =
            (if 0 < rf_probes_total f
             then [''Reachable on '' @ show_nat (nat uptime) @ ''% of checks over '' @
               show_nat (nat reliability_window_days) @ '' days''] else []) @
            (if 0 < rf_adoption_repos f
             then [''Referenced in '' @ plural (rf_adoption_repos f) ''public code file'' ''public code files''] else []) @
            (if 0 < rf_monitor_count f
             then [''Seen by '' @ plural (rf_monitor_count f) ''independent monitor'' ''independent monitors''] else []) @
            (case relative_days (rf_metadata_changed_at f) now of
               None \<Rightarrow> [] | Some tended \<Rightarrow> [''Relay details updated '' @ tended]) @
            (if adoption_enabled \<and> 0 < rf_adoption_pubkeys f
             then [''Named in '' @ plural (rf_adoption_pubkeys f) ''person's'' ''people's'' @ '' public relay list''] else [])
      in if reasons = [] then [''Not enough checks yet to describe this relay''] else reasons)"

datatype about_source = From_metadata | No_description

definition about_text :: "string option \<Rightarrow> about_source \<times> string" where
  "about_text description =
     (let trimmed = (case description of None \<Rightarrow> [] | Some s \<Rightarrow> trim s) in
      if trimmed = [] then (No_description, ''This relay has not published a description yet.'')
      else (From_metadata, trimmed))"

datatype work_kind = Work_observed | Work_operator

definition current_work ::
  "bool \<Rightarrow> string option \<Rightarrow> string option \<Rightarrow> nat list \<Rightarrow> (work_kind \<times> string) option" where
  "current_work claimed statement version nips =
     (let stated = (case statement of None \<Rightarrow> [] | Some s \<Rightarrow> trim s);
          observed =
            (case version of None \<Rightarrow> [] | Some v \<Rightarrow> if v = [] then [] else [''running Buzz '' @ v]) @
            (if nips = [] then [] else [''supporting '' @ show_nat (length nips) @ '' protocol features''])
      in if claimed \<and> stated \<noteq> [] then Some (Work_operator, stated)
         else if observed = [] then None
         else Some (Work_observed, ''Recently observed '' @ concat (butlast (concat (map (\<lambda>part. [part, '', '']) observed))) @ ''.''))"

end
