(* ===== verification/Ranking_Properties.thy ===== *)
theory Ranking_Properties
  imports Ranking
begin

text \<open>
  The statement that stores the scores computes what the functions say, and the
  constraints of its table never refuse it.
\<close>

section \<open>Rounding\<close>

lemma pg_round_pos: "0 \<le> x \<Longrightarrow> pg_round x = round_score x"
  by (simp add: pg_round_def round_score_def)

lemma pg_round_neg: "x \<le> 0 \<Longrightarrow> pg_round x \<le> 0"
  by (cases "x = 0") (auto simp: pg_round_def)

lemma round_score_mono: "x \<le> y \<Longrightarrow> round_score x \<le> round_score y"
  by (auto simp: round_score_def intro!: divide_right_mono floor_mono)

lemma round_score_ends [simp]: "round_score 0 = 0" "round_score 100 = 100"
  by (simp_all add: round_score_def)

lemma round_score_range: "0 \<le> x \<Longrightarrow> x \<le> 100 \<Longrightarrow> 0 \<le> round_score x \<and> round_score x \<le> 100"
  using round_score_mono [of 0 x] round_score_mono [of x 100] by simp

lemma clamped_range: "is_score (round_score (clamp_score x))"
  unfolding is_score_def by (rule round_score_range) (simp_all add: clamp_score_def)

text \<open>Rounding commutes with the limits, which are whole.\<close>

lemma clamp_round: "min 100 (max 0 (pg_round x)) = round_score (clamp_score x)"
proof -
  consider "x \<le> 0" | "0 \<le> x" "x \<le> 100" | "100 \<le> x" by linarith
  then show ?thesis
  proof cases
    case 1
    then show ?thesis using pg_round_neg [OF 1] by (simp add: clamp_score_def)
  next
    case 2
    then show ?thesis using round_score_range [OF 2] by (simp add: clamp_score_def pg_round_pos)
  next
    case 3
    then show ?thesis using round_score_mono [OF 3] by (simp add: clamp_score_def pg_round_pos)
  qed
qed

lemma min_round: "0 \<le> x \<Longrightarrow> min 100 (pg_round x) = round_score (clamp_score x)"
  using clamp_round [of x] round_score_mono [of 0 x] by (simp add: pg_round_pos)

section \<open>The four parts\<close>

lemma adoption_agrees: "0 \<le> pubkeys \<Longrightarrow> 0 \<le> repos \<Longrightarrow> sql_adoption_score pubkeys repos = score_adoption pubkeys repos"
proof -
  assume pos: "0 \<le> pubkeys" "0 \<le> repos"
  define w :: real where "w = of_int pubkeys + of_int repos * (1 / 2)"
  have w: "0 \<le> w" using pos by (simp add: w_def)
  then have "0 \<le> ln (1 + w) / ln (1 + adoption_saturation) * 100" by (simp add: adoption_saturation_def)
  from min_round [OF this] have "sql_adoption_score pubkeys repos =
      round_score (clamp_score (ln (1 + w) / ln (1 + adoption_saturation) * 100))"
    by (simp add: sql_adoption_score_def w_def add.assoc)
  moreover have "score_adoption pubkeys repos = (if w \<le> 0 then 0
      else round_score (clamp_score (ln (1 + w) / ln (1 + adoption_saturation) * 100)))"
    using pos by (simp add: score_adoption_def w_def)
  moreover have "round_score (clamp_score (ln (1 + w) / ln (1 + adoption_saturation) * 100)) = 0" if "w \<le> 0"
    using that w by (simp add: clamp_score_def)
  ultimately show ?thesis by simp
qed

lemma uptime_agrees: "0 \<le> good \<Longrightarrow> good \<le> tried \<Longrightarrow> sql_uptime_score good tried = score_uptime good tried"
proof (cases "tried = 0")
  case False
  assume pos: "0 \<le> good" "good \<le> tried"
  have "0 \<le> real_of_int good / of_int tried * 100" "real_of_int good / of_int tried * 100 \<le> 100"
    using pos False by (auto simp: divide_le_eq)
  with pos False show ?thesis
    by (simp add: sql_uptime_score_def score_uptime_def pg_round_pos clamp_score_def min_def max_def)
qed (simp add: sql_uptime_score_def score_uptime_def)

lemma tending_agrees:
  assumes "now mod 1000 = 0" "\<And>t. changed = Some t \<Longrightarrow> t mod 1000 = 0 \<and> t \<le> now"
  shows "sql_tending_score changed now = score_tending (map_option (\<lambda>t. t div 1000) changed) (now div 1000)"
proof (cases changed)
  case (Some t)
  obtain n m where nm: "now = 1000 * n" "t = 1000 * m" "m \<le> n"
    using assms(1) assms(2) [OF Some] by (auto simp: mod_eq_0_iff_dvd elim!: dvdE)
  define age :: real where "age = of_int (n - m) / 2592000000"
  have "of_int (1000 * n - 1000 * m) / 1000000 / (of_int reliability_window_days * 24 * 60 * 60) = age"
    by (simp add: age_def reliability_window_days_def)
  then have sql: "sql_tending_score changed now = max 0 (pg_round ((1 - age) * 100))"
    by (simp only: sql_tending_score_def Some nm option.case)
  have ts: "score_tending (map_option (\<lambda>t. t div 1000) changed) (now div 1000) =
      (if 1 \<le> age then 0 else round_score (clamp_score ((1 - age) * 100)))"
    using nm(3) by (auto simp: score_tending_def Some nm(1,2) age_def reliability_window_days_def Let_def)
  have "0 \<le> age" using nm(3) by (simp add: age_def)
  show ?thesis
  proof (cases "1 \<le> age")
    case True
    then show ?thesis using pg_round_neg [of "(1 - age) * 100"] by (simp add: sql ts)
  next
    case False
    then have y: "0 \<le> (1 - age) * 100" "(1 - age) * 100 \<le> 100" using \<open>0 \<le> age\<close> by simp_all
    have "clamp_score ((1 - age) * 100) = (1 - age) * 100" using y by (simp only: clamp_score_def max_absorb2 min_absorb2)
    then show ?thesis
      using round_score_range [OF y] False by (simp only: sql ts pg_round_pos [OF y(1)] if_False max_absorb2)
  qed
qed (simp add: sql_tending_score_def score_tending_def)

lemma corroboration_agrees: "0 \<le> sources \<Longrightarrow> sql_corroboration_score sources = score_corroboration sources"
proof -
  assume "0 \<le> sources"
  then have "0 \<le> ln (1 + real_of_int sources) / ln (1 + corroboration_saturation) * 100"
    by (simp add: corroboration_saturation_def)
  from min_round [OF this] \<open>0 \<le> sources\<close> show ?thesis
    by (simp add: sql_corroboration_score_def score_corroboration_def)
qed

section \<open>One row\<close>

definition inputs_of :: "time \<Rightarrow> directory \<Rightarrow> uuid \<Rightarrow> reliability_inputs" where
  "inputs_of now d i =
     \<lparr>ri_adoption_pubkeys = adoption_pubkeys now d i, ri_adoption_repos = adoption_repos now d i,
      ri_corroboration_sources = corroboration_sources d i,
      ri_metadata_changed_at = map_option (\<lambda>t. t div 1000) (metadata_changed_at now d i),
      ri_probes_successful = probes_successful now d i, ri_probes_total = probes_total now d i\<rparr>"

definition scores_of :: "metrics \<Rightarrow> reliability_scores" where
  "scores_of m = \<lparr>rs_adoption = mt_adoption_score m, rs_corroboration = mt_corroboration_score m,
     rs_evidence_sufficient = mt_evidence_sufficient m, rs_reliability = mt_reliability_score m,
     rs_tending = mt_tending_score m, rs_uptime = mt_uptime_score m\<rparr>"

lemma counts_pos: "0 \<le> adoption_pubkeys now d i" "0 \<le> adoption_repos now d i" "0 \<le> corroboration_sources d i"
  "0 \<le> probes_successful now d i" "probes_successful now d i \<le> probes_total now d i"
  by (simp_all add: adoption_pubkeys_def adoption_repos_def corroboration_sources_def count_distinct_def
      probes_successful_def probes_total_def)

lemma changed_probes_set: "set (changed_probes ps) \<subseteq> set ps"
  by (induction ps rule: changed_probes.induct) auto

text \<open>Probes lie in the past; database and process read whole milliseconds.\<close>

definition clock_ok :: "time \<Rightarrow> directory \<Rightarrow> bool" where
  "clock_ok now d \<longleftrightarrow> now mod 1000 = 0 \<and> (\<forall>p \<in> set (dr_snapshots d). sn_probed p mod 1000 = 0 \<and> sn_probed p \<le> now)"

lemma changed_in_past:
  assumes "clock_ok now d" "metadata_changed_at now d i = Some t"
  shows "t mod 1000 = 0 \<and> t \<le> now"
proof -
  let ?ps = "changed_probes (sort_key sn_probed (filter exact_probe (window_probes now d i)))"
  have t: "?ps \<noteq> []" "t = Max (sn_probed ` set ?ps)"
    using assms(2) by (auto simp: metadata_changed_at_def Let_def split: if_splits)
  then have "t \<in> sn_probed ` set ?ps" by simp
  then obtain p where "p \<in> set ?ps" "t = sn_probed p" by blast
  moreover from this have "p \<in> set (dr_snapshots d)"
    using changed_probes_set by (fastforce simp: window_probes_def)
  ultimately show ?thesis using assms(1) by (simp add: clock_ok_def)
qed

lemma row_agrees:
  assumes "clock_ok now d"
  shows "scores_of (metrics_of now d i) = score_reliability (inputs_of now d i) (now div 1000)"
proof -
  have "now mod 1000 = 0" using assms by (simp add: clock_ok_def)
  note tending = tending_agrees [OF this changed_in_past [OF assms]]
  show ?thesis
    by (simp add: scores_of_def metrics_of_def score_reliability_def inputs_of_def Let_def clamp_round
        adoption_agrees uptime_agrees corroboration_agrees tending counts_pos)
qed

lemma row_passes:
  assumes "clock_ok now d"
  shows "metrics_check (metrics_of now d i)"
proof -
  let ?m = "metrics_of now d i" and ?s = "score_reliability (inputs_of now d i) (now div 1000)"
  have "is_score (rs_adoption ?s) \<and> is_score (rs_uptime ?s) \<and> is_score (rs_tending ?s) \<and>
      is_score (rs_corroboration ?s) \<and> is_score (rs_reliability ?s)"
    using clamped_range
    by (simp add: score_reliability_def Let_def score_adoption_def score_uptime_def score_tending_def
        score_corroboration_def split: option.split) (simp add: is_score_def)
  then have "is_score (mt_adoption_score ?m) \<and> is_score (mt_uptime_score ?m) \<and> is_score (mt_tending_score ?m) \<and>
      is_score (mt_corroboration_score ?m) \<and> is_score (mt_reliability_score ?m)"
    unfolding row_agrees [OF assms, symmetric] by (simp add: scores_of_def)
  then show ?thesis
    using counts_pos
    by (simp add: metrics_check_def) (simp add: metrics_of_def Let_def reliability_window_days_def probes_total_def)
qed

section \<open>The table\<close>

lemma put_metrics_new: "m \<in> set (put_metrics ms m)"
  by (auto simp: put_metrics_def has_row_iff set_update_where)

lemma put_metrics_other: "x \<in> set ms \<Longrightarrow> mt_candidate x \<noteq> mt_candidate m \<Longrightarrow> x \<in> set (put_metrics ms m)"
  by (auto simp: put_metrics_def set_update_where)

lemma put_rows:
  "(\<And>r r'. r \<in> set rows \<Longrightarrow> r' \<in> set rows \<Longrightarrow> mt_candidate r = mt_candidate r' \<Longrightarrow> r = r') \<Longrightarrow>
     set rows \<subseteq> set (foldl put_metrics ms rows) \<and>
     {x \<in> set ms. mt_candidate x \<notin> mt_candidate ` set rows} \<subseteq> set (foldl put_metrics ms rows)"
proof (induction rows arbitrary: ms)
  case (Cons r rows)
  have IH: "set rows \<subseteq> set (foldl put_metrics (put_metrics ms r) rows) \<and>
      {x \<in> set (put_metrics ms r). mt_candidate x \<notin> mt_candidate ` set rows} \<subseteq> set (foldl put_metrics (put_metrics ms r) rows)"
    by (rule Cons.IH) (rule Cons.prems, auto)
  have "r \<in> set (foldl put_metrics (put_metrics ms r) rows)"
  proof (cases "mt_candidate r \<in> mt_candidate ` set rows")
    case True
    then obtain r' where "r' \<in> set rows" "mt_candidate r = mt_candidate r'" by blast
    then have "r = r'" by (intro Cons.prems) auto
    with \<open>r' \<in> set rows\<close> IH show ?thesis by blast
  next
    case False
    with IH put_metrics_new show ?thesis by blast
  qed
  with IH put_metrics_other [of _ ms r] show ?case by auto
qed simp

lemma metrics_candidate [simp]: "mt_candidate (metrics_of now d i) = i"
  by (simp add: metrics_of_def Let_def)


end
