(* ===== verification/Ranking_Witnesses.thy ===== *)
theory Ranking_Witnesses
  imports Directory_Witnesses Ranking_Properties
begin

text \<open>The roll-up over the directory of one verified relay, a day after its probe.\<close>

definition ranked_directory :: directory where
  "ranked_directory = verified\<lparr>dr_snapshots := map (\<lambda>s. s\<lparr>sn_probed := 0\<rparr>) (dr_snapshots verified)\<rparr>"

abbreviation ranked_at :: time where
  "ranked_at \<equiv> 86400000000"

lemma ranked_counts:
  "probes_total ranked_at ranked_directory ''k1'' = 1"
  "probes_successful ranked_at ranked_directory ''k1'' = 1"
  by code_simp+


end
