(* ===== verification/Nostr_Sources.thy ===== *)
theory Nostr_Sources
  imports Directory_Jobs
begin

text \<open>
  sources/nip66.ts and nip65.ts with db/source-state.ts: relays announced by monitors and
  by people in signed events.  A run reads the events since its cursor page by page,
  ingests what trusted keys announce and moves the cursor.  Relays answer through the
  client of nostr-client.ts, a parameter.
\<close>

section \<open>State and environment\<close>

record source_tally =
  st_accepted :: nat
  st_ignored :: nat
  st_read :: nat

record source_state =
  ss_key :: string
  ss_cursor :: json
  ss_last_run :: "time option"
  ss_last_success :: "time option"
  ss_error :: "string option"
  ss_result :: "source_tally option"

record 'e source_world =
  sw_job :: "'e job_world"
  sw_states :: "source_state list"

type_synonym ('e, 'a) source_run = "('e source_world, 'a) io"

record nostr_filter =
  nf_authors :: "string list"
  nf_kinds :: "nat list"
  nf_limit :: nat
  nf_since :: "int option"
  nf_until :: "int option"

text \<open>\<open>sx_query\<close>: the events a query of some relays returns, or None when it throws.\<close>

record 'e source_env =
  sx_job :: "'e job_env"
  sx_query :: "string list \<Rightarrow> nostr_filter \<Rightarrow> 'e \<Rightarrow> nostr_event list option \<times> 'e"
  sx_verify :: "nostr_event \<Rightarrow> bool"

text \<open>A \<open>SourceAdapterError\<close>; nothing else a run calls throws an \<open>Api\<close> error.\<close>

definition adapter_error :: "string \<Rightarrow> err" where
  "adapter_error code = Api code 0"

definition on_job :: "('e, 'a) job \<Rightarrow> ('e, 'a) source_run" where
  "on_job m = (\<lambda>w. case m (sw_job w) of (r, j) \<Rightarrow> (r, w\<lparr>sw_job := j\<rparr>))"

definition state_query ::
  "'e job_env \<Rightarrow> (time \<Rightarrow> source_state list \<Rightarrow> 'a \<times> source_state list) \<Rightarrow> ('e, 'a) source_run" where
  "state_query E f = call_then (on_job (pass_time E)) (\<lambda>_.
     io_query (jd_query E) (\<lambda>w. jb_env (sw_job w))
       (\<lambda>g w. w\<lparr>sw_job := (sw_job w)\<lparr>jb_env := g (jb_env (sw_job w))\<rparr>\<rparr>)
       (\<lambda>w. case f (jb_clock (sw_job w)) (sw_states w) of (a, ss) \<Rightarrow> (Inr a, w\<lparr>sw_states := ss\<rparr>)))"

definition state_of_source :: "string \<Rightarrow> source_state list \<Rightarrow> source_state option" where
  "state_of_source key ss = find (\<lambda>s. ss_key s = key) ss"

definition get_source_cursor ::
  "string \<Rightarrow> json \<Rightarrow> time \<Rightarrow> source_state list \<Rightarrow> json \<times> source_state list" where
  "get_source_cursor key fallback now ss =
     ((case state_of_source key ss of
         None \<Rightarrow> fallback
       | Some s \<Rightarrow> if ss_cursor s = JNull then fallback else ss_cursor s), ss)"

definition upsert_state ::
  "string \<Rightarrow> source_state \<Rightarrow> (source_state \<Rightarrow> source_state) \<Rightarrow> source_state list \<Rightarrow> source_state list" where
  "upsert_state key fresh change ss =
     (if state_of_source key ss = None then ss @ [fresh] else update_where (\<lambda>s. ss_key s = key) change ss)"

definition record_source_success ::
  "string \<Rightarrow> json \<Rightarrow> source_tally \<Rightarrow> time \<Rightarrow> source_state list \<Rightarrow> unit \<times> source_state list" where
  "record_source_success key cursor result now ss = ((), upsert_state key
     \<lparr>ss_key = key, ss_cursor = cursor, ss_last_run = Some now, ss_last_success = Some now, ss_error = None,
      ss_result = Some result\<rparr>
     (\<lambda>s. s\<lparr>ss_cursor := cursor, ss_last_run := Some now, ss_last_success := Some now, ss_error := None,
        ss_result := Some result\<rparr>) ss)"

definition record_source_failure ::
  "string \<Rightarrow> string \<Rightarrow> time \<Rightarrow> source_state list \<Rightarrow> unit \<times> source_state list" where
  "record_source_failure key code now ss = ((), upsert_state key
     \<lparr>ss_key = key, ss_cursor = JObj [], ss_last_run = Some now, ss_last_success = None, ss_error = Some code,
      ss_result = None\<rparr>
     (\<lambda>s. s\<lparr>ss_last_run := Some now, ss_error := Some code\<rparr>) ss)"

section \<open>The cursor\<close>

definition since_cursor :: "int \<Rightarrow> json" where
  "since_cursor n = JObj [(''since'', JInt n)]"

definition sanitize_timestamp_cursor :: "json \<Rightarrow> int \<Rightarrow> int \<Rightarrow> int" where
  "sanitize_timestamp_cursor cursor fallback now = (case cursor of
     JObj fs \<Rightarrow> (case json_field fs ''since'' of
         Some (JInt n) \<Rightarrow> if n < 0 \<or> n > now + 300 then fallback else n
       | _ \<Rightarrow> fallback)
   | _ \<Rightarrow> fallback)"

section \<open>Reading pages\<close>

definition nip66_kind :: nat where "nip66_kind = 30166"
definition initial_lookback_seconds :: int where "initial_lookback_seconds = 7 * 24 * 60 * 60"
definition query_page_size :: nat where "query_page_size = 500"
definition max_events_per_run :: nat where "max_events_per_run = 10000"
definition max_pages_per_relay :: nat where "max_pages_per_relay = 20"
definition max_query_attempts :: nat where "max_query_attempts = 3"
definition max_event_tags :: nat where "max_event_tags = 100"
definition max_nip11_content_bytes :: nat where "max_nip11_content_bytes = 128 * 1024"

record nip66_config =
  nc_monitors :: "string list"
  nc_relays :: "string list"

definition client_query ::
  "'e source_env \<Rightarrow> string list \<Rightarrow> nostr_filter \<Rightarrow> ('e, nostr_event list) source_run" where
  "client_query S relays f =
     call_then (on_job (ask_job (sx_query S relays f))) (\<lambda>answer.
     case answer of None \<Rightarrow> io_throw Raw | Some events \<Rightarrow> io_return events)"

fun query_attempts ::
  "'e source_env \<Rightarrow> string list \<Rightarrow> nostr_filter \<Rightarrow> nat \<Rightarrow> ('e, nostr_event list) source_run" where
  "query_attempts S relays f 0 = io_throw Raw"
| "query_attempts S relays f (Suc n) = io_catch (client_query S relays f) (\<lambda>_. query_attempts S relays f n)"

definition page_filter :: "string \<Rightarrow> int \<Rightarrow> int \<Rightarrow> nostr_filter" where
  "page_filter monitor since until =
     \<lparr>nf_authors = [monitor], nf_kinds = [nip66_kind], nf_limit = query_page_size,
      nf_since = Some since, nf_until = Some until\<rparr>"

definition query_nip66_page ::
  "'e source_env \<Rightarrow> string \<Rightarrow> string \<Rightarrow> int \<Rightarrow> int \<Rightarrow> ('e, nostr_event list) source_run" where
  "query_nip66_page S relay monitor since until =
     query_attempts S [relay] (page_filter monitor since until) max_query_attempts"

text \<open>\<open>Map.set\<close> by event id: a known id keeps its place.\<close>

definition put_event :: "nostr_event \<Rightarrow> nostr_event list \<Rightarrow> nostr_event list" where
  "put_event ev events =
     (if has_row (\<lambda>x. ev_id x = ev_id ev) events
      then update_where (\<lambda>x. ev_id x = ev_id ev) (\<lambda>_. ev) events else events @ [ev])"

fun add_bounded_events :: "nostr_event list \<Rightarrow> nostr_event list \<Rightarrow> nostr_event list res" where
  "add_bounded_events target [] = Inr target"
| "add_bounded_events target (ev # events) =
     (let grown = put_event ev target in
      if length grown > max_events_per_run then Inl (adapter_error ''incomplete_results'')
      else add_bounded_events grown events)"

definition oldest_of :: "nostr_event list \<Rightarrow> int" where
  "oldest_of batch = Min (ev_created_at ` set batch)"

text \<open>The loop over pages, with the number of pages it may still read.\<close>

fun query_pages ::
  "'e source_env \<Rightarrow> string \<Rightarrow> string \<Rightarrow> int \<Rightarrow> nat \<Rightarrow> int \<Rightarrow> nostr_event list \<Rightarrow>
   ('e, nostr_event list) source_run" where
  "query_pages S relay monitor since 0 until events = io_throw (adapter_error ''incomplete_results'')"
| "query_pages S relay monitor since (Suc n) until events =
     call_then (query_nip66_page S relay monitor since until) (\<lambda>batch.
     call_then (io_res (add_bounded_events events batch)) (\<lambda>events1.
     if length batch < query_page_size then io_return events1
     else
       call_then (query_nip66_page S relay monitor (oldest_of batch) (oldest_of batch)) (\<lambda>boundary.
       if length boundary \<ge> query_page_size then io_throw (adapter_error ''incomplete_results'')
       else
         call_then (io_res (add_bounded_events events1 boundary)) (\<lambda>events2.
         if oldest_of batch - 1 < since then io_return events2
         else query_pages S relay monitor since n (oldest_of batch - 1) events2))))"

fun query_each ::
  "'e source_env \<Rightarrow> int \<Rightarrow> int \<Rightarrow> (string \<times> string) list \<Rightarrow> nostr_event list \<Rightarrow>
   ('e, nostr_event list) source_run" where
  "query_each S since until [] events = io_return events"
| "query_each S since until ((relay, monitor) # pairs) events =
     call_then (query_pages S relay monitor since max_pages_per_relay until events)
       (query_each S since until pairs)"

definition query_nip66_events ::
  "'e source_env \<Rightarrow> nip66_config \<Rightarrow> int \<Rightarrow> int \<Rightarrow> ('e, nostr_event list) source_run" where
  "query_nip66_events S c since until =
     query_each S since until (List.product (nc_relays c) (nc_monitors c)) []"

section \<open>What an event announces\<close>

definition is_trusted_envelope :: "'e source_env \<Rightarrow> nat \<Rightarrow> string list \<Rightarrow> int \<Rightarrow> nostr_event \<Rightarrow> bool" where
  "is_trusted_envelope S kind allowed now ev \<longleftrightarrow> ev_kind ev = kind \<and> ev_pubkey ev \<in> set allowed \<and>
     0 \<le> ev_created_at ev \<and> ev_created_at ev \<le> now + 300 \<and> sx_verify S ev"

text \<open>\<open>tags.find((tag) => tag[0] === name)?.[1]\<close>\<close>

definition tag_value :: "string \<Rightarrow> nostr_event \<Rightarrow> string option" where
  "tag_value name ev = (case find (\<lambda>t. t \<noteq> [] \<and> hd t = name) (ev_tags ev) of
     Some (_ # v # _) \<Rightarrow> Some v | _ \<Rightarrow> None)"

definition announced_source :: "string \<Rightarrow> nostr_event \<Rightarrow> candidate_source" where
  "announced_source type ev = \<lparr>cs_type = type, cs_locator = None, cs_actor = Some (ev_pubkey ev),
     cs_evidence = Some (ev_id ev), cs_observed = Some (seconds (ev_created_at ev)), cs_listing = None\<rparr>"

definition announces_buzz :: "'e source_env \<Rightarrow> string \<Rightarrow> bool" where
  "announces_buzz S content = (case hc_parse (jd_client (sx_job S)) content of
     None \<Rightarrow> False
   | Some v \<Rightarrow> (case parse_nip11_document v of
       Inl _ \<Rightarrow> False | Inr n \<Rightarrow> has_canonical_buzz_software (jd_web (sx_job S)) (ni_software n)))"

definition parse_nip66_candidate ::
  "'e source_env \<Rightarrow> string list \<Rightarrow> int \<Rightarrow> nostr_event \<Rightarrow> (string \<times> candidate_source) option" where
  "parse_nip66_candidate S allowed now ev =
     (if \<not> is_trusted_envelope S nip66_kind allowed now ev then None
      else if length (ev_tags ev) > max_event_tags \<or> utf8_length (ev_content ev) > max_nip11_content_bytes then None
      else if (case tag_value ''n'' ev of None \<Rightarrow> False | Some n \<Rightarrow> n \<noteq> [] \<and> n \<noteq> ''clearnet'') then None
      else case tag_value ''d'' ev of
        None \<Rightarrow> None
      | Some url \<Rightarrow>
          if url = [] \<or> ev_content ev = [] \<or> \<not> announces_buzz S (ev_content ev) then None
          else Some (url, announced_source ''nip66'' ev))"

section \<open>A run\<close>

definition count_ingestion :: "string + uuid \<Rightarrow> source_tally \<Rightarrow> source_tally" where
  "count_ingestion r t = (case r of
     Inl _ \<Rightarrow> t\<lparr>st_ignored := Suc (st_ignored t)\<rparr> | Inr _ \<Rightarrow> t\<lparr>st_accepted := Suc (st_accepted t)\<rparr>)"

definition later_timestamp :: "int option \<Rightarrow> int \<Rightarrow> int option" where
  "later_timestamp latest t = Some (case latest of None \<Rightarrow> t | Some l \<Rightarrow> max l t)"

fun process_nip66_events ::
  "'e source_env \<Rightarrow> nip66_config \<Rightarrow> int \<Rightarrow> int \<Rightarrow> nostr_event list \<Rightarrow> int option \<Rightarrow> source_tally \<Rightarrow>
   ('e, int option \<times> source_tally) source_run" where
  "process_nip66_events S c since now [] latest t = io_return (latest, t)"
| "process_nip66_events S c since now (ev # events) latest t =
     (if ev_created_at ev < since
      then process_nip66_events S c since now events latest (t\<lparr>st_ignored := Suc (st_ignored t)\<rparr>)
      else
        let latest' = (if is_trusted_envelope S nip66_kind (nc_monitors c) now ev
                       then later_timestamp latest (ev_created_at ev) else latest) in
        case parse_nip66_candidate S (nc_monitors c) now ev of
          None \<Rightarrow> process_nip66_events S c since now events latest' (t\<lparr>st_ignored := Suc (st_ignored t)\<rparr>)
        | Some (url, src) \<Rightarrow>
            call_then (on_job (ingest_source_candidate (sx_job S) url src)) (\<lambda>r.
            process_nip66_events S c since now events latest' (count_ingestion r t)))"

text \<open>The handler of both adapters: the failure is recorded under its code and rethrown.\<close>

definition fail_source :: "'e source_env \<Rightarrow> string \<Rightarrow> err \<Rightarrow> ('e, 'a) source_run" where
  "fail_source S key e =
     (let code = (case e of Api code _ \<Rightarrow> code | _ \<Rightarrow> ''remote_failed'') in
      call_then (state_query (sx_job S) (record_source_failure key code)) (\<lambda>_. io_throw (adapter_error code)))"

definition no_events_yet :: source_tally where
  "no_events_yet = \<lparr>st_accepted = 0, st_ignored = 0, st_read = 0\<rparr>"

definition reconcile_nip66 ::
  "'e source_env \<Rightarrow> nip66_config \<Rightarrow> int \<Rightarrow> int \<Rightarrow> ('e, source_tally) source_run" where
  "reconcile_nip66 S c since now =
     call_then (query_nip66_events S c since now) (\<lambda>events.
     call_then (process_nip66_events S c since now events None (no_events_yet\<lparr>st_read := length events\<rparr>)) (\<lambda>(latest, t).
     call_then (state_query (sx_job S) (record_source_success ''nip66''
       (since_cursor (case latest of None \<Rightarrow> since | Some l \<Rightarrow> l)) t)) (\<lambda>_. io_return t)))"

definition run_nip66_source :: "'e source_env \<Rightarrow> nip66_config \<Rightarrow> ('e, source_tally) source_run" where
  "run_nip66_source S c =
     call_then (on_job job_seconds) (\<lambda>now.
     if length (nc_monitors c) < 2 then io_throw (adapter_error ''invalid_configuration'')
     else
       call_then (state_query (sx_job S) (get_source_cursor ''nip66'' (since_cursor (now - initial_lookback_seconds)))) (\<lambda>stored.
       io_catch (reconcile_nip66 S c (sanitize_timestamp_cursor stored (now - initial_lookback_seconds) now) now)
         (fail_source S ''nip66'')))"

section \<open>Relay lists of people\<close>

definition nip65_kind :: nat where "nip65_kind = 10002"
definition max_nip65_events :: nat where "max_nip65_events = 500"
definition max_relay_tags_per_event :: nat where "max_relay_tags_per_event = 20"

record nip65_config =
  nl_authors :: "string list"
  nl_relays :: "string list"

definition parse_nip65_candidates ::
  "'e source_env \<Rightarrow> string list \<Rightarrow> int \<Rightarrow> nostr_event \<Rightarrow> (string \<times> candidate_source) list" where
  "parse_nip65_candidates S allowed now ev =
     (if \<not> is_trusted_envelope S nip65_kind allowed now ev \<or> length (ev_tags ev) > max_event_tags then []
      else map (\<lambda>t. (t ! 1, announced_source ''nip65'' ev))
        (take max_relay_tags_per_event (filter (\<lambda>t. 2 \<le> length t \<and> hd t = ''r'') (ev_tags ev))))"

fun ingest_all ::
  "'e source_env \<Rightarrow> (string \<times> candidate_source) list \<Rightarrow> source_tally \<Rightarrow> ('e, source_tally) source_run" where
  "ingest_all S [] t = io_return t"
| "ingest_all S ((url, src) # cs) t =
     call_then (on_job (ingest_source_candidate (sx_job S) url src)) (\<lambda>r. ingest_all S cs (count_ingestion r t))"

fun process_nip65_events ::
  "'e source_env \<Rightarrow> nip65_config \<Rightarrow> int \<Rightarrow> int \<Rightarrow> nostr_event list \<Rightarrow> int option \<Rightarrow> source_tally \<Rightarrow>
   ('e, int option \<times> source_tally) source_run" where
  "process_nip65_events S c since now [] latest t = io_return (latest, t)"
| "process_nip65_events S c since now (ev # events) latest t =
     (if ev_created_at ev < since
      then process_nip65_events S c since now events latest (t\<lparr>st_ignored := Suc (st_ignored t)\<rparr>)
      else
        let latest' = (if is_trusted_envelope S nip65_kind (nl_authors c) now ev
                       then later_timestamp latest (ev_created_at ev) else latest) in
        call_then (ingest_all S (parse_nip65_candidates S (nl_authors c) now ev) t)
          (process_nip65_events S c since now events latest'))"

definition reconcile_nip65 ::
  "'e source_env \<Rightarrow> nip65_config \<Rightarrow> int \<Rightarrow> int \<Rightarrow> ('e, source_tally) source_run" where
  "reconcile_nip65 S c since now =
     call_then (client_query S (nl_relays c) \<lparr>nf_authors = nl_authors c, nf_kinds = [nip65_kind],
       nf_limit = max_nip65_events, nf_since = Some since, nf_until = None\<rparr>) (\<lambda>events.
     if length events \<ge> max_nip65_events then io_throw (adapter_error ''incomplete_results'')
     else
       call_then (process_nip65_events S c since now events None (no_events_yet\<lparr>st_read := length events\<rparr>)) (\<lambda>(latest, t).
       call_then (state_query (sx_job S) (record_source_success ''nip65''
         (since_cursor (case latest of None \<Rightarrow> since | Some l \<Rightarrow> l)) t)) (\<lambda>_. io_return t)))"

definition run_nip65_source :: "'e source_env \<Rightarrow> nip65_config \<Rightarrow> ('e, source_tally) source_run" where
  "run_nip65_source S c =
     call_then (on_job job_seconds) (\<lambda>now.
     if nl_authors c = [] \<or> length (nl_authors c) > 500 then io_throw (adapter_error ''invalid_configuration'')
     else
       call_then (state_query (sx_job S) (get_source_cursor ''nip65'' (since_cursor 0))) (\<lambda>stored.
       io_catch (reconcile_nip65 S c (sanitize_timestamp_cursor stored 0 now) now) (fail_source S ''nip65'')))"

end
