(* ===== verification/Source_Properties.thy ===== *)
theory Source_Properties
  imports Nostr_Sources Submission_Properties
begin

text \<open>
  What the adapter of sources/nip66.ts promises: its pages hold every event of their
  window, nothing trusted lies unread behind the cursor, and every source it records is
  vouched for by a monitor.
\<close>

section \<open>Assertions\<close>

text \<open>An assertion about the directory and the table of source states.\<close>

definition kept :: "(directory \<Rightarrow> source_state list \<Rightarrow> bool) \<Rightarrow> 'e source_world \<Rightarrow> bool" where
  "kept P w = P (jb_dir (sw_job w)) (sw_states w)"

lemma leads_on_job:
  assumes "\<And>ss. leads (holds (\<lambda>v. P (fst v) ss)) m (holds (\<lambda>v. I (fst v) ss)) (\<lambda>a. holds (\<lambda>v. Q a (fst v) ss))"
  shows "leads (kept P) (on_job m) (kept I) (\<lambda>a. kept (Q a))"
  using assms by (auto simp: leads_def kept_def holds_def view_def on_job_def split: prod.splits) (metis fst_conv snd_conv)+

lemma leads_on_quiet:
  assumes "\<And>p. leads (holds p) m (holds p) (\<lambda>_. holds p)"
  shows "leads (kept P) (on_job m) (kept P) (\<lambda>_. kept P)"
  by (rule leads_on_job) (rule assms)

lemma leads_state_query:
  assumes "\<And>now d ss a ss'. P d ss \<Longrightarrow> f now ss = (a, ss') \<Longrightarrow> I d ss' \<and> Q a d ss'" "\<And>d ss. P d ss \<Longrightarrow> I d ss"
  shows "leads (kept P) (state_query E f) (kept I) (\<lambda>a. kept (Q a))"
  unfolding state_query_def
proof (rule leads_then [where R = "\<lambda>_. kept P"])
  have "leads (holds p) (pass_time E) (holds p) (\<lambda>_. holds p)" for p
    using view_pass_time [of E] by (simp add: leads_def holds_def)
  from leads_on_quiet [OF this, of P] show "leads (kept P) (on_job (pass_time E)) (kept I) (\<lambda>_. kept P)"
    by (rule leads_weaken) (use assms(2) in \<open>auto simp: kept_def\<close>)
  show "leads (kept P) (io_query (jd_query E) (\<lambda>w. jb_env (sw_job w))
      (\<lambda>g w. w\<lparr>sw_job := (sw_job w)\<lparr>jb_env := g (jb_env (sw_job w))\<rparr>\<rparr>)
      (\<lambda>w. case f (jb_clock (sw_job w)) (sw_states w) of (a, ss) \<Rightarrow> (Inr a, w\<lparr>sw_states := ss\<rparr>))) (kept I) (\<lambda>a. kept (Q a))" for u
    using assms by (intro leads_query) (auto simp: leads_def kept_def split: prod.splits)
qed

section \<open>Honest relays\<close>

definition matching :: "nostr_event set \<Rightarrow> nostr_filter \<Rightarrow> nostr_event set" where
  "matching stored f = {ev \<in> stored. ev_pubkey ev \<in> set (nf_authors f) \<and> ev_kind ev \<in> set (nf_kinds f) \<and>
     (\<forall>s. nf_since f = Some s \<longrightarrow> s \<le> ev_created_at ev) \<and> (\<forall>u. nf_until f = Some u \<longrightarrow> ev_created_at ev \<le> u)}"

text \<open>NIP-01: a relay returns the events that match, the newest first when the limit cuts them.\<close>

definition newest_answer :: "nostr_event set \<Rightarrow> nostr_filter \<Rightarrow> nostr_event list \<Rightarrow> bool" where
  "newest_answer stored f es \<longleftrightarrow> set es \<subseteq> matching stored f \<and>
     (length es < nf_limit f \<longrightarrow> set es = matching stored f) \<and>
     (\<forall>x \<in> matching stored f - set es. \<forall>y \<in> set es. ev_created_at x \<le> ev_created_at y)"

definition honest_relays :: "'e source_env \<Rightarrow> (string \<Rightarrow> nostr_event set) \<Rightarrow> bool" where
  "honest_relays S stored \<longleftrightarrow> (\<forall>relay f e es. fst (sx_query S [relay] f e) = Some es \<longrightarrow> newest_answer (stored relay) f es)"

definition announced_between :: "nostr_event set \<Rightarrow> string \<Rightarrow> int \<Rightarrow> int \<Rightarrow> nostr_event set" where
  "announced_between stored monitor since until = {ev \<in> stored. ev_pubkey ev = monitor \<and> ev_kind ev = nip66_kind \<and>
     since \<le> ev_created_at ev \<and> ev_created_at ev \<le> until}"

lemma matching_page: "matching stored (page_filter monitor since until) = announced_between stored monitor since until"
  by (auto simp: matching_def page_filter_def announced_between_def)

lemma leads_client_query:
  assumes "honest_relays S stored"
  shows "leads (kept P) (client_query S [relay] f) (kept P) (\<lambda>es w. kept P w \<and> newest_answer (stored relay) f es)"
  using assms
  by (auto simp: leads_def client_query_def call_then_def on_job_def ask_job_def kept_def honest_relays_def
      io_throw_def io_return_def split: prod.splits option.splits) (metis fst_conv)+

lemma leads_attempts:
  assumes "honest_relays S stored"
  shows "leads (kept P) (query_attempts S [relay] f n) (kept P) (\<lambda>es w. kept P w \<and> newest_answer (stored relay) f es)"
proof (induction n)
  case 0
  show ?case unfolding query_attempts.simps by (rule leads_throw) simp
next
  case (Suc n)
  show ?case unfolding query_attempts.simps
    by (rule leads_catch [OF leads_client_query [OF assms] Suc])
qed

lemma leads_page:
  assumes "honest_relays S stored"
  shows "leads (kept P) (query_nip66_page S relay monitor since until) (kept P)
    (\<lambda>es w. kept P w \<and> newest_answer (stored relay) (page_filter monitor since until) es)"
  unfolding query_nip66_page_def by (rule leads_attempts [OF assms])

section \<open>Pages\<close>

lemma set_put_event:
  assumes "inj_on ev_id U" "ev \<in> U" "set events \<subseteq> U"
  shows "set (put_event ev events) = insert ev (set events)"
proof (cases "has_row (\<lambda>x. ev_id x = ev_id ev) events")
  case True
  have same: "x = ev" if "x \<in> set events" "ev_id x = ev_id ev" for x
    using that assms by (auto dest: inj_onD)
  from True obtain x where "x \<in> set events" "ev_id x = ev_id ev" by (auto simp: has_row_iff)
  with same have "ev \<in> set events" by blast
  then show ?thesis using True same by (auto simp: put_event_def set_update_where)
qed (auto simp: put_event_def)

lemma set_add_bounded:
  "add_bounded_events target events = Inr all \<Longrightarrow> inj_on ev_id U \<Longrightarrow> set target \<subseteq> U \<Longrightarrow> set events \<subseteq> U \<Longrightarrow>
     set all = set target \<union> set events"
proof (induction target events rule: add_bounded_events.induct)
  case (2 target ev events)
  then have put: "set (put_event ev target) = insert ev (set target)" by (intro set_put_event) auto
  with 2 show ?case by (auto simp: Let_def split: if_splits)
qed simp

text \<open>A full page and the events at its oldest second leave nothing out of the window above it.\<close>

lemma full_page:
  assumes "newest_answer stored (page_filter monitor since until) batch" "batch \<noteq> []"
  shows "since \<le> oldest_of batch" and "oldest_of batch \<le> until"
    and "set batch \<union> announced_between stored monitor (oldest_of batch) (oldest_of batch) =
      announced_between stored monitor (oldest_of batch) until"
proof -
  let ?o = "oldest_of batch"
  have in_window: "set batch \<subseteq> announced_between stored monitor since until"
    using assms(1) by (simp add: newest_answer_def matching_page)
  have "?o \<in> ev_created_at ` set batch" using assms(2) by (simp add: oldest_of_def)
  then obtain y where y: "y \<in> set batch" "ev_created_at y = ?o" by auto
  have le: "?o \<le> ev_created_at x" if "x \<in> set batch" for x using that by (simp add: oldest_of_def)
  show "since \<le> ?o" and "?o \<le> until" using y in_window by (auto simp: announced_between_def)
  have "x \<in> set batch" if x: "x \<in> announced_between stored monitor since until" "?o < ev_created_at x" for x
  proof (rule ccontr)
    assume "x \<notin> set batch"
    then have "ev_created_at x \<le> ev_created_at y"
      using assms(1) x(1) y(1) by (simp add: newest_answer_def matching_page)
    with x(2) y(2) show False by simp
  qed
  with in_window le y \<open>since \<le> ?o\<close>
  show "set batch \<union> announced_between stored monitor ?o ?o = announced_between stored monitor ?o until"
    by (fastforce simp: announced_between_def)
qed

lemma full_batch: "newest_answer stored (page_filter m s u) batch \<Longrightarrow> \<not> length batch < query_page_size \<Longrightarrow> batch \<noteq> []"
  by (auto simp: query_page_size_def)

lemma short_batch: "newest_answer stored (page_filter m s u) batch \<Longrightarrow> length batch < query_page_size \<Longrightarrow>
    set batch = announced_between stored m s u"
  by (simp add: newest_answer_def matching_page) (simp add: page_filter_def)

lemma leads_fact:
  assumes "\<And>w. Z w \<Longrightarrow> c" "c \<Longrightarrow> leads P m I Q"
  shows "leads (\<lambda>w. P w \<and> Z w) m I Q"
  using assms by (auto simp: leads_def)

abbreviation reads :: "(directory \<Rightarrow> source_state list \<Rightarrow> bool) \<Rightarrow> ('e, nostr_event list) source_run \<Rightarrow> nostr_event set \<Rightarrow> bool" where
  "reads P m A \<equiv> leads (kept P) m (kept P) (\<lambda>es w. kept P w \<and> set es = A)"

lemma reads_return: "set es = A \<Longrightarrow> reads P (io_return es) A"
  by (rule leads_return) simp

lemma reads_throw: "reads P (io_throw e) A"
  by (rule leads_throw) simp

lemma reads_bounded:
  assumes "inj_on ev_id U" "set target \<subseteq> U" "set events \<subseteq> U"
    "\<And>all. set all = set target \<union> set events \<Longrightarrow> reads P (k all) A"
  shows "reads P (call_then (io_res (add_bounded_events target events)) k) A"
proof (cases "add_bounded_events target events")
  case (Inl e)
  then show ?thesis by (simp add: leads_def call_then_def io_res_def)
next
  case (Inr all)
  from assms(4) [OF set_add_bounded [OF Inr assms(1-3)]] show ?thesis
    by (simp add: leads_def call_then_def io_res_def Inr)
qed

lemma reads_page:
  assumes "honest_relays S stored"
    "\<And>es. newest_answer (stored relay) (page_filter monitor since until) es \<Longrightarrow> reads P (k es) A"
  shows "reads P (call_then (query_nip66_page S relay monitor since until) k) A"
  by (rule leads_then [OF leads_page [OF assms(1)]]) (rule leads_fact, assumption, rule assms(2))

lemma answer_stored: "newest_answer stored f es \<Longrightarrow> set es \<subseteq> stored"
  by (auto simp: newest_answer_def matching_def)

lemma reads_pages:
  assumes "honest_relays S stored" "inj_on ev_id U" "stored relay \<subseteq> U" "set events \<subseteq> U"
  shows "reads P (query_pages S relay monitor since n until events)
    (set events \<union> announced_between (stored relay) monitor since until)"
  using assms(4)
proof (induction n arbitrary: until events)
  case 0
  show ?case unfolding query_pages.simps by (rule reads_throw)
next
  case (Suc n)
  let ?W = "announced_between (stored relay) monitor"
  have W: "?W a b \<subseteq> U" for a b using assms(3) by (auto simp: announced_between_def)
  show ?case unfolding query_pages.simps
  proof (rule reads_page [OF assms(1)], rule reads_bounded [OF assms(2) Suc.prems])
    fix batch assume batch: "newest_answer (stored relay) (page_filter monitor since until) batch"
    show inU: "set batch \<subseteq> U" using answer_stored [OF batch] assms(3) by blast
    fix events1 assume events1: "set events1 = set events \<union> set batch"
    let ?o = "oldest_of batch"
    show "reads P (if length batch < query_page_size then io_return events1
       else call_then (query_nip66_page S relay monitor ?o ?o) (\<lambda>boundary.
         if query_page_size \<le> length boundary then io_throw (adapter_error ''incomplete_results'')
         else call_then (io_res (add_bounded_events events1 boundary)) (\<lambda>events2.
           if ?o - 1 < since then io_return events2
           else query_pages S relay monitor since n (?o - 1) events2))) (set events \<union> ?W since until)"
    proof (cases "length batch < query_page_size")
      case True
      then show ?thesis using short_batch [OF batch] events1 by (simp add: reads_return)
    next
      case False
      note full = full_page [OF batch full_batch [OF batch False]]
      have "reads P (if query_page_size \<le> length boundary then io_throw (adapter_error ''incomplete_results'')
         else call_then (io_res (add_bounded_events events1 boundary)) (\<lambda>events2.
           if ?o - 1 < since then io_return events2
           else query_pages S relay monitor since n (?o - 1) events2)) (set events \<union> ?W since until)"
        if edge: "newest_answer (stored relay) (page_filter monitor ?o ?o) boundary" for boundary
      proof (cases "query_page_size \<le> length boundary")
        case True
        then show ?thesis by (simp add: reads_throw)
      next
        case short: False
        have "reads P (if ?o - 1 < since then io_return events2 else query_pages S relay monitor since n (?o - 1) events2)
            (set events \<union> ?W since until)" if "set events2 = set events1 \<union> set boundary" for events2
        proof -
          have ev2: "set events2 = set events \<union> ?W ?o until"
            using that events1 full(3) short_batch [OF edge] short by auto
          have split: "?W since until = ?W ?o until \<union> ?W since (?o - 1)"
            using full(1,2) by (auto simp: announced_between_def)
          have none: "?W since (?o - 1) = {}" if "?o - 1 < since"
            using that by (auto simp: announced_between_def)
          have "set events2 \<subseteq> U" using ev2 Suc.prems W by auto
          from Suc.IH [OF this, of "?o - 1"] have
            "reads P (query_pages S relay monitor since n (?o - 1) events2) (set events \<union> ?W since until)"
            unfolding ev2 split by (simp add: Un_assoc)
          then show ?thesis using none ev2 split by (auto intro: reads_return)
        qed
        moreover have "set events1 \<subseteq> U" "set boundary \<subseteq> U"
          using events1 Suc.prems inU answer_stored [OF edge] assms(3) by auto
        ultimately show ?thesis using short by (simp add: reads_bounded [OF assms(2)])
      qed
      then show ?thesis using False by (simp add: reads_page [OF assms(1)])
    qed
  qed
qed

lemma reads_each:
  assumes "honest_relays S stored" "inj_on ev_id U" "\<And>relay. relay \<in> fst ` set pairs \<Longrightarrow> stored relay \<subseteq> U" "set events \<subseteq> U"
  shows "reads P (query_each S since until pairs events)
    (set events \<union> (\<Union>(relay, monitor) \<in> set pairs. announced_between (stored relay) monitor since until))"
  using assms(3,4)
proof (induction pairs arbitrary: events)
  case Nil
  show ?case unfolding query_each.simps by (rule reads_return) simp
next
  case (Cons pair pairs)
  obtain relay monitor where pair: "pair = (relay, monitor)" by fastforce
  have U: "stored relay \<subseteq> U" using Cons.prems(1) by (simp add: pair)
  show ?case unfolding pair query_each.simps
  proof (rule leads_then [OF reads_pages [OF assms(1,2) U Cons.prems(2)]], rule leads_fact, assumption)
    fix es assume es: "set es = set events \<union> announced_between (stored relay) monitor since until"
    then have "set es \<subseteq> U" using Cons.prems(2) U by (auto simp: announced_between_def)
    from Cons.IH [OF _ this] Cons.prems(1) have "reads P (query_each S since until pairs es)
        (set es \<union> (\<Union>(relay, monitor) \<in> set pairs. announced_between (stored relay) monitor since until))" by simp
    then show "reads P (query_each S since until pairs es) (set events \<union>
        (\<Union>(relay, monitor) \<in> set ((relay, monitor) # pairs). announced_between (stored relay) monitor since until))"
      unfolding es by (simp add: Un_assoc)
  qed
qed

lemma reads_nip66_events:
  assumes "honest_relays S stored" "inj_on ev_id (\<Union>relay \<in> set (nc_relays c). stored relay)"
  shows "reads P (query_nip66_events S c since until)
    {ev. \<exists>relay \<in> set (nc_relays c). \<exists>monitor \<in> set (nc_monitors c).
       ev \<in> announced_between (stored relay) monitor since until}"
proof -
  let ?U = "\<Union>relay \<in> set (nc_relays c). stored relay" and ?pairs = "List.product (nc_relays c) (nc_monitors c)"
  have "reads P (query_each S since until ?pairs [])
      (set [] \<union> (\<Union>(relay, monitor) \<in> set ?pairs. announced_between (stored relay) monitor since until))"
    by (rule reads_each [OF assms]) (auto split: if_splits)
  moreover have "set [] \<union> (\<Union>(relay, monitor) \<in> set ?pairs. announced_between (stored relay) monitor since until) =
      {ev. \<exists>relay \<in> set (nc_relays c). \<exists>monitor \<in> set (nc_monitors c).
         ev \<in> announced_between (stored relay) monitor since until}" by auto
  ultimately show ?thesis by (simp only: query_nip66_events_def)
qed

section \<open>What an upsert leaves\<close>

text \<open>The candidate of a URL and the row a source left of one piece of evidence.\<close>

definition stands_for :: "directory \<Rightarrow> string \<Rightarrow> string \<Rightarrow> string \<Rightarrow> bool" where
  "stands_for d url type hash \<longleftrightarrow> (\<exists>c \<in> set (dr_candidates d). cand_relay_url c = url \<and>
     (\<exists>x \<in> set (dr_sources d). source_key x = (cand_id c, type, hash)))"

definition source_actor_key :: "source_row \<Rightarrow> (uuid \<times> string \<times> string) \<times> string option" where
  "source_actor_key x = (source_key x, so_actor x)"

lemma inserted_source:
  assumes "insert_source s d = Inr ((), d')"
  shows "dr_candidates d' = dr_candidates d \<and>
    source_actor_key ` set (dr_sources d) \<subseteq> source_actor_key ` set (dr_sources d') \<and>
    source_actor_key ` set (dr_sources d') \<subseteq> insert (source_actor_key s) (source_actor_key ` set (dr_sources d)) \<and>
    source_key s \<in> source_key ` set (dr_sources d')"
proof -
  have rows: "dr_sources d' = (if has_row (same_source s) (dr_sources d)
      then update_where (same_source s) (source_again s) (dr_sources d) else dr_sources d @ [s])"
    and cands: "dr_candidates d' = dr_candidates d"
    using assms by (auto simp: insert_source_def split: if_splits)
  have keep: "source_actor_key (source_again s x) = source_actor_key x" for x
    by (simp add: source_again_def source_actor_key_def source_key_def)
  have same: "map source_actor_key (update_where (same_source s) (source_again s) (dr_sources d)) =
      map source_actor_key (dr_sources d)"
    by (simp add: map_update_where keep)
  show ?thesis
  proof (cases "has_row (same_source s) (dr_sources d)")
    case True
    then obtain x where x: "x \<in> set (dr_sources d)" "source_key x = source_key s"
      by (auto simp: has_row_iff same_source_def source_key_def)
    have keys: "source_actor_key ` set (dr_sources d') = source_actor_key ` set (dr_sources d)"
      using arg_cong [OF same, of set] by (simp add: rows True)
    have "source_actor_key x \<in> source_actor_key ` set (dr_sources d')" using x(1) by (simp add: keys)
    then have "source_key x \<in> source_key ` set (dr_sources d')" by (auto simp: source_actor_key_def)
    with keys x(2) cands show ?thesis by auto
  next
    case False
    then show ?thesis by (auto simp: rows cands)
  qed
qed

lemma upserted_source:
  assumes "upsert_candidate W sha fresh relay src now d = Inr ((i, url, st), d')" "cs_locator src = None"
  shows "covers (\<lambda>c. (cand_id c, cand_relay_url c)) (dr_candidates d) (dr_candidates d')"
    and "\<exists>c \<in> set (dr_candidates d'). cand_id c = i \<and> cand_relay_url c = rn_url relay"
    and "source_actor_key ` set (dr_sources d) \<subseteq> source_actor_key ` set (dr_sources d')"
    and "source_actor_key ` set (dr_sources d') \<subseteq>
      insert ((i, cs_type src, create_evidence_hash sha (rn_url relay) src None), cs_actor src) (source_actor_key ` set (dr_sources d))"
    and "(i, cs_type src, create_evidence_hash sha (rn_url relay) src None) \<in> source_key ` set (dr_sources d')"
proof -
  define x where "x = source_of i src None (create_evidence_hash sha (rn_url relay) src None) now"
  obtain c d1 where ins: "insert_candidate fresh relay (cs_type src) now d = Inr (c, d1)" "cand_id c = i"
    and src: "insert_source x d1 = Inr ((), d')"
    using assms by (fastforce simp: upsert_candidate_def tx_inversion sanitize_source_locator_def
        candidate_record_def x_def split: sum.splits)
  have d1: "dr_sources d1 = dr_sources d"
    using ins(1) by (auto simp: insert_candidate_def update_candidates_def split: if_splits option.splits)
  have key: "source_actor_key x = ((i, cs_type src, create_evidence_hash sha (rn_url relay) src None), cs_actor src)"
    by (simp add: x_def source_of_def source_actor_key_def source_key_def)
  note row = inserted_source [OF src, unfolded d1 key]
  from row show "source_actor_key ` set (dr_sources d) \<subseteq> source_actor_key ` set (dr_sources d')"
    "source_actor_key ` set (dr_sources d') \<subseteq>
      insert ((i, cs_type src, create_evidence_hash sha (rn_url relay) src None), cs_actor src) (source_actor_key ` set (dr_sources d))"
    by blast+
  have "source_key x = (i, cs_type src, create_evidence_hash sha (rn_url relay) src None)"
    using key by (simp add: source_actor_key_def)
  with row show "(i, cs_type src, create_evidence_hash sha (rn_url relay) src None) \<in> source_key ` set (dr_sources d')" by simp
  show "covers (\<lambda>c. (cand_id c, cand_relay_url c)) (dr_candidates d) (dr_candidates d')"
    and "\<exists>c \<in> set (dr_candidates d'). cand_id c = i \<and> cand_relay_url c = rn_url relay"
    using upserted_candidate [OF ins(1)] ins(2) row by auto
qed

lemma stands_for_grows:
  assumes "stands_for d url type hash"
    and "upsert_candidate W sha fresh relay src now d = Inr ((i, u, st), d')" "cs_locator src = None"
  shows "stands_for d' url type hash"
proof -
  obtain c x where c: "c \<in> set (dr_candidates d)" "cand_relay_url c = url"
    and x: "x \<in> set (dr_sources d)" "source_key x = (cand_id c, type, hash)"
    using assms(1) by (auto simp: stands_for_def)
  obtain c' where c': "c' \<in> set (dr_candidates d')" "cand_id c' = cand_id c" "cand_relay_url c' = url"
    using coversD [OF upserted_source(1) [OF assms(2,3)] c(1)] c(2) by auto
  have "source_actor_key x \<in> source_actor_key ` set (dr_sources d')"
    using upserted_source(3) [OF assms(2,3)] x(1) by blast
  then obtain y where "y \<in> set (dr_sources d')" "source_key y = source_key x" by (auto simp: source_actor_key_def)
  with c'(2) x(2) have "\<exists>y \<in> set (dr_sources d'). source_key y = (cand_id c', type, hash)" by auto
  with c'(1,3) show ?thesis unfolding stands_for_def by blast
qed

lemma leads_ingest:
  assumes "\<And>v. p v \<Longrightarrow> i v"
    and "\<And>code v. p v \<Longrightarrow> normalize_relay_url (jd_web E) url = Inl (Discovery code) \<Longrightarrow> q (Inl code) v"
    and "\<And>relay fresh now d h l k u st d'. p (d, h, l) \<Longrightarrow> normalize_relay_url (jd_web E) url = Inr relay \<Longrightarrow>
      upsert_candidate (jd_web E) (hc_sha256 (jd_client E)) fresh relay src now d = Inr ((k, u, st), d') \<Longrightarrow>
      i (d', h, l) \<and> q (Inr k) (d', h, l)"
  shows "leads (holds p) (ingest_source_candidate E url src) (holds i) (\<lambda>r. holds (q r))"
proof (cases "normalize_relay_url (jd_web E) url")
  case (Inl e)
  then show ?thesis
    using assms(1,2) by (cases e) (auto simp: ingest_source_candidate_def leads_def io_return_def io_throw_def holds_def)
next
  case (Inr relay)
  have enqueue: "leads (holds p) (enqueue_candidate_probe E k) (holds p) (\<lambda>_. holds p)" for k p
    by (auto simp: enqueue_candidate_probe_def leads_def call_then_def ask_job_def io_put_def io_return_def io_throw_def
        holds_def view_def split: prod.splits option.splits)
  have inject: "leads (holds p) (inject_candidate E relay src) (holds i) (\<lambda>(k, u, st). holds (\<lambda>v. i v \<and> q (Inr k) v))"
    unfolding inject_candidate_def
  proof (rule leads_then [where R = "\<lambda>_. holds p"])
    show "leads (holds p) (ask_job (jd_uuid E)) (holds i) (\<lambda>_. holds p)"
      by (rule leads_weaken [OF leads_ask_job]) (use assms(1) in \<open>auto simp: holds_def\<close>)
    show "leads (holds p) (dir_query E (upsert_candidate (jd_web E) (hc_sha256 (jd_client E)) fresh relay src)) (holds i)
        (\<lambda>(k, u, st). holds (\<lambda>v. i v \<and> q (Inr k) v))" for fresh
      unfolding case_prod_beta
      by (rule leads_dir_query) (use assms(1) assms(3) [OF _ Inr] in auto)
  qed
  have rest: "leads (holds (\<lambda>v. i v \<and> q (Inr k) v)) (call_then (enqueue_candidate_probe E k) (\<lambda>_. io_return (Inr k)))
      (holds i) (\<lambda>r. holds (q r))" for k
  proof (rule leads_then)
    show "leads (holds (\<lambda>v. i v \<and> q (Inr k) v)) (enqueue_candidate_probe E k) (holds i) (\<lambda>_. holds (\<lambda>v. i v \<and> q (Inr k) v))"
      by (rule leads_weaken [OF enqueue]) (auto simp: holds_def)
    show "leads (holds (\<lambda>v. i v \<and> q (Inr k) v)) (io_return (Inr k)) (holds i) (\<lambda>r. holds (q r))" for u
      by (rule leads_holds_return) simp
  qed
  show ?thesis
    unfolding ingest_source_candidate_def Inr sum.case
    by (rule leads_then [OF inject]) (use rest in \<open>auto simp: case_prod_beta\<close>)
qed

section \<open>Processing\<close>

definition recorded :: "'e source_env \<Rightarrow> nip66_config \<Rightarrow> int \<Rightarrow> directory \<Rightarrow> nostr_event \<Rightarrow> bool" where
  "recorded S c now d ev \<longleftrightarrow> (\<forall>url src relay.
     parse_nip66_candidate S (nc_monitors c) now ev = Some (url, src) \<longrightarrow>
     normalize_relay_url (jd_web (sx_job S)) url = Inr relay \<longrightarrow>
     stands_for d (rn_url relay) ''nip66''
       (create_evidence_hash (hc_sha256 (jd_client (sx_job S))) (rn_url relay) src None))"

lemma parsed_source:
  assumes "parse_nip66_candidate S allowed now ev = Some (url, src)"
  shows "src = announced_source ''nip66'' ev" "is_trusted_envelope S nip66_kind allowed now ev"
    "tag_value ''d'' ev = Some url" "announces_buzz S (ev_content ev)"
  using assms by (auto simp: parse_nip66_candidate_def split: if_splits option.splits)

lemma announced_fields: "cs_locator (announced_source type ev) = None" "cs_type (announced_source type ev) = type"
  "cs_actor (announced_source type ev) = Some (ev_pubkey ev)"
  by (simp_all add: announced_source_def)

lemma recorded_grows:
  assumes "recorded S c now d ev" "upsert_candidate W sha fresh relay src t d = Inr ((i, u, st), d')" "cs_locator src = None"
  shows "recorded S c now d' ev"
  using assms(1) stands_for_grows [OF _ assms(2,3)] unfolding recorded_def by blast

lemma recorded_now:
  assumes "parse_nip66_candidate S (nc_monitors c) now ev = Some (url, src)" "normalize_relay_url (jd_web (sx_job S)) url = Inr relay"
    and "upsert_candidate (jd_web (sx_job S)) (hc_sha256 (jd_client (sx_job S))) fresh relay src t d = Inr ((i, u, st), d')"
  shows "recorded S c now d' ev"
proof -
  have src: "cs_locator src = None" "cs_type src = ''nip66''"
    using parsed_source(1) [OF assms(1)] by (simp_all add: announced_fields)
  obtain c' where "c' \<in> set (dr_candidates d')" "cand_id c' = i" "cand_relay_url c' = rn_url relay"
    using upserted_source(2) [OF assms(3) src(1)] by blast
  moreover obtain x where "x \<in> set (dr_sources d')"
    "source_key x = (i, ''nip66'', create_evidence_hash (hc_sha256 (jd_client (sx_job S))) (rn_url relay) src None)"
    using upserted_source(5) [OF assms(3) src(1)] src(2) by auto
  ultimately have "stands_for d' (rn_url relay) ''nip66''
      (create_evidence_hash (hc_sha256 (jd_client (sx_job S))) (rn_url relay) src None)"
    unfolding stands_for_def by blast
  then show ?thesis using assms(1,2) by (simp add: recorded_def)
qed

lemma processed_events:
  "leads (kept (\<lambda>d ss. K ss \<and> (\<forall>ev \<in> A. recorded S c now d ev)))
     (process_nip66_events S c since now events latest t) (kept (\<lambda>d ss. K ss))
     (\<lambda>_. kept (\<lambda>d ss. K ss \<and> (\<forall>ev \<in> A \<union> {ev \<in> set events. since \<le> ev_created_at ev}. recorded S c now d ev)))"
proof (induction events arbitrary: A latest t)
  case Nil
  show ?case unfolding process_nip66_events.simps by (rule leads_return) (auto simp: kept_def)
next
  case (Cons ev events)
  let ?post = "\<lambda>_. kept (\<lambda>d ss. K ss \<and> (\<forall>e \<in> A \<union> {e \<in> set (ev # events). since \<le> ev_created_at e}. recorded S c now d e))"
  let ?pre = "kept (\<lambda>d ss. K ss \<and> (\<forall>e \<in> A. recorded S c now d e))"
  show ?case
  proof (cases "ev_created_at ev < since")
    case True
    from Cons.IH [of A] have "leads ?pre (process_nip66_events S c since now events latest (t\<lparr>st_ignored := Suc (st_ignored t)\<rparr>))
        (kept (\<lambda>d ss. K ss)) ?post"
      by (rule leads_weaken) (use True in \<open>auto simp: kept_def\<close>)
    then show ?thesis using True by simp
  next
    case False
    define latest' where "latest' = (if is_trusted_envelope S nip66_kind (nc_monitors c) now ev
      then later_timestamp latest (ev_created_at ev) else latest)"
    have go: "leads (kept (\<lambda>d ss. K ss \<and> (\<forall>e \<in> insert ev A. recorded S c now d e)))
        (process_nip66_events S c since now events latest' t') (kept (\<lambda>d ss. K ss)) ?post" for t'
      by (rule leads_weaken [OF Cons.IH [of "insert ev A"]]) (auto simp: kept_def)
    show ?thesis
    proof (cases "parse_nip66_candidate S (nc_monitors c) now ev")
      case None
      then have "recorded S c now d ev" for d by (simp add: recorded_def)
      then have "leads ?pre (process_nip66_events S c since now events latest' (t\<lparr>st_ignored := Suc (st_ignored t)\<rparr>))
          (kept (\<lambda>d ss. K ss)) ?post"
        by (intro leads_weaken [OF go]) (auto simp: kept_def)
      then show ?thesis using False None by (simp add: latest'_def Let_def)
    next
      case (Some parsed)
      obtain url src where parsed: "parsed = (url, src)" by fastforce
      note parse = Some [unfolded parsed]
      have locator: "cs_locator src = None" using parsed_source(1) [OF parse] by (simp add: announced_fields)
      have ingest: "leads ?pre (on_job (ingest_source_candidate (sx_job S) url src)) (kept (\<lambda>d ss. K ss))
          (\<lambda>_. kept (\<lambda>d ss. K ss \<and> (\<forall>e \<in> insert ev A. recorded S c now d e)))"
      proof (rule leads_on_job, rule leads_ingest)
        fix code ss and v :: job_view
        assume "K ss \<and> (\<forall>e \<in> A. recorded S c now (fst v) e)"
          and "normalize_relay_url (jd_web (sx_job S)) url = Inl (Discovery code)"
        then show "K ss \<and> (\<forall>e \<in> insert ev A. recorded S c now (fst v) e)" using parse by (simp add: recorded_def)
      next
        fix ss relay fresh time d h l k u st d'
        assume pre: "K ss \<and> (\<forall>e \<in> A. recorded S c now (fst (d, h, l)) e)"
          and ok: "normalize_relay_url (jd_web (sx_job S)) url = Inr relay"
            "upsert_candidate (jd_web (sx_job S)) (hc_sha256 (jd_client (sx_job S))) fresh relay src time d = Inr ((k, u, st), d')"
        show "K ss \<and> K ss \<and> (\<forall>e \<in> insert ev A. recorded S c now (fst (d', h, l)) e)"
        proof (intro conjI ballI)
          fix e assume "e \<in> insert ev A"
          then show "recorded S c now (fst (d', h, l)) e"
            using pre recorded_grows [OF _ ok(2) locator, of S c now e] recorded_now [OF parse ok] by auto
        qed (use pre in simp_all)
      qed simp
      have "leads ?pre (call_then (on_job (ingest_source_candidate (sx_job S) url src)) (\<lambda>r.
          process_nip66_events S c since now events latest' (count_ingestion r t))) (kept (\<lambda>d ss. K ss)) ?post"
        by (rule leads_then [OF ingest go])
      then show ?thesis using False Some by (simp add: parsed latest'_def Let_def)
    qed
  qed
qed

section \<open>The cursor\<close>

definition cursor_in :: "string \<Rightarrow> source_state list \<Rightarrow> json" where
  "cursor_in key ss = (case state_of_source key ss of None \<Rightarrow> JObj [] | Some s \<Rightarrow> ss_cursor s)"

definition since_of :: "json \<Rightarrow> int \<Rightarrow> int" where
  "since_of cursor now = sanitize_timestamp_cursor cursor (now - initial_lookback_seconds) now"

lemma read_cursor:
  assumes "get_source_cursor key (since_cursor (now - initial_lookback_seconds)) time ss = (stored, ss')"
  shows "ss' = ss \<and> sanitize_timestamp_cursor stored (now - initial_lookback_seconds) now = since_of (cursor_in key ss) now"
  using assms
  by (auto simp: get_source_cursor_def cursor_in_def since_of_def sanitize_timestamp_cursor_def since_cursor_def
      json_field_def split: option.splits if_splits)

lemma find_update_other: "(\<And>s. ss_key (f s) = ss_key s) \<Longrightarrow>
   state_of_source key (update_where (\<lambda>s. ss_key s = k) f ss) =
     map_option (\<lambda>s. if ss_key s = k then f s else s) (state_of_source key ss)"
  by (induction ss) (auto simp: state_of_source_def update_where_def)

lemma state_of_append: "state_of_source key (ss @ [s]) = (case state_of_source key ss of
    Some x \<Rightarrow> Some x | None \<Rightarrow> if ss_key s = key then Some s else None)"
  by (induction ss) (auto simp: state_of_source_def)

lemma failure_keeps_cursor:
  assumes "record_source_failure key code now ss = (u, ss')"
  shows "cursor_in k ss' = cursor_in k ss"
proof (cases "state_of_source key ss = None")
  case True
  with assms show ?thesis
    by (auto simp: record_source_failure_def upsert_state_def cursor_in_def state_of_append split: option.splits if_splits)
next
  case False
  with assms show ?thesis
    by (auto simp: record_source_failure_def upsert_state_def cursor_in_def find_update_other split: option.splits)
qed

text \<open>From the directory's side: every event of \<open>A\<close> is recorded, or the cursor is where it was.\<close>

lemma leads_reconcile:
  fixes since now :: int and stored :: "string \<Rightarrow> nostr_event set" and c :: nip66_config
  assumes "honest_relays S stored" "inj_on ev_id (\<Union>relay \<in> set (nc_relays c). stored relay)"
  defines "A \<equiv> {ev. \<exists>relay \<in> set (nc_relays c). \<exists>monitor \<in> set (nc_monitors c).
      ev \<in> announced_between (stored relay) monitor since now}"
  shows "leads (kept (\<lambda>d ss. cursor_in ''nip66'' ss = c0)) (reconcile_nip66 S c since now)
    (kept (\<lambda>d ss. cursor_in ''nip66'' ss = c0 \<or> (\<forall>ev \<in> A. recorded S c now d ev)))
    (\<lambda>_. kept (\<lambda>d ss. cursor_in ''nip66'' ss = c0 \<or> (\<forall>ev \<in> A. recorded S c now d ev)))"
  (is "leads ?P _ ?I (\<lambda>_. ?I)")
proof -
  let ?K = "\<lambda>ss. cursor_in ''nip66'' ss = c0"
  have weaken: "leads P m ?I Q" if "leads P m (kept (\<lambda>d ss. ?K ss)) Q"
    for m :: "('a, 'b) source_run" and P Q using that by (rule leads_weaken) (auto simp: kept_def)
  have success: "leads (kept (\<lambda>d ss. ?K ss \<and> (\<forall>ev \<in> A. recorded S c now d ev)))
      (call_then (state_query (sx_job S) (record_source_success ''nip66'' cursor t)) (\<lambda>_. io_return t)) ?I (\<lambda>_. ?I)" for cursor t
    by (rule leads_then [where R = "\<lambda>_. kept (\<lambda>d ss. \<forall>ev \<in> A. recorded S c now d ev)"])
      (auto intro!: leads_state_query leads_return simp: kept_def)
  have process: "leads (kept (\<lambda>d ss. ?K ss)) (call_then (process_nip66_events S c since now events None t) (\<lambda>(latest, t).
      call_then (state_query (sx_job S) (record_source_success ''nip66'' (since_cursor (case latest of None \<Rightarrow> since | Some l \<Rightarrow> l)) t))
        (\<lambda>_. io_return t))) ?I (\<lambda>_. ?I)" if events: "set events = A" for events t
  proof (rule leads_then)
    show "leads (kept (\<lambda>d ss. ?K ss)) (process_nip66_events S c since now events None t) ?I
        (\<lambda>_. kept (\<lambda>d ss. ?K ss \<and> (\<forall>ev \<in> A. recorded S c now d ev)))"
      by (rule leads_weaken [OF processed_events [where A = "{}" and K = ?K]])
        (use events in \<open>auto simp: kept_def A_def announced_between_def\<close>)
  qed (use success in \<open>auto simp: case_prod_beta\<close>)
  have query: "leads ?P (query_nip66_events S c since now) ?I (\<lambda>es w. kept (\<lambda>d ss. ?K ss) w \<and> set es = A)"
    unfolding A_def by (rule leads_weaken [OF reads_nip66_events [OF assms(1,2)]]) (auto simp: kept_def)
  show ?thesis
    unfolding reconcile_nip66_def by (rule leads_then [OF query], rule leads_fact, assumption, rule process)
qed

text \<open>The events the configured monitors published at the configured relays since the cursor.\<close>

definition awaited :: "(string \<Rightarrow> nostr_event set) \<Rightarrow> nip66_config \<Rightarrow> json \<Rightarrow> int \<Rightarrow> nostr_event set" where
  "awaited stored c cursor now = {ev. \<exists>relay \<in> set (nc_relays c). \<exists>monitor \<in> set (nc_monitors c).
     ev \<in> announced_between (stored relay) monitor (since_of cursor now) now}"

lemma leads_run:
  fixes w :: "'a source_world" and c :: nip66_config
  assumes honest: "honest_relays S stored" "inj_on ev_id (\<Union>relay \<in> set (nc_relays c). stored relay)"
  defines "c0 \<equiv> cursor_in ''nip66'' (sw_states w)" and "now \<equiv> epoch_seconds (jb_clock (sw_job w))"
  shows "leads (\<lambda>x. x = w) (run_nip66_source S c)
    (kept (\<lambda>d ss. cursor_in ''nip66'' ss = c0 \<or> (\<forall>ev \<in> awaited stored c c0 now. recorded S c now d ev)))
    (\<lambda>_. kept (\<lambda>d ss. cursor_in ''nip66'' ss = c0 \<or> (\<forall>ev \<in> awaited stored c c0 now. recorded S c now d ev)))"
    (is "leads _ _ ?I _")
proof -
  have failed: "leads ?I (fail_source S ''nip66'' e :: ('a, source_tally) source_run) ?I (\<lambda>_. ?I)" for e
    unfolding fail_source_def Let_def
  proof (rule leads_then [where R = "\<lambda>_. ?I"])
    show "leads ?I (state_query (sx_job S) (record_source_failure ''nip66'' (case e of Api code x \<Rightarrow> code | _ \<Rightarrow> ''remote_failed'')))
        ?I (\<lambda>_. ?I)"
      by (rule leads_state_query) (simp_all add: failure_keeps_cursor)
  qed (rule leads_throw, simp)
  have body: "leads (kept (\<lambda>d ss. cursor_in ''nip66'' ss = c0))
      (io_catch (reconcile_nip66 S c (since_of c0 now) now) (fail_source S ''nip66'')) ?I (\<lambda>_. ?I)"
    unfolding awaited_def by (rule leads_catch [OF leads_reconcile [OF honest, where since = "since_of c0 now" and now = now] failed [unfolded awaited_def]])
  show ?thesis
    unfolding run_nip66_source_def
  proof (rule leads_then [where R = "\<lambda>t x. kept (\<lambda>d ss. ss = sw_states w) x \<and> t = now"])
    show "leads (\<lambda>x. x = w) (on_job job_seconds) ?I (\<lambda>t x. kept (\<lambda>d ss. ss = sw_states w) x \<and> t = now)"
      by (simp add: leads_def on_job_def job_seconds_def io_get_def kept_def now_def c0_def)
    fix t
    show "leads (\<lambda>x. kept (\<lambda>d ss. ss = sw_states w) x \<and> t = now) (if length (nc_monitors c) < 2
        then io_throw (adapter_error ''invalid_configuration'')
        else call_then (state_query (sx_job S) (get_source_cursor ''nip66'' (since_cursor (t - initial_lookback_seconds)))) (\<lambda>stored.
          io_catch (reconcile_nip66 S c (sanitize_timestamp_cursor stored (t - initial_lookback_seconds) t) t) (fail_source S ''nip66'')))
        ?I (\<lambda>_. ?I)"
    proof (rule leads_fact, assumption)
      assume t: "t = now"
      have read: "leads (kept (\<lambda>d ss. ss = sw_states w))
          (state_query (sx_job S) (get_source_cursor ''nip66'' (since_cursor (t - initial_lookback_seconds)))) ?I
          (\<lambda>cur. kept (\<lambda>d ss. cursor_in ''nip66'' ss = c0 \<and>
             sanitize_timestamp_cursor cur (t - initial_lookback_seconds) t = since_of c0 t))"
        by (rule leads_state_query) (auto simp: c0_def dest: read_cursor)
      have go: "leads (kept (\<lambda>d ss. cursor_in ''nip66'' ss = c0 \<and>
             sanitize_timestamp_cursor cur (t - initial_lookback_seconds) t = since_of c0 t))
          (io_catch (reconcile_nip66 S c (sanitize_timestamp_cursor cur (t - initial_lookback_seconds) t) t) (fail_source S ''nip66''))
          ?I (\<lambda>_. ?I)" for cur
      proof (cases "sanitize_timestamp_cursor cur (t - initial_lookback_seconds) t = since_of c0 t")
        case True
        from body show ?thesis unfolding t True [unfolded t] by (rule leads_weaken) (simp add: kept_def)
      qed (simp add: leads_def kept_def)
      show "leads (kept (\<lambda>d ss. ss = sw_states w)) (if length (nc_monitors c) < 2
          then io_throw (adapter_error ''invalid_configuration'')
          else call_then (state_query (sx_job S) (get_source_cursor ''nip66'' (since_cursor (t - initial_lookback_seconds)))) (\<lambda>stored.
            io_catch (reconcile_nip66 S c (sanitize_timestamp_cursor stored (t - initial_lookback_seconds) t) t) (fail_source S ''nip66'')))
          ?I (\<lambda>_. ?I)"
        by (rule leads_if [OF leads_throw leads_then [OF read go]]) (auto simp: kept_def c0_def)
    qed
  qed
qed


end
