(* ===== verification/Source_Witnesses.thy ===== *)
theory Source_Witnesses
  imports Directory_Witnesses Source_Properties
begin

text \<open>
  A run of the NIP-66 adapter over a relay that holds one announcement of the relay of
  Directory_Witnesses.
\<close>

definition nest_document :: json where
  "nest_document = JObj [(''supported_nips'', JArr [JInt 29, JInt 42]), (''software'', JStr buzz_software_url)]"

definition nest_announcement :: nostr_event where
  "nest_announcement = \<lparr>ev_id = ''e7'', ev_pubkey = ''m1'', ev_created_at = 0, ev_kind = 30166,
     ev_tags = [[''n'', ''clearnet''], [''d'', ''wss://nest.buzz'']], ev_content = ''{nip11}''\<rparr>"

definition watching :: nip66_config where
  "watching = \<lparr>nc_monitors = [''m1'', ''m2''], nc_relays = [''wss://index.buzz'']\<rparr>"

definition announcing :: "unit source_env" where
  "announcing = \<lparr>sx_job = (nest_env True)\<lparr>jd_client := (nest_client True)\<lparr>hc_parse := \<lambda>_. Some nest_document\<rparr>, jd_web := sample_web\<rparr>,
     sx_query = (\<lambda>relays f e. (Some (if ''m1'' \<in> set (nf_authors f) \<and> 30166 \<in> set (nf_kinds f) \<and>
         (case nf_since f of None \<Rightarrow> True | Some s \<Rightarrow> s \<le> 0) \<and> (case nf_until f of None \<Rightarrow> True | Some u \<Rightarrow> 0 \<le> u)
       then [nest_announcement] else []), e)),
     sx_verify = (\<lambda>_. True)\<rparr>"

definition source_start :: "unit source_world" where
  "source_start = \<lparr>sw_job = job_start empty_directory, sw_states = []\<rparr>"

lemma announcing_honest: "honest_relays announcing (\<lambda>_. {nest_announcement})"
  by (auto simp: honest_relays_def announcing_def newest_answer_def matching_def nest_announcement_def split: option.splits if_splits)

text \<open>How the database, the queue and the relay answer here.\<close>

definition watch_env :: "unit job_env" where
  "watch_env = (nest_env True)\<lparr>jd_client := (nest_client True)\<lparr>hc_parse := \<lambda>_. Some nest_document\<rparr>, jd_web := sample_web\<rparr>"

lemma watch_env: "sx_job announcing = watch_env"
  by (simp add: announcing_def watch_env_def)

lemma watch_query: "dir_query watch_env f w =
  (case f (jb_clock w + 1) (jb_dir w) of
     Inl e \<Rightarrow> (Inl e, w\<lparr>jb_clock := jb_clock w + 1\<rparr>)
   | Inr (a, d') \<Rightarrow> (Inr a, w\<lparr>jb_clock := jb_clock w + 1, jb_dir := d'\<rparr>))"
  using nest_query [of True f w] by (simp add: dir_query_def pass_time_def watch_env_def nest_env_def)

lemma watch_state: "state_query watch_env f w =
  (case f (jb_clock (sw_job w) + 1) (sw_states w) of
     (a, ss) \<Rightarrow> (Inr a, w\<lparr>sw_job := (sw_job w)\<lparr>jb_clock := jb_clock (sw_job w) + 1\<rparr>, sw_states := ss\<rparr>))"
  by (simp add: state_query_def on_job_def pass_time_def ask_job_def call_then_def io_put_def io_query_def
      watch_env_def nest_env_def Let_def split: prod.split)

lemma watch_page: "query_nip66_page announcing relay monitor since until w =
  (Inr (if monitor = ''m1'' \<and> since \<le> 0 \<and> 0 \<le> until then [nest_announcement] else []), w)"
  by (simp add: query_nip66_page_def max_query_attempts_def numeral_3_eq_3 client_query_def on_job_def ask_job_def
      call_then_def io_catch_def announcing_def page_filter_def nip66_kind_def io_return_def)

lemma watch_events: "since \<le> 0 \<Longrightarrow> 0 \<le> until \<Longrightarrow> query_nip66_events announcing watching since until w = (Inr [nest_announcement], w)"
  by (simp add: query_nip66_events_def watching_def max_pages_per_relay_def numeral_eq_Suc watch_page call_then_def
      io_res_def io_return_def max_events_per_run_def put_event_def query_page_size_def)

definition nest_source :: candidate_source where
  "nest_source = \<lparr>cs_type = ''nip66'', cs_locator = None, cs_actor = Some ''m1'', cs_evidence = Some ''e7'',
     cs_observed = Some 0, cs_listing = None\<rparr>"

definition announced :: directory where
  "announced = after_query (upsert_candidate sample_web plain_hash ''k2'' nest_relay nest_source 12) empty_directory"

lemma announced_query:
  "upsert_candidate sample_web plain_hash ''k2'' nest_relay nest_source 12 empty_directory =
     Inr ((''k2'', ''wss://nest.buzz'', Discovered), announced)"
  "map cand_relay_url (dr_candidates announced) = [''wss://nest.buzz'']"
  by code_simp+

lemma nest_name: "normalize_relay_url sample_web ''wss://nest.buzz'' = Inr nest_relay"
  by code_simp

lemma announced_parse:
  "parse_nip66_candidate announcing (nc_monitors watching) 0 nest_announcement = Some (''wss://nest.buzz'', nest_source)"
proof -
  have "utf8_length ''{nip11}'' = 7" by code_simp
  moreover have "announces_buzz announcing content" for content
    by (simp add: announces_buzz_def announcing_def nest_document_def) code_simp
  moreover have "is_trusted_envelope announcing nip66_kind (nc_monitors watching) 0 nest_announcement"
    by (simp add: is_trusted_envelope_def announcing_def watching_def nest_announcement_def nip66_kind_def)
  ultimately show ?thesis
    by (simp add: parse_nip66_candidate_def max_nip11_content_bytes_def max_event_tags_def tag_value_def
        nest_announcement_def announced_source_def nest_source_def seconds_def)
qed

lemma watch_parts: "jd_web watch_env = sample_web" "jd_uuid watch_env e = (''k2'', e)" "jd_send watch_env i e = (Some True, e)"
  "hc_sha256 (jd_client watch_env) = plain_hash"
  by (simp_all add: watch_env_def nest_env_def nest_client_def)

lemma announced_ingest: "jb_clock w = 11 \<Longrightarrow> jb_dir w = empty_directory \<Longrightarrow>
  ingest_source_candidate watch_env ''wss://nest.buzz'' nest_source w =
    (Inr (Inr ''k2''), w\<lparr>jb_clock := 12, jb_dir := announced, jb_queue := ''k2'' # jb_queue w\<rparr>)"
  by (simp add: ingest_source_candidate_def nest_name inject_candidate_def enqueue_candidate_probe_def call_then_def
      ask_job_def watch_query watch_parts announced_query io_put_def io_return_def)

definition watched :: "(err + source_tally) \<times> unit source_world" where
  "watched = run_nip66_source announcing watching source_start"

lemma watched_run: "cursor_in ''nip66'' (sw_states (snd watched)) = since_cursor 0" "jb_dir (sw_job (snd watched)) = announced"
proof -
  have trusted: "is_trusted_envelope announcing nip66_kind (nc_monitors watching) 0 nest_announcement"
    by (simp add: is_trusted_envelope_def announcing_def watching_def nest_announcement_def nip66_kind_def)
  have "ev_created_at nest_announcement = 0" by (simp add: nest_announcement_def)
  note run = run_nip66_source_def call_then_def on_job_def job_seconds_def io_get_def source_start_def watch_env
    watch_state get_source_cursor_def state_of_source_def sanitize_timestamp_cursor_def since_cursor_def json_field_def
    io_catch_def reconcile_nip66_def watch_events announced_parse trusted this announced_ingest io_return_def
    later_timestamp_def record_source_success_def upsert_state_def cursor_in_def epoch_seconds_def
  have "length (nc_monitors watching) = 2" by (simp add: watching_def)
  then show "cursor_in ''nip66'' (sw_states (snd watched)) = since_cursor 0" "jb_dir (sw_job (snd watched)) = announced"
    unfolding watched_def by (simp_all add: run initial_lookback_seconds_def job_start_def)
qed


end
