(* ===== verification/Invite_Links.thy ===== *)
theory Invite_Links
  imports Directory_Jobs
begin

text \<open>
  presence/extract-invites.ts and llm-extract-invites.ts: invite links in free text.  The
  two regular expressions are scanners that give the text matched at a position and its
  length; \<open>match_all\<close> is \<open>matchAll\<close>.  \<open>URLSearchParams\<close>, \<open>decodeURIComponent\<close> and
  \<open>JSON.parse\<close> are parameters.
\<close>

section \<open>Scanning\<close>

text \<open>Matches from left to right, each after the end of the one before.\<close>

fun match_all :: "(string \<Rightarrow> ('m \<times> nat) option) \<Rightarrow> nat \<Rightarrow> string \<Rightarrow> 'm list" where
  "match_all scan skip [] = []"
| "match_all scan skip (c # cs) =
     (if 0 < skip then match_all scan (skip - 1) cs
      else case scan (c # cs) of
        None \<Rightarrow> match_all scan 0 cs
      | Some (m, n) \<Rightarrow> m # match_all scan (n - 1) cs)"

definition query_char :: "char \<Rightarrow> bool" where
  "query_char c \<longleftrightarrow> \<not> js_space c \<and> c \<notin> set [CHR ''<'', CHR ''>'', CHR 0x22, CHR 0x27, CHR '')'']"

definition buzz_join_at :: "string \<Rightarrow> (string \<times> nat) option" where
  "buzz_join_at s =
     (if to_lower (take 12 s) = ''buzz://join?''
      then let q = takeWhile query_char (drop 12 s) in if q = [] then None else Some (q, 12 + length q)
      else None)"

definition is_letter :: "char \<Rightarrow> bool" where
  "is_letter c \<longleftrightarrow> is_lower c \<or> is_upper c"

definition link_host_char :: "char \<Rightarrow> bool" where
  "link_host_char c \<longleftrightarrow> is_letter c \<or> is_digit c \<or> c = CHR ''-''"

definition link_code_char :: "char \<Rightarrow> bool" where
  "link_code_char c \<longleftrightarrow> link_host_char c \<or> c \<in> set [CHR ''.'', CHR ''_'', CHR ''~'']"

text \<open>The part of a link before its host, when there is one.\<close>

definition link_scheme :: "string \<Rightarrow> string" where
  "link_scheme s =
     (let a = takeWhile is_letter s
      in if a \<noteq> [] \<and> take 3 (drop (length a) s) = ''://'' then a @ ''://'' else [])"

definition dotted_host :: "string \<Rightarrow> bool" where
  "dotted_host h \<longleftrightarrow> CHR ''.'' \<in> set h \<and> [] \<notin> set (split_dots h)"

definition link_port :: "string \<Rightarrow> string" where
  "link_port s = (case s of
     [] \<Rightarrow> []
   | c # cs \<Rightarrow> if c = CHR '':'' \<and> takeWhile is_digit cs \<noteq> [] then c # takeWhile is_digit cs else [])"

definition invite_path_at :: "string \<Rightarrow> ((string \<times> string) \<times> nat) option" where
  "invite_path_at s =
     (let scheme = link_scheme s; s1 = drop (length scheme) s;
          name = takeWhile (\<lambda>c. link_host_char c \<or> c = CHR ''.'') s1; s2 = drop (length name) s1;
          port = link_port s2; s3 = drop (length port) s2;
          code = takeWhile link_code_char (drop 8 s3)
      in if dotted_host name \<and> to_lower (take 8 s3) = ''/invite/'' \<and> code \<noteq> []
         then Some ((name @ port, code), length scheme + length name + length port + 8 + length code)
         else None)"

section \<open>Invites\<close>

record link_env =
  le_params :: "string \<Rightarrow> (string \<times> string) list"
  le_decode :: "string \<Rightarrow> string option"

record found_invite =
  fi_host :: string
  fi_code :: string

definition invite_url :: "found_invite \<Rightarrow> string" where
  "invite_url i = ''wss://'' @ fi_host i"

definition to_relay_host :: "link_env \<Rightarrow> string \<Rightarrow> string option" where
  "to_relay_host L raw =
     (case api_host (case le_decode L raw of None \<Rightarrow> raw | Some s \<Rightarrow> s) of
        Inl _ \<Rightarrow> None | Inr h \<Rightarrow> Some (to_lower h))"

definition build_invite :: "link_env \<Rightarrow> string \<Rightarrow> string \<Rightarrow> found_invite option" where
  "build_invite L raw code =
     (if code = [] then None
      else case to_relay_host L raw of
        None \<Rightarrow> None
      | Some h \<Rightarrow> if h = [] then None else Some \<lparr>fi_host = h, fi_code = code\<rparr>)"

definition link_key :: "found_invite \<Rightarrow> string" where
  "link_key i = fi_host i @ '' '' @ fi_code i"

text \<open>The first invite of each key.\<close>

fun first_of_key :: "('x \<Rightarrow> string) \<Rightarrow> string set \<Rightarrow> 'x list \<Rightarrow> 'x list" where
  "first_of_key key seen [] = []"
| "first_of_key key seen (x # xs) =
     (if key x \<in> seen then first_of_key key seen xs
      else x # first_of_key key (insert (key x) seen) xs)"

definition param :: "string \<Rightarrow> (string \<times> string) list \<Rightarrow> string" where
  "param name ps = (case find (\<lambda>p. fst p = name) ps of None \<Rightarrow> [] | Some p \<Rightarrow> snd p)"

definition join_link_invite :: "link_env \<Rightarrow> string \<Rightarrow> found_invite option" where
  "join_link_invite L query =
     (let relay = param ''relay'' (le_params L query); code = param ''code'' (le_params L query)
      in if relay = [] \<or> code = [] then None else build_invite L relay code)"

definition extract_invites :: "link_env \<Rightarrow> string \<Rightarrow> found_invite list" where
  "extract_invites L text =
     first_of_key link_key {} (List.map_filter id
       (map (join_link_invite L) (match_all buzz_join_at 0 text) @
        map (\<lambda>(host, code). build_invite L host code) (match_all invite_path_at 0 text)))"

section \<open>Recall by a model\<close>

definition word_char :: "char \<Rightarrow> bool" where
  "word_char c \<longleftrightarrow> is_letter c \<or> is_digit c \<or> c = CHR ''_''"

text \<open>\<open>\bw\b\<close> for a word \<open>w\<close>; \<open>before\<close> is the character to the left of the text.\<close>

fun has_word :: "string \<Rightarrow> char option \<Rightarrow> string \<Rightarrow> bool" where
  "has_word w before [] \<longleftrightarrow> False"
| "has_word w before (c # cs) \<longleftrightarrow>
     (take (length w) (c # cs) = w \<and> (case before of None \<Rightarrow> True | Some b \<Rightarrow> \<not> word_char b) \<and>
      (case drop (length w) (c # cs) of [] \<Rightarrow> True | a # _ \<Rightarrow> \<not> word_char a)) \<or> has_word w (Some c) cs"

definition invite_ish :: "string \<Rightarrow> bool" where
  "invite_ish text =
     (let s = to_lower text
      in list_ex (\<lambda>w. contains w s) [''invite'', ''wss://'', ''buzz://'', ''/invite/'', ''communities.''] \<or>
         list_ex (\<lambda>w. has_word w None s) [''join'', ''code'', ''relay''])"

definition max_recall_messages :: nat where
  "max_recall_messages = 40"

definition recall_messages :: "link_env \<Rightarrow> string list \<Rightarrow> string list" where
  "recall_messages L texts = take max_recall_messages
     (filter (\<lambda>t. t \<noteq> [] \<and> invite_ish t \<and> extract_invites L t = []) texts)"

text \<open>The first balanced block, from the position after its first brace; \<open>depth\<close> braces are open.\<close>

fun balanced_block :: "nat \<Rightarrow> string \<Rightarrow> string option" where
  "balanced_block depth [] = None"
| "balanced_block depth (c # cs) =
     (if c = CHR ''}'' \<and> depth = 1 then Some [c]
      else map_option ((#) c) (balanced_block
        (if c = CHR ''{'' then depth + 1 else if c = CHR ''}'' then depth - 1 else depth) cs))"

definition extract_json_object :: "string \<Rightarrow> string option" where
  "extract_json_object text = balanced_block 0 (dropWhile (\<lambda>c. c \<noteq> CHR ''{'') text)"

definition parse_invite_strings :: "(string \<Rightarrow> json option) \<Rightarrow> string \<Rightarrow> string list" where
  "parse_invite_strings parse content =
     (let s = trim content in
      case parse (case extract_json_object s of None \<Rightarrow> s | Some block \<Rightarrow> block) of
        Some (JObj fs) \<Rightarrow> (case json_field fs ''invites'' of
            Some (JArr xs) \<Rightarrow> List.map_filter (\<lambda>x. case x of JStr t \<Rightarrow> Some t | _ \<Rightarrow> None) xs
          | _ \<Rightarrow> [])
      | _ \<Rightarrow> [])"

definition recalled_invites :: "link_env \<Rightarrow> (string \<Rightarrow> json option) \<Rightarrow> string \<Rightarrow> found_invite list" where
  "recalled_invites L parse content =
     first_of_key link_key {} (concat (map (extract_invites L) (parse_invite_strings parse content)))"

end
