(* ===== verification/Invite_Harvest.thy ===== *)
theory Invite_Harvest
  imports Invite_Links Nostr_Sources
begin

text \<open>
  jobs/harvest-invites.ts and harvest-x-invites.ts: invites read in the channels of joined
  communities and in public posts.  A code for a community that is joined becomes a spare
  code, any other a directory candidate.  The reader of a community, the language model
  and the search client are parameters.
\<close>

section \<open>Reading the communities\<close>

record chat_channel =
  ch_name :: "string option"
  ch_about :: "string option"

record chat_content =
  ct_channels :: "chat_channel list"
  ct_messages :: "string list"

text \<open>
  \<open>he_read\<close>: what reading a relay returns, or None when it throws; \<open>he_model\<close>: the text the
  language model completes for some messages, or None when there is no key, no answer or
  no choice in it.
\<close>

record 'e harvest_env =
  he_job :: "'e job_env"
  he_links :: link_env
  he_read :: "string \<Rightarrow> 'e \<Rightarrow> chat_content option \<times> 'e"
  he_model :: "string list \<Rightarrow> 'e \<Rightarrow> string option \<times> 'e"

record harvest_tally =
  ht_scanned :: nat
  ht_found :: nat
  ht_ingested :: nat
  ht_existing :: nat
  ht_failed :: nat

definition nothing_harvested :: harvest_tally where
  "nothing_harvested = \<lparr>ht_scanned = 0, ht_found = 0, ht_ingested = 0, ht_existing = 0, ht_failed = 0\<rparr>"

text \<open>\<open>if (s) texts.push(s)\<close>\<close>

definition if_text :: "string option \<Rightarrow> string list" where
  "if_text s = (case s of None \<Rightarrow> [] | Some t \<Rightarrow> if t = [] then [] else [t])"

definition texts_of :: "chat_content \<Rightarrow> string list" where
  "texts_of c = ct_messages c @ concat (map (\<lambda>ch. if_text (ch_about ch) @ if_text (ch_name ch)) (ct_channels c))"

definition llm_extract_invites :: "'e harvest_env \<Rightarrow> string list \<Rightarrow> ('e, found_invite list) job" where
  "llm_extract_invites H texts =
     (let messages = recall_messages (he_links H) texts in
      if messages = [] then io_return []
      else call_then (ask_job (he_model H messages)) (\<lambda>answer.
        io_return (case answer of
          None \<Rightarrow> []
        | Some raw \<Rightarrow> recalled_invites (he_links H) (hc_parse (jd_client (he_job H))) raw)))"

text \<open>Invites with the host of the community they were seen in; of a known key the first stays.\<close>

type_synonym harvest_entry = "found_invite \<times> string"

definition push_entry :: "string \<Rightarrow> found_invite \<Rightarrow> harvest_entry list \<Rightarrow> harvest_entry list" where
  "push_entry source i es =
     (if has_row (\<lambda>e. link_key (fst e) = link_key i) es then es else es @ [(i, source)])"

definition scan_community ::
  "'e harvest_env \<Rightarrow> string \<Rightarrow> string \<Rightarrow> harvest_entry list \<Rightarrow> ('e, harvest_entry list) job" where
  "scan_community H host url es =
     call_then (ask_job (he_read H url)) (\<lambda>content.
     case content of
       None \<Rightarrow> io_throw Raw
     | Some c \<Rightarrow>
         call_then (llm_extract_invites H (texts_of c)) (\<lambda>recalled.
         io_return (fold (push_entry host)
           (concat (map (extract_invites (he_links H)) (texts_of c)) @ recalled) es)))"

fun scan_communities ::
  "'e harvest_env \<Rightarrow> (string \<times> string) list \<Rightarrow> harvest_entry list \<Rightarrow> harvest_tally \<Rightarrow>
   ('e, harvest_entry list \<times> harvest_tally) job" where
  "scan_communities H [] es t = io_return (es, t\<lparr>ht_found := length es\<rparr>)"
| "scan_communities H ((host, url) # rest) es t =
     call_then (io_attempt (scan_community H host url es)) (\<lambda>r.
     case r of
       Inl _ \<Rightarrow> scan_communities H rest es (t\<lparr>ht_scanned := Suc (ht_scanned t), ht_failed := Suc (ht_failed t)\<rparr>)
     | Inr es' \<Rightarrow> scan_communities H rest es' (t\<lparr>ht_scanned := Suc (ht_scanned t)\<rparr>))"

section \<open>What becomes of an invite\<close>

definition joined_hosts :: "(string \<times> string) list \<Rightarrow> string set" where
  "joined_hosts cs = set (map (to_lower \<circ> fst) cs)"

definition harvest_source :: "found_invite \<Rightarrow> candidate_source" where
  "harvest_source i = \<lparr>cs_type = ''harvest'', cs_locator = None, cs_actor = None, cs_evidence = Some (fi_host i),
     cs_observed = None, cs_listing = Some (empty_listing\<lparr>ls_invite := Some (fi_code i)\<rparr>)\<rparr>"

text \<open>A spare code of a joined community (True), or a candidate; common to both harvesters.\<close>

definition place_invite ::
  "'e job_env \<Rightarrow> string set \<Rightarrow> string option \<Rightarrow> candidate_source \<Rightarrow> found_invite \<Rightarrow> ('e, bool) job" where
  "place_invite E joined seen_in src i =
     (if fi_host i \<in> joined
      then call_then (dir_query E (record_invite_candidate (fi_host i) (fi_code i) seen_in)) (\<lambda>_. io_return True)
      else case normalize_relay_url (jd_web E) (invite_url i) of
        Inl _ \<Rightarrow> io_throw Raw
      | Inr relay \<Rightarrow> call_then (inject_candidate E relay src) (\<lambda>_. io_return False))"

fun place_entries ::
  "'e harvest_env \<Rightarrow> string set \<Rightarrow> harvest_entry list \<Rightarrow> harvest_tally \<Rightarrow> ('e, harvest_tally) job" where
  "place_entries H joined [] t = io_return t"
| "place_entries H joined ((i, source) # rest) t =
     call_then (io_attempt (place_invite (he_job H) joined (Some source) (harvest_source i) i)) (\<lambda>r.
     place_entries H joined rest (case r of
       Inl _ \<Rightarrow> t\<lparr>ht_failed := Suc (ht_failed t)\<rparr>
     | Inr True \<Rightarrow> t\<lparr>ht_existing := Suc (ht_existing t)\<rparr>
     | Inr False \<Rightarrow> t\<lparr>ht_ingested := Suc (ht_ingested t)\<rparr>))"

definition harvest_invites :: "'e harvest_env \<Rightarrow> ('e, harvest_tally) job" where
  "harvest_invites H =
     call_then (dir_query (he_job H) (\<lambda>_. list_joined_communities)) (\<lambda>joined.
     call_then (scan_communities H joined [] nothing_harvested) (\<lambda>(es, t).
     place_entries H (joined_hosts joined) es t))"

section \<open>Public posts\<close>

record x_post =
  xp_id :: string
  xp_text :: string
  xp_urls :: "string list"
  xp_created :: "time option"

record x_page =
  xg_posts :: "x_post list"
  xg_newest :: "string option"
  xg_next :: "string option"

record x_search =
  xq_next :: "string option"
  xq_since :: "string option"

text \<open>\<open>hx_search\<close>: a page, or the error the client throws.\<close>

record 'e x_env =
  hx_job :: "'e job_env"
  hx_links :: link_env
  hx_search :: "x_search \<Rightarrow> 'e \<Rightarrow> x_page res \<times> 'e"

record x_tally =
  xt_pages :: nat
  xt_posts :: nat
  xt_found :: nat
  xt_ingested :: nat
  xt_existing :: nat
  xt_failed :: nat

definition all_digits :: "string \<Rightarrow> bool" where
  "all_digits s \<longleftrightarrow> s \<noteq> [] \<and> list_all is_digit s"

definition compare_strings :: "string \<Rightarrow> string \<Rightarrow> int" where
  "compare_strings a b = (if a < b then -1 else if b < a then 1 else 0)"

definition compare_snowflake_id :: "string \<Rightarrow> string \<Rightarrow> int" where
  "compare_snowflake_id a b =
     (if all_digits a \<and> all_digits b \<and> length a \<noteq> length b then int (length a) - int (length b)
      else compare_strings a b)"

text \<open>The cursor's \<open>sinceId\<close>; None is null.\<close>

definition sanitize_x_cursor :: "json \<Rightarrow> string option" where
  "sanitize_x_cursor cursor = (case cursor of
     JObj fs \<Rightarrow> (if json_field fs ''version'' = Some (JInt 1)
       then (case json_field fs ''sinceId'' of Some (JStr s) \<Rightarrow> Some s | _ \<Rightarrow> None) else None)
   | _ \<Rightarrow> None)"

definition x_cursor :: "string option \<Rightarrow> json" where
  "x_cursor since = JObj [(''sinceId'', case since of None \<Rightarrow> JNull | Some s \<Rightarrow> JStr s), (''version'', JInt 1)]"

definition post_text_for_extraction :: "x_post \<Rightarrow> string" where
  "post_text_for_extraction p = concat (xp_text p # map ((#) (CHR 0x0A)) (xp_urls p))"

definition x_source :: "x_post \<Rightarrow> found_invite \<Rightarrow> candidate_source" where
  "x_source p i = \<lparr>cs_type = ''x'', cs_locator = Some (''https://x.com/i/status/'' @ xp_id p), cs_actor = None,
     cs_evidence = Some (xp_id p), cs_observed = xp_created p,
     cs_listing = Some (empty_listing\<lparr>ls_invite := Some (fi_code i)\<rparr>)\<rparr>"

fun process_x_invites ::
  "'e x_env \<Rightarrow> string set \<Rightarrow> x_post \<Rightarrow> found_invite list \<Rightarrow> string list \<Rightarrow> x_tally \<Rightarrow> ('e, string list \<times> x_tally) job" where
  "process_x_invites X joined p [] seen t = io_return (seen, t)"
| "process_x_invites X joined p (i # is) seen t =
     (if link_key i \<in> set seen then process_x_invites X joined p is seen t
      else
        let t1 = t\<lparr>xt_found := Suc (xt_found t)\<rparr> in
        call_then (io_attempt (place_invite (hx_job X) joined None (x_source p i) i)) (\<lambda>r.
        process_x_invites X joined p is (link_key i # seen) (case r of
          Inl _ \<Rightarrow> t1\<lparr>xt_failed := Suc (xt_failed t1)\<rparr>
        | Inr True \<Rightarrow> t1\<lparr>xt_existing := Suc (xt_existing t1)\<rparr>
        | Inr False \<Rightarrow> t1\<lparr>xt_ingested := Suc (xt_ingested t1)\<rparr>)))"

definition process_x_post ::
  "'e x_env \<Rightarrow> string set \<Rightarrow> x_post \<Rightarrow> string list \<times> x_tally \<Rightarrow> ('e, string list \<times> x_tally) job" where
  "process_x_post X joined p = (\<lambda>(seen, t).
     process_x_invites X joined p (extract_invites (hx_links X) (post_text_for_extraction p)) seen t)"

fun process_x_posts ::
  "'e x_env \<Rightarrow> string set \<Rightarrow> x_post list \<Rightarrow> string list \<times> x_tally \<Rightarrow> ('e, string list \<times> x_tally) job" where
  "process_x_posts X joined [] st = io_return st"
| "process_x_posts X joined (p # ps) st =
     call_then (process_x_post X joined p st) (process_x_posts X joined ps)"

definition newer_id :: "string option \<Rightarrow> string option \<Rightarrow> string option" where
  "newer_id seen page = (case page of
     None \<Rightarrow> seen
   | Some n \<Rightarrow> if n = [] then seen
       else case seen of
         None \<Rightarrow> Some n
       | Some s \<Rightarrow> if s = [] \<or> compare_snowflake_id n s > 0 then Some n else Some s)"

definition search_x :: "'e x_env \<Rightarrow> x_search \<Rightarrow> ('e, x_page) job" where
  "search_x X q = call_then (ask_job (hx_search X q)) io_res"

text \<open>The loop over pages, with the number of pages it may still read.\<close>

fun read_x_pages ::
  "'e x_env \<Rightarrow> string set \<Rightarrow> nat \<Rightarrow> string option \<Rightarrow> string option \<Rightarrow> string option \<Rightarrow>
   string list \<times> x_tally \<Rightarrow> ('e, string option \<times> x_tally) job" where
  "read_x_pages X joined 0 since next newest (seen, t) = io_return (newest, t)"
| "read_x_pages X joined (Suc n) since next newest (seen, t) =
     call_then (search_x X \<lparr>xq_next = next, xq_since = (if next = None then since else None)\<rparr>) (\<lambda>page.
     let t1 = t\<lparr>xt_pages := Suc (xt_pages t), xt_posts := xt_posts t + length (xg_posts page)\<rparr> in
     call_then (process_x_posts X joined (xg_posts page) (seen, t1)) (\<lambda>(seen2, t2).
     case xg_next page of
       None \<Rightarrow> io_return (newer_id newest (xg_newest page), t2)
     | Some token \<Rightarrow>
         if token = [] then io_return (newer_id newest (xg_newest page), t2)
         else read_x_pages X joined n since (Some token) (newer_id newest (xg_newest page)) (seen2, t2)))"

definition max_x_pages_per_run :: nat where
  "max_x_pages_per_run = 3"

definition no_posts_yet :: x_tally where
  "no_posts_yet = \<lparr>xt_pages = 0, xt_posts = 0, xt_found = 0, xt_ingested = 0, xt_existing = 0, xt_failed = 0\<rparr>"

definition x_result :: "x_tally \<Rightarrow> source_tally" where
  "x_result t = \<lparr>st_accepted = xt_ingested t, st_ignored = xt_existing t, st_read = xt_posts t\<rparr>"

definition reconcile_x :: "'e x_env \<Rightarrow> string set \<Rightarrow> string option \<Rightarrow> ('e, x_tally) source_run" where
  "reconcile_x X joined since =
     call_then (on_job (read_x_pages X joined max_x_pages_per_run since None since ([], no_posts_yet))) (\<lambda>(newest, t).
     call_then (state_query (hx_job X) (record_source_success ''x'' (x_cursor newest) (x_result t))) (\<lambda>_. io_return t))"

text \<open>The error is recorded under its code and rethrown as it is.\<close>

definition fail_x :: "'e x_env \<Rightarrow> err \<Rightarrow> ('e, 'a) source_run" where
  "fail_x X e = call_then (state_query (hx_job X)
     (record_source_failure ''x'' (case e of Api code _ \<Rightarrow> code | _ \<Rightarrow> ''remote_failed''))) (\<lambda>_. io_throw e)"

definition harvest_x_invites :: "'e x_env \<Rightarrow> ('e, x_tally) source_run" where
  "harvest_x_invites X =
     call_then (state_query (hx_job X) (get_source_cursor ''x'' (x_cursor None))) (\<lambda>stored.
     call_then (on_job (dir_query (hx_job X) (\<lambda>_. list_joined_communities))) (\<lambda>joined.
     io_catch (reconcile_x X (joined_hosts joined) (sanitize_x_cursor stored)) (fail_x X)))"

end
