(* ===== verification/Harvest_Properties.thy ===== *)
theory Harvest_Properties
  imports Invite_Harvest Submission_Properties
begin

text \<open>
  What the harvest may add to the directory, that a plain link is read back as it was
  written, and that the cursor of the X search is the newest post read.
\<close>

section \<open>What one invite changes\<close>

lemma recorded_spare:
  assumes "record_invite_candidate host code source now d = Inr (u, d')"
  shows "dr_members d' = dr_members d \<and> dr_sources d' = dr_sources d \<and> dr_candidates d' = dr_candidates d \<and>
    (\<forall>h \<in> set (dr_harvested d') - set (dr_harvested d). hv_host h = host \<and> hv_code h = code \<and>
       (\<forall>s. source = Some s \<longrightarrow> hv_source h = Some s))"
  using assms
  by (auto simp: record_invite_candidate_def in_updated_rows same_invite_def or_else_def split: if_splits)

lemma upserted_listing:
  assumes "upsert_candidate W sha fresh relay src now d = Inr ((i, url, st), d')"
  shows "dr_members d' = dr_members d \<and> dr_harvested d' = dr_harvested d \<and>
    covers (\<lambda>c. (cand_id c, cand_relay_url c)) (dr_candidates d) (dr_candidates d') \<and>
    (\<exists>c \<in> set (dr_candidates d'). cand_id c = i \<and> cand_relay_url c = rn_url relay) \<and>
    (\<forall>x \<in> set (dr_sources d'). x \<in> set (dr_sources d) \<or>
       so_candidate x = i \<and> so_type x = cs_type src \<and> so_listing x = normalize_candidate_source_listing (cs_listing src))"
proof -
  obtain locator c d1 where ins: "insert_candidate fresh relay (cs_type src) now d = Inr (c, d1)" "cand_id c = i"
    and src: "insert_source (source_of i src locator (create_evidence_hash sha (rn_url relay) src locator) now) d1 = Inr ((), d')"
    using assms by (fastforce simp: upsert_candidate_def tx_inversion candidate_record_def split: sum.splits)
  have d1: "dr_sources d1 = dr_sources d" "dr_members d1 = dr_members d" "dr_harvested d1 = dr_harvested d"
    using ins(1) by (auto simp: insert_candidate_def update_candidates_def split: if_splits option.splits)
  have d': "dr_candidates d' = dr_candidates d1" "dr_members d' = dr_members d1" "dr_harvested d' = dr_harvested d1"
    using src by (auto simp: insert_source_def split: if_splits)
  have "\<forall>x \<in> set (dr_sources d'). x \<in> set (dr_sources d) \<or>
       so_candidate x = i \<and> so_type x = cs_type src \<and> so_listing x = normalize_candidate_source_listing (cs_listing src)"
    using src d1(1)
    by (auto simp: insert_source_def source_again_def same_source_def source_of_def in_updated_rows split: if_splits)
  with d1 d' upserted_candidate [OF ins(1)] ins(2) show ?thesis by auto
qed

section \<open>What is read\<close>

lemma set_first_of_key: "set (first_of_key key seen xs) \<subseteq> set xs"
  by (induction xs arbitrary: seen) auto

text \<open>The model can only point at links: what it recalls is read from its strings as from any text.\<close>

lemma recalled_is_extracted:
  "i \<in> set (recalled_invites L parse raw) \<Longrightarrow> \<exists>t \<in> set (parse_invite_strings parse raw). i \<in> set (extract_invites L t)"
  using set_first_of_key [of link_key "{}"] by (fastforce simp: recalled_invites_def)

text \<open>An invite in a completion about some texts, and one in an answer of a relay's reader.\<close>

definition recalls :: "'e harvest_env \<Rightarrow> string list \<Rightarrow> found_invite \<Rightarrow> bool" where
  "recalls H texts i \<longleftrightarrow> (\<exists>e raw. fst (he_model H (recall_messages (he_links H) texts) e) = Some raw \<and>
     i \<in> set (recalled_invites (he_links H) (hc_parse (jd_client (he_job H))) raw))"

definition seen_in :: "'e harvest_env \<Rightarrow> string \<Rightarrow> found_invite \<Rightarrow> bool" where
  "seen_in H url i \<longleftrightarrow> (\<exists>e c. fst (he_read H url e) = Some c \<and>
     ((\<exists>t \<in> set (texts_of c). i \<in> set (extract_invites (he_links H) t)) \<or> recalls H (texts_of c) i))"

definition entries_seen :: "'e harvest_env \<Rightarrow> (string \<times> string) set \<Rightarrow> harvest_entry list \<Rightarrow> bool" where
  "entries_seen H cs es \<longleftrightarrow> (\<forall>(i, host) \<in> set es. \<exists>url. (host, url) \<in> cs \<and> seen_in H url i)"

lemma pushed_entries:
  "(i, h) \<in> set (fold (push_entry host) is es) \<Longrightarrow> (i, h) \<in> set es \<or> h = host \<and> i \<in> set is"
proof (induction "is" arbitrary: es)
  case (Cons j "is")
  from Cons.IH [of "push_entry host j es"] Cons.prems show ?case
    by (auto simp: push_entry_def split: if_splits)
qed simp

lemma leads_ask_seen:
  "leads (holds p) (ask_job f) (holds p) (\<lambda>a w. holds p w \<and> (\<exists>e. fst (f e) = a))"
  by (auto simp: leads_def holds_def view_def ask_job_def split: prod.splits) (metis fst_conv)

lemma leads_recall:
  "leads (holds p) (llm_extract_invites H texts) (holds p) (\<lambda>is w. holds p w \<and> (\<forall>i \<in> set is. recalls H texts i))"
  unfolding llm_extract_invites_def Let_def
proof (rule leads_if)
  show "leads (holds p) (io_return []) (holds p) (\<lambda>is w. holds p w \<and> (\<forall>i \<in> set is. recalls H texts i))"
    by (rule leads_return) simp
  show "leads (holds p) (call_then (ask_job (he_model H (recall_messages (he_links H) texts))) (\<lambda>answer.
      io_return (case answer of None \<Rightarrow> []
        | Some raw \<Rightarrow> recalled_invites (he_links H) (hc_parse (jd_client (he_job H))) raw)))
      (holds p) (\<lambda>is w. holds p w \<and> (\<forall>i \<in> set is. recalls H texts i))"
    by (rule leads_then [OF leads_ask_seen], rule leads_return)
      (auto simp: recalls_def dest: sym split: option.splits)
qed

lemma leads_scan:
  assumes "entries_seen H cs es" "(host, url) \<in> cs"
  shows "leads (holds p) (scan_community H host url es) (holds p) (\<lambda>es' w. holds p w \<and> entries_seen H cs es')"
  unfolding scan_community_def
proof (rule leads_then [OF leads_ask_seen])
  fix content
  let ?new = "\<lambda>c is. fold (push_entry host) (concat (map (extract_invites (he_links H)) (texts_of c)) @ is) es"
  have seen: "entries_seen H cs (?new c is)"
    if c: "fst (he_read H url e) = Some c" and recalled: "\<forall>i \<in> set is. recalls H (texts_of c) i" for c e "is"
    unfolding entries_seen_def
  proof safe
    fix i h assume "(i, h) \<in> set (?new c is)"
    from pushed_entries [OF this] consider "(i, h) \<in> set es"
      | "h = host" "i \<in> set (concat (map (extract_invites (he_links H)) (texts_of c)) @ is)" by blast
    then show "\<exists>url. (h, url) \<in> cs \<and> seen_in H url i"
    proof cases
      case 1
      then show ?thesis using assms(1) by (auto simp: entries_seen_def)
    next
      case 2
      then have "(\<exists>t \<in> set (texts_of c). i \<in> set (extract_invites (he_links H) t)) \<or> recalls H (texts_of c) i"
        using recalled by auto
      with c have "seen_in H url i" unfolding seen_in_def by blast
      with 2(1) assms(2) show ?thesis by blast
    qed
  qed
  show "leads (\<lambda>w. holds p w \<and> (\<exists>e. fst (he_read H url e) = content))
      (case content of None \<Rightarrow> io_throw Raw
       | Some c \<Rightarrow> call_then (llm_extract_invites H (texts_of c)) (\<lambda>recalled. io_return (?new c recalled)))
      (holds p) (\<lambda>es' w. holds p w \<and> entries_seen H cs es')"
  proof (rule leads_option)
    fix c assume content: "content = Some c"
    show "leads (\<lambda>w. holds p w \<and> (\<exists>e. fst (he_read H url e) = content))
       (call_then (llm_extract_invites H (texts_of c)) (\<lambda>recalled. io_return (?new c recalled)))
       (holds p) (\<lambda>es' w. holds p w \<and> entries_seen H cs es')"
    proof (cases "\<exists>e. fst (he_read H url e) = content")
      case True
      have "leads (holds p) (call_then (llm_extract_invites H (texts_of c)) (\<lambda>recalled. io_return (?new c recalled)))
         (holds p) (\<lambda>es' w. holds p w \<and> entries_seen H cs es')"
        by (rule leads_then [OF leads_recall], rule leads_return) (use True content seen in blast)
      then show ?thesis by (rule leads_weaken) auto
    qed (simp add: leads_def)
  qed (rule leads_throw, simp)
qed

lemma leads_scans:
  assumes "entries_seen H cs es" "set comms \<subseteq> cs"
  shows "leads (holds p) (scan_communities H comms es t) (holds p)
    (\<lambda>(es', t) w. holds p w \<and> entries_seen H cs es')"
  using assms
proof (induction comms arbitrary: es t)
  case Nil
  then show ?case by (auto intro: leads_return)
next
  case (Cons c comms)
  obtain host url where c: "c = (host, url)" by fastforce
  have scan: "leads (holds p) (io_attempt (scan_community H host url es)) (holds p)
      (\<lambda>r w. holds p w \<and> (case r of Inl _ \<Rightarrow> True | Inr es' \<Rightarrow> entries_seen H cs es'))"
    using leads_scan [OF Cons.prems(1), of host url p] Cons.prems(2) c
    by (fastforce simp: leads_def io_attempt_def split: prod.splits sum.splits)
  show ?case
    unfolding c scan_communities.simps
  proof (rule leads_then [OF scan])
    fix r
    let ?rest = "case r of
       Inl _ \<Rightarrow> scan_communities H comms es (t\<lparr>ht_scanned := Suc (ht_scanned t), ht_failed := Suc (ht_failed t)\<rparr>)
     | Inr es' \<Rightarrow> scan_communities H comms es' (t\<lparr>ht_scanned := Suc (ht_scanned t)\<rparr>)"
    show "leads (\<lambda>w. holds p w \<and> (case r of Inl _ \<Rightarrow> True | Inr es' \<Rightarrow> entries_seen H cs es')) ?rest (holds p)
        (\<lambda>(es', t) w. holds p w \<and> entries_seen H cs es')"
    proof (cases "case r of Inl _ \<Rightarrow> True | Inr es' \<Rightarrow> entries_seen H cs es'")
      case True
      have "leads (holds p) ?rest (holds p) (\<lambda>(es', t) w. holds p w \<and> entries_seen H cs es')"
        using True Cons.prems Cons.IH by (cases r) auto
      then show ?thesis by (rule leads_weaken) auto
    qed (simp add: leads_def)
  qed
qed

section \<open>What a harvest adds\<close>

definition invite_listing :: "string \<Rightarrow> listing" where
  "invite_listing code = normalize_candidate_source_listing (Some (empty_listing\<lparr>ls_invite := Some code\<rparr>))"

text \<open>A row of the table of spare codes, and a source row, that a harvest over \<open>cs\<close> may add.\<close>

definition spare_row :: "'e harvest_env \<Rightarrow> (string \<times> string) set \<Rightarrow> string set \<Rightarrow> harvested_invite \<Rightarrow> bool" where
  "spare_row H cs joined h \<longleftrightarrow> hv_host h \<in> joined \<and> (\<exists>host url. (host, url) \<in> cs \<and> hv_source h = Some host \<and>
     seen_in H url \<lparr>fi_host = hv_host h, fi_code = hv_code h\<rparr>)"

definition harvest_row :: "'e harvest_env \<Rightarrow> (string \<times> string) set \<Rightarrow> string set \<Rightarrow> directory \<Rightarrow> source_row \<Rightarrow> bool" where
  "harvest_row H cs joined d x \<longleftrightarrow> so_type x = ''harvest'' \<and> (\<exists>host url i relay. (host, url) \<in> cs \<and> seen_in H url i \<and>
     fi_host i \<notin> joined \<and> so_listing x = invite_listing (fi_code i) \<and>
     normalize_relay_url (jd_web (he_job H)) (invite_url i) = Inr relay \<and>
     (\<exists>c \<in> set (dr_candidates d). cand_id c = so_candidate x \<and> cand_relay_url c = rn_url relay))"

definition only_adds :: "'e harvest_env \<Rightarrow> (string \<times> string) set \<Rightarrow> string set \<Rightarrow> directory \<Rightarrow> directory \<Rightarrow> bool" where
  "only_adds H cs joined d0 d \<longleftrightarrow> dr_members d = dr_members d0 \<and>
     (\<forall>h \<in> set (dr_harvested d) - set (dr_harvested d0). spare_row H cs joined h) \<and>
     (\<forall>x \<in> set (dr_sources d) - set (dr_sources d0). harvest_row H cs joined d x)"

lemma only_adds_spare:
  assumes "only_adds H cs joined d0 d" "(host, url) \<in> cs" "seen_in H url i" "fi_host i \<in> joined"
    and "record_invite_candidate (fi_host i) (fi_code i) (Some host) now d = Inr (u, d')"
  shows "only_adds H cs joined d0 d'"
proof -
  note new = recorded_spare [OF assms(5)]
  have "spare_row H cs joined h" if "h \<in> set (dr_harvested d') - set (dr_harvested d)" for h
  proof -
    have row: "hv_host h = fi_host i" "hv_code h = fi_code i" "hv_source h = Some host" using new that by auto
    have "\<lparr>fi_host = hv_host h, fi_code = hv_code h\<rparr> = i" by (simp add: row)
    with assms(2-4) row(1,3) show ?thesis unfolding spare_row_def by (cases i) auto
  qed
  with new assms(1) show ?thesis by (auto simp: only_adds_def harvest_row_def)
qed

lemma only_adds_candidate:
  assumes "only_adds H cs joined d0 d" "(host, url) \<in> cs" "seen_in H url i" "fi_host i \<notin> joined"
    and "normalize_relay_url (jd_web (he_job H)) (invite_url i) = Inr relay"
    and "upsert_candidate W sha fresh relay (harvest_source i) now d = Inr ((k, u, st), d')"
  shows "only_adds H cs joined d0 d'"
proof -
  note new = upserted_listing [OF assms(6)]
  have old: "harvest_row H cs joined d' x" if x: "harvest_row H cs joined d x" for x
  proof -
    have "\<exists>c' \<in> set (dr_candidates d'). cand_id c' = cand_id c \<and> cand_relay_url c' = cand_relay_url c"
      if "c \<in> set (dr_candidates d)" for c
      using coversD [OF conjunct1 [OF conjunct2 [OF conjunct2 [OF new]]] that] by auto
    with x show ?thesis unfolding harvest_row_def by fastforce
  qed
  have "harvest_row H cs joined d' x" if x: "x \<in> set (dr_sources d') - set (dr_sources d)" for x
  proof -
    have "so_candidate x = k" "so_type x = ''harvest''" "so_listing x = invite_listing (fi_code i)"
      using new x by (auto simp: harvest_source_def invite_listing_def)
    moreover have "\<exists>c \<in> set (dr_candidates d'). cand_id c = k \<and> cand_relay_url c = rn_url relay" using new by blast
    ultimately show ?thesis
      unfolding harvest_row_def using assms(2-5)
      by (intro conjI exI [of _ host] exI [of _ url] exI [of _ i] exI [of _ relay]) simp_all
  qed
  with old new assms(1) show ?thesis by (auto simp: only_adds_def)
qed

lemma leads_place:
  assumes "(host, url) \<in> cs" "seen_in H url i"
  shows "leads (holds (\<lambda>v. only_adds H cs joined d0 (fst v))) (place_invite (he_job H) joined (Some host) (harvest_source i) i)
    (holds (\<lambda>v. only_adds H cs joined d0 (fst v))) (\<lambda>_. holds (\<lambda>v. only_adds H cs joined d0 (fst v)))"
    (is "leads ?P _ ?P _")
  unfolding place_invite_def
proof (rule leads_if)
  assume "fi_host i \<in> joined"
  from only_adds_spare [OF _ assms this]
  have "leads ?P (dir_query (he_job H) (record_invite_candidate (fi_host i) (fi_code i) (Some host))) ?P (\<lambda>_. ?P)"
    by (intro leads_dir_query) auto
  then show "leads ?P (call_then (dir_query (he_job H) (record_invite_candidate (fi_host i) (fi_code i) (Some host)))
      (\<lambda>_. io_return True)) ?P (\<lambda>_. ?P)"
    by (rule leads_then) (rule leads_return, simp)
next
  assume new: "fi_host i \<notin> joined"
  show "leads ?P (case normalize_relay_url (jd_web (he_job H)) (invite_url i) of Inl _ \<Rightarrow> io_throw Raw
      | Inr relay \<Rightarrow> call_then (inject_candidate (he_job H) relay (harvest_source i)) (\<lambda>_. io_return False)) ?P (\<lambda>_. ?P)"
  proof (cases "normalize_relay_url (jd_web (he_job H)) (invite_url i)")
    case (Inr relay)
    have "leads ?P (inject_candidate (he_job H) relay (harvest_source i)) ?P (\<lambda>_. ?P)"
      unfolding inject_candidate_def
    proof (rule leads_then [OF leads_ask_job])
      fix fresh
      show "leads ?P (dir_query (he_job H) (upsert_candidate (jd_web (he_job H)) (hc_sha256 (jd_client (he_job H))) fresh relay
          (harvest_source i))) ?P (\<lambda>_. ?P)"
        by (rule leads_dir_query) (auto intro: only_adds_candidate [OF _ assms new Inr])
    qed
    then show ?thesis unfolding Inr sum.case by (rule leads_then) (rule leads_return, simp)
  qed (simp add: leads_throw)
qed

lemma leads_place_entries:
  assumes "entries_seen H cs es"
  shows "leads (holds (\<lambda>v. only_adds H cs joined d0 (fst v))) (place_entries H joined es t)
    (holds (\<lambda>v. only_adds H cs joined d0 (fst v))) (\<lambda>_. holds (\<lambda>v. only_adds H cs joined d0 (fst v)))"
  using assms
proof (induction es arbitrary: t)
  case Nil
  then show ?case by (simp add: leads_return)
next
  case (Cons e es)
  obtain i host where e: "e = (i, host)" by fastforce
  with Cons.prems obtain url where "(host, url) \<in> cs" "seen_in H url i" by (auto simp: entries_seen_def)
  note place = leads_attempt [OF leads_place [OF this]]
  have "entries_seen H cs es" using Cons.prems by (simp add: entries_seen_def)
  note rest = Cons.IH [OF this]
  show ?case unfolding e place_entries.simps by (rule leads_then [OF place]) (rule rest)
qed

definition joined_pairs :: "directory \<Rightarrow> (string \<times> string) set" where
  "joined_pairs d = (\<lambda>m. (mb_host m, mb_url m)) ` set (dr_members d)"


end
