(* ===== verification/Link_Properties.thy ===== *)
theory Link_Properties
  imports Invite_Links
begin

text \<open>
  A link pasted into a text is found: the scanner reaches it whatever stands before it,
  reads its host and code back, and no other invite takes its key.
\<close>

section \<open>Reaching a position\<close>

lemma match_all_skip: "match_all scan n s = match_all scan 0 (drop n s)"
proof (induction s arbitrary: n)
  case (Cons c cs)
  show ?case using Cons.IH [of "n - 1"] by (cases n) simp_all
qed simp

text \<open>When no match that starts in \<open>u\<close> reaches beyond it, what follows is scanned from its start.\<close>

lemma match_all_reaches:
  assumes "\<And>i m n. i < length u \<Longrightarrow> scan (drop i u @ s) = Some (m, n) \<Longrightarrow> n \<le> length u - i"
  shows "set (match_all scan 0 s) \<subseteq> set (match_all scan 0 (u @ s))"
  using assms
proof (induction u rule: length_induct)
  case (1 u)
  show ?case
  proof (cases u)
    case (Cons c cs)
    have later: "set (match_all scan 0 s) \<subseteq> set (match_all scan 0 (drop k u @ s))" if "0 < k" for k
    proof -
      have "n \<le> length (drop k u) - i" if "i < length (drop k u)" "scan (drop i (drop k u) @ s) = Some (m, n)" for i m n
        using 1(2) [of "k + i" m n] that by (simp add: add.commute)
      moreover have "length (drop k u) < length u" using that Cons by simp
      ultimately show ?thesis using 1(1) by blast
    qed
    show ?thesis
    proof (cases "scan (c # cs @ s)")
      case None
      then show ?thesis using later [of 1] Cons by simp
    next
      case (Some mn)
      obtain m n where mn: "mn = (m, n)" by fastforce
      have "n \<le> length u" using 1(2) [of 0 m n] Some Cons mn by simp
      then have "drop (n - 1) (cs @ s) = drop (max n 1) u @ s" using Cons by (cases n) simp_all
      then have skip: "match_all scan (n - 1) (cs @ s) = match_all scan 0 (drop (max n 1) u @ s)"
        using match_all_skip [of scan "n - 1" "cs @ s"] by simp
      have "match_all scan 0 (u @ s) = m # match_all scan (n - 1) (cs @ s)" using Some mn Cons by simp
      moreover have "set (match_all scan 0 s) \<subseteq> set (match_all scan 0 (drop (max n 1) u @ s))"
        by (rule later) simp
      ultimately show ?thesis unfolding skip by auto
    qed
  qed simp
qed

section \<open>Characters of a link\<close>

lemma letter_facts:
  "is_letter CHR ''h''" "is_letter CHR ''t''" "is_letter CHR ''p''" "is_letter CHR ''s''" "\<not> is_letter CHR '':''"
  "\<not> link_host_char CHR ''/''" "\<not> link_host_char CHR '':''" "\<not> link_host_char CHR ''.''"
  by code_simp+

lemma letters_no_space:
  "is_lower c \<Longrightarrow> \<not> js_space c" "is_upper c \<Longrightarrow> \<not> js_space c" "is_digit c \<Longrightarrow> \<not> js_space c"
  by (cases c; auto simp: js_space_def is_lower_def is_upper_def is_digit_def less_eq_char_def)+

lemma marks_no_space: "\<forall>c \<in> set ''://-._~/''. \<not> js_space c"
  by code_simp

lemma host_no_space: "link_host_char c \<Longrightarrow> \<not> js_space c"
  using marks_no_space letters_no_space by (auto simp: link_host_char_def is_letter_def)

lemma code_no_space: "link_code_char c \<Longrightarrow> \<not> js_space c"
  using marks_no_space host_no_space by (auto simp: link_code_char_def)

lemma lowered_no_space:
  assumes "to_lower s = t" "\<forall>c \<in> set t. \<not> js_space c"
  shows "\<forall>c \<in> set s. \<not> js_space c"
  using assms js_lower_char_space by (auto simp: to_lower_def)

lemma path_has_no_space:
  assumes "invite_path_at s = Some (m, n)"
  shows "n \<le> length s \<and> (\<forall>c \<in> set (take n s). \<not> js_space c)"
proof -
  define scheme where "scheme = link_scheme s"
  define s1 where "s1 = drop (length scheme) s"
  define name where "name = takeWhile (\<lambda>c. link_host_char c \<or> c = CHR ''.'') s1"
  define s2 where "s2 = drop (length name) s1"
  define port where "port = link_port s2"
  define s3 where "s3 = drop (length port) s2"
  define code where "code = takeWhile link_code_char (drop 8 s3)"
  have slash: "to_lower (take 8 s3) = ''/invite/''" and n: "n = length scheme + length name + length port + 8 + length code"
    using assms unfolding invite_path_at_def Let_def scheme_def [symmetric] s1_def [symmetric] name_def [symmetric]
      s2_def [symmetric] port_def [symmetric] s3_def [symmetric] code_def [symmetric] by (auto split: if_splits)
  have scheme: "s = scheme @ s1" "\<forall>c \<in> set scheme. \<not> js_space c"
  proof -
    let ?a = "takeWhile is_letter s"
    have "scheme = [] \<or> scheme = ?a @ ''://'' \<and> take 3 (drop (length ?a) s) = ''://''"
      by (auto simp: scheme_def link_scheme_def Let_def)
    moreover have "s = ?a @ take 3 (drop (length ?a) s) @ drop (3 + length ?a) s"
      by (metis append_take_drop_id drop_drop takeWhile_eq_take)
    ultimately show "s = scheme @ s1" unfolding s1_def by (metis append_assoc append_eq_conv_conj append_Nil drop0 list.size(3))
    show "\<forall>c \<in> set scheme. \<not> js_space c"
      using letters_no_space marks_no_space \<open>scheme = [] \<or> _\<close>
      by (auto simp: is_letter_def dest!: set_takeWhileD)
  qed
  have name: "s1 = name @ s2" "\<forall>c \<in> set name. \<not> js_space c"
    using host_no_space marks_no_space by (auto simp: name_def s2_def takeWhile_eq_take [symmetric] dest!: set_takeWhileD)
      (metis append_take_drop_id takeWhile_eq_take)
  have port: "s2 = port @ s3" "\<forall>c \<in> set port. \<not> js_space c"
  proof -
    have "port = [] \<or> (\<exists>cs. s2 = CHR '':'' # cs \<and> port = CHR '':'' # takeWhile is_digit cs)"
      by (auto simp: port_def link_port_def split: list.splits)
    then show "s2 = port @ s3" "\<forall>c \<in> set port. \<not> js_space c"
      using letters_no_space(3) marks_no_space
      by (auto simp: s3_def takeWhile_eq_take [symmetric] dest!: set_takeWhileD) (metis append_take_drop_id takeWhile_eq_take)
  qed
  have "length (to_lower (take 8 s3)) = 8" unfolding slash by simp
  then have long: "length (take 8 s3) = 8" by simp
  have rest: "s3 = take 8 s3 @ code @ dropWhile link_code_char (drop 8 s3)"
    by (simp add: code_def)
  have mid: "\<forall>c \<in> set (take 8 s3). \<not> js_space c"
    by (rule lowered_no_space [OF slash]) code_simp
  have code: "\<forall>c \<in> set code. \<not> js_space c" using code_no_space by (auto simp: code_def dest!: set_takeWhileD)
  define t where "t = scheme @ name @ port @ take 8 s3 @ code"
  have s: "s = t @ dropWhile link_code_char (drop 8 s3)"
    unfolding t_def using scheme(1) name(1) port(1) rest by (metis append_assoc)
  have len: "n = length t" using n long by (simp add: t_def)
  have "take n s = t" "n \<le> length s" using s len by (metis append_eq_conv_conj, metis length_append le_add1)
  with scheme(2) name(2) port(2) mid code show ?thesis by (auto simp: t_def)
qed

section \<open>Reading a link\<close>

definition plain_host :: "string \<Rightarrow> bool" where
  "plain_host h \<longleftrightarrow> dotted_host h \<and> list_all (\<lambda>c. link_host_char c \<or> c = CHR ''.'') h"

lemma plain_host_chars:
  assumes "plain_host h"
  shows "CHR ''.'' \<in> set h" "c \<in> set h \<Longrightarrow> c \<noteq> CHR '':'' \<and> c \<noteq> CHR ''/'' \<and> \<not> js_space c"
proof -
  show "CHR ''.'' \<in> set h" using assms by (simp add: plain_host_def dotted_host_def)
  assume "c \<in> set h"
  then have "link_host_char c \<or> c = CHR ''.''" using assms by (simp add: plain_host_def list_all_iff)
  then show "c \<noteq> CHR '':'' \<and> c \<noteq> CHR ''/'' \<and> \<not> js_space c"
    using letter_facts host_no_space marks_no_space by auto
qed

lemma lowered_colon:
  assumes "js_lower_char c = CHR '':''"
  shows "c = CHR '':''"
proof -
  have "(of_char (js_lower_char c) :: nat) = 58" by (simp add: assms)
  then have "js_lower_char c = c" by (auto simp: js_lower_char_def Let_def split: if_splits)
  with assms show ?thesis by simp
qed

definition link_schemes :: "string list" where
  "link_schemes = [[], ''http://'', ''https://'']"

lemma scheme_of_link:
  assumes "plain_host h" "scheme \<in> set link_schemes"
  shows "link_scheme (scheme @ h @ r) = scheme"
proof (cases "scheme = []")
  case True
  have dot: "\<not> is_letter CHR ''.''" by code_simp
  then have "dropWhile is_letter h \<noteq> []" using plain_host_chars(1) [OF assms(1)] by (auto simp: dropWhile_eq_Nil_conv)
  then obtain c cs where cs: "dropWhile is_letter h = c # cs" by (cases "dropWhile is_letter h") auto
  then have "c \<in> set h" using set_dropWhileD [of c is_letter h] by simp
  then have c: "c \<noteq> CHR '':''" using plain_host_chars(2) [OF assms(1)] by blast
  have "takeWhile is_letter (h @ r) = takeWhile is_letter h"
    using plain_host_chars(1) [OF assms(1)] dot by (metis takeWhile_append1)
  moreover have "drop (length (takeWhile is_letter h)) (h @ r) = c # cs @ r"
    using cs by (metis Cons_eq_appendI append_eq_conv_conj append_assoc takeWhile_dropWhile_id)
  ultimately have "drop (length (takeWhile is_letter (h @ r))) (h @ r) = c # cs @ r" by (simp only:)
  then show ?thesis unfolding link_scheme_def True append_Nil Let_def using c by (simp only:) simp
next
  case False
  with assms(2) show ?thesis using letter_facts by (auto simp: link_schemes_def link_scheme_def Let_def)
qed

lemma link_is_read:
  assumes "plain_host h" "scheme \<in> set link_schemes" "c \<noteq> []" "list_all link_code_char c"
    and "v = [] \<or> \<not> link_code_char (hd v)"
  shows "\<exists>n. invite_path_at (scheme @ h @ ''/invite/'' @ c @ v) = Some ((h, c), n)"
proof -
  have name: "takeWhile (\<lambda>c. link_host_char c \<or> c = CHR ''.'') (h @ ''/invite/'' @ c @ v) = h"
    using assms(1) letter_facts by (auto simp: plain_host_def list_all_iff takeWhile_append2)
  have code: "takeWhile link_code_char (c @ v) = c"
    using assms(4,5) by (cases v) (auto simp: list_all_iff takeWhile_append2)
  have "to_lower ''/invite/'' = ''/invite/''" by code_simp
  moreover have "dotted_host h" using assms(1) by (simp add: plain_host_def)
  ultimately show ?thesis
    using assms(3) name code by (simp add: invite_path_at_def scheme_of_link [OF assms(1,2)] Let_def link_port_def)
qed

lemma plain_host_is_a_host:
  assumes "plain_host h"
  shows "api_host h = Inr h"
proof -
  have nonempty: "h \<noteq> []" using plain_host_chars(1) [OF assms] by auto
  have no_space: "dropWhile js_space h = h" "dropWhile js_space (rev h) = rev h"
    unfolding dropWhile_eq_self_iff using plain_host_chars(2) [OF assms] nonempty by (simp_all add: hd_rev)
  have trim: "trim h = h" by (simp add: trim_def trim_start_def trim_end_def no_space)
  have colon: "CHR '':'' \<notin> set (to_lower (take n h))" for n
  proof
    assume "CHR '':'' \<in> set (to_lower (take n h))"
    then obtain x where "x \<in> set (take n h)" "js_lower_char x = CHR '':''" by (auto simp: to_lower_def)
    then have "CHR '':'' \<in> set h" using lowered_colon in_set_takeD by metis
    then show False using plain_host_chars(2) [OF assms] by blast
  qed
  have bare: "drop_scheme long short h = h" if "CHR '':'' \<in> set long" "CHR '':'' \<in> set short" for long short
    using that colon [of "length long"] colon [of "length short"] by (auto simp: drop_scheme_def)
  have "without_slashes h = h"
    using plain_host_chars(2) [OF assms, of "last h"] nonempty
    by (simp add: without_slashes_def dropWhile_eq_self_iff [THEN iffD2] hd_rev)
  with trim nonempty show ?thesis by (simp add: api_host_def bare)
qed

section \<open>A posted link is found\<close>

lemma first_of_key_keeps:
  "x \<in> set xs \<Longrightarrow> key x \<notin> seen \<Longrightarrow> \<exists>y \<in> set (first_of_key key seen xs). key y = key x"
proof (induction xs arbitrary: seen)
  case (Cons a xs)
  show ?case
  proof (cases "x = a \<or> key a = key x")
    case True
    then show ?thesis using Cons.prems(2) by auto
  next
    case False
    then have "x \<in> set xs" "key x \<notin> insert (key a) seen" using Cons.prems by auto
    then show ?thesis using Cons.IH [of seen] Cons.IH [of "insert (key a) seen"] Cons.prems(2) by auto
  qed
qed simp

lemma link_key_inject:
  assumes "link_key i = link_key j" "CHR '' '' \<notin> set (fi_host j)" "CHR '' '' \<notin> set (fi_code j)"
  shows "i = j"
proof -
  have "fi_host j @ CHR '' '' # fi_code j = fi_host i @ CHR '' '' # fi_code i"
    using assms(1) by (simp add: link_key_def)
  then have "fi_host j = fi_host i \<and> fi_code j = fi_code i"
    using append_Cons_eq_iff [OF assms(2,3)] by simp
  then show ?thesis by simp
qed

lemma in_somes: "y \<in> set (List.map_filter id xs) \<longleftrightarrow> Some y \<in> set xs"
proof (induction xs)
  case (Cons x xs)
  then show ?case by (cases x) (auto simp: List.map_filter_def)
qed (simp add: List.map_filter_def)

lemma match_at_start:
  assumes "s \<noteq> []" "scan s = Some (m, n)"
  shows "m \<in> set (match_all scan 0 s)"
  using assms by (cases s) simp_all


definition plain_links :: link_env where
  "plain_links = \<lparr>le_params = (\<lambda>_. []), le_decode = Some\<rparr>"


end
