(* ===== verification/X_Properties.thy ===== *)
theory X_Properties
  imports Invite_Harvest Source_Properties
begin

text \<open>
  The cursor of the X search: ids are compared as numbers, and no run moves the cursor back.
\<close>

section \<open>Ids\<close>

definition digit_value :: "char \<Rightarrow> nat" where
  "digit_value c = of_char c - 48"

fun id_value :: "string \<Rightarrow> nat" where
  "id_value [] = 0"
| "id_value (c # cs) = digit_value c * 10 ^ length cs + id_value cs"

text \<open>The ids X hands out: decimal, without leading zeros.\<close>

definition snowflake :: "string \<Rightarrow> bool" where
  "snowflake s \<longleftrightarrow> all_digits s \<and> hd s \<noteq> CHR ''0''"

lemma digit_bounds:
  assumes "is_digit c"
  shows "digit_value c \<le> 9" "c \<noteq> CHR ''0'' \<Longrightarrow> 1 \<le> digit_value c"
    and "is_digit b \<Longrightarrow> b < c \<longleftrightarrow> digit_value b < digit_value c"
    and "is_digit b \<Longrightarrow> b = c \<longleftrightarrow> digit_value b = digit_value c"
proof -
  have range: "48 \<le> (of_char c :: nat) \<and> (of_char c :: nat) \<le> 57" if "is_digit c" for c
    using that by (simp add: is_digit_def less_eq_char_def)
  have eq: "b = c \<longleftrightarrow> (of_char b :: nat) = of_char c" for b c :: char by (simp add: of_char_eq_iff)
  show "digit_value c \<le> 9" using range [OF assms] unfolding digit_value_def by linarith
  show "1 \<le> digit_value c" if "c \<noteq> CHR ''0''"
  proof -
    have "(of_char c :: nat) \<noteq> 48" using that eq [of c "CHR ''0''"] by simp
    with range [OF assms] show ?thesis unfolding digit_value_def by linarith
  qed
  show "b < c \<longleftrightarrow> digit_value b < digit_value c" if "is_digit b"
    using range [OF assms] range [OF that] by (auto simp: digit_value_def less_char_def)
  show "b = c \<longleftrightarrow> digit_value b = digit_value c" if "is_digit b"
    unfolding eq digit_value_def using range [OF assms] range [OF that] by (intro iffI; linarith)
qed

lemma id_value_less: "list_all is_digit s \<Longrightarrow> id_value s < 10 ^ length s"
proof (induction s)
  case (Cons c cs)
  then have "digit_value c \<le> 9" "id_value cs < 10 ^ length cs" using digit_bounds(1) by auto
  moreover from this(1) have "digit_value c * 10 ^ length cs \<le> 9 * 10 ^ length cs" by (rule mult_right_mono) simp
  ultimately have "digit_value c * 10 ^ length cs + id_value cs < 9 * 10 ^ length cs + 10 ^ length cs" by linarith
  then show ?case by simp
qed simp

lemma id_value_ge:
  assumes "snowflake s"
  shows "10 ^ (length s - 1) \<le> id_value s"
proof -
  from assms obtain c cs where s: "s = c # cs" "is_digit c" "c \<noteq> CHR ''0''"
    by (cases s) (auto simp: snowflake_def all_digits_def)
  then have "1 \<le> digit_value c" using digit_bounds(2) by blast
  then have "1 * 10 ^ length cs \<le> digit_value c * 10 ^ length cs" by (rule mult_right_mono) simp
  then have "10 ^ length cs \<le> digit_value c * 10 ^ length cs + id_value cs" by linarith
  with s show ?thesis by simp
qed

lemma longer_is_greater:
  assumes "snowflake a" "snowflake b" "length a < length b"
  shows "id_value a < id_value b"
proof -
  have "id_value a < 10 ^ length a" using id_value_less assms(1) by (simp add: snowflake_def all_digits_def)
  also have "(10 :: nat) ^ length a \<le> 10 ^ (length b - 1)" using assms(3) by (intro power_increasing) auto
  also have "\<dots> \<le> id_value b" by (rule id_value_ge [OF assms(2)])
  finally show ?thesis .
qed

lemma same_length_order:
  assumes "length a = length b" "list_all is_digit a" "list_all is_digit b"
  shows "a < b \<longleftrightarrow> id_value a < id_value b"
  using assms
proof (induction a b rule: list_induct2)
  case (Cons x xs y ys)
  have tails: "id_value xs < 10 ^ length ys" "id_value ys < 10 ^ length ys"
    using id_value_less [of xs] id_value_less [of ys] Cons by auto
  have digits: "is_digit x" "is_digit y" using Cons.prems by auto
  show ?case
  proof (cases "digit_value x = digit_value y")
    case True
    then have "x = y" using digit_bounds(4) digits by blast
    then show ?thesis using Cons by simp
  next
    case False
    have gap: "m * 10 ^ length ys + p < n * 10 ^ length ys + q" if "m < n" "p < 10 ^ length ys" for m n p q :: nat
    proof -
      have "Suc m * 10 ^ length ys \<le> n * 10 ^ length ys" using that(1) by (intro mult_right_mono) auto
      with that(2) show ?thesis by simp
    qed
    have "x \<noteq> y" using False by auto
    with gap [of "digit_value x" "digit_value y" "id_value xs" "id_value ys"]
      gap [of "digit_value y" "digit_value x" "id_value ys" "id_value xs"] tails False digits digit_bounds(3) Cons.hyps
    show ?thesis by (auto simp: nat_neq_iff)
  qed
qed simp

text \<open>The comparison of the code is the comparison of the numbers.\<close>

lemma snowflakes_compare_as_numbers:
  assumes "snowflake a" "snowflake b"
  shows "0 < compare_snowflake_id a b \<longleftrightarrow> id_value b < id_value a"
proof -
  have digits: "all_digits a" "all_digits b" using assms by (auto simp: snowflake_def)
  consider "length a < length b" | "length b < length a" | "length a = length b" by linarith
  then show ?thesis
  proof cases
    case 3
    then have "b < a \<longleftrightarrow> id_value b < id_value a" using digits same_length_order [of b a] by (simp add: all_digits_def)
    then show ?thesis using 3 by (auto simp: compare_snowflake_id_def compare_strings_def)
  qed (use longer_is_greater [OF assms] longer_is_greater [OF assms(2,1)] digits
      in \<open>auto simp: compare_snowflake_id_def\<close>)
qed

lemma newer_id_grows:
  assumes "snowflake s" "\<forall>n. page = Some n \<longrightarrow> snowflake n"
  shows "\<exists>n. newer_id (Some s) page = Some n \<and> snowflake n \<and> id_value s \<le> id_value n \<and>
    (\<forall>m. page = Some m \<longrightarrow> id_value m \<le> id_value n)"
proof (cases page)
  case (Some n)
  then have "snowflake n" "n \<noteq> []" "s \<noteq> []" using assms by (auto simp: snowflake_def all_digits_def)
  then show ?thesis using Some snowflakes_compare_as_numbers [OF \<open>snowflake n\<close> assms(1)] assms(1)
    by (auto simp: newer_id_def)
qed (use assms in \<open>simp add: newer_id_def\<close>)

section \<open>The run\<close>

text \<open>Every page the client returns names an id of X as its newest.\<close>

definition pages_name_ids :: "'e x_env \<Rightarrow> bool" where
  "pages_name_ids X \<longleftrightarrow> (\<forall>q e page n. fst (hx_search X q e) = Inr page \<and> xg_newest page = Some n \<longrightarrow> snowflake n)"

definition not_before :: "string \<Rightarrow> string option \<Rightarrow> bool" where
  "not_before s newest \<longleftrightarrow> (\<exists>n. newest = Some n \<and> snowflake n \<and> id_value s \<le> id_value n)"

lemma leads_any: "(\<And>w a w'. P w \<Longrightarrow> m w = (Inr a, w') \<Longrightarrow> Q a) \<Longrightarrow> leads P m (\<lambda>_. True) (\<lambda>a _. Q a)"
  by (rule leadsI) auto

lemma leads_pages:
  assumes "pages_name_ids X" "not_before s newest"
  shows "leads (\<lambda>_. True) (read_x_pages X joined n since token newest st) (\<lambda>_. True) (\<lambda>a _. not_before s (fst a))"
  using assms(2)
proof (induction n arbitrary: token newest st)
  case 0
  then show ?case by (cases st) (simp add: leads_return)
next
  case (Suc n)
  obtain seen t where st: "st = (seen, t)" by fastforce
  have page: "not_before s (newer_id newest (xg_newest page))" if "\<forall>m. xg_newest page = Some m \<longrightarrow> snowflake m" for page
  proof -
    obtain k where k: "newest = Some k" "snowflake k" "id_value s \<le> id_value k"
      using Suc.prems by (auto simp: not_before_def)
    from newer_id_grows [OF k(2) that] k(1,3) show ?thesis by (auto simp: not_before_def)
  qed
  have search: "leads (\<lambda>_. True) (search_x X q) (\<lambda>_. True) (\<lambda>page _. \<forall>m. xg_newest page = Some m \<longrightarrow> snowflake m)" for q
    by (rule leads_any)
      (use assms(1) in \<open>auto simp: search_x_def pages_name_ids_def call_then_def ask_job_def io_res_def split: prod.splits\<close>, metis fst_conv)
  show ?case
    unfolding st read_x_pages.simps Let_def
  proof (rule leads_then [OF search])
    fix page
    let ?next = "newer_id newest (xg_newest page)"
    let ?t = "t\<lparr>xt_pages := Suc (xt_pages t), xt_posts := xt_posts t + length (xg_posts page)\<rparr>"
    show "leads (\<lambda>_. \<forall>m. xg_newest page = Some m \<longrightarrow> snowflake m)
       (call_then (process_x_posts X joined (xg_posts page) (seen, ?t)) (\<lambda>(seen2, t2).
          case xg_next page of None \<Rightarrow> io_return (?next, t2)
          | Some token \<Rightarrow> if token = [] then io_return (?next, t2)
              else read_x_pages X joined n since (Some token) ?next (seen2, t2)))
       (\<lambda>_. True) (\<lambda>a _. not_before s (fst a))"
    proof (rule leads_then [where R = "\<lambda>_ _. not_before s ?next"])
      show "leads (\<lambda>_. \<forall>m. xg_newest page = Some m \<longrightarrow> snowflake m) (process_x_posts X joined (xg_posts page) (seen, ?t))
          (\<lambda>_. True) (\<lambda>_ _. not_before s ?next)"
        by (rule leads_any) (rule page)
      fix a :: "string list \<times> x_tally"
      obtain seen2 t2 where a: "a = (seen2, t2)" by fastforce
      show "leads (\<lambda>_. not_before s ?next) (case a of (seen2, t2) \<Rightarrow>
          case xg_next page of None \<Rightarrow> io_return (?next, t2)
          | Some token \<Rightarrow> if token = [] then io_return (?next, t2)
              else read_x_pages X joined n since (Some token) ?next (seen2, t2))
          (\<lambda>_. True) (\<lambda>a _. not_before s (fst a))"
      proof (cases "not_before s ?next")
        case True
        note more = leads_weaken [OF Suc.IH [OF True]]
        show ?thesis unfolding a prod.case
          by (intro leads_option leads_if leads_return more) (auto simp: True)
      qed (simp add: leads_def)
    qed
  qed
qed

lemma leads_on_any:
  assumes "leads (\<lambda>_. True) m (\<lambda>_. True) (\<lambda>a _. Q a)"
  shows "leads (kept (\<lambda>d. P)) (on_job m) (kept (\<lambda>d. P)) (\<lambda>a w. kept (\<lambda>d. P) w \<and> Q a)"
  using assms by (auto simp: leads_def kept_def on_job_def split: prod.splits) (metis fst_conv)

lemma state_of_source_key: "state_of_source key ss = Some s \<Longrightarrow> ss_key s = key"
  by (auto simp: state_of_source_def find_Some_iff)

lemma success_sets_cursor:
  assumes "record_source_success key cursor t now ss = (u, ss')"
  shows "cursor_in key ss' = cursor"
proof (cases "state_of_source key ss")
  case None
  with assms show ?thesis
    by (auto simp: record_source_success_def upsert_state_def cursor_in_def state_of_append split: option.splits)
next
  case (Some s)
  with assms state_of_source_key [OF Some] show ?thesis
    by (auto simp: record_source_success_def upsert_state_def cursor_in_def find_update_other)
qed

lemma x_cursor_read: "sanitize_x_cursor (x_cursor (Some s)) = Some s" "x_cursor a \<noteq> JNull"
  by (simp_all add: sanitize_x_cursor_def x_cursor_def json_field_def)

text \<open>
  The X cursor never goes back: when the client's pages name ids of X as their newest,
  then whatever the pages hold, whatever the database answers and wherever a run stops,
  the stored cursor is the one before, or that of an id that is at least as high as a number.
\<close>

lemma x_cursor_never_goes_back:
  assumes ids: "pages_name_ids X" "snowflake s"
    and stored: "cursor_in ''x'' (sw_states w) = x_cursor (Some s)"
    and run: "harvest_x_invites X w = (r, w')"
  shows "\<exists>n. cursor_in ''x'' (sw_states w') = x_cursor (Some n) \<and> snowflake n \<and> id_value s \<le> id_value n"
proof -
  define fine where "fine ss \<longleftrightarrow> (\<exists>n. cursor_in ''x'' ss = x_cursor n \<and> not_before s n)" for ss
  let ?P = "kept (\<lambda>d. fine)"
  have start: "not_before s (Some s)" using ids(2) by (simp add: not_before_def)
  have failed: "leads ?P (fail_x X e :: ('a, x_tally) source_run) ?P (\<lambda>_. ?P)" for e
    unfolding fail_x_def
  proof (rule leads_then [where R = "\<lambda>_. ?P"])
    show "leads ?P (state_query (hx_job X) (record_source_failure ''x'' (case e of Api code x \<Rightarrow> code | _ \<Rightarrow> ''remote_failed'')))
        ?P (\<lambda>_. ?P)"
      by (rule leads_state_query) (simp_all add: fine_def failure_keeps_cursor)
  qed (rule leads_throw, simp)
  have body: "leads ?P (reconcile_x X joined (Some s)) ?P (\<lambda>_. ?P)" for joined
    unfolding reconcile_x_def
  proof (rule leads_then [OF leads_on_any [OF leads_pages [OF ids(1) start]]])
    fix a :: "string option \<times> x_tally"
    obtain newest t where a: "a = (newest, t)" by fastforce
    have "leads ?P (state_query (hx_job X) (record_source_success ''x'' (x_cursor newest) (x_result t))) ?P (\<lambda>_. ?P)"
      if "not_before s newest"
      by (rule leads_state_query) (use that success_sets_cursor in \<open>auto simp: fine_def\<close>)
    then have "leads ?P (call_then (state_query (hx_job X) (record_source_success ''x'' (x_cursor newest) (x_result t)))
        (\<lambda>_. io_return t)) ?P (\<lambda>_. ?P)" if "not_before s newest"
      using that by (intro leads_then [where R = "\<lambda>_. ?P"] leads_return) auto
    then show "leads (\<lambda>w. ?P w \<and> not_before s (fst a))
        (case a of (newest, t) \<Rightarrow> call_then (state_query (hx_job X)
          (record_source_success ''x'' (x_cursor newest) (x_result t))) (\<lambda>_. io_return t)) ?P (\<lambda>_. ?P)"
      unfolding a prod.case fst_conv leads_def by blast
  qed
  have fine: "fine (sw_states w)" using stored start unfolding fine_def by blast
  have "JObj [] \<noteq> x_cursor (Some s)" by (simp add: x_cursor_def)
  then obtain row where row: "state_of_source ''x'' (sw_states w) = Some row" "ss_cursor row = x_cursor (Some s)"
    using stored by (auto simp: cursor_in_def split: option.splits)
  have read: "leads (kept (\<lambda>d ss. ss = sw_states w)) (state_query (hx_job X) (get_source_cursor ''x'' (x_cursor None))) ?P
      (\<lambda>cur w. ?P w \<and> sanitize_x_cursor cur = Some s)"
  proof (rule leads_weaken [OF leads_state_query [where P = "\<lambda>d ss. ss = sw_states w" and I = "\<lambda>d. fine"
      and Q = "\<lambda>cur d ss. fine ss \<and> sanitize_x_cursor cur = Some s"]])
    show "fine ss' \<and> (fine ss' \<and> sanitize_x_cursor cur = Some s)"
      if "ss = sw_states w" "get_source_cursor ''x'' (x_cursor None) now ss = (cur, ss')" for d :: directory and now ss ss' cur
    proof -
      have "cur = x_cursor (Some s)" "ss' = sw_states w"
        using that row x_cursor_read(2) by (simp_all add: get_source_cursor_def)
      with fine that(1) x_cursor_read(1) show ?thesis by simp
    qed
  qed (auto simp: kept_def fine)
  have "leads (kept (\<lambda>d ss. ss = sw_states w)) (harvest_x_invites X) ?P (\<lambda>_. ?P)"
    unfolding harvest_x_invites_def
  proof (rule leads_then [OF read])
    fix cur
    let ?rest = "call_then (on_job (dir_query (hx_job X) (\<lambda>_. list_joined_communities))) (\<lambda>joined.
        io_catch (reconcile_x X (joined_hosts joined) (sanitize_x_cursor cur)) (fail_x X))"
    have "leads ?P (on_job (dir_query (hx_job X) (\<lambda>_. list_joined_communities))) ?P (\<lambda>a w. ?P w \<and> True)"
      by (rule leads_on_any) (simp add: leads_def)
    then have "leads ?P ?rest ?P (\<lambda>_. ?P)" if "sanitize_x_cursor cur = Some s"
      unfolding that by (rule leads_then) (use leads_catch [OF body failed] in simp)
    then show "leads (\<lambda>w. ?P w \<and> sanitize_x_cursor cur = Some s) ?rest ?P (\<lambda>_. ?P)"
      unfolding leads_def by blast
  qed
  from leadsD [OF this _ run] have "?P w'" by (simp add: kept_def)
  then show ?thesis by (auto simp: kept_def fine_def not_before_def)
qed

end
