(* ===== verification/Public_Directory.thy ===== *)
theory Public_Directory
  imports Ranking Guards
begin

text \<open>
  db/directory.ts and db/curation.ts: the listing the public sees, computed from the
  directory, the communities' profiles, the metrics and the summaries, and the decisions of
  the operators that change it.
\<close>

section \<open>Profiles and summaries\<close>

datatype visibility = Internal | Public_profile | Suppressed_profile
datatype claim_state = Unclaimed | Admin_verified | Provider_verified | Disputed
datatype focus_source = Classified | Operator | Confirmed

record profile =
  pf_id :: uuid
  pf_candidate :: uuid
  pf_slug :: "string option"
  pf_visibility :: visibility
  pf_claim :: claim_state
  pf_name :: "string option"
  pf_description :: "string option"
  pf_categories :: "string list"
  pf_join_mode :: string
  pf_join_url :: "string option"
  pf_focus :: "string option"
  pf_focus_source :: "focus_source option"
  pf_override :: "string option"
  pf_curated_at :: "time option"
  pf_curated_by :: "string option"

text \<open>What the agent's summary of a community it joined adds to its listing.\<close>

record activity =
  av_host :: string
  av_goals :: "string option"
  av_tagline :: "string option"
  av_active :: "int option"
  av_members :: "int option"
  av_level :: "string option"
  av_messages :: "int option"
  av_window :: "int option"
  av_projects :: json
  av_summarized :: "time option"

record catalog =
  cg_dir :: directory
  cg_profiles :: "profile list"
  cg_metrics :: "metrics list"
  cg_activity :: "activity list"
  cg_hub :: db

definition profile_of :: "uuid \<Rightarrow> catalog \<Rightarrow> profile option" where
  "profile_of i g = find (\<lambda>p. pf_candidate p = i) (cg_profiles g)"

text \<open>A column shown only while the profile is public.\<close>

definition when_public :: "(profile \<Rightarrow> 'a option) \<Rightarrow> profile option \<Rightarrow> 'a option" where
  "when_public f p = (case p of None \<Rightarrow> None
     | Some q \<Rightarrow> if pf_visibility q = Public_profile then f q else None)"

section \<open>The columns of a listing\<close>

text \<open>\<open>initcap(replace(split_part(host, '.', 1), '-', ' '))\<close>\<close>

definition js_upper_char :: "char \<Rightarrow> char" where
  "js_upper_char c = (if is_lower c then char_of ((of_char c :: nat) - 32) else c)"

fun capitals :: "bool \<Rightarrow> string \<Rightarrow> string" where
  "capitals inside [] = []"
| "capitals inside (c # cs) = (if inside then js_lower_char c else js_upper_char c) #
     capitals (is_lower c \<or> is_upper c \<or> is_digit c) cs"

definition name_of_host :: "string \<Rightarrow> string" where
  "name_of_host host = capitals False
     (map (\<lambda>c. if c = CHR ''-'' then CHR '' '' else c) (takeWhile (\<lambda>c. c \<noteq> CHR ''.'') host))"

text \<open>The newest row of the catalogue that names the relay.\<close>

definition catalog_row :: "directory \<Rightarrow> uuid \<Rightarrow> listing option" where
  "catalog_row d i = map_option so_listing (first_by (\<lambda>s. - so_observed s)
     (filter (\<lambda>s. so_candidate s = i \<and> so_type s = ''buzzdir'' \<and> ls_name (so_listing s) \<noteq> None) (dr_sources d)))"

text \<open>\<open>source_public_url ~ '^https?://[^/]+/?$'\<close>\<close>

definition bare_origin :: "string \<Rightarrow> bool" where
  "bare_origin u =
     (let after = (if take 8 u = ''https://'' then Some (drop 8 u)
                   else if take 7 u = ''http://'' then Some (drop 7 u) else None)
      in case after of None \<Rightarrow> False
         | Some s \<Rightarrow> let host = takeWhile (\<lambda>c. c \<noteq> CHR ''/'') s in host \<noteq> [] \<and> drop (length host) s \<in> {[], ''/''})"

definition listed_public_url :: "directory \<Rightarrow> uuid \<Rightarrow> string option" where
  "listed_public_url d i = map_option (\<lambda>s. the (ls_public_url (so_listing s))) (first_by (\<lambda>s. - so_observed s)
     (filter (\<lambda>s. so_candidate s = i \<and> (case ls_public_url (so_listing s) of
        None \<Rightarrow> False | Some u \<Rightarrow> \<not> bare_origin u)) (dr_sources d)))"

definition display_name :: "catalog \<Rightarrow> dir_candidate \<Rightarrow> snapshot \<Rightarrow> string" where
  "display_name g c s =
     (let p = profile_of (cand_id c) g in
      case or_else (case p of None \<Rightarrow> None | Some q \<Rightarrow> pf_override q)
          (or_else (when_public pf_name p)
          (or_else (case catalog_row (cg_dir g) (cand_id c) of None \<Rightarrow> None | Some l \<Rightarrow> ls_name l)
            (case sn_name s of None \<Rightarrow> None
             | Some n \<Rightarrow> if to_lower n \<in> {''buzz'', ''buzz relay''} then None else Some n))) of
        Some n \<Rightarrow> n | None \<Rightarrow> name_of_host (cand_host c))"

definition activity_of :: "string \<Rightarrow> catalog \<Rightarrow> activity option" where
  "activity_of host g = find (\<lambda>a. av_host a = host) (cg_activity g)"

definition listed_description :: "catalog \<Rightarrow> dir_candidate \<Rightarrow> snapshot \<Rightarrow> string option" where
  "listed_description g c s =
     or_else (when_public pf_description (profile_of (cand_id c) g))
     (or_else (case catalog_row (cg_dir g) (cand_id c) of None \<Rightarrow> None | Some l \<Rightarrow> ls_description l)
     (or_else (case activity_of (cand_host c) g of None \<Rightarrow> None
               | Some a \<Rightarrow> if av_goals a = Some [] then None else av_goals a)
       (sn_description s)))"

definition listed_categories :: "catalog \<Rightarrow> dir_candidate \<Rightarrow> string list" where
  "listed_categories g c =
     (case or_else (when_public (\<lambda>p. Some (pf_categories p)) (profile_of (cand_id c) g))
         (map_option ls_categories (catalog_row (cg_dir g) (cand_id c))) of
        None \<Rightarrow> [] | Some cs \<Rightarrow> cs)"

text \<open>An endpoint of the community takes part in the hub.\<close>

definition connected_to_hub :: "catalog \<Rightarrow> uuid \<Rightarrow> bool" where
  "connected_to_hub g i = (case profile_of i g of
     None \<Rightarrow> False
   | Some p \<Rightarrow> list_ex (\<lambda>e. ep_community e = pf_id p \<and> ep_state e = Endpoint_active \<and>
       list_ex (\<lambda>ch. ch_id ch = ep_channel e \<and> ch_mode ch = Mode_hub \<and> ch_state ch = Channel_active)
         (channels (cg_hub g))) (endpoints (cg_hub g)))"

text \<open>\<open>numeric(5,2)::text\<close>; a candidate without metrics has the text of the integer 0.\<close>

definition score_text :: "real \<Rightarrow> string" where
  "score_text r = (let n = nat \<lfloor>r * 100\<rfloor> in
     show_nat (n div 100) @ ''.'' @ show_nat (n mod 100 div 10) @ show_nat (n mod 10))"

record entry =
  en_id :: uuid
  en_url :: string
  en_host :: string
  en_name :: string
  en_description :: "string option"
  en_categories :: "string list"
  en_claimed :: bool
  en_connected :: bool
  en_slug :: "string option"
  en_join_mode :: "string option"
  en_join_url :: "string option"
  en_verified_at :: time
  en_open_ms :: "nat option"
  en_version :: "string option"
  en_nips :: "nat list"
  en_auth_required :: "bool option"
  en_evidence :: nat
  en_sources :: "string list"
  en_icon :: bool
  en_public_url :: "string option"
  en_invite :: "string option"
  en_join_status :: "join_status option"
  en_first_seen :: time
  en_focus :: "string option"
  en_activity :: "activity option"
  en_metrics :: "metrics option"

definition entry_of :: "time \<Rightarrow> catalog \<Rightarrow> dir_candidate \<Rightarrow> snapshot \<Rightarrow> entry" where
  "entry_of now g c s =
     (let d = cg_dir g; i = cand_id c; p = profile_of i g; rows = filter (\<lambda>x. so_candidate x = i) (dr_sources d)
      in \<lparr>en_id = i, en_url = cand_relay_url c, en_host = cand_host c, en_name = display_name g c s,
          en_description = listed_description g c s, en_categories = listed_categories g c,
          en_claimed = (when_public (\<lambda>q. if pf_claim q \<in> {Admin_verified, Provider_verified} then Some () else None) p \<noteq> None),
          en_connected = connected_to_hub g i, en_slug = when_public pf_slug p,
          en_join_mode = when_public (\<lambda>q. Some (pf_join_mode q)) p, en_join_url = when_public pf_join_url p,
          en_verified_at = sn_probed s, en_open_ms = sn_open_ms s, en_version = sn_version s, en_nips = sn_nips s,
          en_auth_required = sn_auth_required s, en_evidence = length rows,
          en_sources = sort (remdups (map so_type rows)), en_icon = has_row (\<lambda>x. fst x = i) (dr_icons d),
          en_public_url = listed_public_url d i, en_invite = advertised_code d i,
          en_join_status = directory_join_status now d i, en_first_seen = dc_first_seen c,
          en_focus = (case p of None \<Rightarrow> None | Some q \<Rightarrow> pf_focus q),
          en_activity = activity_of (cand_host c) g, en_metrics = find (\<lambda>m. mt_candidate m = i) (cg_metrics g)\<rparr>)"

text \<open>The common table expression: one row for each candidate listed.\<close>

definition directory_rows :: "time \<Rightarrow> catalog \<Rightarrow> entry list" where
  "directory_rows now g = concat (map (\<lambda>c. case latest_verified (cg_dir g) (cand_id c) of
       Some s \<Rightarrow> if is_listed now (cg_dir g) c then [entry_of now g c s] else []
     | None \<Rightarrow> []) (dr_candidates (cg_dir g)))"

section \<open>Search, order, limit\<close>

text \<open>\<open>LIKE\<close>: a percent sign matches any text, an underscore any character, a backslash escapes.\<close>

fun like :: "string \<Rightarrow> string \<Rightarrow> bool" where
  "like [] s \<longleftrightarrow> s = []"
| "like (p # ps) s \<longleftrightarrow>
     (if p = CHR ''%'' then like ps s \<or> (case s of [] \<Rightarrow> False | _ # cs \<Rightarrow> like (p # ps) cs)
      else case s of [] \<Rightarrow> False
      | c # cs \<Rightarrow>
          (if p = CHR ''_'' then like ps cs
           else if p = CHR 0x5C then (case ps of [] \<Rightarrow> False | q # qs \<Rightarrow> q = c \<and> like qs cs)
           else p = c \<and> like ps cs))"

text \<open>\<open>text ILIKE '%' || term || '%'\<close>\<close>

definition ilike_within :: "string \<Rightarrow> string \<Rightarrow> bool" where
  "ilike_within s text \<longleftrightarrow> like (to_lower (''%'' @ s @ ''%'')) (to_lower text)"

definition matches_search :: "string \<Rightarrow> entry \<Rightarrow> bool" where
  "matches_search s e \<longleftrightarrow> s = [] \<or> ilike_within s (en_name e) \<or>
     ilike_within s (case en_description e of None \<Rightarrow> [] | Some t \<Rightarrow> t) \<or>
     list_ex (ilike_within s) (en_categories e)"

definition matches_category :: "string \<Rightarrow> entry \<Rightarrow> bool" where
  "matches_category c e \<longleftrightarrow> c = [] \<or> c \<in> set (en_categories e)"

text \<open>The columns the order compares: two of them are numbers cast to text.\<close>

definition evidence_text :: "entry \<Rightarrow> string" where
  "evidence_text e = show_nat (en_evidence e)"

definition reliability_text :: "entry \<Rightarrow> string" where
  "reliability_text e = (case en_metrics e of None \<Rightarrow> ''0'' | Some m \<Rightarrow> score_text (mt_reliability_score m))"

definition evidence_rank :: "entry \<Rightarrow> nat" where
  "evidence_rank e = (case en_metrics e of None \<Rightarrow> 0 | Some m \<Rightarrow> if mt_evidence_sufficient m then 1 else 0)"

text \<open>A stable sort from the highest down; the last key is sorted first.\<close>

definition desc_by :: "(entry \<Rightarrow> 'k::linorder) \<Rightarrow> entry list \<Rightarrow> entry list" where
  "desc_by f es = rev (sort_key f (rev es))"

definition directory_sorts :: "string list" where
  "directory_sorts = [''evidence'', ''recent'', ''reliable'', ''new'']"

definition order_entries :: "string \<Rightarrow> entry list \<Rightarrow> entry list" where
  "order_entries order es =
     (let by_host = sort_key en_host es in
      if order = ''recent'' then desc_by en_verified_at (desc_by evidence_text by_host)
      else if order = ''reliable'' then
        desc_by evidence_rank (desc_by reliability_text (desc_by en_verified_at by_host))
      else if order = ''new'' then desc_by en_first_seen by_host
      else desc_by evidence_text (desc_by en_verified_at by_host))"

record directory_query =
  dq_category :: "string option"
  dq_limit :: "int option"
  dq_search :: "string option"
  dq_sort :: "string option"

definition or_default :: "'a \<Rightarrow> 'a option \<Rightarrow> 'a" where
  "or_default a b = (case b of None \<Rightarrow> a | Some x \<Rightarrow> x)"

definition category_char :: "char \<Rightarrow> bool" where
  "category_char c \<longleftrightarrow> is_lower c \<or> is_digit c \<or> c = CHR ''-''"

definition normalize_category :: "string option \<Rightarrow> string" where
  "normalize_category category =
     (let s = to_lower (trim (or_default [] category))
      in if length s \<le> 50 \<and> list_all category_char s then s else [])"

definition list_directory_communities :: "time \<Rightarrow> catalog \<Rightarrow> directory_query \<Rightarrow> entry list res" where
  "list_directory_communities now g q =
     (let limit = or_default 100 (dq_limit q); search = take 100 (trim (or_default [] (dq_search q)));
          order = or_default ''evidence'' (dq_sort q)
      in if limit < 1 \<or> limit > 200 then Inl Raw
         else if order \<notin> set directory_sorts then Inl Raw
         else if \<not> text_ok (Some search) then Inl (Pg ''22021'')
         else Inr (take (nat limit) (order_entries order
           (filter (\<lambda>e. matches_search search e \<and> matches_category (normalize_category (dq_category q)) e)
             (directory_rows now g)))))"

definition whole_directory :: directory_query where
  "whole_directory = \<lparr>dq_category = None, dq_limit = Some 200, dq_search = None, dq_sort = None\<rparr>"

definition get_community_by_host :: "time \<Rightarrow> catalog \<Rightarrow> string \<Rightarrow> entry option res" where
  "get_community_by_host now g host = (case list_directory_communities now g whole_directory of
     Inl e \<Rightarrow> Inl e | Inr es \<Rightarrow> Inr (find (\<lambda>e. en_host e = host) es))"

definition list_similar_communities :: "time \<Rightarrow> catalog \<Rightarrow> string option \<Rightarrow> string \<Rightarrow> nat \<Rightarrow> entry list res" where
  "list_similar_communities now g focus host n =
     (if focus = None \<or> focus = Some [] then Inr []
      else case list_directory_communities now g whole_directory of
        Inl e \<Rightarrow> Inl e
      | Inr es \<Rightarrow> Inr (take n (filter (\<lambda>e. en_focus e = focus \<and> en_host e \<noteq> host) es)))"

section \<open>What the submission form shows\<close>

record submission_prefill =
  sp_categories :: "string list"
  sp_description :: "string option"
  sp_name :: "string option"
  sp_focus :: "string option"

definition prefill_of :: "catalog \<Rightarrow> dir_candidate \<Rightarrow> submission_prefill" where
  "prefill_of g c =
     (let d = cg_dir g; i = cand_id c; p = profile_of i g;
          row = map_option so_listing (first_by (\<lambda>s. - so_observed s)
            (filter (\<lambda>s. so_candidate s = i \<and> ls_name (so_listing s) \<noteq> None) (dr_sources d)));
          latest = first_by (\<lambda>s. - sn_probed s)
            (filter (\<lambda>s. sn_candidate s = i \<and> (sn_name s \<noteq> None \<or> sn_description s \<noteq> None)) (dr_snapshots d))
      in \<lparr>sp_categories = or_default [] (or_else (when_public (\<lambda>q. Some (pf_categories q)) p) (map_option ls_categories row)),
          sp_description = or_else (when_public pf_description p)
            (or_else (case row of None \<Rightarrow> None | Some l \<Rightarrow> ls_description l)
              (case latest of None \<Rightarrow> None | Some s \<Rightarrow> sn_description s)),
          sp_name = or_else (when_public pf_override p) (or_else (when_public pf_name p)
            (or_else (case row of None \<Rightarrow> None | Some l \<Rightarrow> ls_name l)
              (case latest of None \<Rightarrow> None | Some s \<Rightarrow> sn_name s))),
          sp_focus = (case p of None \<Rightarrow> None | Some q \<Rightarrow> pf_focus q)\<rparr>)"

definition get_submission_prefill :: "catalog \<Rightarrow> string \<Rightarrow> submission_prefill option" where
  "get_submission_prefill g url = map_option (prefill_of g) (candidate_by_url url (cg_dir g))"

section \<open>Decisions of the operators\<close>

definition display_name_override_max :: nat where
  "display_name_override_max = 120"

definition normalize_display_name_override :: "string option \<Rightarrow> string option res" where
  "normalize_display_name_override value = (case value of
     None \<Rightarrow> Inr None
   | Some v \<Rightarrow> if trim v = [] then Inr None
       else if length (trim v) > display_name_override_max then Inl Raw else Inr (Some (trim v)))"

text \<open>A field that is left out is None; one that is given as null is \<open>Some None\<close>.\<close>

record curation =
  cu_candidate :: string
  cu_by :: string
  cu_focus :: "string option option"
  cu_override :: "string option option"

definition bare_profile :: "uuid \<Rightarrow> uuid \<Rightarrow> time \<Rightarrow> string \<Rightarrow> profile" where
  "bare_profile fresh i now by = \<lparr>pf_id = fresh, pf_candidate = i, pf_slug = None, pf_visibility = Internal,
     pf_claim = Unclaimed, pf_name = None, pf_description = None, pf_categories = [],
     pf_join_mode = ''invite_required'', pf_join_url = None, pf_focus = None, pf_focus_source = None,
     pf_override = None, pf_curated_at = Some now, pf_curated_by = Some by\<rparr>"

definition upsert_profile :: "profile \<Rightarrow> (profile \<Rightarrow> profile) \<Rightarrow> catalog \<Rightarrow> catalog" where
  "upsert_profile fresh change g = g\<lparr>cg_profiles :=
     (if has_row (\<lambda>p. pf_candidate p = pf_candidate fresh) (cg_profiles g)
      then update_where (\<lambda>p. pf_candidate p = pf_candidate fresh) change (cg_profiles g)
      else cg_profiles g @ [fresh])\<rparr>"

definition curate_profile :: "curation \<Rightarrow> string option \<Rightarrow> string option \<Rightarrow> profile \<Rightarrow> profile" where
  "curate_profile u focus override p =
     (let p1 = (if cu_focus u = None then p else p\<lparr>pf_focus := focus, pf_focus_source := Some Confirmed\<rparr>)
      in if cu_override u = None then p1 else p1\<lparr>pf_override := override\<rparr>)"

definition set_listing_curation :: "uuid \<Rightarrow> curation \<Rightarrow> time \<Rightarrow> (catalog, unit) tx" where
  "set_listing_curation fresh u now = (\<lambda>g.
     let by = trim (cu_by u); focus = or_default None (cu_focus u); i = uuid_text (cu_candidate u) in
     if \<not> is_uuid (cu_candidate u) \<or> by = [] then Inl Raw
     else if \<not> opt_check is_focus_slug focus then Inl Raw
     else case normalize_display_name_override (or_default None (cu_override u)) of
       Inl e \<Rightarrow> Inl e
     | Inr name \<Rightarrow>
         if \<not> text_ok name \<or> \<not> text_ok (Some by) then Inl (Pg ''22021'')
         else if candidate_by_id i (cg_dir g) = None then Inl (Pg ''23503'')
         else Inr ((), upsert_profile (curate_profile u focus name (bare_profile fresh i now by))
           (\<lambda>p. (curate_profile u focus name p)\<lparr>pf_curated_at := Some now, pf_curated_by := Some by\<rparr>) g))"

definition set_candidate_suppressed :: "uuid \<Rightarrow> string \<Rightarrow> bool \<Rightarrow> string \<Rightarrow> time \<Rightarrow> (catalog, unit) tx" where
  "set_candidate_suppressed fresh candidate suppressed by now = (\<lambda>g.
     let who = trim by; i = uuid_text candidate in
     if \<not> is_uuid candidate \<or> who = [] then Inl Raw
     else if \<not> text_ok (Some who) then Inl (Pg ''22021'')
     else if candidate_by_id i (cg_dir g) = None then Inr ((), g)
     else Inr ((), upsert_profile (bare_profile fresh i now who)
       (\<lambda>p. p\<lparr>pf_curated_at := Some now, pf_curated_by := Some who\<rparr>)
       (g\<lparr>cg_dir := update_candidates (\<lambda>c. cand_id c = i)
          (\<lambda>c. if suppressed then c\<lparr>cand_state := Suppressed\<rparr>
               else c\<lparr>cand_state := Discovered, dc_next_probe := now\<rparr>) (cg_dir g)\<rparr>)))"

end
