(* ===== verification/Public_Properties.thy ===== *)
theory Public_Properties
  imports Public_Directory Directory_Properties
begin

text \<open>
  What the public listing shows and what it does not, in which order, and what a decision of
  an operator changes.
\<close>

section \<open>The rows of a listing\<close>

lemma set_desc_by [simp]: "set (desc_by f es) = set es"
  by (simp add: desc_by_def)

lemma set_order_entries [simp]: "set (order_entries order es) = set es"
  by (simp add: order_entries_def Let_def)

lemma listed_entry:
  assumes "list_directory_communities now g q = Inr es" "e \<in> set es"
  shows "\<exists>c s. c \<in> set (dr_candidates (cg_dir g)) \<and> is_listed now (cg_dir g) c \<and>
    latest_verified (cg_dir g) (cand_id c) = Some s \<and> e = entry_of now g c s"
proof -
  have "e \<in> set (directory_rows now g)"
    using assms by (auto simp: list_directory_communities_def Let_def split: if_splits dest!: in_set_takeD)
  then obtain c where c: "c \<in> set (dr_candidates (cg_dir g))" "e \<in> set (case latest_verified (cg_dir g) (cand_id c) of
      Some s \<Rightarrow> if is_listed now (cg_dir g) c then [entry_of now g c s] else [] | None \<Rightarrow> [])"
    by (auto simp: directory_rows_def)
  then obtain s where "latest_verified (cg_dir g) (cand_id c) = Some s"
    by (cases "latest_verified (cg_dir g) (cand_id c)") auto
  with c show ?thesis by (auto split: if_splits)
qed

lemma latest_verified_Some:
  assumes "latest_verified d i = Some s"
  shows "s \<in> set (dr_snapshots d) \<and> sn_candidate s = i \<and> sn_result s = ''exact_software_and_protocol'' \<and> sn_tls s"
  using first_by_Some [OF assms [unfolded latest_verified_def]] by simp

lemma advertised_code_Some:
  assumes "advertised_code d i = Some code"
  shows "is_buzz_invite_code code \<and> (\<exists>x \<in> set (dr_sources d). so_candidate x = i \<and> ls_invite (so_listing x) = Some code)"
proof -
  obtain x where x: "first_by (\<lambda>s. - so_observed s) (filter (\<lambda>s. so_candidate s = i \<and>
      (case ls_invite (so_listing s) of None \<Rightarrow> False | Some c \<Rightarrow> is_buzz_invite_code c)) (dr_sources d)) = Some x"
    "code = the (ls_invite (so_listing x))"
    using assms by (auto simp: advertised_code_def)
  from first_by_Some [OF x(1)] x(2) show ?thesis by (auto split: option.splits)
qed

lemma verdict_Some:
  assumes "directory_join_status now d i = Some st"
  shows "\<exists>p \<in> set (dr_join_probes d). jn_candidate p = i \<and> jn_status p = st \<and> jn_code p = advertised_code d i \<and>
    now - seconds (12 * 3600) \<le> jn_probed p"
  using assms
  by (auto simp: directory_join_status_def join_probe_of_def find_Some_iff split: option.splits if_splits)


section \<open>Suppression\<close>

text \<open>
  C30. A suppressed community is not listed: from an operator's suppression on, after any
  queries of sources, probes, jobs and forms, at any time, with whatever search, order and
  limit and whatever the other tables hold, no listing contains it.
\<close>

theorem suppressed_community_is_not_listed:
  assumes ok: "directory_ok (cg_dir g)" and known: "candidate_by_id (uuid_text i) (cg_dir g) \<noteq> None"
    and run: "set_candidate_suppressed fresh i True by now g = Inr ((), g')"
    and later: "(directory_step W)\<^sup>*\<^sup>* (cg_dir g') (cg_dir g2)"
    and listed: "list_directory_communities t g2 q = Inr es"
  shows "uuid_text i \<notin> en_id ` set es"
proof
  assume "uuid_text i \<in> en_id ` set es"
  then obtain e where es: "e \<in> set es" and e: "en_id e = uuid_text i" by auto
  have d': "cg_dir g' = update_candidates (\<lambda>c. cand_id c = uuid_text i) (\<lambda>c. c\<lparr>cand_state := Suppressed\<rparr>) (cg_dir g)"
    using run known by (auto simp: set_candidate_suppressed_def upsert_profile_def Let_def split: if_splits)
  have ok': "directory_ok (cg_dir g')"
    unfolding d' by (rule update_candidates_ok [OF _ _ ok]) simp_all
  have "directory_ok (cg_dir g2)"
    using later ok' by (induction rule: rtranclp_induct) (auto intro: directory_step_ok)
  then have ids: "distinct (map cand_id (dr_candidates (cg_dir g2)))"
    by (simp add: directory_ok_def candidates_fine_def)
  obtain c where c: "c \<in> set (dr_candidates (cg_dir g))" "cand_id c = uuid_text i"
    using known unfolding candidate_by_id_ids candidate_ids_def by auto
  then have "c\<lparr>cand_state := Suppressed\<rparr> \<in> set (dr_candidates (cg_dir g'))"
    unfolding d' by (auto simp: update_candidates_def in_updated_rows)
  from suppression_is_final [OF later this] c(2)
  obtain c2 where c2: "c2 \<in> set (dr_candidates (cg_dir g2))" "cand_id c2 = uuid_text i" "cand_state c2 = Suppressed"
    by auto
  obtain c3 s where c3: "c3 \<in> set (dr_candidates (cg_dir g2))" "is_listed t (cg_dir g2) c3" "e = entry_of t g2 c3 s"
    using listed_entry [OF listed es] by blast
  then have "cand_id c3 = uuid_text i" using e by (simp add: entry_of_def Let_def)
  then have "c3 = c2" using ids c2 c3(1) by (metis inj_on_eq_iff distinct_map)
  then show False using c2(3) c3(2) by (simp add: is_listed_def)
qed

section \<open>Order\<close>

text \<open>A stable descending sort: by the key, and where keys agree as before.\<close>

definition descending :: "(entry \<Rightarrow> 'k::linorder) \<Rightarrow> (entry \<Rightarrow> entry \<Rightarrow> bool) \<Rightarrow> entry \<Rightarrow> entry \<Rightarrow> bool" where
  "descending f R a b \<longleftrightarrow> f b < f a \<or> f a = f b \<and> R a b"

lemma sorted_descending:
  assumes "sorted_wrt (\<lambda>a b. f b \<le> f a) zs" "\<And>k. sorted_wrt R (filter (\<lambda>z. f z = k) zs)"
  shows "sorted_wrt (descending f R) zs"
  using assms
proof (induction zs)
  case (Cons z zs)
  have tail: "sorted_wrt R (filter (\<lambda>z. f z = k) zs)" for k
    using Cons.prems(2) [of k] by (simp split: if_splits)
  have "descending f R z b" if b: "b \<in> set zs" for b
  proof (cases "f b = f z")
    case True
    with Cons.prems(2) [of "f z"] b show ?thesis by (simp add: descending_def)
  next
    case False
    with Cons.prems(1) b show ?thesis by (fastforce simp: descending_def)
  qed
  with Cons.IH [OF _ tail] Cons.prems(1) show ?case by simp
qed simp

lemma sorted_desc_by:
  assumes "sorted_wrt R es"
  shows "sorted_wrt (descending f R) (desc_by f es)"
proof (rule sorted_descending)
  have "sorted (map f (sort_key f (rev es)))" by simp
  then have "sorted_wrt (\<lambda>a b. f a \<le> f b) (sort_key f (rev es))" by (simp add: sorted_map)
  then show "sorted_wrt (\<lambda>a b. f b \<le> f a) (desc_by f es)" by (simp add: desc_by_def sorted_wrt_rev)
  show "sorted_wrt R (filter (\<lambda>z. f z = k) (desc_by f es))" for k
  proof -
    have "filter (\<lambda>z. f z = k) (desc_by f es) = filter (\<lambda>z. f z = k) es"
      by (simp add: desc_by_def rev_filter [symmetric] sort_key_stable)
    with assms show ?thesis by (simp add: sorted_wrt_filter)
  qed
qed

text \<open>The order a query asks for: the columns in their order, the first that differs decides.\<close>

definition host_order :: "entry \<Rightarrow> entry \<Rightarrow> bool" where
  "host_order a b \<longleftrightarrow> en_host a \<le> en_host b"

definition listed_before :: "string \<Rightarrow> entry \<Rightarrow> entry \<Rightarrow> bool" where
  "listed_before order =
     (if order = ''recent'' then descending en_verified_at (descending evidence_text host_order)
      else if order = ''reliable'' then
        descending evidence_rank (descending reliability_text (descending en_verified_at host_order))
      else if order = ''new'' then descending en_first_seen host_order
      else descending evidence_text (descending en_verified_at host_order))"

lemma ordered_entries: "sorted_wrt (listed_before order) (order_entries order es)"
proof -
  have "sorted_wrt host_order (sort_key en_host es)"
    using sorted_sort_key [of en_host es] by (simp add: sorted_map host_order_def [abs_def])
  then show ?thesis by (simp add: order_entries_def listed_before_def Let_def sorted_desc_by)
qed

definition matches_query :: "directory_query \<Rightarrow> entry \<Rightarrow> bool" where
  "matches_query q e \<longleftrightarrow> matches_search (take 100 (trim (or_default [] (dq_search q)))) e \<and>
     matches_category (normalize_category (dq_category q)) e"


text \<open>Ten pieces of evidence rank below nine.\<close>

lemma evidence_is_compared_as_text:
  assumes "en_evidence a = 9" "en_evidence b = 10"
  shows "listed_before ''evidence'' a b \<and> \<not> listed_before ''evidence'' b a"
proof -
  have "show_nat 10 < show_nat 9" "\<not> show_nat 9 < show_nat 10" "show_nat 10 \<noteq> show_nat 9" by code_simp+
  then show ?thesis using assms by (simp add: listed_before_def descending_def evidence_text_def)
qed

section \<open>Curation\<close>

text \<open>A decision on a listing changes the fields it names, of the candidate it names.\<close>

lemma curation_changes_only_what_is_named:
  assumes "set_listing_curation fresh u now g = Inr ((), g')"
  defines "i \<equiv> uuid_text (cu_candidate u)"
  shows "cg_dir g' = cg_dir g \<and> cg_metrics g' = cg_metrics g \<and> cg_activity g' = cg_activity g \<and> cg_hub g' = cg_hub g \<and>
    {p \<in> set (cg_profiles g'). pf_candidate p \<noteq> i} = {p \<in> set (cg_profiles g). pf_candidate p \<noteq> i} \<and>
    (\<forall>p' \<in> set (cg_profiles g'). pf_candidate p' = i \<longrightarrow> pf_curated_at p' = Some now \<and>
       (\<exists>p. (p \<in> set (cg_profiles g) \<or> p = bare_profile fresh i now (trim (cu_by u))) \<and>
          pf_visibility p' = pf_visibility p \<and> pf_claim p' = pf_claim p \<and> pf_slug p' = pf_slug p \<and>
          (cu_focus u = None \<longrightarrow> pf_focus p' = pf_focus p \<and> pf_focus_source p' = pf_focus_source p) \<and>
          (\<forall>f. cu_focus u = Some f \<longrightarrow> pf_focus p' = f \<and> opt_check is_focus_slug f) \<and>
          (cu_override u = None \<longrightarrow> pf_override p' = pf_override p)))"
proof -
  obtain name where name: "normalize_display_name_override (or_default None (cu_override u)) = Inr name"
    using assms(1) by (auto simp: set_listing_curation_def Let_def split: sum.splits if_splits)
  let ?f = "\<lambda>p. (curate_profile u (or_default None (cu_focus u)) name p)\<lparr>pf_curated_at := Some now, pf_curated_by := Some (trim (cu_by u))\<rparr>"
  let ?bare = "bare_profile fresh i now (trim (cu_by u))"
  let ?new = "curate_profile u (or_default None (cu_focus u)) name ?bare"
  have g': "g' = upsert_profile ?new ?f g" and focus: "opt_check is_focus_slug (or_default None (cu_focus u))"
    using assms(1) name by (auto simp: set_listing_curation_def i_def Let_def split: if_splits)
  have cols: "pf_candidate (curate_profile u f n p) = pf_candidate p" "pf_visibility (curate_profile u f n p) = pf_visibility p"
    "pf_claim (curate_profile u f n p) = pf_claim p" "pf_slug (curate_profile u f n p) = pf_slug p"
    "pf_curated_at (curate_profile u f n p) = pf_curated_at p"
    "pf_focus (curate_profile u f n p) = (if cu_focus u = None then pf_focus p else f)"
    "cu_focus u = None \<Longrightarrow> pf_focus_source (curate_profile u f n p) = pf_focus_source p"
    "cu_override u = None \<Longrightarrow> pf_override (curate_profile u f n p) = pf_override p" for f n p
    by (simp_all add: curate_profile_def Let_def)
  have bare: "pf_candidate ?bare = i" "pf_curated_at ?bare = Some now" by (simp_all add: bare_profile_def)
  have same: "cg_dir g' = cg_dir g \<and> cg_metrics g' = cg_metrics g \<and> cg_activity g' = cg_activity g \<and> cg_hub g' = cg_hub g"
    by (simp add: g' upsert_profile_def)
  have rows: "cg_profiles g' = (if has_row (\<lambda>p. pf_candidate p = i) (cg_profiles g)
      then update_where (\<lambda>p. pf_candidate p = i) ?f (cg_profiles g) else cg_profiles g @ [?new])"
    by (simp add: g' upsert_profile_def cols bare)
  have others: "{p \<in> set (cg_profiles g'). pf_candidate p \<noteq> i} = {p \<in> set (cg_profiles g). pf_candidate p \<noteq> i}"
    using bare by (auto simp: rows set_update_where cols)
  have mine: "p' = ?new \<or> (\<exists>p \<in> set (cg_profiles g). p' = ?f p)" if "p' \<in> set (cg_profiles g')" "pf_candidate p' = i" for p'
    using that by (auto simp: rows set_update_where cols has_row_iff split: if_splits)
  have "pf_curated_at p' = Some now \<and> (\<exists>p. (p \<in> set (cg_profiles g) \<or> p = ?bare) \<and>
          pf_visibility p' = pf_visibility p \<and> pf_claim p' = pf_claim p \<and> pf_slug p' = pf_slug p \<and>
          (cu_focus u = None \<longrightarrow> pf_focus p' = pf_focus p \<and> pf_focus_source p' = pf_focus_source p) \<and>
          (\<forall>f. cu_focus u = Some f \<longrightarrow> pf_focus p' = f \<and> opt_check is_focus_slug f) \<and>
          (cu_override u = None \<longrightarrow> pf_override p' = pf_override p))"
    if "p' \<in> set (cg_profiles g')" "pf_candidate p' = i" for p'
    using mine [OF that]
  proof (elim disjE bexE)
    assume "p' = ?new"
    then show ?thesis using focus bare(2) by (intro conjI exI [of _ ?bare]) (auto simp: cols or_default_def)
  next
    fix p assume "p \<in> set (cg_profiles g)" "p' = ?f p"
    then show ?thesis using focus by (intro conjI exI [of _ p]) (auto simp: cols or_default_def)
  qed
  with same others show ?thesis by blast
qed

end
