(* ===== verification/Public_Witnesses.thy ===== *)
theory Public_Witnesses
  imports Directory_Witnesses Public_Properties
begin

text \<open>The listing of one verified relay, before and after its suppression.\<close>

definition nest_id :: uuid where
  "nest_id = ''0f8fad5b-d9cb-469f-a165-70867728950e''"

definition nest_directory :: directory where
  "nest_directory = after_query (record_probe_result no_bytes bytes_hash nest_id (Probe_ok ''wss://nest.buzz'' nest_probe) 9)
     (after_query (upsert_candidate sample_web plain_hash nest_id nest_relay nest_report 5) empty_directory)"

definition nest_catalog :: catalog where
  "nest_catalog = \<lparr>cg_dir = nest_directory, cg_profiles = [], cg_metrics = [], cg_activity = [],
     cg_hub = \<lparr>candidates = [], communities = [], connections = [], tokens = [], channels = [], endpoints = [],
       messages = [], deliveries = [], mappings = [], notices = [], receipts = [], hints = [], jobs = []\<rparr>\<rparr>"

definition hidden_catalog :: catalog where
  "hidden_catalog = (case set_candidate_suppressed ''p1'' nest_id True '' ops '' 12 nest_catalog of
     Inl _ \<Rightarrow> nest_catalog | Inr (_, g) \<Rightarrow> g)"

definition nest_listing :: "entry list" where
  "nest_listing = (case list_directory_communities 20 nest_catalog whole_directory of Inl _ \<Rightarrow> [] | Inr es \<Rightarrow> es)"

lemma nest_listed: "map en_id nest_listing = [nest_id]" "map en_name nest_listing = [''Nest'']"
  by code_simp+

lemma nest_run: "list_directory_communities 20 nest_catalog whole_directory = Inr nest_listing"
  by (simp add: nest_listing_def list_directory_communities_def whole_directory_def or_default_def directory_sorts_def
      text_ok_def trim_def trim_start_def trim_end_def Let_def)



theorem suppressed_community_is_not_listed_witness:
  "en_id ` set nest_listing = {nest_id} \<and>
   (\<exists>es. list_directory_communities 30 hidden_catalog whole_directory = Inr es \<and> nest_id \<notin> en_id ` set es)"
proof -
  have run: "set_candidate_suppressed ''p1'' nest_id True '' ops '' 12 nest_catalog = Inr ((), hidden_catalog)"
    by code_simp
  have id: "uuid_text nest_id = nest_id" by code_simp
  have known: "candidate_by_id (uuid_text nest_id) (cg_dir nest_catalog) \<noteq> None" by code_simp
  have queries: "upsert_candidate sample_web plain_hash nest_id nest_relay nest_report 5 empty_directory =
      Inr ((nest_id, ''wss://nest.buzz'', Discovered),
        after_query (upsert_candidate sample_web plain_hash nest_id nest_relay nest_report 5) empty_directory)"
    "record_probe_result no_bytes bytes_hash nest_id (Probe_ok ''wss://nest.buzz'' nest_probe) 9
       (after_query (upsert_candidate sample_web plain_hash nest_id nest_relay nest_report 5) empty_directory) =
      Inr ((), nest_directory)"
    by code_simp+
  have ok: "directory_ok (cg_dir nest_catalog)"
    using keepsD [OF record_probe_result_ok keepsD [OF upsert_candidate_ok empty_directory_ok queries(1)] queries(2)]
    by (simp add: nest_catalog_def)
  obtain es where es: "list_directory_communities 30 hidden_catalog whole_directory = Inr es"
    by (simp add: list_directory_communities_def whole_directory_def or_default_def directory_sorts_def
        text_ok_def trim_def trim_start_def trim_end_def Let_def)
  have "en_id ` set nest_listing = {nest_id}" using arg_cong [OF nest_listed(1), of set] by simp
  with suppressed_community_is_not_listed [OF ok known run rtranclp.rtrancl_refl es] es show ?thesis
    unfolding id by blast
qed

end
