(* ===== verification/Spec2Isabelle.thy ===== *)
theory Spec2Isabelle
  imports Store_Witnesses Connector_Witnesses Delivery_Witnesses Rate_Limit Discovery_Witnesses
    Installer_Witnesses Join_Properties Nostr_Auth Peer_Witnesses Intake_Witnesses
    Ranking_Witnesses Source_Witnesses Harvest_Properties Link_Properties X_Properties
    Public_Witnesses
begin

text \<open>
  BuzzRouter: a directory of Buzz relays (Nostr relays that host one community
  each) and a router of messages between the communities that joined its hub.

  \<^bold>\<open>The parts and how they meet.\<close>  A community is a verified relay.  Its owner pastes an
  invite link; the \<^emph>\<open>installer\<close> redeems it with a fresh bridge key, proves the admission
  by a round trip and activates the community's \<^emph>\<open>connection\<close>.  The owner joins the
  \<^emph>\<open>hub\<close>: an endpoint binds one local channel (the inbox) and later one direct channel
  per peer.  The \<^emph>\<open>connector\<close> holds a session per active connection, reads the channels of
  its routes, turns an addressed message into a row of the \<^emph>\<open>store\<close> with one delivery per
  destination, and a worker publishes each delivery at its destination as a signed
  \<^emph>\<open>projection\<close>.  \<^emph>\<open>Discovery\<close> normalises candidate URLs, probes them over public addresses
  only and decides what may be listed.  The \<^emph>\<open>directory\<close> stores candidates, what sources say of
  them and what probes found; its jobs probe due candidates, keep the advertised invites
  working, check whether they still admit anyone and join communities as an agent.
  \<^emph>\<open>Rate limits\<close> guard the public endpoints.

  \<^bold>\<open>Theories and code\<close> (under src/src unless said otherwise).
  \<^item> Prelude: JavaScript strings, errors, transactions as functions \<open>db \<Rightarrow> error + value \<times> db\<close>,
    tables as lists of rows.  Guards: \<open>withTransaction\<close> and the argument checks.
  \<^item> Database: the rows, check constraints and unique indexes of src/migrations that
    shared-channels/store.ts relies on; \<open>schema_ok\<close> says they hold.
  \<^item> Routing, Delivery, Claims, Communities, Hub, Hub_Properties, Connections:
    shared-channels/store.ts, one definition per exported function, in its order.
  \<^item> Addressing: addressing.ts and commands.ts.  Bridge: bridge.ts.  Handoff: channel-handoff.ts.
  \<^item> Effects, World: code outside one transaction (each query commits by itself, a relay
    keeps what it was sent), over an environment of arbitrary answers.
  \<^item> Supervisor, Reconnect, Listener: connector.ts (deliveries; sessions and the members of
    the operated community; source events and slash commands).  Listener_Properties,
    Reconnect_Properties, Delivery_Path: what they promise together with the store.
  \<^item> Installer, Installer_Properties: installer.ts and owner-session.ts.
  \<^item> Relay_Url, Relay_Info, Relay_Probe: discovery/normalize.ts, network-policy.ts, nip11.ts,
    classifier.ts, listing-eligibility.ts, probe.ts.  Rate_Limit: http/rate-limit.ts.
  \<^item> Join_Claim, Join_Properties: presence/claim.ts, policy.ts, directory/joinability.ts.
    Nostr_Auth: http/nostr-auth.ts.
  \<^item> Relay_Icons: the icons of nip11.ts and image-types.ts.  Directory_Store: db/candidates.ts with
    source-locator.ts, invite-code-format.ts, focus.ts, categories.ts.  Directory_Invites:
    db/join-probes.ts, presence.ts, submission-validations.ts and the listing conditions of
    directory.ts.  Directory_Invariants, Directory_Properties, Directory_Intake: these queries as a
    state machine (\<open>directory_step\<close>).
  \<^item> Public_Directory, Public_Properties: db/directory.ts and db/curation.ts, over the directory,
    the metrics and the hub.
  \<^item> Directory_Jobs, Directory_Passes: the jobs over them (ingest, probe-candidate,
    schedule-due-probes, refresh-invites; probe-joinability, validate-submissions,
    auto-join-communities).  Directory_Job_Rules, Refresh_Properties, Submission_Properties,
    Joinability_Properties: what the passes promise.
  \<^item> Submission_Intake, Intake_Properties: src/app/api/submissions/route.ts and
    submissions/validation.ts, over the jobs of the worker.
  \<^item> Nostr_Sources, Source_Properties: sources/nip66.ts, nip65.ts, errors.ts and db/source-state.ts,
    over the ingestion of Directory_Jobs.  Ranking, Ranking_Properties: ranking/reliability.ts
    and explain.ts.
  \<^item> Invite_Links: presence/extract-invites.ts and llm-extract-invites.ts.  Invite_Harvest:
    jobs/harvest-invites.ts and harvest-x-invites.ts.  Harvest_Properties, Link_Properties,
    X_Properties: what they promise.
  \<^item> Peer_Channels: jobs/provision-peer-channels.ts, over Hub and Handoff.
  \<^item> Samples, Connector_Samples and the theories named Witnesses: a small concrete hub, and
    every property with hypotheses applied to it.

  \<^bold>\<open>What the lemmas show.\<close>  The store: every operation keeps \<open>schema_ok\<close> (the collection
  \<open>keeps_intros\<close>); a message reaches a community at most once; the delivery rows refine a
  small state machine (\<open>row_step\<close>); tokens, notices, receipts and hints are used once
  (locale \<open>claim_table\<close> and its interpretations).  The connector: \<open>leads P m I Q\<close> says that
  from \<open>P\<close> the effect \<open>m\<close> ends in \<open>I\<close>, and in \<open>Q\<close> when it returns, whatever the environment
  answers; with it the handoff's order of events, the uniqueness of stored messages, the
  retries of one signed event, the outcome of an attempt when everything answers and when
  nothing does, and the sessions a pass leaves.  The installer: where claims go, what a
  rejection leaves, what an activation proves.  Discovery: names, public addresses,
  listing.  The directory: the constraints of the tables (\<open>directory_ok\<close>), what a verified
  candidate was probed for, the finality of a suppression, what the public listing shows and in
  which order, the lease of a due candidate, what
  any source may report; the jobs, by \<open>leads\<close> over assertions on the directory and the logs of
  what relays answered: which invites are replaced, which submissions become valid, which
  verdicts a pass leaves.  The form: what an answer says of the worker's verdict, what a refused
  request leaves, that a complete one is stored.  The sources: the pages of a relay that answers
  as NIP-01 says hold all events of their window (\<open>newest_answer\<close>), so nothing trusted is left
  behind the cursor.  The harvest: what it may add (\<open>only_adds\<close>), that a posted link is found, that
  the cursor over public posts never goes back.  Ranking: the scores computed in SQL are those of \<open>scoreReliability\<close>.  Peer channels: what survives a handoff (locale
  \<open>kept_by_handoffs\<close>), hence that every endpoint a pass adds has a confirmed owner.  Rate limits: every window, by the locale \<open>sliding_limiter\<close>, interpreted for both
  limiters.

  \<^bold>\<open>Bounds and recursion.\<close>  All loops are total functions.  \<open>confirm_stored\<close> polls until a
  deadline of three seconds, with the distance to it as its measure (each lookup takes at
  least a millisecond or the loop's own pause); \<open>poll_validation\<close> polls for eight seconds and
  sleeps half a second at least.  \<open>assign_slug\<close> is given the 50 attempts
  the code's loop has; \<open>query_pages\<close> the 20 pages and \<open>query_attempts\<close> the three attempts of
  nip66.ts, \<open>read_x_pages\<close> the three pages of harvest-x-invites.ts.  \<open>collect_names\<close> reads profiles in batches of eight within four
  seconds.  An HTTP exchange is the list of its events before the total timer of five
  seconds, so a list that ends unsettled is a timeout.

  \<^bold>\<open>Parameters.\<close>  nostr-tools (signing, verification, keys), \<open>node:crypto\<close> (SHA-256, AES-GCM,
  random bytes), pg-boss, ipaddr.js, the WHATWG URL parser, \<open>decodeURIComponent\<close> and the
  environment variables are arguments; the few documented facts a property needs are
  named: \<open>honest_relays\<close>, \<open>pages_name_ids\<close>, \<open>carries_template\<close>, \<open>authenticated\<close>, \<open>url_standard\<close>, \<open>queries_ok\<close>, \<open>cooperative\<close>.

  \<^bold>\<open>Abstractions.\<close>  A character is a UTF-16 code unit below 256, and a typographic dash in a
  notice is written as its three UTF-8 bytes.  Foreign keys and the columns created_at
  and updated_at that nothing reads are left out; ORDER BY on text is the order of code
  units.  The scores of the ranking are real numbers with both roundings written out.  Time is a clock of milliseconds (microseconds in the database) that only relay
  lookups advance.  A process that dies is an environment that fails from then on.
  Events of one process are handled one after another; two processes meet in the
  database, where every statement is atomic.

  \<^bold>\<open>Not modelled.\<close>  The WebSocket class of the connector, its timers and the key file (I/O
  behind the interfaces that are parameters); pages, route handlers and queues (glue);
  the crawlers of third-party HTTP services (github.ts, buzzdir.ts, x-search.ts), the relay
  pool of nostr-client.ts, presence summaries; the vendored scripts
  under .agents.
\<close>

end
